(* ===== verification/Prelude.thy ===== *)
theory Prelude
  imports Main "HOL-Library.Word" "HOL-Library.AList" "HOL-Library.Multiset"
begin

text \<open>
  Shared vocabulary of the development: the machine integer types of the Go code, Go maps
  as association lists, and Go's \<open>sort.Slice\<close> / \<open>sort.SliceStable\<close>.

  Go maps iterate in an unspecified order. A map is modelled by an association list whose
  order is the iteration order; every theorem quantifies over the list, hence over every
  order, and results that sort what they iterated over come with a lemma that they do not
  depend on it (locale \<open>sort_less\<close>, lemma \<open>sort_by_unique\<close>).
\<close>

section \<open>Machine integers and collections of facts\<close>

type_synonym i64 = "64 word"
type_synonym u64 = "64 word"
type_synonym u32 = "32 word"

named_theorems frame_simps \<open>what an operation leaves unchanged\<close>
named_theorems wf_intros \<open>preservation of well-formedness invariants\<close>

text \<open>Two's complement wrap-around of an \<open>int64\<close> result (durations are \<open>int64\<close>).\<close>

definition wrap64 :: "int \<Rightarrow> int" where
  "wrap64 x = (x + 2 ^ 63) mod 2 ^ 64 - 2 ^ 63"

lemma wrap64_id: "- (2 ^ 63) \<le> x \<Longrightarrow> x < 2 ^ 63 \<Longrightarrow> wrap64 x = x"
  by (simp add: wrap64_def mod_pos_pos_trivial)

lemma wrap64_range: "- (2 ^ 63) \<le> wrap64 x \<and> wrap64 x < 2 ^ 63"
  by (simp add: wrap64_def pos_mod_bound [of "2 ^ 64"] add.commute less_diff_eq)

section \<open>Go maps\<close>

type_synonym ('k, 'v) gomap = "('k \<times> 'v) list"

abbreviation mget :: "('k, 'v) gomap \<Rightarrow> 'k \<Rightarrow> 'v option" where
  "mget \<equiv> map_of"

abbreviation mput :: "'k \<Rightarrow> 'v \<Rightarrow> ('k, 'v) gomap \<Rightarrow> ('k, 'v) gomap" where
  "mput \<equiv> AList.update"

abbreviation mdel :: "'k \<Rightarrow> ('k, 'v) gomap \<Rightarrow> ('k, 'v) gomap" where
  "mdel \<equiv> AList.delete"

text \<open>\<open>for k := range m { if p(k) { delete(m, k) } }\<close>\<close>

definition mdel_if :: "('k \<Rightarrow> bool) \<Rightarrow> ('k, 'v) gomap \<Rightarrow> ('k, 'v) gomap" where
  "mdel_if p m = filter (\<lambda>(k, v). \<not> p k) m"

definition mvals_if :: "('k \<Rightarrow> bool) \<Rightarrow> ('k, 'v) gomap \<Rightarrow> 'v list" where
  "mvals_if p m = map snd (filter (\<lambda>(k, v). p k) m)"

definition wf_map :: "('k, 'v) gomap \<Rightarrow> bool" where
  "wf_map m \<longleftrightarrow> distinct (map fst m)"

lemma mget_mput [simp]: "mget (mput k v m) k' = (if k' = k then Some v else mget m k')"
  by (simp add: update_conv)

lemma mget_mdel [simp]: "mget (mdel k m) k' = (if k' = k then None else mget m k')"
  by (simp add: delete_conv')

lemma mget_mdel_if [simp]: "mget (mdel_if p m) k = (if p k then None else mget m k)"
  by (induction m) (auto simp: mdel_if_def)

lemma mdel_if_Nil [simp]: "mdel_if p [] = []"
  by (simp add: mdel_if_def)

lemma wf_map_Nil [simp, wf_intros]: "wf_map []"
  by (simp add: wf_map_def)

lemma wf_map_mput [simp, wf_intros]: "wf_map m \<Longrightarrow> wf_map (mput k v m)"
  by (simp add: wf_map_def distinct_update)

lemma wf_map_mdel [simp, wf_intros]: "wf_map m \<Longrightarrow> wf_map (mdel k m)"
  by (simp add: wf_map_def distinct_delete)

lemma wf_map_mdel_if [simp, wf_intros]: "wf_map m \<Longrightarrow> wf_map (mdel_if p m)"
  unfolding wf_map_def mdel_if_def
  by (induction m) (auto simp: image_iff)

lemma wf_map_get_iff: "wf_map m \<Longrightarrow> mget m k = Some v \<longleftrightarrow> (k, v) \<in> set m"
  by (simp add: wf_map_def)

lemma mget_perm:
  assumes "wf_map m" and "mset m = mset m'"
  shows "mget m = mget m'"
proof -
  have "mset (map fst m) = mset (map fst m')" using assms(2) by (metis mset_map)
  then have "distinct (map fst m')"
    using assms(1) by (metis wf_map_def mset_eq_imp_distinct_iff)
  then show ?thesis
    using assms by (metis wf_map_def map_of_inject_set mset_eq_setD)
qed

lemma mvals_if_iff:
  assumes "wf_map m"
  shows "v \<in> set (mvals_if p m) \<longleftrightarrow> (\<exists>k. p k \<and> mget m k = Some v)"
  using assms by (force simp: mvals_if_def wf_map_get_iff)

lemma mset_mvals_if: "mset (mvals_if p m) = image_mset snd (filter_mset (\<lambda>(k, v). p k) (mset m))"
  by (simp add: mvals_if_def)

section \<open>Sorting with a comparison function\<close>

fun insert_by :: "('a \<Rightarrow> 'a \<Rightarrow> bool) \<Rightarrow> 'a \<Rightarrow> 'a list \<Rightarrow> 'a list" where
  "insert_by lt x [] = [x]"
| "insert_by lt x (y # ys) = (if lt y x then y # insert_by lt x ys else x # y # ys)"

text \<open>
  \<open>sort_by lt\<close> sorts stably. Go promises stability for \<open>sort.SliceStable\<close> only; for
  \<open>sort.Slice\<close> the code always passes a comparison that orders any two distinct elements,
  and then every sorting function gives the same list (\<open>sort_by_unique\<close>).
\<close>

definition sort_by :: "('a \<Rightarrow> 'a \<Rightarrow> bool) \<Rightarrow> 'a list \<Rightarrow> 'a list" where
  "sort_by lt xs = foldr (insert_by lt) xs []"

lemma sort_by_simps [simp]:
  "sort_by lt [] = []"
  "sort_by lt (x # xs) = insert_by lt x (sort_by lt xs)"
  by (simp_all add: sort_by_def)

lemma mset_insert_by [simp]: "mset (insert_by lt x xs) = add_mset x (mset xs)"
  by (induction xs) auto

lemma mset_sort_by [simp]: "mset (sort_by lt xs) = mset xs"
  by (induction xs) auto

lemma set_sort_by [simp]: "set (sort_by lt xs) = set xs"
  by (metis mset_sort_by set_mset_mset)

lemma length_sort_by [simp]: "length (sort_by lt xs) = length xs"
  by (metis mset_sort_by size_mset)

lemma distinct_sort_by [simp]: "distinct (sort_by lt xs) = distinct xs"
  by (metis mset_eq_imp_distinct_iff mset_sort_by)

text \<open>The contract \<open>sort.Slice\<close> asks of its comparison: a strict weak order.\<close>

locale sort_less =
  fixes lt :: "'a \<Rightarrow> 'a \<Rightarrow> bool"
  assumes less_asym: "lt x y \<Longrightarrow> \<not> lt y x"
    and less_trans: "lt x y \<Longrightarrow> lt y z \<Longrightarrow> lt x z"
    and incomp_trans: "\<not> lt x y \<Longrightarrow> \<not> lt y z \<Longrightarrow> \<not> lt x z"
begin

lemma less_irrefl: "\<not> lt x x"
  using less_asym by blast

lemma sorted_insert_by:
  "sorted_wrt (\<lambda>a b. \<not> lt b a) xs \<Longrightarrow> sorted_wrt (\<lambda>a b. \<not> lt b a) (insert_by lt x xs)"
proof (induction xs)
  case Nil
  show ?case by simp
next
  case (Cons y ys)
  have set_ins: "set (insert_by lt x ys) = insert x (set ys)"
    by (metis mset_insert_by set_mset_add_mset_insert set_mset_mset)
  show ?case
  proof (cases "lt y x")
    case True
    with Cons show ?thesis by (auto simp: set_ins dest: less_asym)
  next
    case False
    with Cons.prems show ?thesis using incomp_trans [of _ y x] by auto
  qed
qed

lemma sorted_sort_by: "sorted_wrt (\<lambda>a b. \<not> lt b a) (sort_by lt xs)"
  by (induction xs) (auto intro: sorted_insert_by)

text \<open>Two sorted permutations are equal when distinct elements are always ordered.\<close>

lemma sorted_unique:
  assumes "sorted_wrt (\<lambda>a b. \<not> lt b a) xs" and "sorted_wrt (\<lambda>a b. \<not> lt b a) ys"
    and "mset xs = mset ys"
    and "\<And>a b. a \<in> set xs \<Longrightarrow> b \<in> set xs \<Longrightarrow> \<not> lt a b \<Longrightarrow> \<not> lt b a \<Longrightarrow> a = b"
  shows "xs = ys"
  using assms
proof (induction xs arbitrary: ys)
  case Nil
  then show ?case by simp
next
  case (Cons x xs)
  from Cons.prems(3) obtain y ys' where ys: "ys = y # ys'" by (cases ys) auto
  have sets: "set (x # xs) = set ys" using Cons.prems(3) by (metis set_mset_mset)
  have "x = y"
  proof (rule ccontr)
    assume "x \<noteq> y"
    then have "y \<in> set xs" "x \<in> set ys'" using sets ys by auto
    with Cons.prems(1,2) ys have "\<not> lt y x" "\<not> lt x y" by auto
    with Cons.prems(4) \<open>y \<in> set xs\<close> have "x = y" by simp
    with \<open>x \<noteq> y\<close> show False by blast
  qed
  moreover have "xs = ys'"
    using Cons.prems ys \<open>x = y\<close> by (intro Cons.IH) auto
  ultimately show ?case using ys by simp
qed

lemma sort_by_unique:
  assumes "mset xs = mset ys"
    and "\<And>a b. a \<in> set xs \<Longrightarrow> b \<in> set xs \<Longrightarrow> \<not> lt a b \<Longrightarrow> \<not> lt b a \<Longrightarrow> a = b"
  shows "sort_by lt xs = sort_by lt ys"
  by (rule sorted_unique) (use assms in \<open>simp_all add: sorted_sort_by\<close>)

text \<open>Any list Go's unstable sort may return is the model's, under the same condition.\<close>

lemma sort_by_any:
  assumes "sorted_wrt (\<lambda>a b. \<not> lt b a) ys" and "mset ys = mset xs"
    and "\<And>a b. a \<in> set xs \<Longrightarrow> b \<in> set xs \<Longrightarrow> \<not> lt a b \<Longrightarrow> \<not> lt b a \<Longrightarrow> a = b"
  shows "ys = sort_by lt xs"
proof -
  have "set ys = set xs" using assms(2) by (metis set_mset_mset)
  then show ?thesis
    using assms by (intro sorted_unique) (simp_all add: sorted_sort_by)
qed

end

text \<open>
  Comparisons that try a first key and fall back to a second one, the shape of every
  comparison in the code: a lexicographic combination of two strict weak orders is one.
\<close>

definition lex_less :: "('a \<Rightarrow> 'a \<Rightarrow> bool) \<Rightarrow> ('a \<Rightarrow> 'a \<Rightarrow> bool) \<Rightarrow> 'a \<Rightarrow> 'a \<Rightarrow> bool" where
  "lex_less l1 l2 x y \<longleftrightarrow> l1 x y \<or> (\<not> l1 y x \<and> l2 x y)"

locale sort_less_lex = fst_key: sort_less l1 + snd_key: sort_less l2
  for l1 l2 :: "'a \<Rightarrow> 'a \<Rightarrow> bool"
begin

lemma lex_asym: "lex_less l1 l2 x y \<Longrightarrow> \<not> lex_less l1 l2 y x"
  using fst_key.less_asym snd_key.less_asym by (auto simp: lex_less_def)

lemma lex_trans:
  assumes "lex_less l1 l2 x y" and "lex_less l1 l2 y z"
  shows "lex_less l1 l2 x z"
proof -
  have "\<not> l1 z x" "\<not> l1 y x" "\<not> l1 z y"
    using assms fst_key.incomp_trans fst_key.less_asym unfolding lex_less_def by blast+
  show ?thesis
  proof (cases "l1 x z")
    case True
    then show ?thesis by (simp add: lex_less_def)
  next
    case False
    have "\<not> l1 x y" "\<not> l1 y z"
      using False \<open>\<not> l1 y x\<close> \<open>\<not> l1 z y\<close> fst_key.incomp_trans fst_key.less_trans
      by blast+
    with assms have "l2 x y" "l2 y z" by (auto simp: lex_less_def)
    then show ?thesis
      using \<open>\<not> l1 z x\<close> snd_key.less_trans by (auto simp: lex_less_def)
  qed
qed

lemma lex_incomp_trans:
  assumes "\<not> lex_less l1 l2 x y" and "\<not> lex_less l1 l2 y z"
  shows "\<not> lex_less l1 l2 x z"
proof
  assume xz: "lex_less l1 l2 x z"
  have n: "\<not> l1 x y" "\<not> l1 y z" using assms by (auto simp: lex_less_def)
  then have nxz: "\<not> l1 x z" by (rule fst_key.incomp_trans)
  with xz have "\<not> l1 z x" "l2 x z" by (auto simp: lex_less_def)
  have "\<not> l1 y x" using \<open>\<not> l1 y z\<close> \<open>\<not> l1 z x\<close> fst_key.incomp_trans by blast
  moreover have "\<not> l1 z y" using \<open>\<not> l1 z x\<close> \<open>\<not> l1 x y\<close> fst_key.incomp_trans by blast
  ultimately have "\<not> l2 x y" "\<not> l2 y z" using assms by (auto simp: lex_less_def)
  then have "\<not> l2 x z" by (rule snd_key.incomp_trans)
  with \<open>l2 x z\<close> show False by blast
qed

end

sublocale sort_less_lex \<subseteq> lex: sort_less "lex_less l1 l2"
  by unfold_locales (fact lex_asym, fact lex_trans, fact lex_incomp_trans)

text \<open>Comparing a key that is linearly ordered, upwards or downwards.\<close>

lemma sort_less_key_up: "sort_less (\<lambda>x y. (f x :: 'k :: linorder) < f y)"
  by unfold_locales auto

lemma sort_less_key_down: "sort_less (\<lambda>x y. (f y :: 'k :: linorder) < f x)"
  by unfold_locales auto

lemma sort_less_lexI:
  assumes "sort_less l1" and "sort_less l2"
  shows "sort_less (lex_less l1 l2)"
proof -
  from assms have "sort_less_lex l1 l2" by (rule sort_less_lex.intro)
  then show ?thesis
    by (intro sort_less.intro)
       (fact sort_less_lex.lex_asym, fact sort_less_lex.lex_trans,
        fact sort_less_lex.lex_incomp_trans)
qed

end
