(* ===== verification/GoText.thy ===== *)
theory GoText
  imports Prelude
begin

text \<open>
  The parts of Go's \<open>strings\<close>, \<open>strconv\<close> and \<open>fmt\<close> packages that the code uses, on Go
  strings, which are byte sequences: a \<open>char\<close> is a byte, and text beyond ASCII is its
  UTF-8 encoding. Every function computes; \<open>dec_val\<close>/\<open>dec\<close> and their round trip carry
  the codecs of the other theories.
\<close>

section \<open>Bytes\<close>

definition byte :: "char \<Rightarrow> nat" where
  "byte c = of_char c"

lemma byte_eq_iff [simp]: "byte c = byte d \<longleftrightarrow> c = d"
  by (simp add: byte_def)

lemma byte_less: "byte c < 256"
  by (simp add: byte_def)

definition is_digit :: "char \<Rightarrow> bool" where
  "is_digit c \<longleftrightarrow> 48 \<le> byte c \<and> byte c \<le> 57"

definition is_upper :: "char \<Rightarrow> bool" where
  "is_upper c \<longleftrightarrow> 65 \<le> byte c \<and> byte c \<le> 90"

definition is_lower :: "char \<Rightarrow> bool" where
  "is_lower c \<longleftrightarrow> 97 \<le> byte c \<and> byte c \<le> 122"

definition is_alpha :: "char \<Rightarrow> bool" where
  "is_alpha c \<longleftrightarrow> is_upper c \<or> is_lower c"

definition is_alnum :: "char \<Rightarrow> bool" where
  "is_alnum c \<longleftrightarrow> is_alpha c \<or> is_digit c"

section \<open>Decimal numbers\<close>

definition digit :: "nat \<Rightarrow> char" where
  "digit d = char_of (48 + d)"

lemma byte_digit [simp]: "d < 10 \<Longrightarrow> byte (digit d) = 48 + d"
  by (simp add: byte_def digit_def)

lemma is_digit_digit [simp]: "d < 10 \<Longrightarrow> is_digit (digit d)"
  by (simp add: is_digit_def)

fun dec :: "nat \<Rightarrow> string" where
  "dec n = (if n < 10 then [digit n] else dec (n div 10) @ [digit (n mod 10)])"

declare dec.simps [simp del]

definition dec_val :: "string \<Rightarrow> nat" where
  "dec_val s = foldl (\<lambda>a c. 10 * a + (byte c - 48)) 0 s"

lemma dec_val_snoc [simp]: "dec_val (s @ [c]) = 10 * dec_val s + (byte c - 48)"
  by (simp add: dec_val_def)

lemma dec_val_dec [simp]: "dec_val (dec n) = n"
proof (induction n rule: dec.induct)
  case (1 n)
  show ?case
  proof (cases "n < 10")
    case True
    then show ?thesis by (simp add: dec.simps [of n] dec_val_def)
  next
    case False
    with 1 show ?thesis by (simp add: dec.simps [of n])
  qed
qed

lemma dec_0 [simp]: "dec 0 = ''0''"
  by (simp add: dec.simps [of 0] digit_def flip: byte_eq_iff) (simp add: byte_def)

lemma dec_nonempty [simp]: "dec n \<noteq> []"
  by (subst dec.simps) simp

lemma dec_digits: "\<forall>c \<in> set (dec n). is_digit c"
proof (induction n rule: dec.induct)
  case (1 n)
  then show ?case by (subst dec.simps) auto
qed

lemma list_all_digit_dec [simp]: "list_all is_digit (dec n)"
  using dec_digits by (simp add: list_all_iff)

lemma dec_inject [simp]: "dec m = dec n \<longleftrightarrow> m = n"
  by (metis dec_val_dec)

text \<open>\<open>strconv.ParseUint(s, 10, bits)\<close> and \<open>strconv.ParseInt(s, 10, bits)\<close>; \<open>None\<close> is an error.\<close>

definition ParseUint :: "nat \<Rightarrow> string \<Rightarrow> nat option" where
  "ParseUint bits s =
     (if s = [] \<or> \<not> list_all is_digit s then None
      else if dec_val s < 2 ^ bits then Some (dec_val s) else None)"

definition ParseInt :: "nat \<Rightarrow> string \<Rightarrow> int option" where
  "ParseInt bits s =
     (case s of
        [] \<Rightarrow> None
      | c # r \<Rightarrow>
          let neg = (c = CHR ''-''); ds = (if neg \<or> c = CHR ''+'' then r else s)
          in if ds = [] \<or> \<not> list_all is_digit ds then None
             else if neg then (if dec_val ds \<le> 2 ^ (bits - 1) then Some (- int (dec_val ds)) else None)
             else (if dec_val ds < 2 ^ (bits - 1) then Some (int (dec_val ds)) else None))"

text \<open>\<open>strconv.Atoi\<close>: \<open>int\<close> is 64 bits wide on the platforms the bot runs on.\<close>

definition Atoi :: "string \<Rightarrow> int option" where
  "Atoi s = ParseInt 64 s"

text \<open>\<open>strconv.Itoa\<close>, \<open>strconv.FormatInt(_, 10)\<close> and the verb \<open>%d\<close>.\<close>

definition Itoa :: "int \<Rightarrow> string" where
  "Itoa i = (if i < 0 then CHR ''-'' # dec (nat (- i)) else dec (nat i))"

definition fmt_i64 :: "i64 \<Rightarrow> string" where
  "fmt_i64 w = Itoa (sint w)"

definition fmt_u64 :: "u64 \<Rightarrow> string" where
  "fmt_u64 w = dec (unat w)"

lemma ParseUint_dec [simp]: "n < 2 ^ bits \<Longrightarrow> ParseUint bits (dec n) = Some n"
  by (simp add: ParseUint_def)

lemma hd_dec_digit: "dec n = c # r \<Longrightarrow> is_digit c"
  using dec_digits [of n] by simp

lemma is_digit_not_sign: "is_digit c \<Longrightarrow> c \<noteq> CHR ''-'' \<and> c \<noteq> CHR ''+''"
  by (auto simp: is_digit_def byte_def)

lemma ParseInt_dec: "n < 2 ^ (bits - 1) \<Longrightarrow> ParseInt bits (dec n) = Some (int n)"
proof -
  assume n: "n < 2 ^ (bits - 1)"
  obtain c r where cr: "dec n = c # r" by (cases "dec n") auto
  then have "c \<noteq> CHR ''-''" "c \<noteq> CHR ''+''" using hd_dec_digit is_digit_not_sign by blast+
  moreover have "list_all is_digit (c # r)" "dec_val (c # r) = n" by (simp_all flip: cr)
  ultimately show ?thesis using n by (simp add: ParseInt_def cr)
qed

lemma ParseInt_Itoa:
  assumes "- (2 ^ (bits - 1)) \<le> i" and "i < 2 ^ (bits - 1)"
  shows "ParseInt bits (Itoa i) = Some i"
proof (cases "i < 0")
  case True
  have "nat (- i) \<le> 2 ^ (bits - 1)" using assms(1) by (simp add: nat_le_iff)
  with True show ?thesis by (simp add: ParseInt_def Itoa_def)
next
  case False
  have "nat i < 2 ^ (bits - 1)" using assms(2) False by (simp add: nat_less_iff)
  with False show ?thesis by (simp add: ParseInt_dec Itoa_def)
qed

lemma ParseInt_fmt_i64: "map_option word_of_int (ParseInt 64 (fmt_i64 w)) = Some w"
proof -
  have "- (2 ^ (64 - 1)) \<le> sint w" "sint w < 2 ^ (64 - 1)"
    using sint_ge [of w] sint_lt [of w] by simp_all
  then have "ParseInt 64 (fmt_i64 w) = Some (sint w)"
    unfolding fmt_i64_def by (rule ParseInt_Itoa)
  then show ?thesis by simp
qed

lemma ParseUint_fmt_u64: "map_option word_of_nat (ParseUint 64 (fmt_u64 w)) = Some w"
proof -
  have "unat w < 2 ^ 64" using unsigned_less [of w] by simp
  then show ?thesis by (simp add: fmt_u64_def)
qed

text \<open>Which bytes a printed number can hold: what the splitters below look for is not among them.\<close>

lemma Itoa_chars: "c \<in> set (Itoa i) \<Longrightarrow> is_digit c \<or> c = CHR ''-''"
  using dec_digits by (auto simp: Itoa_def split: if_splits)

lemma fmt_i64_chars: "c \<in> set (fmt_i64 w) \<Longrightarrow> is_digit c \<or> c = CHR ''-''"
  by (simp add: fmt_i64_def Itoa_chars)

section \<open>Package strings\<close>

definition HasPrefix :: "string \<Rightarrow> string \<Rightarrow> bool" where
  "HasPrefix s p \<longleftrightarrow> take (length p) s = p"

definition TrimPrefix :: "string \<Rightarrow> string \<Rightarrow> string" where
  "TrimPrefix s p = (if HasPrefix s p then drop (length p) s else s)"

lemma HasPrefix_append [simp]: "HasPrefix (p @ s) p"
  by (simp add: HasPrefix_def)

lemma TrimPrefix_append [simp]: "TrimPrefix (p @ s) p = s"
  by (simp add: TrimPrefix_def)

lemma HasPrefix_iff: "HasPrefix s p \<longleftrightarrow> (\<exists>r. s = p @ r)"
  unfolding HasPrefix_def by (metis append_eq_conv_conj append_take_drop_id)

text \<open>\<open>strings.IndexByte\<close>: the first position of a byte, \<open>None\<close> for Go's \<open>-1\<close>.\<close>

fun IndexByte :: "string \<Rightarrow> char \<Rightarrow> nat option" where
  "IndexByte [] c = None"
| "IndexByte (x # xs) c = (if x = c then Some 0 else map_option Suc (IndexByte xs c))"

text \<open>\<open>strings.Contains\<close>: a substring at any position.\<close>

fun Contains :: "string \<Rightarrow> string \<Rightarrow> bool" where
  "Contains [] p = (p = [])"
| "Contains (c # s) p = (HasPrefix (c # s) p \<or> Contains s p)"

lemma Contains_iff: "Contains s p \<longleftrightarrow> (\<exists>a b. s = a @ p @ b)"
proof (induction s)
  case Nil
  show ?case by simp
next
  case (Cons c s)
  have "(\<exists>a b. c # s = a @ p @ b) \<longleftrightarrow> (\<exists>b. c # s = p @ b) \<or> (\<exists>a b. s = a @ p @ b)"
    by (metis append_Cons append_Nil append_eq_Cons_conv)
  then show ?case by (simp add: HasPrefix_iff Cons.IH)
qed

text \<open>\<open>strings.SplitN(s, sep, 2)\<close> for a one-byte separator: \<open>None\<close> is the one-part result.\<close>

definition SplitN2 :: "char \<Rightarrow> string \<Rightarrow> (string \<times> string) option" where
  "SplitN2 sep s =
     (case dropWhile (\<lambda>c. c \<noteq> sep) s of
        [] \<Rightarrow> None
      | _ # r \<Rightarrow> Some (takeWhile (\<lambda>c. c \<noteq> sep) s, r))"

lemma SplitN2_append: "sep \<notin> set a \<Longrightarrow> SplitN2 sep (a @ sep # b) = Some (a, b)"
  by (auto simp: SplitN2_def takeWhile_append dropWhile_append)

lemma SplitN2_iff: "SplitN2 sep s = Some (a, b) \<longleftrightarrow> s = a @ sep # b \<and> sep \<notin> set a"
proof
  assume *: "SplitN2 sep s = Some (a, b)"
  then obtain x where x: "dropWhile (\<lambda>c. c \<noteq> sep) s = x # b" and a: "a = takeWhile (\<lambda>c. c \<noteq> sep) s"
    by (auto simp: SplitN2_def split: list.splits)
  have "x = sep" using hd_dropWhile [of "\<lambda>c. c \<noteq> sep" s] x by simp
  moreover have "s = a @ x # b" using takeWhile_dropWhile_id [of "\<lambda>c. c \<noteq> sep" s] x a by simp
  moreover have "sep \<notin> set a" using a by (auto dest: set_takeWhileD)
  ultimately show "s = a @ sep # b \<and> sep \<notin> set a" by simp
qed (auto simp: SplitN2_append)

text \<open>\<open>strings.Join\<close>.\<close>

fun Join :: "string list \<Rightarrow> string \<Rightarrow> string" where
  "Join [] sep = []"
| "Join [x] sep = x"
| "Join (x # y # zs) sep = x @ sep @ Join (y # zs) sep"

subsection \<open>White space\<close>

text \<open>
  \<open>unicode.IsSpace\<close> on the UTF-8 bytes: the number of bytes of the white-space rune the
  string starts with, 0 when it starts with another rune. A lead byte never occurs inside
  another rune, so looking at bytes finds what decoding runes finds.
\<close>

definition space3 :: "nat \<Rightarrow> nat \<Rightarrow> nat \<Rightarrow> bool" where
  "space3 a b c \<longleftrightarrow>
     (a = 0xE1 \<and> b = 0x9A \<and> c = 0x80) \<or>
     (a = 0xE2 \<and> b = 0x80 \<and> (0x80 \<le> c \<and> c \<le> 0x8A \<or> c = 0xA8 \<or> c = 0xA9 \<or> c = 0xAF)) \<or>
     (a = 0xE2 \<and> b = 0x81 \<and> c = 0x9F) \<or>
     (a = 0xE3 \<and> b = 0x80 \<and> c = 0x80)"

definition space2 :: "nat \<Rightarrow> nat \<Rightarrow> bool" where
  "space2 a b \<longleftrightarrow> a = 0xC2 \<and> (b = 0x85 \<or> b = 0xA0)"

definition space1 :: "nat \<Rightarrow> bool" where
  "space1 a \<longleftrightarrow> (9 \<le> a \<and> a \<le> 13) \<or> a = 32"

fun space_len :: "string \<Rightarrow> nat" where
  "space_len (a # b # c # s) =
     (if space1 (byte a) then 1 else if space2 (byte a) (byte b) then 2
      else if space3 (byte a) (byte b) (byte c) then 3 else 0)"
| "space_len [a, b] = (if space1 (byte a) then 1 else if space2 (byte a) (byte b) then 2 else 0)"
| "space_len [a] = (if space1 (byte a) then 1 else 0)"
| "space_len [] = 0"

lemma space_len_le: "space_len s \<le> length s"
  by (induction s rule: space_len.induct) auto

function TrimLeftSpace :: "string \<Rightarrow> string" where
  "TrimLeftSpace s = (if space_len s = 0 then s else TrimLeftSpace (drop (space_len s) s))"
  by pat_completeness auto
termination
proof (relation "measure length")
  fix s :: string
  assume "space_len s \<noteq> 0"
  then show "(drop (space_len s) s, s) \<in> measure length"
    using space_len_le [of s] by simp
qed simp

declare TrimLeftSpace.simps [simp del]

text \<open>The same from the right end, on the reversed bytes.\<close>

fun rspace_len :: "string \<Rightarrow> nat" where
  "rspace_len (a # b # c # s) =
     (if space1 (byte a) then 1 else if space2 (byte b) (byte a) then 2
      else if space3 (byte c) (byte b) (byte a) then 3 else 0)"
| "rspace_len [a, b] = (if space1 (byte a) then 1 else if space2 (byte b) (byte a) then 2 else 0)"
| "rspace_len [a] = (if space1 (byte a) then 1 else 0)"
| "rspace_len [] = 0"

lemma rspace_len_le: "rspace_len s \<le> length s"
  by (induction s rule: rspace_len.induct) auto

function trim_rev :: "string \<Rightarrow> string" where
  "trim_rev s = (if rspace_len s = 0 then s else trim_rev (drop (rspace_len s) s))"
  by pat_completeness auto
termination
proof (relation "measure length")
  fix s :: string
  assume "rspace_len s \<noteq> 0"
  then show "(drop (rspace_len s) s, s) \<in> measure length"
    using rspace_len_le [of s] by simp
qed simp

declare trim_rev.simps [simp del]

definition TrimSpace :: "string \<Rightarrow> string" where
  "TrimSpace s = rev (trim_rev (rev (TrimLeftSpace s)))"

text \<open>\<open>strings.Fields\<close>: the maximal runs of bytes that are no white space.\<close>

function fields_from :: "string \<Rightarrow> string \<Rightarrow> string list" where
  "fields_from cur [] = (if cur = [] then [] else [rev cur])"
| "fields_from cur (c # s) =
     (if space_len (c # s) = 0 then fields_from (c # cur) s
      else (if cur = [] then [] else [rev cur]) @
           fields_from [] (drop (space_len (c # s)) (c # s)))"
  by pat_completeness auto
termination
proof (relation "measure (\<lambda>(cur, s). length s)")
  fix c :: char and cur s :: string
  assume "space_len (c # s) \<noteq> 0"
  then show "(([], drop (space_len (c # s)) (c # s)), cur, c # s) \<in> measure (\<lambda>(cur, s). length s)"
    using space_len_le [of "c # s"] by simp
qed auto

definition Fields :: "string \<Rightarrow> string list" where
  "Fields s = fields_from [] s"

lemma fields_from_nonempty: "t \<in> set (fields_from cur s) \<Longrightarrow> t \<noteq> []"
  by (induction cur s rule: fields_from.induct) (auto split: if_splits)

lemma Fields_nonempty: "t \<in> set (Fields s) \<Longrightarrow> t \<noteq> []"
  by (simp add: Fields_def fields_from_nonempty)

subsection \<open>Case folding\<close>

text \<open>
  \<open>strings.EqualFold\<close> and \<open>strings.ToLower\<close> as far as ASCII text is concerned: the ASCII
  letters fold to lower case, and of the other runes only U+0130, U+017F and U+212A reach
  an ASCII letter (U+0130 under \<open>ToLower\<close>, U+017F under \<open>EqualFold\<close>, U+212A under both).
  Bytes of other runes are kept; the code compares with ASCII text only.
\<close>

definition lower_char :: "char \<Rightarrow> char" where
  "lower_char c = (if is_upper c then char_of (byte c + 32) else c)"

fun ToLower :: "string \<Rightarrow> string" where
  "ToLower [] = []"
| "ToLower (a # s) =
     (case s of
        b # s' \<Rightarrow>
          if byte a = 0xC4 \<and> byte b = 0xB0 then CHR ''i'' # ToLower s'
          else (case s' of
                  c # s'' \<Rightarrow>
                    if byte a = 0xE2 \<and> byte b = 0x84 \<and> byte c = 0xAA then CHR ''k'' # ToLower s''
                    else lower_char a # ToLower s
                | [] \<Rightarrow> lower_char a # ToLower s)
      | [] \<Rightarrow> [lower_char a])"

fun fold_case :: "string \<Rightarrow> string" where
  "fold_case [] = []"
| "fold_case (a # s) =
     (case s of
        b # s' \<Rightarrow>
          if byte a = 0xC5 \<and> byte b = 0xBF then CHR ''s'' # fold_case s'
          else (case s' of
                  c # s'' \<Rightarrow>
                    if byte a = 0xE2 \<and> byte b = 0x84 \<and> byte c = 0xAA then CHR ''k'' # fold_case s''
                    else lower_char a # fold_case s
                | [] \<Rightarrow> lower_char a # fold_case s)
      | [] \<Rightarrow> [lower_char a])"

definition EqualFold :: "string \<Rightarrow> string \<Rightarrow> bool" where
  "EqualFold s t \<longleftrightarrow> fold_case s = fold_case t"

lemma EqualFold_refl [simp]: "EqualFold s s"
  by (simp add: EqualFold_def)

lemma EqualFold_sym: "EqualFold s t \<longleftrightarrow> EqualFold t s"
  by (auto simp: EqualFold_def)

section \<open>UTF-8 literals of the messages\<close>

definition emdash :: string where
  "emdash = [CHR 0xE2, CHR 0x80, CHR 0x94]"

definition thumbs_up :: string where
  "thumbs_up = [CHR 0xF0, CHR 0x9F, CHR 0x91, CHR 0x8D]"

definition nl :: string where
  "nl = [CHR 0x0A]"

end
