(* ===== verification/Models.thy ===== *)
theory Models
  imports GoText
begin

text \<open>
  Package \<open>models\<close> (\<open>pkg/models/models.go\<close>): the domain rows and their methods. Ids are
  \<open>int64\<close> / \<open>uint64\<close> machine words, scores and the timeout \<open>uint32\<close>. A \<open>time.Time\<close> is the
  (unbounded) number of nanoseconds since the Unix epoch; a \<open>time.Duration\<close> is an
  \<open>int64\<close> number of nanoseconds, kept in range by \<open>wrap64\<close>.
\<close>

section \<open>Instants and durations\<close>

type_synonym time = int
type_synonym duration = int

definition hour :: duration where
  "hour = 3600 * 10 ^ 9"

definition minute :: duration where
  "minute = 60 * 10 ^ 9"

text \<open>The zero \<open>time.Time\<close>, January 1 of year 1 UTC, and \<open>Time.IsZero\<close>.\<close>

definition zero_time :: time where
  "zero_time = - 62135596800 * 10 ^ 9"

definition IsZero :: "time \<Rightarrow> bool" where
  "IsZero t \<longleftrightarrow> t = zero_time"

text \<open>\<open>Time.Sub\<close> saturates at the ends of the \<open>int64\<close> range.\<close>

definition time_Sub :: "time \<Rightarrow> time \<Rightarrow> duration" where
  "time_Sub a b = max (- (2 ^ 63)) (min (2 ^ 63 - 1) (a - b))"

definition UnixNano :: "time \<Rightarrow> int" where
  "UnixNano t = wrap64 t"

lemma time_Sub_less_iff:
  "- (2 ^ 63) \<le> d \<Longrightarrow> d < 2 ^ 63 - 1 \<Longrightarrow> d < time_Sub a b \<longleftrightarrow> d < a - b"
  by (auto simp: time_Sub_def)

section \<open>Rows\<close>

datatype MatchStatus = MatchStatusPending | MatchStatusApproved | MatchStatusUndone

record Participant =
  p_GroupID :: i64
  p_TelegramID :: i64
  p_TelegramUsername :: string
  p_ActivatedAt :: time

record Admin =
  a_TelegramID :: i64
  a_CampusID :: string
  a_CampusName :: string
  a_S21Login :: string
  a_S21CredentialsEncrypted :: string
  a_CreatedAt :: time

record Group =
  g_GroupID :: i64
  g_CampusID :: string
  g_CampusName :: string
  g_AdminTelegramID :: i64
  g_MatchesTopicID :: i64
  g_StatsTopicID :: i64
  g_RankingsMessageID :: i64
  g_StatsMessageID :: i64
  g_RankingsELOMessageID :: i64
  g_RankingsGlickoMessageID :: i64
  g_StatsELOMessageID :: i64
  g_StatsGlickoMessageID :: i64
  g_ConfirmationTimeoutHours :: u32
  g_CreatedAt :: time

definition zero_Group :: Group where
  "zero_Group = \<lparr>g_GroupID = 0, g_CampusID = [], g_CampusName = [], g_AdminTelegramID = 0,
     g_MatchesTopicID = 0, g_StatsTopicID = 0, g_RankingsMessageID = 0, g_StatsMessageID = 0,
     g_RankingsELOMessageID = 0, g_RankingsGlickoMessageID = 0, g_StatsELOMessageID = 0,
     g_StatsGlickoMessageID = 0, g_ConfirmationTimeoutHours = 0, g_CreatedAt = zero_time\<rparr>"

definition FullyConfigured :: "Group \<Rightarrow> bool" where
  "FullyConfigured g \<longleftrightarrow> g_MatchesTopicID g \<noteq> 0 \<and> g_StatsTopicID g \<noteq> 0"

text \<open>\<open>time.Duration(hours) * time.Hour\<close> is an \<open>int64\<close> product.\<close>

definition ConfirmationTimeout :: "Group \<Rightarrow> duration" where
  "ConfirmationTimeout g =
     (if g_ConfirmationTimeoutHours g = 0 then 24 * hour
      else wrap64 (uint (g_ConfirmationTimeoutHours g) * hour))"

record Match =
  m_GroupID :: i64
  m_MatchID :: u64
  m_Player1ID :: i64
  m_Player2ID :: i64
  m_Player1Score :: u32
  m_Player2Score :: u32
  m_RegisteredBy :: i64
  m_Status :: MatchStatus
  m_PlayedAt :: time
  m_CreatedAt :: time

definition Winner :: "Match \<Rightarrow> i64" where
  "Winner m =
     (if m_Player2Score m < m_Player1Score m then m_Player1ID m
      else if m_Player1Score m < m_Player2Score m then m_Player2ID m
      else 0)"

definition Loser :: "Match \<Rightarrow> i64" where
  "Loser m =
     (if m_Player2Score m < m_Player1Score m then m_Player2ID m
      else if m_Player1Score m < m_Player2Score m then m_Player1ID m
      else 0)"

record MatchConfirmation =
  c_GroupID :: i64
  c_MatchID :: u64
  c_TelegramID :: i64
  c_ConfirmedAt :: time

record UndoCommand =
  u_GroupID :: i64
  u_MatchID :: u64
  u_TelegramID :: i64
  u_RequestedAt :: time

record BotSetting =
  s_Key :: string
  s_Value :: string
  s_UpdatedAt :: time
  s_UpdatedBy :: i64

text \<open>
  The cached identity answer (\<open>store.S21NickCacheEntry\<close>), and the logged-in account row of
  the shared package \<open>s21-account-go\<close>: of that package only the row's fields are used.
\<close>

record S21NickCacheEntry =
  n_TelegramID :: i64
  n_Found :: bool
  n_Nickname :: string
  n_CampusID :: string
  n_CampusName :: string
  n_CoalitionName :: string
  n_CachedAt :: time

record S21Account =
  acc_TelegramID :: i64
  acc_S21Login :: string
  acc_S21CredsEncrypted :: string
  acc_CampusID :: string
  acc_CampusName :: string
  acc_CreatedAt :: time
  acc_UpdatedAt :: time
  acc_LastUsedAt :: "time option"
  acc_S21CredsFailedAt :: "time option"
  acc_S21CredsLastWarnedAt :: "time option"

section \<open>Properties\<close>

lemma Winner_Loser_cases:
  assumes "m_Player1Score m \<noteq> m_Player2Score m"
  shows "{Winner m, Loser m} = {m_Player1ID m, m_Player2ID m}"
  using assms by (auto simp: Winner_def Loser_def not_less)

text \<open>The confirmation timeout is exact and positive for every configured number of hours
  up to 2562047 (24 hours when unset), so that within that bound a pending match never
  expires early.\<close>

theorem ConfirmationTimeout_exact:
  assumes "uint (g_ConfirmationTimeoutHours g) \<le> 2562047"
  shows "ConfirmationTimeout g =
           (if g_ConfirmationTimeoutHours g = 0 then 24 else uint (g_ConfirmationTimeoutHours g)) * hour
         \<and> 0 < ConfirmationTimeout g"
proof (cases "g_ConfirmationTimeoutHours g = 0")
  case True
  then show ?thesis by (simp add: ConfirmationTimeout_def hour_def)
next
  case False
  let ?h = "uint (g_ConfirmationTimeoutHours g)"
  have "0 < ?h" using False by (simp add: word_neq_0_conv uint_0_iff [symmetric] order_less_le)
  moreover have "wrap64 (?h * hour) = ?h * hour"
    using assms \<open>0 < ?h\<close> by (intro wrap64_id) (simp_all add: hour_def)
  ultimately show ?thesis using False by (simp add: ConfirmationTimeout_def hour_def)
qed

theorem ConfirmationTimeout_exact_witness:
  "ConfirmationTimeout (zero_Group\<lparr>g_ConfirmationTimeoutHours := 48\<rparr>) = 48 * hour"
  using ConfirmationTimeout_exact [of "zero_Group\<lparr>g_ConfirmationTimeoutHours := 48\<rparr>"]
  by (simp add: zero_Group_def)

text \<open>The bound is sharp: the next hour overflows \<open>int64\<close> and the timeout is negative.\<close>

lemma ConfirmationTimeout_overflow:
  "ConfirmationTimeout (zero_Group\<lparr>g_ConfirmationTimeoutHours := 2562048\<rparr>) < 0"
  by (simp add: ConfirmationTimeout_def zero_Group_def hour_def wrap64_def)

end
