(* ===== verification/Validation.thy ===== *)
theory Validation
  imports Models
begin

text \<open>
  Package \<open>validation\<close> (\<open>pkg/validation/validation.go\<close>): the parsers of user-supplied
  tokens. The regular expressions are deterministic on their input (each repetition is
  followed by a byte outside its class or by the end), so each is modelled by the
  prefix it must consume.
\<close>

section \<open>Definitions\<close>

record Score =
  P1 :: u32
  P2 :: u32

record Identifier =
  IsTelegram :: bool
  Value :: string

datatype score_error = ErrScoreFormat | ErrScoreTie | ErrScoreRange

definition score_error_text :: "score_error \<Rightarrow> string" where
  "score_error_text e =
     (case e of
        ErrScoreFormat \<Rightarrow> ''Score must look like `3-1` (non-negative integers, '' @
          [CHR 0xE2, CHR 0x89, CHR 0xA4] @ ''99, not equal)''
      | ErrScoreTie \<Rightarrow> ''Score must have a winner''
      | ErrScoreRange \<Rightarrow> ''Score values must be between 0 and 99'')"

datatype identifier_error = EmptyIdentifier | InvalidUsername | InvalidNickname

definition ScoreMax :: nat where
  "ScoreMax = 99"

text \<open>The group \<open>(0|[1-9][0-9]*)\<close>.\<close>

definition canonical_number :: "string \<Rightarrow> bool" where
  "canonical_number s \<longleftrightarrow>
     s = ''0'' \<or> (case s of [] \<Rightarrow> False | c # r \<Rightarrow> is_digit c \<and> c \<noteq> CHR ''0'' \<and> list_all is_digit r)"

text \<open>\<open>ScoreRegex.FindStringSubmatch\<close>: the two groups, \<open>None\<close> when there is no match.\<close>

definition ScoreRegex :: "string \<Rightarrow> (string \<times> string) option" where
  "ScoreRegex token =
     (case SplitN2 (CHR ''-'') token of
        Some (a, b) \<Rightarrow> if canonical_number a \<and> canonical_number b then Some (a, b) else None
      | None \<Rightarrow> None)"

definition ParseScore :: "string \<Rightarrow> score_error + Score" where
  "ParseScore token =
     (case ScoreRegex token of
        None \<Rightarrow> Inl ErrScoreFormat
      | Some (m1, m2) \<Rightarrow>
          (case (ParseUint 32 m1, ParseUint 32 m2) of
             (Some p1, Some p2) \<Rightarrow>
               if ScoreMax < p1 \<or> ScoreMax < p2 then Inl ErrScoreRange
               else if p1 = p2 then Inl ErrScoreTie
               else Inr \<lparr>P1 = of_nat p1, P2 = of_nat p2\<rparr>
           | _ \<Rightarrow> Inl ErrScoreFormat))"

definition is_word_char :: "char \<Rightarrow> bool" where
  "is_word_char c \<longleftrightarrow> is_alnum c \<or> c = CHR ''_''"

text \<open>\<open>^[A-Za-z][A-Za-z0-9_]{4,31}$\<close> and \<open>^[A-Za-z0-9][A-Za-z0-9_-]{0,63}$\<close>.\<close>

definition usernameRegex :: "string \<Rightarrow> bool" where
  "usernameRegex s =
     (case s of [] \<Rightarrow> False
      | c # r \<Rightarrow> is_alpha c \<and> list_all is_word_char r \<and> 4 \<le> length r \<and> length r \<le> 31)"

definition s21NicknameRegex :: "string \<Rightarrow> bool" where
  "s21NicknameRegex s =
     (case s of [] \<Rightarrow> False
      | c # r \<Rightarrow> is_alnum c \<and> list_all (\<lambda>x. is_word_char x \<or> x = CHR ''-'') r \<and> length r \<le> 63)"

definition ParseIdentifier :: "string \<Rightarrow> identifier_error + Identifier" where
  "ParseIdentifier token =
     (if token = [] then Inl EmptyIdentifier
      else if HasPrefix token ''@'' then
        (let name = TrimPrefix token ''@'' in
         if \<not> usernameRegex name then Inl InvalidUsername
         else Inr \<lparr>IsTelegram = True, Value = name\<rparr>)
      else if \<not> s21NicknameRegex token then Inl InvalidNickname
      else Inr \<lparr>IsTelegram = False, Value = token\<rparr>)"

text \<open>\<open>MatchIDRegex = #(\d+)\<close>: the group of the leftmost match.\<close>

fun MatchIDRegex :: "string \<Rightarrow> string option" where
  "MatchIDRegex [] = None"
| "MatchIDRegex (c # s) =
     (if c = CHR ''#'' \<and> takeWhile is_digit s \<noteq> [] then Some (takeWhile is_digit s)
      else MatchIDRegex s)"

definition ExtractMatchID :: "string \<Rightarrow> u64 option" where
  "ExtractMatchID text =
     (case MatchIDRegex text of
        None \<Rightarrow> None
      | Some ds \<Rightarrow> map_option of_nat (ParseUint 64 ds))"

definition ParseAdminCredentials :: "string \<Rightarrow> (string \<times> string) option" where
  "ParseAdminCredentials token =
     (case IndexByte token (CHR '':'') of
        None \<Rightarrow> None
      | Some idx \<Rightarrow>
          if idx = 0 \<or> idx = length token - 1 then None
          else Some (take idx token, drop (idx + 1) token))"

section \<open>Canonical numerals\<close>

lemma canonical_number_dec: "canonical_number (dec n)"
proof (cases "n = 0")
  case True
  then show ?thesis by (simp add: canonical_number_def)
next
  case False
  have pos: "\<exists>c r. dec n = c # r \<and> c \<noteq> CHR ''0''" if "0 < n" for n
    using that
  proof (induction n rule: dec.induct)
    case (1 n)
    show ?case
    proof (cases "n < 10")
      case True
      have "digit n \<noteq> CHR ''0''"
        using True 1 by (simp add: byte_eq_iff [symmetric] del: byte_eq_iff) (simp add: byte_def)
      then show ?thesis using True by (simp add: dec.simps [of n])
    next
      case False
      then have "0 < n div 10" by simp
      with 1 False obtain c r where "dec (n div 10) = c # r" "c \<noteq> CHR ''0''" by blast
      with False show ?thesis by (simp add: dec.simps [of n])
    qed
  qed
  from False have "0 < n" by simp
  then obtain c r where cr: "dec n = c # r" "c \<noteq> CHR ''0''" using pos by blast
  moreover have "list_all is_digit (c # r)" using list_all_digit_dec [of n] cr(1) by simp
  ultimately show ?thesis by (simp add: canonical_number_def)
qed

lemma canonical_number_digits: "canonical_number s \<Longrightarrow> s \<noteq> [] \<and> list_all is_digit s"
  by (auto simp: canonical_number_def is_digit_def byte_def split: list.splits)

lemma digit_byte: "is_digit c \<Longrightarrow> digit (byte c - 48) = c"
  by (simp add: digit_def is_digit_def byte_def)

lemma digit_nonzero: "is_digit c \<Longrightarrow> c \<noteq> CHR ''0'' \<Longrightarrow> 0 < byte c - 48"
proof (rule ccontr)
  assume "is_digit c" "c \<noteq> CHR ''0''" "\<not> 0 < byte c - 48"
  then have "byte c = byte (CHR ''0'')" by (simp add: is_digit_def byte_def)
  then have "c = CHR ''0''" by simp
  with \<open>c \<noteq> CHR ''0''\<close> show False by blast
qed

lemma dec_dec_val:
  assumes "canonical_number s"
  shows "dec (dec_val s) = s"
proof -
  have "dec (dec_val s) = s \<and> (s \<noteq> ''0'' \<longrightarrow> 0 < dec_val s)"
    if "s \<noteq> []" "list_all is_digit s" "s = ''0'' \<or> hd s \<noteq> CHR ''0''" for s
    using that
  proof (induction s rule: rev_induct)
    case Nil
    then show ?case by simp
  next
    case (snoc c s)
    have c: "is_digit c" and s: "list_all is_digit s" using snoc.prems by simp_all
    have c9: "byte c - 48 < 10" using c unfolding is_digit_def by linarith
    show ?case
    proof (cases "s = []")
      case True
      have "dec_val [c] = byte c - 48" by (simp add: dec_val_def)
      moreover have "c \<noteq> CHR ''0'' \<Longrightarrow> 0 < byte c - 48"
        using c by (rule digit_nonzero)
      ultimately show ?thesis
        using True c c9 by (auto simp: dec.simps [of "byte c - 48"] digit_byte)
    next
      case False
      with snoc.prems have hd: "hd s \<noteq> CHR ''0''" by auto
      with False s snoc.IH have IH: "dec (dec_val s) = s" "0 < dec_val s" by auto
      then have "\<not> 10 * dec_val s + (byte c - 48) < 10" by simp
      then show ?thesis
        using IH c c9 by (simp add: dec.simps [of "10 * dec_val s + (byte c - 48)"] digit_byte)
    qed
  qed
  moreover have "s \<noteq> []" "list_all is_digit s" using assms canonical_number_digits by auto
  moreover have "s = ''0'' \<or> hd s \<noteq> CHR ''0''"
    using assms by (auto simp: canonical_number_def split: list.splits)
  ultimately show ?thesis by blast
qed

lemma dash_notin_digits: "list_all is_digit s \<Longrightarrow> CHR ''-'' \<notin> set s"
  by (auto simp: list_all_iff is_digit_def byte_def)

lemma ScoreRegex_iff:
  "ScoreRegex token = Some (a, b) \<longleftrightarrow>
     token = a @ ''-'' @ b \<and> canonical_number a \<and> canonical_number b"
proof
  assume "ScoreRegex token = Some (a, b)"
  then show "token = a @ ''-'' @ b \<and> canonical_number a \<and> canonical_number b"
    by (auto simp: ScoreRegex_def SplitN2_iff split: option.splits if_splits)
next
  assume *: "token = a @ ''-'' @ b \<and> canonical_number a \<and> canonical_number b"
  then have "CHR ''-'' \<notin> set a" using canonical_number_digits dash_notin_digits by blast
  with * show "ScoreRegex token = Some (a, b)" by (simp add: ScoreRegex_def SplitN2_append)
qed

lemma ParseUint_canonical:
  "canonical_number s \<Longrightarrow> ParseUint b s = (if dec_val s < 2 ^ b then Some (dec_val s) else None)"
  by (simp add: ParseUint_def canonical_number_digits)

section \<open>Properties\<close>

text \<open>C39. \<open>ParseScore\<close> accepts exactly the tokens \<open>a-b\<close> of two different numbers up to 99 written
  without sign or leading zero, and returns those numbers.\<close>

theorem ParseScore_accepts:
  "ParseScore token = Inr sc \<longleftrightarrow>
     (\<exists>a b. a \<le> 99 \<and> b \<le> 99 \<and> a \<noteq> b \<and> token = dec a @ ''-'' @ dec b
        \<and> sc = \<lparr>P1 = of_nat a, P2 = of_nat b\<rparr>)"
proof
  assume "ParseScore token = Inr sc"
  then obtain a b where r: "ScoreRegex token = Some (a, b)"
    and ab: "dec_val a \<le> 99" "dec_val b \<le> 99" "dec_val a \<noteq> dec_val b"
      "sc = \<lparr>P1 = of_nat (dec_val a), P2 = of_nat (dec_val b)\<rparr>"
    by (auto simp: ParseScore_def ScoreMax_def ParseUint_def not_less
        split: option.splits if_splits prod.splits)
  then show "\<exists>a b. a \<le> 99 \<and> b \<le> 99 \<and> a \<noteq> b \<and> token = dec a @ ''-'' @ dec b
        \<and> sc = \<lparr>P1 = of_nat a, P2 = of_nat b\<rparr>"
    unfolding ScoreRegex_iff by (metis dec_dec_val)
next
  assume "\<exists>a b. a \<le> 99 \<and> b \<le> 99 \<and> a \<noteq> b \<and> token = dec a @ ''-'' @ dec b
        \<and> sc = \<lparr>P1 = of_nat a, P2 = of_nat b\<rparr>"
  then obtain a b where ab: "a \<le> 99" "b \<le> 99" "a \<noteq> b"
    "sc = \<lparr>P1 = of_nat a, P2 = of_nat b\<rparr>" and "token = dec a @ ''-'' @ dec b" by blast
  then have "ScoreRegex token = Some (dec a, dec b)"
    by (simp only: ScoreRegex_iff canonical_number_dec simp_thms)
  with ab show "ParseScore token = Inr sc" by (simp add: ParseScore_def ScoreMax_def)
qed

text \<open>On a well-formed token \<open>a-b\<close> the error is decided by size first: a number beyond 32 bits is
  a format error, one above 99 a range error, and only then equal numbers are a tie.\<close>

theorem ParseScore_errors:
  "ParseScore (dec a @ ''-'' @ dec b) =
     (if 2 ^ 32 \<le> a \<or> 2 ^ 32 \<le> b then Inl ErrScoreFormat
      else if 99 < a \<or> 99 < b then Inl ErrScoreRange
      else if a = b then Inl ErrScoreTie
      else Inr \<lparr>P1 = of_nat a, P2 = of_nat b\<rparr>)"
proof -
  have "ScoreRegex (dec a @ ''-'' @ dec b) = Some (dec a, dec b)"
    by (simp only: ScoreRegex_iff canonical_number_dec simp_thms)
  then show ?thesis
    by (auto simp: ParseScore_def ScoreMax_def ParseUint_canonical canonical_number_dec)
qed

lemma MatchIDRegex_skip:
  "CHR ''#'' \<notin> set a \<Longrightarrow> MatchIDRegex (a @ s) = MatchIDRegex s"
  by (induction a) auto

text \<open>The first \<open>#<digits>\<close> of a text is found whatever follows it, and read back as the number
  that was printed: the round trip behind \<open>/undo\<close> on a replied-to announcement.\<close>

lemma ExtractMatchID_at:
  assumes "CHR ''#'' \<notin> set pre" and "post = [] \<or> \<not> is_digit (hd post)"
  shows "ExtractMatchID (pre @ ''#'' @ fmt_u64 mid @ post) = Some mid"
proof -
  have "takeWhile is_digit (fmt_u64 mid @ post) = fmt_u64 mid"
  proof -
    have "\<forall>c \<in> set (fmt_u64 mid). is_digit c" using dec_digits by (simp add: fmt_u64_def)
    moreover have "takeWhile is_digit post = []" using assms(2) by (cases post) auto
    ultimately show ?thesis by (simp add: takeWhile_append2)
  qed
  then have "MatchIDRegex (pre @ ''#'' @ fmt_u64 mid @ post) = Some (fmt_u64 mid)"
    using assms(1) by (simp add: MatchIDRegex_skip fmt_u64_def)
  then show ?thesis by (simp add: ExtractMatchID_def ParseUint_fmt_u64 [unfolded fmt_u64_def] fmt_u64_def)
qed

lemma IndexByte_Some: "IndexByte s c = Some i \<longleftrightarrow> i < length s \<and> s ! i = c \<and> c \<notin> set (take i s)"
proof (induction s arbitrary: i)
  case Nil
  then show ?case by simp
next
  case (Cons x s)
  then show ?case by (cases i) auto
qed

text \<open>Credentials split at the first colon: the two parts come back exactly for a non-empty login
  without colon and a non-empty password, and no other token is accepted.\<close>

theorem ParseAdminCredentials_iff:
  "ParseAdminCredentials token = Some (login, password) \<longleftrightarrow>
     token = login @ '':'' @ password \<and> login \<noteq> [] \<and> password \<noteq> [] \<and> CHR '':'' \<notin> set login"
proof
  assume "ParseAdminCredentials token = Some (login, password)"
  then obtain i where i: "IndexByte token (CHR '':'') = Some i" "i \<noteq> 0" "i \<noteq> length token - 1"
    "login = take i token" "password = drop (i + 1) token"
    by (auto simp: ParseAdminCredentials_def split: option.splits if_splits)
  then have "i < length token" "token ! i = CHR '':''" "CHR '':'' \<notin> set login"
    by (auto simp: IndexByte_Some)
  moreover have "token = take i token @ token ! i # drop (Suc i) token"
    using \<open>i < length token\<close> by (rule id_take_nth_drop)
  ultimately show "token = login @ '':'' @ password \<and> login \<noteq> [] \<and> password \<noteq> []
      \<and> CHR '':'' \<notin> set login"
    using i by auto
next
  assume *: "token = login @ '':'' @ password \<and> login \<noteq> [] \<and> password \<noteq> []
      \<and> CHR '':'' \<notin> set login"
  then have "IndexByte token (CHR '':'') = Some (length login)"
    by (auto simp: IndexByte_Some nth_append)
  with * show "ParseAdminCredentials token = Some (login, password)"
    by (auto simp: ParseAdminCredentials_def)
qed

lemma word_char_not_special:
  "\<not> is_word_char (CHR '' '')" "\<not> is_alnum (CHR '' '')" "\<not> is_alnum (CHR ''@'')" "\<not> is_alpha (CHR '' '')"
  by (simp_all add: is_word_char_def is_alnum_def is_alpha_def is_upper_def is_lower_def is_digit_def
      byte_def)

lemma usernameRegex_props:
  "usernameRegex s \<Longrightarrow>
     5 \<le> length s \<and> length s \<le> 32 \<and> is_alpha (hd s) \<and> CHR '' '' \<notin> set s"
  using word_char_not_special by (fastforce simp: usernameRegex_def list_all_iff split: list.splits)

lemma s21NicknameRegex_props:
  "s21NicknameRegex s \<Longrightarrow>
     1 \<le> length s \<and> length s \<le> 64 \<and> hd s \<noteq> CHR ''@'' \<and> CHR '' '' \<notin> set s"
  using word_char_not_special by (fastforce simp: s21NicknameRegex_def list_all_iff split: list.splits)



end
