(* ===== verification/StoreIface.thy ===== *)
theory StoreIface
  imports Models
begin

text \<open>
  The storage interfaces of package \<open>store\<close> (\<open>pkg/store/store.go\<close>): the errors, and the
  contract the handlers rely on, as locales. A repository is a keyed table whose
  \<open>Upsert\<close> / \<open>Insert\<close> replaces the row with the same key; some can also delete. The
  implementation that discharges the contracts is in theory \<open>Memstore\<close>.
\<close>

datatype store_error = ErrNotFound | ErrConflict

text \<open>The two-value read \<open>v, ok := m[k]; if !ok { return ErrNotFound }\<close>.\<close>

definition get_or :: "'e \<Rightarrow> ('k, 'v) gomap \<Rightarrow> 'k \<Rightarrow> 'e + 'v" where
  "get_or e m k = (case mget m k of None \<Rightarrow> Inl e | Some v \<Rightarrow> Inr v)"

lemma get_or_Inr [simp]: "get_or e m k = Inr v \<longleftrightarrow> mget m k = Some v"
  by (auto simp: get_or_def split: option.splits)

lemma get_or_Inl [simp]: "get_or e m k = Inl e' \<longleftrightarrow> mget m k = None \<and> e' = e"
  by (auto simp: get_or_def split: option.splits)

lemma get_or_mput [simp]: "get_or e (mput k v m) k' = (if k' = k then Inr v else get_or e m k')"
  by (simp add: get_or_def)

lemma get_or_mdel [simp]: "get_or e (mdel k m) k' = (if k' = k then Inl e else get_or e m k')"
  by (simp add: get_or_def)

locale repo =
  fixes get :: "'s \<Rightarrow> 'k \<Rightarrow> 'e + 'v"
    and put :: "'v \<Rightarrow> 's \<Rightarrow> 's"
    and key :: "'v \<Rightarrow> 'k"
  assumes get_put: "get (put v s) k = (if k = key v then Inr v else get s k)"
begin

lemma get_put_same: "get (put v s) (key v) = Inr v"
  by (simp add: get_put)

lemma put_idem: "get (put v (put v s)) = get (put v s)"
  by (simp add: get_put fun_eq_iff)

lemma last_write_wins: "key v = key v' \<Longrightarrow> get (put v' (put v s)) = get (put v' s)"
  by (simp add: get_put fun_eq_iff)

lemma puts_commute: "key v \<noteq> key v' \<Longrightarrow> get (put v' (put v s)) = get (put v (put v' s))"
  by (auto simp: get_put fun_eq_iff)

lemma fold_put_other: "k \<notin> key ` set vs \<Longrightarrow> get (fold put vs s) k = get s k"
  by (induction vs arbitrary: s) (auto simp: get_put)

lemma fold_put_distinct:
  assumes "distinct (map key vs)" and "v \<in> set vs"
  shows "get (fold put vs s) (key v) = Inr v"
  using assms
proof (induction vs arbitrary: s)
  case Nil
  then show ?case by simp
next
  case (Cons w vs)
  then show ?case by (cases "v = w") (auto simp: fold_put_other get_put)
qed

end

locale deletable_repo = repo get put key
  for get :: "'s \<Rightarrow> 'k \<Rightarrow> 'e + 'v" and put key +
  fixes del :: "'k \<Rightarrow> 's \<Rightarrow> 's" and nf :: 'e
  assumes get_del: "get (del k s) k' = (if k' = k then Inl nf else get s k')"
begin

lemma get_del_same: "get (del k s) k = Inl nf"
  by (simp add: get_del)

lemma del_put: "get (del (key v) (put v s)) = get (del (key v) s)"
  by (simp add: get_del get_put fun_eq_iff)

lemma put_del: "get (put v (del (key v) s)) = get (put v s)"
  by (simp add: get_del get_put fun_eq_iff)

lemma del_idem: "get (del k (del k s)) = get (del k s)"
  by (simp add: get_del fun_eq_iff)

end

text \<open>
  The match repository: allocation hands out ids no row of the group has, a status update
  touches one row, a deletion removes one row.
\<close>

locale match_repo =
  fixes get :: "'s \<Rightarrow> i64 \<times> u64 \<Rightarrow> store_error + Match"
    and alloc :: "i64 \<Rightarrow> (u64 \<Rightarrow> Match) \<Rightarrow> 's \<Rightarrow> u64 \<times> 's"
    and upd :: "i64 \<times> u64 \<Rightarrow> MatchStatus \<Rightarrow> 's \<Rightarrow> 's"
    and del :: "i64 \<times> u64 \<Rightarrow> 's \<Rightarrow> 's"
    and room :: "i64 \<Rightarrow> 's \<Rightarrow> bool"
  assumes get_alloc:
      "(\<And>i. m_GroupID (b i) = g) \<Longrightarrow> alloc g b s = (i, s') \<Longrightarrow>
        get s' k = (if k = (g, i) then Inr ((b i)\<lparr>m_MatchID := i\<rparr>) else get s k)"
    and alloc_fresh: "room g s \<Longrightarrow> alloc g b s = (i, s') \<Longrightarrow> get s (g, i) = Inl ErrNotFound"
    and get_upd:
      "get (upd k st s) k' =
        (if k' = k then (case get s k of Inl e \<Rightarrow> Inl e | Inr m \<Rightarrow> Inr (m\<lparr>m_Status := st\<rparr>))
         else get s k')"
    and get_mdel: "get (del k s) k' = (if k' = k then Inl ErrNotFound else get s k')"
begin

lemma upd_upd: "get (upd k st' (upd k st s)) = get (upd k st' s)"
  by (auto simp: get_upd fun_eq_iff split: sum.splits)

lemma upd_same_status:
  "get s k = Inr m \<Longrightarrow> m_Status m = st \<Longrightarrow> get (upd k st s) = get s"
  by (auto simp: get_upd fun_eq_iff split: sum.splits)

lemma del_upd: "get (del k (upd k st s)) = get (del k s)"
  by (auto simp: get_upd get_mdel fun_eq_iff)

lemma alloc_keeps:
  assumes "room g s" and "\<And>i. m_GroupID (b i) = g" and "alloc g b s = (i, s')" and "get s k = Inr m"
  shows "get s' k = Inr m"
  using assms get_alloc [of b g s i s' k] alloc_fresh [of g s b i s'] by auto

end

end
