(* ===== verification/Memstore.thy ===== *)
theory Memstore
  imports StoreIface
begin

text \<open>
  Package \<open>memstore\<close> (\<open>pkg/store/memstore/memstore.go\<close>): the in-memory store. Every
  operation holds the one mutex from its first to its last line, so each is one function of
  the state. A repository method \<open>(r xRepo) Op\<close> is the definition \<open>xRepo_Op\<close>.
\<close>

section \<open>State\<close>

record memstore =
  participants :: "(i64 \<times> i64, Participant) gomap"
  admins :: "(i64, Admin) gomap"
  s21Accounts :: "(i64, S21Account) gomap"
  groups :: "(i64, Group) gomap"
  matches :: "(i64 \<times> u64, Match) gomap"
  confirmations :: "(i64 \<times> u64 \<times> i64, MatchConfirmation) gomap"
  undos :: "(i64 \<times> u64 \<times> i64, UndoCommand) gomap"
  settings :: "(string, BotSetting) gomap"
  matchCounters :: "(i64, u64) gomap"
  nickCache :: "(i64, S21NickCacheEntry) gomap"

definition memstore_New :: memstore where
  "memstore_New = \<lparr>participants = [], admins = [], s21Accounts = [], groups = [], matches = [],
     confirmations = [], undos = [], settings = [], matchCounters = [], nickCache = []\<rparr>"

section \<open>Operations\<close>

definition counter :: "memstore \<Rightarrow> i64 \<Rightarrow> u64" where
  "counter s gid = (case mget (matchCounters s) gid of None \<Rightarrow> 0 | Some n \<Rightarrow> n)"

definition AllocateAndInsertMatch :: "i64 \<Rightarrow> (u64 \<Rightarrow> Match) \<Rightarrow> memstore \<Rightarrow> u64 \<times> memstore" where
  "AllocateAndInsertMatch groupID build s =
     (let nxt = counter s groupID + 1;
          row = (build nxt)\<lparr>m_MatchID := nxt\<rparr>
      in (nxt, s\<lparr>matches := mput (m_GroupID row, m_MatchID row) row (matches s),
                 matchCounters := mput groupID nxt (matchCounters s)\<rparr>))"

subsection \<open>Participants\<close>

definition participantRepo_Get :: "memstore \<Rightarrow> i64 \<times> i64 \<Rightarrow> store_error + Participant" where
  "participantRepo_Get s k = get_or ErrNotFound (participants s) k"

text \<open>The first participant of the group, in iteration order, whose user name folds to the same.\<close>

definition participantRepo_GetByUsername :: "memstore \<Rightarrow> i64 \<Rightarrow> string \<Rightarrow> store_error + Participant" where
  "participantRepo_GetByUsername s gid username =
     (case find (\<lambda>(k, p). fst k = gid \<and> EqualFold (p_TelegramUsername p) username) (participants s) of
        None \<Rightarrow> Inl ErrNotFound
      | Some (k, p) \<Rightarrow> Inr p)"

definition participantRepo_ListByGroup :: "memstore \<Rightarrow> i64 \<Rightarrow> Participant list" where
  "participantRepo_ListByGroup s gid = mvals_if (\<lambda>k. fst k = gid) (participants s)"

definition participantRepo_Upsert :: "Participant \<Rightarrow> memstore \<Rightarrow> memstore" where
  "participantRepo_Upsert p s =
     s\<lparr>participants := mput (p_GroupID p, p_TelegramID p) p (participants s)\<rparr>"

subsection \<open>Admins and S21 accounts\<close>

definition adminRepo_Get :: "memstore \<Rightarrow> i64 \<Rightarrow> store_error + Admin" where
  "adminRepo_Get s k = get_or ErrNotFound (admins s) k"

definition adminRepo_GetByCampus :: "memstore \<Rightarrow> string \<Rightarrow> store_error + Admin" where
  "adminRepo_GetByCampus s cid =
     (case find (\<lambda>(k, a). a_CampusID a = cid) (admins s) of
        None \<Rightarrow> Inl ErrNotFound | Some (k, a) \<Rightarrow> Inr a)"

definition adminRepo_Upsert :: "Admin \<Rightarrow> memstore \<Rightarrow> memstore" where
  "adminRepo_Upsert a s = s\<lparr>admins := mput (a_TelegramID a) a (admins s)\<rparr>"

definition admin_less :: "Admin \<Rightarrow> Admin \<Rightarrow> bool" where
  "admin_less a b \<longleftrightarrow> sint (a_TelegramID a) < sint (a_TelegramID b)"

definition adminRepo_List :: "memstore \<Rightarrow> Admin list" where
  "adminRepo_List s = sort_by admin_less (map snd (admins s))"

definition s21AccountRepo_Get :: "memstore \<Rightarrow> i64 \<Rightarrow> store_error + S21Account" where
  "s21AccountRepo_Get s k = get_or ErrNotFound (s21Accounts s) k"

definition account_less :: "S21Account \<Rightarrow> S21Account \<Rightarrow> bool" where
  "account_less a b \<longleftrightarrow>
     (if acc_CreatedAt a \<noteq> acc_CreatedAt b then acc_CreatedAt a < acc_CreatedAt b
      else sint (acc_TelegramID a) < sint (acc_TelegramID b))"

definition s21AccountRepo_List :: "memstore \<Rightarrow> S21Account list" where
  "s21AccountRepo_List s = sort_by account_less (map snd (s21Accounts s))"

definition s21AccountRepo_Upsert :: "S21Account \<Rightarrow> memstore \<Rightarrow> memstore" where
  "s21AccountRepo_Upsert a s = s\<lparr>s21Accounts := mput (acc_TelegramID a) a (s21Accounts s)\<rparr>"

definition s21AccountRepo_Delete :: "i64 \<Rightarrow> memstore \<Rightarrow> memstore" where
  "s21AccountRepo_Delete tid s = s\<lparr>s21Accounts := mdel tid (s21Accounts s)\<rparr>"

subsection \<open>Groups\<close>

definition groupRepo_Get :: "memstore \<Rightarrow> i64 \<Rightarrow> store_error + Group" where
  "groupRepo_Get s k = get_or ErrNotFound (groups s) k"

definition groupRepo_GetByCampus :: "memstore \<Rightarrow> string \<Rightarrow> store_error + Group" where
  "groupRepo_GetByCampus s cid =
     (case find (\<lambda>(k, g). g_CampusID g = cid) (groups s) of
        None \<Rightarrow> Inl ErrNotFound | Some (k, g) \<Rightarrow> Inr g)"

definition groupRepo_Upsert :: "Group \<Rightarrow> memstore \<Rightarrow> memstore" where
  "groupRepo_Upsert g s = s\<lparr>groups := mput (g_GroupID g) g (groups s)\<rparr>"

definition groupRepo_List :: "memstore \<Rightarrow> Group list" where
  "groupRepo_List s = map snd (groups s)"

subsection \<open>Matches\<close>

definition matchRepo_Get :: "memstore \<Rightarrow> i64 \<times> u64 \<Rightarrow> store_error + Match" where
  "matchRepo_Get s k = get_or ErrNotFound (matches s) k"

definition matchRepo_UpdateStatus ::
  "i64 \<times> u64 \<Rightarrow> MatchStatus \<Rightarrow> memstore \<Rightarrow> store_error option \<times> memstore" where
  "matchRepo_UpdateStatus k status s =
     (case mget (matches s) k of
        None \<Rightarrow> (Some ErrNotFound, s)
      | Some m \<Rightarrow> (None, s\<lparr>matches := mput k (m\<lparr>m_Status := status\<rparr>) (matches s)\<rparr>))"

definition for_match :: "i64 \<times> u64 \<Rightarrow> i64 \<times> u64 \<times> i64 \<Rightarrow> bool" where
  "for_match k ck \<longleftrightarrow> (case ck of (g, m, u) \<Rightarrow> (g, m) = k)"

definition matchRepo_Delete :: "i64 \<times> u64 \<Rightarrow> memstore \<Rightarrow> store_error option \<times> memstore" where
  "matchRepo_Delete k s =
     (case mget (matches s) k of
        None \<Rightarrow> (Some ErrNotFound, s)
      | Some _ \<Rightarrow>
          (None, s\<lparr>matches := mdel k (matches s),
                   confirmations := mdel_if (for_match k) (confirmations s),
                   undos := mdel_if (for_match k) (undos s)\<rparr>))"

text \<open>Rows put by tests; the counter of the group is left alone.\<close>

definition insertMatch :: "Match \<Rightarrow> memstore \<Rightarrow> memstore" where
  "insertMatch m s = s\<lparr>matches := mput (m_GroupID m, m_MatchID m) m (matches s)\<rparr>"

definition PutMatch :: "Match \<Rightarrow> memstore \<Rightarrow> memstore" where
  "PutMatch m s = insertMatch m s"

definition PutMatchExt :: "Match \<Rightarrow> memstore \<Rightarrow> memstore" where
  "PutMatchExt m s = insertMatch m s"

definition match_less :: "Match \<Rightarrow> Match \<Rightarrow> bool" where
  "match_less a b \<longleftrightarrow>
     (if m_PlayedAt a \<noteq> m_PlayedAt b then m_PlayedAt a < m_PlayedAt b
      else m_MatchID a < m_MatchID b)"

definition matchRepo_ListByGroup :: "memstore \<Rightarrow> i64 \<Rightarrow> Match list" where
  "matchRepo_ListByGroup s gid = sort_by match_less (mvals_if (\<lambda>k. fst k = gid) (matches s))"

text \<open>\<open>out[id]++\<close> on a map of counters.\<close>

definition bump :: "i64 \<Rightarrow> (i64, int) gomap \<Rightarrow> (i64, int) gomap" where
  "bump k m = mput k ((case mget m k of None \<Rightarrow> 0 | Some n \<Rightarrow> n) + 1) m"

fun count_players :: "Match list \<Rightarrow> (i64, int) gomap \<Rightarrow> (i64, int) gomap" where
  "count_players [] out = out"
| "count_players (m # ms) out =
     (if m_Status m = MatchStatusUndone then count_players ms out
      else count_players ms (bump (m_Player2ID m) (bump (m_Player1ID m) out)))"

definition matchRepo_CountsByPlayer :: "memstore \<Rightarrow> i64 \<Rightarrow> (i64, int) gomap" where
  "matchRepo_CountsByPlayer s gid = count_players (mvals_if (\<lambda>k. fst k = gid) (matches s)) []"

text \<open>\<open>time.Since\<close> reads the wall clock, not the injected \<open>Config.Now\<close>: it is a parameter.\<close>

definition pending_expired :: "(Group \<Rightarrow> bool) \<Rightarrow> time \<Rightarrow> memstore \<Rightarrow> Match \<Rightarrow> bool" where
  "pending_expired before wall s m \<longleftrightarrow>
     m_Status m = MatchStatusPending \<and>
     (case mget (groups s) (m_GroupID m) of
        None \<Rightarrow> False
      | Some g \<Rightarrow> before g \<and> ConfirmationTimeout g < time_Sub wall (m_CreatedAt m))"

definition matchRepo_ListPendingExpired :: "(Group \<Rightarrow> bool) \<Rightarrow> time \<Rightarrow> memstore \<Rightarrow> Match list" where
  "matchRepo_ListPendingExpired before wall s =
     filter (pending_expired before wall s) (map snd (matches s))"

subsection \<open>Confirmations and undo commands\<close>

definition conf_key :: "MatchConfirmation \<Rightarrow> i64 \<times> u64 \<times> i64" where
  "conf_key c = (c_GroupID c, c_MatchID c, c_TelegramID c)"

definition confirmRepo_Insert :: "MatchConfirmation \<Rightarrow> memstore \<Rightarrow> memstore" where
  "confirmRepo_Insert c s = s\<lparr>confirmations := mput (conf_key c) c (confirmations s)\<rparr>"

definition confirmRepo_ListForMatch :: "memstore \<Rightarrow> i64 \<times> u64 \<Rightarrow> MatchConfirmation list" where
  "confirmRepo_ListForMatch s k = mvals_if (for_match k) (confirmations s)"

definition confirmRepo_DeleteForMatch :: "i64 \<times> u64 \<Rightarrow> memstore \<Rightarrow> memstore" where
  "confirmRepo_DeleteForMatch k s = s\<lparr>confirmations := mdel_if (for_match k) (confirmations s)\<rparr>"

definition undo_key :: "UndoCommand \<Rightarrow> i64 \<times> u64 \<times> i64" where
  "undo_key u = (u_GroupID u, u_MatchID u, u_TelegramID u)"

definition undoRepo_Insert :: "UndoCommand \<Rightarrow> memstore \<Rightarrow> memstore" where
  "undoRepo_Insert u s = s\<lparr>undos := mput (undo_key u) u (undos s)\<rparr>"

definition undoRepo_Delete :: "i64 \<times> u64 \<times> i64 \<Rightarrow> memstore \<Rightarrow> store_error option \<times> memstore" where
  "undoRepo_Delete k s =
     (case mget (undos s) k of
        None \<Rightarrow> (Some ErrNotFound, s)
      | Some _ \<Rightarrow> (None, s\<lparr>undos := mdel k (undos s)\<rparr>))"

definition undoRepo_DeleteForMatch :: "i64 \<times> u64 \<Rightarrow> memstore \<Rightarrow> memstore" where
  "undoRepo_DeleteForMatch k s = s\<lparr>undos := mdel_if (for_match k) (undos s)\<rparr>"

definition undoRepo_ListForMatch :: "memstore \<Rightarrow> i64 \<times> u64 \<Rightarrow> UndoCommand list" where
  "undoRepo_ListForMatch s k = mvals_if (for_match k) (undos s)"

definition undoRepo_ListExpired :: "memstore \<Rightarrow> int \<Rightarrow> UndoCommand list" where
  "undoRepo_ListExpired s cutoffNanos =
     filter (\<lambda>u. UnixNano (u_RequestedAt u) < cutoffNanos) (map snd (undos s))"

subsection \<open>Settings and the durable nickname cache\<close>

definition settingsRepo_Get :: "memstore \<Rightarrow> string \<Rightarrow> store_error + BotSetting" where
  "settingsRepo_Get s k = get_or ErrNotFound (settings s) k"

definition settingsRepo_Set :: "time \<Rightarrow> string \<Rightarrow> string \<Rightarrow> i64 \<Rightarrow> memstore \<Rightarrow> memstore" where
  "settingsRepo_Set wall k v by s =
     s\<lparr>settings := mput k \<lparr>s_Key = k, s_Value = v, s_UpdatedAt = wall, s_UpdatedBy = by\<rparr> (settings s)\<rparr>"

definition nickCacheRepo_Get :: "memstore \<Rightarrow> i64 \<Rightarrow> store_error + S21NickCacheEntry" where
  "nickCacheRepo_Get s k = get_or ErrNotFound (nickCache s) k"

definition nickCacheRepo_Upsert :: "S21NickCacheEntry \<Rightarrow> memstore \<Rightarrow> memstore" where
  "nickCacheRepo_Upsert e s = s\<lparr>nickCache := mput (n_TelegramID e) e (nickCache s)\<rparr>"

lemmas repo_get_defs =
  participantRepo_Get_def adminRepo_Get_def s21AccountRepo_Get_def groupRepo_Get_def
  matchRepo_Get_def settingsRepo_Get_def nickCacheRepo_Get_def

lemmas repo_put_defs =
  participantRepo_Upsert_def adminRepo_Upsert_def s21AccountRepo_Upsert_def
  s21AccountRepo_Delete_def groupRepo_Upsert_def confirmRepo_Insert_def undoRepo_Insert_def
  nickCacheRepo_Upsert_def settingsRepo_Set_def confirmRepo_DeleteForMatch_def
  undoRepo_DeleteForMatch_def PutMatch_def insertMatch_def

section \<open>Well-formed stores\<close>

text \<open>
  Keys are distinct and are the ids of the row they lead to; match ids lie between 1 and the
  group's counter; confirmations and undo commands belong to stored matches.
\<close>

definition keyed :: "('v \<Rightarrow> 'k) \<Rightarrow> ('k, 'v) gomap \<Rightarrow> bool" where
  "keyed key m \<longleftrightarrow> (\<forall>k v. mget m k = Some v \<longrightarrow> key v = k)"

lemma keyed_Nil [simp]: "keyed key []"
  by (simp add: keyed_def)

lemma keyed_mput [intro]: "keyed key m \<Longrightarrow> key v = k \<Longrightarrow> keyed key (mput k v m)"
  by (simp add: keyed_def)

lemma keyed_mdel [intro]: "keyed key m \<Longrightarrow> keyed key (mdel k m)"
  by (simp add: keyed_def)

lemma keyed_mdel_if [intro]: "keyed key m \<Longrightarrow> keyed key (mdel_if p m)"
  by (simp add: keyed_def)

lemma keyedD: "keyed key m \<Longrightarrow> mget m k = Some v \<Longrightarrow> key v = k"
  by (simp add: keyed_def)

definition match_key :: "Match \<Rightarrow> i64 \<times> u64" where
  "match_key m = (m_GroupID m, m_MatchID m)"

definition counter_in :: "(i64, u64) gomap \<Rightarrow> i64 \<Rightarrow> u64" where
  "counter_in cs g = (case mget cs g of None \<Rightarrow> 0 | Some n \<Rightarrow> n)"

lemma counter_counter_in: "counter s = counter_in (matchCounters s)"
  by (simp add: counter_def counter_in_def fun_eq_iff)

definition ids_bounded :: "(i64 \<times> u64, Match) gomap \<Rightarrow> (i64, u64) gomap \<Rightarrow> bool" where
  "ids_bounded ms cs \<longleftrightarrow> (\<forall>g i. mget ms (g, i) \<noteq> None \<longrightarrow> 0 < i \<and> i \<le> counter_in cs g)"

lemma ids_boundedI:
  "(\<And>g i m. mget ms (g, i) = Some m \<Longrightarrow> 0 < i \<and> i \<le> counter_in cs g) \<Longrightarrow> ids_bounded ms cs"
  unfolding ids_bounded_def by blast

lemma ids_boundedD:
  "ids_bounded ms cs \<Longrightarrow> mget ms (g, i) = Some m \<Longrightarrow> 0 < i \<and> i \<le> counter_in cs g"
  unfolding ids_bounded_def by blast

definition refers :: "(i64 \<times> u64 \<times> i64, 'v) gomap \<Rightarrow> (i64 \<times> u64, Match) gomap \<Rightarrow> bool" where
  "refers c ms \<longleftrightarrow> (\<forall>g i u. mget c (g, i, u) \<noteq> None \<longrightarrow> mget ms (g, i) \<noteq> None)"

lemma refersI:
  "(\<And>g i u v. mget c (g, i, u) = Some v \<Longrightarrow> \<exists>m. mget ms (g, i) = Some m) \<Longrightarrow> refers c ms"
  unfolding refers_def by blast

lemma refersD:
  "refers c ms \<Longrightarrow> mget c (g, i, u) = Some v \<Longrightarrow> \<exists>m. mget ms (g, i) = Some m"
  unfolding refers_def by blast

lemma refers_Nil [simp]: "refers [] ms"
  by (simp add: refers_def)

lemma refers_mput [intro]: "refers c ms \<Longrightarrow> mget ms (g, i) = Some m \<Longrightarrow> refers (mput (g, i, u) v c) ms"
  by (rule refersI) (auto split: if_splits dest: refersD)

lemma refers_mdel [intro]: "refers c ms \<Longrightarrow> refers (mdel k c) ms"
  by (rule refersI) (auto split: if_splits dest: refersD)

lemma refers_mdel_if [intro]: "refers c ms \<Longrightarrow> refers (mdel_if p c) ms"
  by (rule refersI) (auto split: if_splits dest: refersD)

lemma refers_match_mput [intro]: "refers c ms \<Longrightarrow> refers c (mput k m ms)"
  by (rule refersI) (auto dest: refersD)

lemma refers_match_mdel [intro]: "refers c ms \<Longrightarrow> refers (mdel_if (for_match k) c) (mdel k ms)"
  by (rule refersI) (auto simp: for_match_def split: if_splits dest: refersD)

lemma ids_bounded_mput_old [intro]:
  "ids_bounded ms cs \<Longrightarrow> mget ms k = Some m' \<Longrightarrow> ids_bounded (mput k m ms) cs"
  by (rule ids_boundedI) (auto split: if_splits dest: ids_boundedD)

lemma ids_bounded_mdel [intro]: "ids_bounded ms cs \<Longrightarrow> ids_bounded (mdel k ms) cs"
  by (rule ids_boundedI) (auto split: if_splits dest: ids_boundedD)

definition part_key :: "Participant \<Rightarrow> i64 \<times> i64" where
  "part_key p = (p_GroupID p, p_TelegramID p)"

definition wf_store :: "memstore \<Rightarrow> bool" where
  "wf_store s \<longleftrightarrow>
     wf_map (matches s) \<and> wf_map (confirmations s) \<and> wf_map (undos s) \<and> wf_map (groups s) \<and>
     wf_map (s21Accounts s) \<and> wf_map (participants s) \<and>
     keyed match_key (matches s) \<and> keyed conf_key (confirmations s) \<and> keyed undo_key (undos s) \<and>
     keyed g_GroupID (groups s) \<and> keyed part_key (participants s) \<and> keyed acc_TelegramID (s21Accounts s) \<and>
     ids_bounded (matches s) (matchCounters s) \<and>
     refers (confirmations s) (matches s) \<and> refers (undos s) (matches s)"

lemma wf_store_New [wf_intros]: "wf_store memstore_New"
  by (simp add: wf_store_def memstore_New_def ids_bounded_def)

text \<open>The group's counter has not reached the last \<open>uint64\<close>.\<close>

definition room_for_match :: "i64 \<Rightarrow> memstore \<Rightarrow> bool" where
  "room_for_match g s \<longleftrightarrow>
     ids_bounded (matches s) (matchCounters s) \<and> counter s g \<noteq> - 1"

lemma u64_succ_greater [simp]: "(n :: u64) \<noteq> - 1 \<Longrightarrow> n < n + 1"
proof -
  assume "n \<noteq> - 1"
  then have "1 + n \<noteq> 0" by (metis add_eq_0_iff)
  then have "unat (1 + n) = Suc (unat n)" by (rule unatSuc)
  then show "n < n + 1" by (simp add: word_less_nat_alt add.commute)
qed

section \<open>Interpretations of the repository contracts\<close>

interpretation participant_repo:
  repo participantRepo_Get participantRepo_Upsert "\<lambda>p. (p_GroupID p, p_TelegramID p)"
  by unfold_locales (simp add: repo_get_defs repo_put_defs)

interpretation admin_repo: repo adminRepo_Get adminRepo_Upsert a_TelegramID
  by unfold_locales (simp add: repo_get_defs repo_put_defs)

interpretation group_repo: repo groupRepo_Get groupRepo_Upsert g_GroupID
  by unfold_locales (simp add: repo_get_defs repo_put_defs)

interpretation nick_repo: repo nickCacheRepo_Get nickCacheRepo_Upsert n_TelegramID
  by unfold_locales (simp add: repo_get_defs repo_put_defs)

interpretation account_repo:
  deletable_repo s21AccountRepo_Get s21AccountRepo_Upsert acc_TelegramID s21AccountRepo_Delete ErrNotFound
  by unfold_locales (simp_all add: repo_get_defs repo_put_defs)

interpretation confirm_repo:
  repo "\<lambda>s. get_or ErrNotFound (confirmations s)" confirmRepo_Insert conf_key
  by unfold_locales (simp add: repo_put_defs)

interpretation undo_repo:
  deletable_repo "\<lambda>s. get_or ErrNotFound (undos s)" undoRepo_Insert undo_key
    "\<lambda>k s. snd (undoRepo_Delete k s)" ErrNotFound
  by unfold_locales (auto simp: repo_put_defs undoRepo_Delete_def get_or_def split: option.splits)

interpretation matches_repo:
  match_repo matchRepo_Get AllocateAndInsertMatch
    "\<lambda>k st s. snd (matchRepo_UpdateStatus k st s)" "\<lambda>k s. snd (matchRepo_Delete k s)" room_for_match
proof unfold_locales
  fix b g and s :: memstore and i s' k
  assume "\<And>i. m_GroupID (b i) = g" "AllocateAndInsertMatch g b s = (i, s')"
  then show "matchRepo_Get s' k =
      (if k = (g, i) then Inr ((b i)\<lparr>m_MatchID := i\<rparr>) else matchRepo_Get s k)"
    by (auto simp: AllocateAndInsertMatch_def matchRepo_Get_def Let_def)
next
  fix s :: memstore and g b i s'
  assume ok: "room_for_match g s" and al: "AllocateAndInsertMatch g b s = (i, s')"
  then have "i = counter s g + 1" by (simp add: AllocateAndInsertMatch_def Let_def)
  moreover have "counter s g < counter s g + 1"
    using ok by (intro u64_succ_greater) (simp add: room_for_match_def)
  ultimately have "mget (matches s) (g, i) = None"
    using ok unfolding room_for_match_def ids_bounded_def counter_counter_in by (metis not_le)
  then show "matchRepo_Get s (g, i) = Inl ErrNotFound" by (simp add: matchRepo_Get_def)
next
  fix k st and s :: memstore and k'
  show "matchRepo_Get (snd (matchRepo_UpdateStatus k st s)) k' =
     (if k' = k then (case matchRepo_Get s k of Inl e \<Rightarrow> Inl e | Inr m \<Rightarrow> Inr (m\<lparr>m_Status := st\<rparr>))
      else matchRepo_Get s k')"
    by (auto simp: matchRepo_UpdateStatus_def matchRepo_Get_def get_or_def split: option.splits)
next
  fix k and s :: memstore and k'
  show "matchRepo_Get (snd (matchRepo_Delete k s)) k' =
     (if k' = k then Inl ErrNotFound else matchRepo_Get s k')"
    by (auto simp: matchRepo_Delete_def matchRepo_Get_def get_or_def split: option.splits)
qed

section \<open>Orders of the listings\<close>

interpretation match_order: sort_less_lex
  "\<lambda>a b. m_PlayedAt a < m_PlayedAt b" "\<lambda>a b. m_MatchID a < m_MatchID b"
  by (rule sort_less_lex.intro) (rule sort_less_key_up)+

lemma match_less_lex:
  "match_less = lex_less (\<lambda>a b. m_PlayedAt a < m_PlayedAt b) (\<lambda>a b. m_MatchID a < m_MatchID b)"
  by (auto simp: match_less_def lex_less_def fun_eq_iff)

interpretation match_sort: sort_less match_less
  unfolding match_less_lex by (rule match_order.lex.sort_less_axioms)

interpretation account_sort: sort_less account_less
proof -
  have "account_less = lex_less (\<lambda>a b. acc_CreatedAt a < acc_CreatedAt b)
      (\<lambda>a b. sint (acc_TelegramID a) < sint (acc_TelegramID b))"
    by (auto simp: account_less_def lex_less_def fun_eq_iff)
  then show "sort_less account_less"
    by (rule ssubst) (intro sort_less_lexI sort_less_key_up)
qed

interpretation admin_sort: sort_less admin_less
proof -
  have "admin_less = (\<lambda>a b. sint (a_TelegramID a) < sint (a_TelegramID b))"
    by (simp add: fun_eq_iff admin_less_def)
  then show "sort_less admin_less" by (rule ssubst) (rule sort_less_key_up)
qed

end
