(* ===== verification/MemstoreProps.thy ===== *)
theory MemstoreProps
  imports Memstore
begin

text \<open>
  What the in-memory store keeps and returns: every operation preserves \<open>wf_store\<close>; id
  allocation is fresh and sequential; deletion cascades to confirmations and undo commands;
  the listings are sorted, complete and independent of the map's iteration order.
\<close>

section \<open>Preservation of well-formedness\<close>

lemma wf_participantRepo_Upsert [wf_intros]: "wf_store s \<Longrightarrow> wf_store (participantRepo_Upsert p s)"
  by (auto simp: wf_store_def repo_put_defs part_key_def)

lemma wf_adminRepo_Upsert [wf_intros]: "wf_store s \<Longrightarrow> wf_store (adminRepo_Upsert p s)"
  by (auto simp: wf_store_def repo_put_defs)

lemma wf_s21AccountRepo_Upsert [wf_intros]: "wf_store s \<Longrightarrow> wf_store (s21AccountRepo_Upsert p s)"
  by (auto simp: wf_store_def repo_put_defs)

lemma wf_s21AccountRepo_Delete [wf_intros]: "wf_store s \<Longrightarrow> wf_store (s21AccountRepo_Delete t s)"
  by (auto simp: wf_store_def repo_put_defs)

lemma wf_nickCacheRepo_Upsert [wf_intros]: "wf_store s \<Longrightarrow> wf_store (nickCacheRepo_Upsert p s)"
  by (auto simp: wf_store_def repo_put_defs)

lemma wf_settingsRepo_Set [wf_intros]: "wf_store s \<Longrightarrow> wf_store (settingsRepo_Set t k v b s)"
  by (auto simp: wf_store_def repo_put_defs)

lemma wf_groupRepo_Upsert [wf_intros]: "wf_store s \<Longrightarrow> wf_store (groupRepo_Upsert g s)"
  by (auto simp: wf_store_def repo_put_defs)

lemma wf_confirmRepo_DeleteForMatch [wf_intros]: "wf_store s \<Longrightarrow> wf_store (confirmRepo_DeleteForMatch k s)"
  by (auto simp: wf_store_def repo_put_defs)

lemma wf_undoRepo_DeleteForMatch [wf_intros]: "wf_store s \<Longrightarrow> wf_store (undoRepo_DeleteForMatch k s)"
  by (auto simp: wf_store_def repo_put_defs)

lemma wf_confirmRepo_Insert [wf_intros]:
  "wf_store s \<Longrightarrow> mget (matches s) (c_GroupID c, c_MatchID c) \<noteq> None \<Longrightarrow>
     wf_store (confirmRepo_Insert c s)"
  by (auto simp: wf_store_def repo_put_defs conf_key_def)

lemma wf_undoRepo_Insert [wf_intros]:
  "wf_store s \<Longrightarrow> mget (matches s) (u_GroupID u, u_MatchID u) \<noteq> None \<Longrightarrow>
     wf_store (undoRepo_Insert u s)"
  by (auto simp: wf_store_def repo_put_defs undo_key_def)

lemma wf_undoRepo_Delete [wf_intros]: "wf_store s \<Longrightarrow> wf_store (snd (undoRepo_Delete k s))"
  by (auto simp: undoRepo_Delete_def wf_store_def split: option.split)

lemma wf_matchRepo_UpdateStatus [wf_intros]:
  assumes "wf_store s"
  shows "wf_store (snd (matchRepo_UpdateStatus k st s))"
proof (cases "mget (matches s) k")
  case None
  with assms show ?thesis by (simp add: matchRepo_UpdateStatus_def)
next
  case (Some m)
  moreover have "match_key m = k" using assms Some by (auto simp: wf_store_def dest: keyedD)
  ultimately show ?thesis
    using assms by (auto simp: matchRepo_UpdateStatus_def wf_store_def match_key_def)
qed

lemma wf_matchRepo_Delete [wf_intros]: "wf_store s \<Longrightarrow> wf_store (snd (matchRepo_Delete k s))"
  by (auto simp: matchRepo_Delete_def wf_store_def split: option.split)

lemma ids_bounded_alloc:
  assumes "ids_bounded ms cs" and "counter_in cs g \<noteq> - 1"
  shows "ids_bounded (mput (g, counter_in cs g + 1) m ms) (mput g (counter_in cs g + 1) cs)"
proof -
  let ?n = "counter_in cs g"
  have lt: "?n < ?n + 1" using assms(2) by simp
  then have "0 < ?n + 1" by (rule order.strict_trans1 [OF word_zero_le])
  moreover have "i \<le> ?n + 1" if "i \<le> ?n" for i using that lt by (rule order_trans [OF _ less_imp_le])
  moreover have "counter_in (mput g (?n + 1) cs) h = (if h = g then ?n + 1 else counter_in cs h)" for h
    by (simp add: counter_in_def)
  ultimately show ?thesis
    using ids_boundedD [OF assms(1)] by (intro ids_boundedI) (auto split: if_splits)
qed

lemma wf_PutMatchExt [wf_intros]:
  assumes "wf_store s" and "0 < m_MatchID m" and "m_MatchID m \<le> counter s (m_GroupID m)"
  shows "wf_store (PutMatchExt m s)"
proof -
  let ?ms = "mput (m_GroupID m, m_MatchID m) m (matches s)"
  have "ids_bounded ?ms (matchCounters s)"
    using assms by (intro ids_boundedI) (auto simp: wf_store_def counter_counter_in dest: ids_boundedD split: if_splits)
  moreover have "keyed match_key ?ms"
    using assms(1) by (simp add: wf_store_def keyed_mput match_key_def)
  ultimately show ?thesis
    using assms(1) by (simp add: wf_store_def PutMatchExt_def insertMatch_def refers_match_mput)
qed

text \<open>A row put above the counter is replaced by the allocation of its id.\<close>

lemma PutMatchExt_overwritten:
  assumes "m_GroupID m = g" and "m_MatchID m = counter s g + 1" and "\<And>i. m_GroupID (b i) = g"
  shows "mget (matches (snd (AllocateAndInsertMatch g b (PutMatchExt m s)))) (g, m_MatchID m) =
    Some ((b (m_MatchID m))\<lparr>m_MatchID := m_MatchID m\<rparr>)"
  using assms by (simp add: AllocateAndInsertMatch_def PutMatchExt_def insertMatch_def counter_def Let_def)

lemma wf_AllocateAndInsertMatch [wf_intros]:
  assumes wf: "wf_store s" and b: "\<And>i. m_GroupID (b i) = g" and room: "counter s g \<noteq> - 1"
  shows "wf_store (snd (AllocateAndInsertMatch g b s))"
  using wf room b
  by (auto simp: AllocateAndInsertMatch_def Let_def wf_store_def counter_counter_in match_key_def
      intro!: ids_bounded_alloc)

section \<open>Match allocation and deletion\<close>

text \<open>Allocating a match takes the next id of the group, which no row of the group has, stores
  exactly the built row under it and leaves every other row and every other group's
  counter as it was.\<close>

theorem AllocateAndInsertMatch_fresh:
  assumes "wf_store s" and "counter s g \<noteq> - 1" and "\<And>i. m_GroupID (b i) = g"
    and "AllocateAndInsertMatch g b s = (i, s')"
  shows "i = counter s g + 1 \<and> matchRepo_Get s (g, i) = Inl ErrNotFound
    \<and> matchRepo_Get s' (g, i) = Inr ((b i)\<lparr>m_MatchID := i\<rparr>)
    \<and> (\<forall>k. k \<noteq> (g, i) \<longrightarrow> matchRepo_Get s' k = matchRepo_Get s k)
    \<and> counter s' g = i \<and> (\<forall>h. h \<noteq> g \<longrightarrow> counter s' h = counter s h)"
proof -
  have room: "room_for_match g s"
    using assms(1,2) by (simp add: room_for_match_def wf_store_def)
  have "i = counter s g + 1" "counter s' g = i" "\<forall>h. h \<noteq> g \<longrightarrow> counter s' h = counter s h"
    using assms(4) by (auto simp: AllocateAndInsertMatch_def Let_def counter_def)
  moreover have "matchRepo_Get s (g, i) = Inl ErrNotFound"
    using room assms(4) by (rule matches_repo.alloc_fresh)
  moreover have "matchRepo_Get s' k =
      (if k = (g, i) then Inr ((b i)\<lparr>m_MatchID := i\<rparr>) else matchRepo_Get s k)" for k
    using assms(3,4) by (rule matches_repo.get_alloc)
  ultimately show ?thesis by simp
qed

definition example_match :: "u64 \<Rightarrow> Match" where
  "example_match i = \<lparr>m_GroupID = 7, m_MatchID = i, m_Player1ID = 100, m_Player2ID = 200,
     m_Player1Score = 3, m_Player2Score = 1, m_RegisteredBy = 100,
     m_Status = MatchStatusPending, m_PlayedAt = 0, m_CreatedAt = 0\<rparr>"

theorem AllocateAndInsertMatch_fresh_witness:
  "matchRepo_Get (snd (AllocateAndInsertMatch 7 example_match memstore_New)) (7, 1)
     = Inr (example_match 1)"
proof -
  have c: "counter memstore_New 7 \<noteq> - 1" by (simp add: counter_def memstore_New_def)
  have g: "\<And>i. m_GroupID (example_match i) = 7" by (simp add: example_match_def)
  have al: "AllocateAndInsertMatch 7 example_match memstore_New =
      (1, snd (AllocateAndInsertMatch 7 example_match memstore_New))"
    by (simp add: AllocateAndInsertMatch_def counter_def memstore_New_def Let_def)
  have e: "(example_match 1)\<lparr>m_MatchID := 1\<rparr> = example_match 1" by (simp add: example_match_def)
  from AllocateAndInsertMatch_fresh [OF wf_store_New c g al] show ?thesis unfolding e by blast
qed

text \<open>Deleting a match removes its row, all its confirmations and all its undo commands, and
  nothing else; deleting an absent match reports \<open>ErrNotFound\<close> and changes nothing.\<close>

theorem matchRepo_Delete_cascades:
  "matchRepo_Delete k s =
     (if mget (matches s) k = None then (Some ErrNotFound, s) else (None, snd (matchRepo_Delete k s)))
   \<and> (mget (matches s) k \<noteq> None \<longrightarrow>
       (let s' = snd (matchRepo_Delete k s) in
        (\<forall>k'. mget (matches s') k' = (if k' = k then None else mget (matches s) k'))
      \<and> (\<forall>g i u. mget (confirmations s') (g, i, u) =
           (if (g, i) = k then None else mget (confirmations s) (g, i, u)))
      \<and> (\<forall>g i u. mget (undos s') (g, i, u) =
           (if (g, i) = k then None else mget (undos s) (g, i, u)))
      \<and> groups s' = groups s \<and> participants s' = participants s \<and> matchCounters s' = matchCounters s))"
  by (cases "mget (matches s) k") (auto simp: matchRepo_Delete_def for_match_def Let_def)

theorem matchRepo_Delete_cascades_witness:
  "mget (matches (snd (matchRepo_Delete (7, 1) (PutMatch (example_match 1) memstore_New)))) (7, 1) = None"
proof -
  have "mget (matches (PutMatch (example_match 1) memstore_New)) (7, 1) \<noteq> None"
    by (simp add: PutMatch_def insertMatch_def example_match_def memstore_New_def)
  then show ?thesis
    using matchRepo_Delete_cascades [of "(7, 1)" "PutMatch (example_match 1) memstore_New"]
    by (auto simp: Let_def)
qed

section \<open>Listings\<close>

lemma mset_map_values:
  assumes "mset m = mset m'"
  shows "mset (map snd m) = mset (map snd m')"
  using assms by (metis mset_map)

lemma distinct_mvals_if:
  assumes "wf_map m" and "keyed key m"
  shows "distinct (mvals_if p m)"
proof -
  have "map key (mvals_if p m) = map fst (filter (\<lambda>(k, v). p k) m)"
    using assms by (auto simp: mvals_if_def keyed_def wf_map_get_iff)
  moreover have "distinct (map fst (filter (\<lambda>(k, v). p k) m))"
    using assms(1) unfolding wf_map_def by (rule distinct_map_filter)
  ultimately show ?thesis by (metis distinct_map)
qed

text \<open>The group's match listing is exactly the rows of that group, ordered by \<open>PlayedAt\<close> and then
  by id; it does not depend on the order in which the Go map is iterated.\<close>

theorem matchRepo_ListByGroup_sorted:
  assumes "wf_store s"
  shows "set (matchRepo_ListByGroup s g) = {m. \<exists>i. mget (matches s) (g, i) = Some m}
    \<and> distinct (matchRepo_ListByGroup s g)
    \<and> sorted_wrt (\<lambda>a b. m_PlayedAt a < m_PlayedAt b
        \<or> m_PlayedAt a = m_PlayedAt b \<and> m_MatchID a \<le> m_MatchID b) (matchRepo_ListByGroup s g)
    \<and> (\<forall>ms. mset ms = mset (matches s) \<longrightarrow>
         matchRepo_ListByGroup (s\<lparr>matches := ms\<rparr>) g = matchRepo_ListByGroup s g)"
proof (intro conjI allI impI)
  have wf: "wf_map (matches s)" "keyed match_key (matches s)"
    using assms by (simp_all add: wf_store_def)
  let ?rows = "mvals_if (\<lambda>k. fst k = g) (matches s)"
  have rows_key: "mget (matches s) (g, m_MatchID a) = Some a" if "a \<in> set ?rows" for a
    using that wf(1) keyedD [OF wf(2)] by (auto simp: mvals_if_iff match_key_def)
  show "set (matchRepo_ListByGroup s g) = {m. \<exists>i. mget (matches s) (g, i) = Some m}"
    using wf(1) by (auto simp: matchRepo_ListByGroup_def mvals_if_iff)
  have inj: "a = b" if "a \<in> set ?rows" "b \<in> set ?rows" "m_MatchID a = m_MatchID b" for a b
    using that rows_key by (metis option.inject)
  have "distinct ?rows"
    using wf by (rule distinct_mvals_if)
  then show "distinct (matchRepo_ListByGroup s g)" by (simp add: matchRepo_ListByGroup_def)
  have "sorted_wrt (\<lambda>a b. \<not> match_less b a) (matchRepo_ListByGroup s g)"
    unfolding matchRepo_ListByGroup_def by (rule match_sort.sorted_sort_by)
  then show "sorted_wrt (\<lambda>a b. m_PlayedAt a < m_PlayedAt b
        \<or> m_PlayedAt a = m_PlayedAt b \<and> m_MatchID a \<le> m_MatchID b) (matchRepo_ListByGroup s g)"
    by (rule sorted_wrt_mono_rel [rotated]) (auto simp: match_less_def split: if_splits)
  fix ms
  assume ms: "mset ms = mset (matches s)"
  show "matchRepo_ListByGroup (s\<lparr>matches := ms\<rparr>) g = matchRepo_ListByGroup s g"
    unfolding matchRepo_ListByGroup_def
  proof (rule match_sort.sort_by_unique [symmetric])
    show "mset ?rows = mset (mvals_if (\<lambda>k. fst k = g) (matches (s\<lparr>matches := ms\<rparr>)))"
      by (simp add: mset_mvals_if ms)
  qed (auto simp: match_less_def not_less split: if_splits intro: inj)
qed

theorem matchRepo_ListByGroup_sorted_witness:
  "set (matchRepo_ListByGroup memstore_New 7) = {}"
  using matchRepo_ListByGroup_sorted [OF wf_store_New, of 7] by (simp add: memstore_New_def)

lemma bump_value [simp]:
  "(case mget (bump k m) p of None \<Rightarrow> 0 | Some n \<Rightarrow> n) =
     (case mget m p of None \<Rightarrow> 0 | Some n \<Rightarrow> n) + of_bool (k = p)"
  by (simp add: bump_def)

lemma bump_None [simp]: "mget (bump k m) p = None \<longleftrightarrow> mget m p = None \<and> k \<noteq> p"
  by (simp add: bump_def)

lemma count_players_value:
  "(case mget (count_players ms out) p of None \<Rightarrow> 0 | Some n \<Rightarrow> n) =
     (case mget out p of None \<Rightarrow> 0 | Some n \<Rightarrow> n) +
     (\<Sum>m \<leftarrow> filter (\<lambda>m. m_Status m \<noteq> MatchStatusUndone) ms.
        of_bool (m_Player1ID m = p) + of_bool (m_Player2ID m = p))"
  by (induction ms arbitrary: out) simp_all

lemma count_players_None:
  "mget (count_players ms out) p = None \<longleftrightarrow> mget out p = None \<and>
     (\<forall>m \<in> set ms. m_Status m \<noteq> MatchStatusUndone \<longrightarrow> m_Player1ID m \<noteq> p \<and> m_Player2ID m \<noteq> p)"
  by (induction ms arbitrary: out) auto

text \<open>A player's match count is the number of his seats in matches of the group that are not
  UNDONE (PENDING ones included), and a player without one is absent from the map.\<close>

theorem matchRepo_CountsByPlayer_correct:
  "(case mget (matchRepo_CountsByPlayer s g) p of None \<Rightarrow> 0 | Some n \<Rightarrow> n) =
     (\<Sum>m \<leftarrow> filter (\<lambda>m. m_Status m \<noteq> MatchStatusUndone) (mvals_if (\<lambda>k. fst k = g) (matches s)).
        of_bool (m_Player1ID m = p) + of_bool (m_Player2ID m = p))
   \<and> (mget (matchRepo_CountsByPlayer s g) p = None \<longleftrightarrow>
      (\<forall>m \<in> set (mvals_if (\<lambda>k. fst k = g) (matches s)).
        m_Status m \<noteq> MatchStatusUndone \<longrightarrow> m_Player1ID m \<noteq> p \<and> m_Player2ID m \<noteq> p))"
  unfolding matchRepo_CountsByPlayer_def count_players_value count_players_None by simp

section \<open>Expired matches and account order\<close>

lemma stored_value_iff:
  assumes "wf_map m" and "keyed key m"
  shows "v \<in> snd ` set m \<longleftrightarrow> mget m (key v) = Some v"
proof
  assume "v \<in> snd ` set m"
  then obtain k where "(k, v) \<in> set m" by auto
  then have "mget m k = Some v" using assms(1) by (simp add: wf_map_get_iff)
  then show "mget m (key v) = Some v" using keyedD [OF assms(2)] by blast
next
  assume "mget m (key v) = Some v"
  then have "(key v, v) \<in> set m" by (rule map_of_SomeD)
  then show "v \<in> snd ` set m" by force
qed

lemma ConfirmationTimeout_range:
  "- (2 ^ 63) \<le> ConfirmationTimeout g \<and> ConfirmationTimeout g < 2 ^ 63"
  using wrap64_range [of "uint (g_ConfirmationTimeoutHours g) * hour"]
  by (auto simp: ConfirmationTimeout_def hour_def)

text \<open>The expired matches are exactly the stored PENDING matches of registered groups accepted by
  the filter whose age exceeds the group's timeout.\<close>

theorem matchRepo_ListPendingExpired_iff:
  assumes "wf_store s" and "\<And>g. before g"
    and "\<And>m. m \<in> snd ` set (matches s) \<Longrightarrow> \<bar>wall - m_CreatedAt m\<bar> < 2 ^ 63 - 1"
  shows "m \<in> set (matchRepo_ListPendingExpired before wall s) \<longleftrightarrow>
    mget (matches s) (match_key m) = Some m \<and> m_Status m = MatchStatusPending
    \<and> (\<exists>g. mget (groups s) (m_GroupID m) = Some g \<and> m_CreatedAt m + ConfirmationTimeout g < wall)"
proof -
  have "m \<in> snd ` set (matches s) \<longleftrightarrow> mget (matches s) (match_key m) = Some m"
    using assms(1) by (intro stored_value_iff) (simp_all add: wf_store_def)
  moreover have "ConfirmationTimeout g < time_Sub wall (m_CreatedAt m) \<longleftrightarrow>
      m_CreatedAt m + ConfirmationTimeout g < wall" if "m \<in> snd ` set (matches s)" for g
    using assms(3) [OF that] ConfirmationTimeout_range [of g] by (auto simp: time_Sub_def)
  ultimately show ?thesis
    using assms(2)
    by (auto simp: matchRepo_ListPendingExpired_def pending_expired_def split: option.splits)
qed

lemma account_less_total:
  assumes "\<not> account_less a b" and "\<not> account_less b a"
  shows "acc_TelegramID a = acc_TelegramID b"
proof (rule signed_word_eqI)
  show "sint (acc_TelegramID a) = sint (acc_TelegramID b)"
    using assms by (simp add: account_less_def split: if_splits)
qed

text \<open>The account listing holds every account once, the oldest login first, whatever the order of
  the Go map: the order the credential picker relies on.\<close>

theorem s21AccountRepo_List_oldest_first:
  assumes "wf_map (s21Accounts s)" and "keyed acc_TelegramID (s21Accounts s)"
  shows "mset (s21AccountRepo_List s) = image_mset snd (mset (s21Accounts s))
    \<and> sorted_wrt (\<lambda>a b. acc_CreatedAt a \<le> acc_CreatedAt b) (s21AccountRepo_List s)
    \<and> (\<forall>as. mset as = mset (s21Accounts s) \<longrightarrow>
         s21AccountRepo_List (s\<lparr>s21Accounts := as\<rparr>) = s21AccountRepo_List s)"
proof (intro conjI allI impI)
  show "mset (s21AccountRepo_List s) = image_mset snd (mset (s21Accounts s))"
    by (simp add: s21AccountRepo_List_def)
  have "sorted_wrt (\<lambda>a b. \<not> account_less b a) (s21AccountRepo_List s)"
    unfolding s21AccountRepo_List_def by (rule account_sort.sorted_sort_by)
  then show "sorted_wrt (\<lambda>a b. acc_CreatedAt a \<le> acc_CreatedAt b) (s21AccountRepo_List s)"
    by (rule sorted_wrt_mono_rel [rotated]) (auto simp: account_less_def split: if_splits)
  fix as
  assume as: "mset as = mset (s21Accounts s)"
  have key: "mget (s21Accounts s) (acc_TelegramID a) = Some a"
    if "a \<in> set (map snd (s21Accounts s))" for a
    using that stored_value_iff [OF assms] by simp
  show "s21AccountRepo_List (s\<lparr>s21Accounts := as\<rparr>) = s21AccountRepo_List s"
    unfolding s21AccountRepo_List_def
  proof (rule account_sort.sort_by_unique [symmetric])
    show "mset (map snd (s21Accounts s)) = mset (map snd (s21Accounts (s\<lparr>s21Accounts := as\<rparr>)))"
      using as by simp
    fix a b
    assume ab: "a \<in> set (map snd (s21Accounts s))" "b \<in> set (map snd (s21Accounts s))"
      and "\<not> account_less a b" "\<not> account_less b a"
    then have "acc_TelegramID a = acc_TelegramID b" by (intro account_less_total)
    then show "a = b" using key [OF ab(1)] key [OF ab(2)] by (metis option.inject)
  qed
qed

text \<open>Witnesses: a store with one pending match of one group, older than its timeout, and one account.\<close>

definition example_group :: Group where
  "example_group = zero_Group\<lparr>g_GroupID := 7, g_MatchesTopicID := 5, g_StatsTopicID := 6,
     g_ConfirmationTimeoutHours := 24\<rparr>"

definition example_store :: memstore where
  "example_store = groupRepo_Upsert example_group
     (snd (AllocateAndInsertMatch 7 example_match memstore_New))"

lemma example_store_eq:
  "example_store = memstore_New\<lparr>groups := [(7, example_group)],
     matches := [((7, 1), example_match 1)], matchCounters := [(7, 1)]\<rparr>"
  by (simp add: example_store_def groupRepo_Upsert_def AllocateAndInsertMatch_def counter_def
      memstore_New_def Let_def example_match_def example_group_def)

lemma wf_example_store [simp]: "wf_store example_store"
  by (simp add: example_store_eq wf_store_def memstore_New_def wf_map_def keyed_def match_key_def
      example_match_def example_group_def ids_bounded_def counter_in_def refers_def)

lemma matchRepo_CountsByPlayer_correct_witness:
  "(case mget (matchRepo_CountsByPlayer example_store 7) 100 of None \<Rightarrow> 0 | Some n \<Rightarrow> n) = 1
   \<and> mget (matchRepo_CountsByPlayer example_store 7) 55 = None"
  using matchRepo_CountsByPlayer_correct [of example_store 7 100]
    matchRepo_CountsByPlayer_correct [of example_store 7 55]
  by (simp add: example_store_eq memstore_New_def example_match_def mvals_if_def)

theorem matchRepo_ListPendingExpired_iff_witness:
  "example_match 1 \<in> set (matchRepo_ListPendingExpired (\<lambda>g. True) (25 * hour) example_store)"
proof -
  have "\<And>m. m \<in> snd ` set (matches example_store) \<Longrightarrow> \<bar>25 * hour - m_CreatedAt m\<bar> < 2 ^ 63 - 1"
    by (simp add: example_store_eq example_match_def hour_def)
  from matchRepo_ListPendingExpired_iff [OF wf_example_store _ this, of "\<lambda>g. True" "example_match 1"]
  show ?thesis
    by (simp add: example_store_eq example_match_def match_key_def example_group_def
        ConfirmationTimeout_def zero_Group_def hour_def wrap64_def)
qed

definition example_account :: "i64 \<Rightarrow> time \<Rightarrow> S21Account" where
  "example_account tid t = \<lparr>acc_TelegramID = tid, acc_S21Login = ''login'', acc_S21CredsEncrypted = ''x'',
     acc_CampusID = [], acc_CampusName = [], acc_CreatedAt = t, acc_UpdatedAt = t,
     acc_LastUsedAt = None, acc_S21CredsFailedAt = None, acc_S21CredsLastWarnedAt = None\<rparr>"

theorem s21AccountRepo_List_oldest_first_witness:
  "sorted_wrt (\<lambda>a b. acc_CreatedAt a \<le> acc_CreatedAt b) (s21AccountRepo_List
     (memstore_New\<lparr>s21Accounts := [(1, example_account 1 9), (2, example_account 2 4)]\<rparr>))"
proof -
  let ?s = "memstore_New\<lparr>s21Accounts := [(1, example_account 1 9), (2, example_account 2 4)]\<rparr>"
  have "wf_map (s21Accounts ?s)" "keyed acc_TelegramID (s21Accounts ?s)"
    by (simp_all add: wf_map_def keyed_def example_account_def)
  from s21AccountRepo_List_oldest_first [OF this] show ?thesis by blast
qed

end
