(* ===== verification/Messenger.thy ===== *)
theory Messenger
  imports GoText
begin

text \<open>
  Package \<open>messenger\<close> (\<open>pkg/messenger/messenger.go\<close>): the inbound update types and the
  interface the handlers call. A call of the interface is a value of \<open>mcall\<close>, one
  constructor per method with the method's arguments in order; what a messenger answers is
  an \<open>mresp\<close>. Errors keep their class (the sentinel \<open>errors.Is\<close> finds) and their text.
\<close>

section \<open>Inbound updates\<close>

record Chat =
  ch_ID :: i64
  ch_Type :: string
  ch_Title :: string
  ch_IsForum :: bool
  ch_Username :: string

record User =
  usr_ID :: i64
  usr_IsBot :: bool
  usr_Username :: string
  usr_FirstName :: string
  usr_LastName :: string

datatype Message = Message
  (msg_MessageID: i64)
  (msg_Chat: Chat)
  (msg_From: "User option")
  (msg_Text: string)
  (msg_MessageThreadID: i64)
  (msg_ReplyTo: "Message option")
  (msg_ForwardFrom: "User option")
  (msg_ForwardSenderName: string)

record CallbackQuery =
  cq_ID :: string
  cq_From :: "User option"
  cq_Message :: "Message option"
  cq_Data :: string

record ChatMember =
  cm_User :: "User option"
  cm_Status :: string

record ChatMemberUpdate =
  mu_Chat :: Chat
  mu_From :: "User option"
  mu_NewChatMember :: "ChatMember option"
  mu_OldChatMember :: "ChatMember option"

record Update =
  up_UpdateID :: i64
  up_Message :: "Message option"
  up_CallbackQuery :: "CallbackQuery option"
  up_MyChatMember :: "ChatMemberUpdate option"
  up_ChatMember :: "ChatMemberUpdate option"

section \<open>Errors, buttons and calls\<close>

record Button =
  b_Label :: string
  b_Callback :: string

definition mkButton :: "string \<Rightarrow> string \<Rightarrow> Button" where
  "mkButton l c = \<lparr>b_Label = l, b_Callback = c\<rparr>"

text \<open>The class of an error (the sentinels of the package, or any other) and its text.\<close>

datatype merr = ErrForbidden (merr_text: string) | ErrNotFoundM (merr_text: string)
  | ErrOther (merr_text: string)

definition errForbidden :: merr where
  "errForbidden = ErrForbidden ''messenger: forbidden''"

definition errNotFoundM :: merr where
  "errNotFoundM = ErrNotFoundM ''messenger: not found''"

datatype mcall =
    SendMessage i64 i64 string
  | SendMessageWithForceReply i64 string string
  | SendKeyboard i64 i64 string string string string string
  | SendInlineKeyboard i64 i64 string "Button list"
  | SendKeyboardGrid i64 i64 string "Button list list"
  | SendKeyboardGridHTML i64 i64 string "Button list list"
  | SendMessageWithForceReplyHTML i64 string string
  | EditMessage i64 i64 string
  | EditKeyboard i64 i64 string "Button list"
  | EditKeyboardGrid i64 i64 string "Button list list"
  | EditKeyboardGridHTML i64 i64 string "Button list list"
  | DeleteMessage i64 i64
  | PinMessage i64 i64
  | AnswerCallback string string
  | SendReaction i64 i64 string
  | LeaveChat i64
  | IsChatAdmin i64 i64
  | ResolveChatMemberUsername i64 i64

datatype mresp =
    RId "merr + i64"
  | RDone "merr option"
  | RBool "merr + bool"
  | RName "merr + string"

text \<open>Which kind of answer a method has.\<close>

fun answers :: "mcall \<Rightarrow> mresp \<Rightarrow> bool" where
  "answers (SendMessage _ _ _) (RId _) = True"
| "answers (SendMessageWithForceReply _ _ _) (RId _) = True"
| "answers (SendKeyboard _ _ _ _ _ _ _) (RId _) = True"
| "answers (SendInlineKeyboard _ _ _ _) (RId _) = True"
| "answers (SendKeyboardGrid _ _ _ _) (RId _) = True"
| "answers (SendKeyboardGridHTML _ _ _ _) (RId _) = True"
| "answers (SendMessageWithForceReplyHTML _ _ _) (RId _) = True"
| "answers (IsChatAdmin _ _) (RBool _) = True"
| "answers (ResolveChatMemberUsername _ _) (RName _) = True"
| "answers (SendMessage _ _ _) (RDone _) = False"
| "answers (SendMessageWithForceReply _ _ _) (RDone _) = False"
| "answers (SendKeyboard _ _ _ _ _ _ _) (RDone _) = False"
| "answers (SendInlineKeyboard _ _ _ _) (RDone _) = False"
| "answers (SendKeyboardGrid _ _ _ _) (RDone _) = False"
| "answers (SendKeyboardGridHTML _ _ _ _) (RDone _) = False"
| "answers (SendMessageWithForceReplyHTML _ _ _) (RDone _) = False"
| "answers (IsChatAdmin _ _) (RDone _) = False"
| "answers (ResolveChatMemberUsername _ _) (RDone _) = False"
| "answers _ (RDone _) = True"
| "answers _ _ = False"

section \<open>The interface\<close>

text \<open>
  What every client of the interface relies on: a call is logged once, after the calls
  before it, and its answer has the method's kind. Clients run sequences of calls.
\<close>

locale messenger =
  fixes entry :: "mcall \<Rightarrow> 'l"
    and sent :: "'s \<Rightarrow> 'l list"
    and invoke :: "mcall \<Rightarrow> 's \<Rightarrow> mresp \<times> 's"
  assumes sent_invoke: "sent (snd (invoke c s)) = sent s @ [entry c]"
    and answer_kind: "answers c (fst (invoke c s))"
begin

primrec invoke_all :: "mcall list \<Rightarrow> 's \<Rightarrow> mresp list \<times> 's" where
  "invoke_all [] s = ([], s)"
| "invoke_all (c # cs) s = (fst (invoke c s) # fst (invoke_all cs (snd (invoke c s))),
     snd (invoke_all cs (snd (invoke c s))))"

lemma sent_invoke_all: "sent (snd (invoke_all cs s)) = sent s @ map entry cs"
  by (induction cs arbitrary: s) (simp_all add: sent_invoke)

lemma answers_invoke_all: "list_all2 answers cs (fst (invoke_all cs s))"
  by (induction cs arbitrary: s) (simp_all add: answer_kind)

lemma invoke_all_append:
  "invoke_all (xs @ ys) s = (fst (invoke_all xs s) @ fst (invoke_all ys (snd (invoke_all xs s))),
     snd (invoke_all ys (snd (invoke_all xs s))))"
  by (induction xs arbitrary: s) simp_all

text \<open>A property that every single call keeps is kept by a sequence of calls.\<close>

lemma invoke_all_inv:
  assumes "I s" and "\<And>c s. c \<in> set cs \<Longrightarrow> I s \<Longrightarrow> I (snd (invoke c s))"
  shows "I (snd (invoke_all cs s))"
  using assms by (induction cs arbitrary: s) simp_all

end

section \<open>Header redaction\<close>

text \<open>
  \<open>pkg/messenger/redact.go\<close>. A Go \<open>http.Header\<close> is a map from names to lists of values, nil
  being \<open>None\<close>. \<open>out[k]\<close> is written once for each key of \<open>h\<close>.
\<close>

type_synonym header = "(string, string list) gomap"

definition sensitiveHeaderNames :: "string list" where
  "sensitiveHeaderNames = [''x-s21-token'', ''x-api-key'', ''authorization'', ''cookie'']"

definition isSensitiveHeader :: "string \<Rightarrow> bool" where
  "isSensitiveHeader name \<longleftrightarrow> ToLower name \<in> set sensitiveHeaderNames"

definition RedactHeaders :: "header option \<Rightarrow> header option" where
  "RedactHeaders h = (case h of None \<Rightarrow> None
     | Some m \<Rightarrow> Some (fold (\<lambda>(k, vs) out.
         if isSensitiveHeader k then mput k [''[REDACTED]''] out else mput k vs out) m []))"

lemma redact_fold:
  assumes "distinct (map fst m)"
  shows "mget (fold (\<lambda>(k, vs) out.
      if isSensitiveHeader k then mput k [''[REDACTED]''] out else mput k vs out) m out) n =
    (case mget m n of None \<Rightarrow> mget out n
      | Some vs \<Rightarrow> Some (if isSensitiveHeader n then [''[REDACTED]''] else vs))"
  using assms
proof (induction m arbitrary: out)
  case Nil
  then show ?case by simp
next
  case (Cons kv m)
  obtain k vs where kv: "kv = (k, vs)" by (cases kv)
  have fresh: "mget m k = None" using Cons.prems kv by (simp add: map_of_eq_None_iff)
  show ?case
    using Cons fresh by (cases "n = k") (auto simp: kv split: option.splits)
qed

text \<open>After redaction every sensitive header (in any letter case) has the single value
  \<open>[REDACTED]\<close>, every other header is unchanged, and no header appears or disappears.\<close>

theorem RedactHeaders_correct:
  assumes "wf_map m"
  shows "\<exists>out. RedactHeaders (Some m) = Some out \<and>
    (\<forall>n. mget out n = (case mget m n of None \<Rightarrow> None
       | Some vs \<Rightarrow> Some (if isSensitiveHeader n then [''[REDACTED]''] else vs)))"
proof -
  have d: "distinct (map fst m)" using assms by (simp add: wf_map_def)
  show ?thesis
    unfolding RedactHeaders_def option.case(2) option.inject ex_simps
    by (rule exI, rule conjI, rule refl) (simp add: redact_fold [OF d] split: option.splits)
qed

definition example_header :: header where
  "example_header = [(''X-Api-Key'', [''k1'', ''k2'']), (''Accept'', [''json''])]"

theorem RedactHeaders_correct_witness:
  "\<exists>out. RedactHeaders (Some example_header) = Some out \<and>
     mget out ''X-Api-Key'' = Some [''[REDACTED]''] \<and> mget out ''Accept'' = Some [''json'']"
proof -
  have "wf_map example_header" by (simp add: wf_map_def example_header_def)
  then obtain out where out: "RedactHeaders (Some example_header) = Some out"
    and val: "\<And>n. mget out n = (case mget example_header n of None \<Rightarrow> None
       | Some vs \<Rightarrow> Some (if isSensitiveHeader n then [''[REDACTED]''] else vs))"
    using RedactHeaders_correct by blast
  have "isSensitiveHeader ''X-Api-Key''" "\<not> isSensitiveHeader ''Accept''" by code_simp+
  then show ?thesis using out val by (simp add: example_header_def)
qed

end
