(* ===== verification/MessengerMock.thy ===== *)
theory MessengerMock
  imports Messenger
begin

text \<open>
  The recording messenger of \<open>pkg/messenger/mock.go\<close>: every method records a \<open>Call\<close>, takes
  the next message id and then consults the injected failures. The mutex makes each method
  atomic, so a method is one function on the record \<open>Mock\<close>. \<open>Mock_do\<close> is the method table;
  it interprets the messenger interface.
\<close>

section \<open>State\<close>

record Call =
  cl_Method :: string
  cl_ChatID :: i64
  cl_TopicID :: i64
  cl_MessageID :: i64
  cl_Text :: string
  cl_Buttons :: "Button list"
  cl_Emoji :: string
  cl_Callback :: string

definition zero_Call :: Call where
  "zero_Call = \<lparr>cl_Method = [], cl_ChatID = 0, cl_TopicID = 0, cl_MessageID = 0, cl_Text = [],
     cl_Buttons = [], cl_Emoji = [], cl_Callback = []\<rparr>"

text \<open>\<open>failures\<close> maps a method to the error of its next call (an injected error may be nil).\<close>

record Mock =
  mk_calls :: "Call list"
  mk_nextID :: i64
  mk_failures :: "(string, merr option) gomap"
  mk_failureChat :: "(string, i64) gomap"
  mk_chatAdmins :: "(i64 \<times> i64, bool) gomap"
  mk_chatMemberUsernames :: "(i64 \<times> i64, string) gomap"

definition NewMock :: Mock where
  "NewMock = \<lparr>mk_calls = [], mk_nextID = 0, mk_failures = [], mk_failureChat = [],
     mk_chatAdmins = [], mk_chatMemberUsernames = []\<rparr>"

definition CallsByMethod :: "string \<Rightarrow> Mock \<Rightarrow> Call list" where
  "CallsByMethod method k = filter (\<lambda>c. cl_Method c = method) (mk_calls k)"

definition LastCall :: "Mock \<Rightarrow> Call option" where
  "LastCall k = (if mk_calls k = [] then None else Some (last (mk_calls k)))"

definition Mock_Reset :: "Mock \<Rightarrow> Mock" where
  "Mock_Reset k = k\<lparr>mk_calls := [], mk_nextID := 0\<rparr>"

definition FailNext :: "string \<Rightarrow> merr option \<Rightarrow> Mock \<Rightarrow> Mock" where
  "FailNext method err k = k\<lparr>mk_failures := mput method err (mk_failures k)\<rparr>"

definition FailNextForChat :: "string \<Rightarrow> i64 \<Rightarrow> merr option \<Rightarrow> Mock \<Rightarrow> Mock" where
  "FailNextForChat method chat err k =
     k\<lparr>mk_failures := mput method err (mk_failures k),
       mk_failureChat := mput method chat (mk_failureChat k)\<rparr>"

definition SetChatAdmin :: "i64 \<Rightarrow> i64 \<Rightarrow> bool \<Rightarrow> Mock \<Rightarrow> Mock" where
  "SetChatAdmin chat user isAdmin k =
     k\<lparr>mk_chatAdmins := mput (chat, user) isAdmin (mk_chatAdmins k)\<rparr>"

definition SetChatMemberUsername :: "i64 \<Rightarrow> i64 \<Rightarrow> string \<Rightarrow> Mock \<Rightarrow> Mock" where
  "SetChatMemberUsername chat user name k =
     k\<lparr>mk_chatMemberUsernames := mput (chat, user) name (mk_chatMemberUsernames k)\<rparr>"

section \<open>Failure injection and recording\<close>

definition maybeFail :: "string \<Rightarrow> i64 \<Rightarrow> Mock \<Rightarrow> merr option \<times> Mock" where
  "maybeFail method chat k =
     (case mget (mk_failures k) method of
        None \<Rightarrow> (None, k)
      | Some err \<Rightarrow>
          (let want = mget (mk_failureChat k) method in
           if want = None \<or> want = Some chat
           then (err, k\<lparr>mk_failures := mdel method (mk_failures k),
                        mk_failureChat := mdel method (mk_failureChat k)\<rparr>)
           else (None, k)))"

definition Mock_record :: "Call \<Rightarrow> Mock \<Rightarrow> i64 \<times> Mock" where
  "Mock_record c k =
     (mk_nextID k + 1, k\<lparr>mk_calls := mk_calls k @ [c], mk_nextID := mk_nextID k + 1\<rparr>)"

fun flattenGrid :: "Button list list \<Rightarrow> Button list" where
  "flattenGrid [] = []"
| "flattenGrid (r # rows) = r @ flattenGrid rows"

text \<open>The two shapes every method has: record, then fail or return the id (or nothing).\<close>

definition send_as :: "string \<Rightarrow> i64 \<Rightarrow> Call \<Rightarrow> Mock \<Rightarrow> (merr + i64) \<times> Mock" where
  "send_as method chat c k =
     (let (id, k1) = Mock_record c k; (err, k2) = maybeFail method chat k1 in
      (case err of Some e \<Rightarrow> Inl e | None \<Rightarrow> Inr id, k2))"

definition act_as :: "string \<Rightarrow> i64 \<Rightarrow> Call \<Rightarrow> Mock \<Rightarrow> merr option \<times> Mock" where
  "act_as method chat c k = maybeFail method chat (snd (Mock_record c k))"

section \<open>The methods\<close>

definition Mock_SendMessage where
  "Mock_SendMessage chat topic text = send_as ''SendMessage'' chat
     (zero_Call\<lparr>cl_Method := ''SendMessage'', cl_ChatID := chat, cl_TopicID := topic, cl_Text := text\<rparr>)"

definition Mock_SendMessageWithForceReply where
  "Mock_SendMessageWithForceReply chat text (placeholder :: string) =
     send_as ''SendMessageWithForceReply'' chat
     (zero_Call\<lparr>cl_Method := ''SendMessageWithForceReply'', cl_ChatID := chat, cl_Text := text\<rparr>)"

definition Mock_SendKeyboard where
  "Mock_SendKeyboard chat topic text ll lc rl rc = send_as ''SendKeyboard'' chat
     (zero_Call\<lparr>cl_Method := ''SendKeyboard'', cl_ChatID := chat, cl_TopicID := topic, cl_Text := text,
        cl_Buttons := [mkButton ll lc, mkButton rl rc]\<rparr>)"

definition Mock_SendInlineKeyboard where
  "Mock_SendInlineKeyboard chat topic text buttons = send_as ''SendInlineKeyboard'' chat
     (zero_Call\<lparr>cl_Method := ''SendInlineKeyboard'', cl_ChatID := chat, cl_TopicID := topic,
        cl_Text := text, cl_Buttons := buttons\<rparr>)"

definition Mock_SendKeyboardGrid where
  "Mock_SendKeyboardGrid chat topic text rows = send_as ''SendKeyboardGrid'' chat
     (zero_Call\<lparr>cl_Method := ''SendKeyboardGrid'', cl_ChatID := chat, cl_TopicID := topic,
        cl_Text := text, cl_Buttons := flattenGrid rows\<rparr>)"

definition Mock_EditKeyboardGrid where
  "Mock_EditKeyboardGrid chat mid text rows = act_as ''EditKeyboardGrid'' chat
     (zero_Call\<lparr>cl_Method := ''EditKeyboardGrid'', cl_ChatID := chat, cl_MessageID := mid,
        cl_Text := text, cl_Buttons := flattenGrid rows\<rparr>)"

definition Mock_SendKeyboardGridHTML where
  "Mock_SendKeyboardGridHTML chat topic html rows = Mock_SendKeyboardGrid chat topic html rows"

definition Mock_EditKeyboardGridHTML where
  "Mock_EditKeyboardGridHTML chat mid html rows = Mock_EditKeyboardGrid chat mid html rows"

definition Mock_SendMessageWithForceReplyHTML where
  "Mock_SendMessageWithForceReplyHTML chat html placeholder =
     Mock_SendMessageWithForceReply chat html placeholder"

definition Mock_EditMessage where
  "Mock_EditMessage chat mid text = act_as ''EditMessage'' chat
     (zero_Call\<lparr>cl_Method := ''EditMessage'', cl_ChatID := chat, cl_MessageID := mid, cl_Text := text\<rparr>)"

definition Mock_EditKeyboard where
  "Mock_EditKeyboard chat mid text buttons = act_as ''EditKeyboard'' chat
     (zero_Call\<lparr>cl_Method := ''EditKeyboard'', cl_ChatID := chat, cl_MessageID := mid,
        cl_Text := text, cl_Buttons := buttons\<rparr>)"

definition Mock_DeleteMessage where
  "Mock_DeleteMessage chat mid = act_as ''DeleteMessage'' chat
     (zero_Call\<lparr>cl_Method := ''DeleteMessage'', cl_ChatID := chat, cl_MessageID := mid\<rparr>)"

definition Mock_PinMessage where
  "Mock_PinMessage chat mid = act_as ''PinMessage'' chat
     (zero_Call\<lparr>cl_Method := ''PinMessage'', cl_ChatID := chat, cl_MessageID := mid\<rparr>)"

definition Mock_AnswerCallback where
  "Mock_AnswerCallback qid text = act_as ''AnswerCallback'' 0
     (zero_Call\<lparr>cl_Method := ''AnswerCallback'', cl_Callback := qid, cl_Text := text\<rparr>)"

definition Mock_SendReaction where
  "Mock_SendReaction chat mid emoji = act_as ''SendReaction'' chat
     (zero_Call\<lparr>cl_Method := ''SendReaction'', cl_ChatID := chat, cl_MessageID := mid, cl_Emoji := emoji\<rparr>)"

definition Mock_LeaveChat where
  "Mock_LeaveChat chat = act_as ''LeaveChat'' chat
     (zero_Call\<lparr>cl_Method := ''LeaveChat'', cl_ChatID := chat\<rparr>)"

definition Mock_IsChatAdmin :: "i64 \<Rightarrow> i64 \<Rightarrow> Mock \<Rightarrow> (merr + bool) \<times> Mock" where
  "Mock_IsChatAdmin chat user k =
     (let (err, k1) = act_as ''IsChatAdmin'' chat
        (zero_Call\<lparr>cl_Method := ''IsChatAdmin'', cl_ChatID := chat, cl_MessageID := user\<rparr>) k in
      (case err of Some e \<Rightarrow> Inl e
       | None \<Rightarrow> Inr (case mget (mk_chatAdmins k1) (chat, user) of None \<Rightarrow> False | Some b \<Rightarrow> b), k1))"

definition Mock_ResolveChatMemberUsername :: "i64 \<Rightarrow> i64 \<Rightarrow> Mock \<Rightarrow> (merr + string) \<times> Mock" where
  "Mock_ResolveChatMemberUsername chat user k =
     (let (err, k1) = act_as ''ResolveChatMemberUsername'' chat
        (zero_Call\<lparr>cl_Method := ''ResolveChatMemberUsername'', cl_ChatID := chat, cl_MessageID := user\<rparr>) k in
      (case err of Some e \<Rightarrow> Inl e
       | None \<Rightarrow> Inr (case mget (mk_chatMemberUsernames k1) (chat, user) of
           None \<Rightarrow> [] | Some n \<Rightarrow> n), k1))"

lemmas mock_methods = Mock_SendMessage_def Mock_SendMessageWithForceReply_def
  Mock_SendKeyboard_def Mock_SendInlineKeyboard_def Mock_SendKeyboardGrid_def
  Mock_EditKeyboardGrid_def Mock_SendKeyboardGridHTML_def Mock_EditKeyboardGridHTML_def
  Mock_SendMessageWithForceReplyHTML_def Mock_EditMessage_def Mock_EditKeyboard_def
  Mock_DeleteMessage_def Mock_PinMessage_def Mock_AnswerCallback_def Mock_SendReaction_def
  Mock_LeaveChat_def Mock_IsChatAdmin_def Mock_ResolveChatMemberUsername_def

text \<open>The method table of the interface.\<close>

fun Mock_do :: "mcall \<Rightarrow> Mock \<Rightarrow> mresp \<times> Mock" where
  "Mock_do (SendMessage a b t) k = map_prod RId id (Mock_SendMessage a b t k)"
| "Mock_do (SendMessageWithForceReply a t p) k =
     map_prod RId id (Mock_SendMessageWithForceReply a t p k)"
| "Mock_do (SendKeyboard a b t ll lc rl rc) k =
     map_prod RId id (Mock_SendKeyboard a b t ll lc rl rc k)"
| "Mock_do (SendInlineKeyboard a b t bs) k = map_prod RId id (Mock_SendInlineKeyboard a b t bs k)"
| "Mock_do (SendKeyboardGrid a b t rs) k = map_prod RId id (Mock_SendKeyboardGrid a b t rs k)"
| "Mock_do (SendKeyboardGridHTML a b t rs) k =
     map_prod RId id (Mock_SendKeyboardGridHTML a b t rs k)"
| "Mock_do (SendMessageWithForceReplyHTML a t p) k =
     map_prod RId id (Mock_SendMessageWithForceReplyHTML a t p k)"
| "Mock_do (EditMessage a i t) k = map_prod RDone id (Mock_EditMessage a i t k)"
| "Mock_do (EditKeyboard a i t bs) k = map_prod RDone id (Mock_EditKeyboard a i t bs k)"
| "Mock_do (EditKeyboardGrid a i t rs) k = map_prod RDone id (Mock_EditKeyboardGrid a i t rs k)"
| "Mock_do (EditKeyboardGridHTML a i t rs) k =
     map_prod RDone id (Mock_EditKeyboardGridHTML a i t rs k)"
| "Mock_do (DeleteMessage a i) k = map_prod RDone id (Mock_DeleteMessage a i k)"
| "Mock_do (PinMessage a i) k = map_prod RDone id (Mock_PinMessage a i k)"
| "Mock_do (AnswerCallback q t) k = map_prod RDone id (Mock_AnswerCallback q t k)"
| "Mock_do (SendReaction a i e) k = map_prod RDone id (Mock_SendReaction a i e k)"
| "Mock_do (LeaveChat a) k = map_prod RDone id (Mock_LeaveChat a k)"
| "Mock_do (IsChatAdmin a u) k = map_prod RBool id (Mock_IsChatAdmin a u k)"
| "Mock_do (ResolveChatMemberUsername a u) k =
     map_prod RName id (Mock_ResolveChatMemberUsername a u k)"

text \<open>The recorded \<open>Call\<close> of a method, and the names a failure is looked up under.\<close>

fun call_name :: "mcall \<Rightarrow> string" where
  "call_name (SendMessage _ _ _) = ''SendMessage''"
| "call_name (SendMessageWithForceReply _ _ _) = ''SendMessageWithForceReply''"
| "call_name (SendKeyboard _ _ _ _ _ _ _) = ''SendKeyboard''"
| "call_name (SendInlineKeyboard _ _ _ _) = ''SendInlineKeyboard''"
| "call_name (SendKeyboardGrid _ _ _ _) = ''SendKeyboardGrid''"
| "call_name (SendKeyboardGridHTML _ _ _ _) = ''SendKeyboardGrid''"
| "call_name (SendMessageWithForceReplyHTML _ _ _) = ''SendMessageWithForceReply''"
| "call_name (EditMessage _ _ _) = ''EditMessage''"
| "call_name (EditKeyboard _ _ _ _) = ''EditKeyboard''"
| "call_name (EditKeyboardGrid _ _ _ _) = ''EditKeyboardGrid''"
| "call_name (EditKeyboardGridHTML _ _ _ _) = ''EditKeyboardGrid''"
| "call_name (DeleteMessage _ _) = ''DeleteMessage''"
| "call_name (PinMessage _ _) = ''PinMessage''"
| "call_name (AnswerCallback _ _) = ''AnswerCallback''"
| "call_name (SendReaction _ _ _) = ''SendReaction''"
| "call_name (LeaveChat _) = ''LeaveChat''"
| "call_name (IsChatAdmin _ _) = ''IsChatAdmin''"
| "call_name (ResolveChatMemberUsername _ _) = ''ResolveChatMemberUsername''"

fun call_chat :: "mcall \<Rightarrow> i64" where
  "call_chat (SendMessage a _ _) = a"
| "call_chat (SendMessageWithForceReply a _ _) = a"
| "call_chat (SendKeyboard a _ _ _ _ _ _) = a"
| "call_chat (SendInlineKeyboard a _ _ _) = a"
| "call_chat (SendKeyboardGrid a _ _ _) = a"
| "call_chat (SendKeyboardGridHTML a _ _ _) = a"
| "call_chat (SendMessageWithForceReplyHTML a _ _) = a"
| "call_chat (EditMessage a _ _) = a"
| "call_chat (EditKeyboard a _ _ _) = a"
| "call_chat (EditKeyboardGrid a _ _ _) = a"
| "call_chat (EditKeyboardGridHTML a _ _ _) = a"
| "call_chat (DeleteMessage a _) = a"
| "call_chat (PinMessage a _) = a"
| "call_chat (AnswerCallback _ _) = 0"
| "call_chat (SendReaction a _ _) = a"
| "call_chat (LeaveChat a) = a"
| "call_chat (IsChatAdmin a _) = a"
| "call_chat (ResolveChatMemberUsername a _) = a"

text \<open>The error of an answer, if any.\<close>

fun resp_err :: "mresp \<Rightarrow> merr option" where
  "resp_err (RId (Inl e)) = Some e" | "resp_err (RId (Inr _)) = None"
| "resp_err (RDone r) = r"
| "resp_err (RBool (Inl e)) = Some e" | "resp_err (RBool (Inr _)) = None"
| "resp_err (RName (Inl e)) = Some e" | "resp_err (RName (Inr _)) = None"

section \<open>The mock is a messenger\<close>

text \<open>What a call records.\<close>

definition call_of :: "mcall \<Rightarrow> Call" where
  "call_of c = last (mk_calls (snd (Mock_do c NewMock)))"

lemma maybeFail_frame [frame_simps]:
  "mk_calls (snd (maybeFail m a k)) = mk_calls k"
  "mk_nextID (snd (maybeFail m a k)) = mk_nextID k"
  "mk_chatAdmins (snd (maybeFail m a k)) = mk_chatAdmins k"
  "mk_chatMemberUsernames (snd (maybeFail m a k)) = mk_chatMemberUsernames k"
  by (auto simp: maybeFail_def Let_def split: option.splits)

lemma Mock_record_simps [simp]:
  "mk_calls (snd (Mock_record c k)) = mk_calls k @ [c]"
  "mk_nextID (snd (Mock_record c k)) = mk_nextID k + 1"
  "fst (Mock_record c k) = mk_nextID k + 1"
  "mk_failures (snd (Mock_record c k)) = mk_failures k"
  "mk_failureChat (snd (Mock_record c k)) = mk_failureChat k"
  by (simp_all add: Mock_record_def)

lemma send_as_facts:
  "mk_calls (snd (send_as m a c k)) = mk_calls k @ [c]"
  "mk_nextID (snd (send_as m a c k)) = mk_nextID k + 1"
  "snd (send_as m a c k) = snd (maybeFail m a (snd (Mock_record c k)))"
  "fst (send_as m a c k) = (case fst (maybeFail m a (snd (Mock_record c k))) of
     Some e \<Rightarrow> Inl e | None \<Rightarrow> Inr (mk_nextID k + 1))"
  by (simp_all add: send_as_def frame_simps case_prod_beta Let_def cong: option.case_cong)

lemma act_as_facts:
  "mk_calls (snd (act_as m a c k)) = mk_calls k @ [c]"
  "mk_nextID (snd (act_as m a c k)) = mk_nextID k + 1"
  "act_as m a c k = maybeFail m a (snd (Mock_record c k))"
  by (simp_all add: act_as_def frame_simps)

lemma Mock_do_calls: "mk_calls (snd (Mock_do c k)) = mk_calls k @ [call_of c]"
  by (cases c) (simp_all add: call_of_def mock_methods send_as_facts(1) act_as_facts(1)
      case_prod_beta Let_def)

lemma Mock_do_nextID: "mk_nextID (snd (Mock_do c k)) = mk_nextID k + 1"
  by (cases c) (simp_all add: mock_methods send_as_facts(2) act_as_facts(2) case_prod_beta Let_def)

lemma Mock_do_fails:
  "resp_err (fst (Mock_do c k)) =
     fst (maybeFail (call_name c) (call_chat c) (snd (Mock_record (call_of c) k)))"
  by (cases c) (simp_all add: call_of_def mock_methods send_as_facts act_as_facts
      frame_simps case_prod_beta Let_def split: option.splits)

lemma Mock_do_state:
  "snd (Mock_do c k) = snd (maybeFail (call_name c) (call_chat c) (snd (Mock_record (call_of c) k)))"
  by (cases c) (simp_all add: call_of_def mock_methods send_as_facts act_as_facts
      frame_simps case_prod_beta Let_def split: option.splits)

lemma Mock_do_kind: "answers c (fst (Mock_do c k))"
  by (cases c) (simp_all add: mock_methods case_prod_beta Let_def)

interpretation mock: messenger call_of mk_calls Mock_do
  by unfold_locales (rule Mock_do_calls, rule Mock_do_kind)

section \<open>Message ids\<close>

text \<open>The id counter is the number of recorded calls (also after \<open>Reset\<close>).\<close>

definition ids_in_step :: "Mock \<Rightarrow> bool" where
  "ids_in_step k \<longleftrightarrow> mk_nextID k = word_of_nat (length (mk_calls k))"

lemma ids_in_step_NewMock [simp]: "ids_in_step NewMock"
  by (simp add: ids_in_step_def NewMock_def)

lemma ids_in_step_Reset: "ids_in_step (Mock_Reset k)"
  by (simp add: ids_in_step_def Mock_Reset_def)

lemma ids_in_step_do: "ids_in_step k \<Longrightarrow> ids_in_step (snd (Mock_do c k))"
  by (simp add: ids_in_step_def Mock_do_calls Mock_do_nextID)

lemma Mock_do_id: "fst (Mock_do c k) = RId (Inr i) \<Longrightarrow> i = mk_nextID k + 1"
  by (cases c) (auto simp: mock_methods send_as_facts case_prod_beta Let_def split: option.splits)

text \<open>The ids the mock hands out are the positions of the calls: after any sequence of
  calls on a fresh mock, an id returned by the next send is one more than the number of calls
  so far. No two sends of a run return the same id (below 2^64 calls).\<close>

theorem Mock_ids_unique:
  assumes "fst (Mock_do c (snd (mock.invoke_all cs NewMock))) = RId (Inr i)"
    and "fst (Mock_do c' (snd (mock.invoke_all (cs @ c # ds) NewMock))) = RId (Inr j)"
    and "length cs + length ds + 2 < 2 ^ 64"
  shows "unat i = length cs + 1 \<and> unat j = length cs + length ds + 2 \<and> i \<noteq> j"
proof -
  have inv: "ids_in_step (snd (mock.invoke_all xs NewMock))" for xs
    by (rule mock.invoke_all_inv) (simp_all add: ids_in_step_do)
  have len: "length (mk_calls (snd (mock.invoke_all xs NewMock))) = length xs" for xs
    by (simp add: mock.sent_invoke_all NewMock_def)
  have "i = word_of_nat (length cs) + 1"
    using Mock_do_id [OF assms(1)] inv [of cs] by (simp add: ids_in_step_def len)
  then have i: "i = word_of_nat (length cs + 1)" by (simp add: add.commute)
  have "j = word_of_nat (length cs + length ds + 1) + 1"
    using Mock_do_id [OF assms(2)] inv [of "cs @ c # ds"] by (simp add: ids_in_step_def len)
  then have j: "j = word_of_nat (length cs + length ds + 2)" by (simp add: add.commute)
  have "unat i = (length cs + 1) mod 2 ^ LENGTH(64)" unfolding i by (rule unat_of_nat)
  then have ui: "unat i = length cs + 1" using assms(3) by simp
  have "unat j = (length cs + length ds + 2) mod 2 ^ LENGTH(64)" unfolding j by (rule unat_of_nat)
  then have uj: "unat j = length cs + length ds + 2" using assms(3) by simp
  show ?thesis using ui uj by auto
qed

section \<open>Injected failures\<close>

text \<open>A failure armed for one chat: what the mock holds until the failure fires.\<close>

definition armed :: "string \<Rightarrow> i64 \<Rightarrow> merr \<Rightarrow> Mock \<Rightarrow> bool" where
  "armed method chat err k \<longleftrightarrow>
     mget (mk_failures k) method = Some (Some err) \<and> mget (mk_failureChat k) method = Some chat"

definition disarmed :: "string \<Rightarrow> Mock \<Rightarrow> bool" where
  "disarmed method k \<longleftrightarrow> mget (mk_failures k) method = None"

definition hits :: "string \<Rightarrow> i64 \<Rightarrow> mcall \<Rightarrow> bool" where
  "hits method chat c \<longleftrightarrow> call_name c = method \<and> call_chat c = chat"

lemma armed_FailNextForChat: "armed method chat err (FailNextForChat method chat (Some err) k)"
  by (simp add: armed_def FailNextForChat_def)

lemma armed_miss:
  assumes "armed method chat err k" and "\<not> hits method chat c"
  shows "armed method chat err (snd (Mock_do c k))"
  using assms
  by (auto simp: armed_def hits_def Mock_do_state maybeFail_def Let_def split: option.splits)

lemma armed_hit:
  assumes "armed method chat err k" and "hits method chat c"
  shows "resp_err (fst (Mock_do c k)) = Some err \<and> disarmed method (snd (Mock_do c k))"
  using assms
  by (auto simp: armed_def disarmed_def hits_def Mock_do_state Mock_do_fails maybeFail_def)

lemma armed_other:
  assumes "armed method chat err k" and "call_name c = method" and "call_chat c \<noteq> chat"
  shows "resp_err (fst (Mock_do c k)) = None"
  using assms by (auto simp: armed_def Mock_do_fails maybeFail_def)

lemma disarmed_do:
  assumes "disarmed method k"
  shows "disarmed method (snd (Mock_do c k))" and "call_name c = method \<Longrightarrow> resp_err (fst (Mock_do c k)) = None"
  using assms
  by (auto simp: disarmed_def Mock_do_state Mock_do_fails maybeFail_def Let_def
      split: option.splits)

text \<open>\<open>FailNextForChat\<close> fires exactly once, at the first call of the method in that chat:
  calls before it of the same method in other chats succeed, that call returns the injected
  error, and every later call of the method succeeds.\<close>

theorem FailNextForChat_once:
  assumes "\<forall>c \<in> set before. \<not> hits method chat c" and "hits method chat c"
  shows "let k0 = FailNextForChat method chat (Some err) k;
             k1 = snd (mock.invoke_all before k0);
             k2 = snd (mock.invoke_all after (snd (Mock_do c k1))) in
         (\<forall>d. call_name d = method \<longrightarrow> call_chat d \<noteq> chat \<longrightarrow> resp_err (fst (Mock_do d k1)) = None)
       \<and> resp_err (fst (Mock_do c k1)) = Some err
       \<and> (\<forall>d. call_name d = method \<longrightarrow> resp_err (fst (Mock_do d k2)) = None)"
proof -
  define k1 where "k1 = snd (mock.invoke_all before (FailNextForChat method chat (Some err) k))"
  define k2 where "k2 = snd (mock.invoke_all after (snd (Mock_do c k1)))"
  have arm: "armed method chat err k1"
    unfolding k1_def using assms(1)
    by (intro mock.invoke_all_inv [where I = "armed method chat err"] armed_FailNextForChat armed_miss) blast+
  have hit: "resp_err (fst (Mock_do c k1)) = Some err" "disarmed method (snd (Mock_do c k1))"
    using armed_hit [OF arm assms(2)] by blast+
  have "disarmed method k2"
    unfolding k2_def by (rule mock.invoke_all_inv) (fact hit(2), erule disarmed_do(1))
  then show ?thesis
    unfolding Let_def k1_def [symmetric] k2_def [symmetric]
    using hit(1) armed_other [OF arm] disarmed_do(2) by blast
qed

theorem FailNextForChat_once_witness:
  "let k0 = FailNextForChat ''SendMessage'' 5 (Some errForbidden) NewMock;
       k1 = snd (mock.invoke_all [SendMessage 4 0 ''a''] k0) in
   resp_err (fst (Mock_do (SendMessage 5 0 ''b'') k1)) = Some errForbidden"
proof -
  have "hits ''SendMessage'' 5 (SendMessage 5 0 ''b'')"
    and "\<forall>c \<in> set [SendMessage 4 0 ''a'']. \<not> hits ''SendMessage'' 5 c"
    by (simp_all add: hits_def)
  from FailNextForChat_once [OF this(2,1), of errForbidden NewMock "[]"] show ?thesis
    unfolding Let_def by blast
qed

theorem Mock_ids_unique_witness:
  "\<exists>i j. fst (Mock_do (SendMessage 1 0 ''a'') NewMock) = RId (Inr i)
     \<and> fst (Mock_do (SendMessage 1 0 ''b'') (snd (mock.invoke_all [SendMessage 1 0 ''a''] NewMock))) = RId (Inr j)
     \<and> i \<noteq> j"
proof -
  have a: "fst (Mock_do (SendMessage 1 0 ''a'') (snd (mock.invoke_all [] NewMock))) = RId (Inr 1)"
    and b: "fst (Mock_do (SendMessage 1 0 ''b'')
         (snd (mock.invoke_all ([] @ SendMessage 1 0 ''a'' # []) NewMock))) = RId (Inr 2)"
    by (simp_all add: mock_methods send_as_def Mock_record_def maybeFail_def NewMock_def)
  from Mock_ids_unique [OF a b] show ?thesis using a b by auto
qed

text \<open>
  An unfired scoped failure leaves its scope behind: \<open>FailNext\<close> does not clear
  \<open>failureChat\<close>, so the unscoped failure armed afterwards stays scoped to the old chat.
\<close>

lemma FailNext_keeps_scope:
  "resp_err (fst (Mock_do (SendMessage 4 0 ''a'')
     (FailNext ''SendMessage'' (Some errForbidden)
       (FailNextForChat ''SendMessage'' 5 (Some errForbidden) NewMock)))) = None"
  by (simp add: Mock_do_fails maybeFail_def FailNext_def FailNextForChat_def NewMock_def
      del: Mock_do.simps)

end
