(* ===== verification/Telegram.thy ===== *)
theory Telegram
  imports Messenger
begin

text \<open>
  The Telegram adapter of \<open>pkg/messenger/telegram.go\<close>: each method of the interface builds a
  request (a Bot API method name and a JSON payload) and reads the reply. The HTTP exchange
  and the text of JSON decoding errors are the parameter \<open>server\<close>: given the requests sent
  so far and a new one, what \<open>http.Client.Do\<close> and the first \<open>json.Unmarshal\<close> yield. A Go
  payload map is an object whose fields are in the order they are set.
\<close>

section \<open>JSON and replies\<close>

datatype json = JNull | JBool bool | JInt int | JFrac string | JStr string
  | JArr "json list" | JObj "(string \<times> json) list"

datatype tg_reply =
    TgBadRequest string
  | TgTransport string
  | TgBadBody string string
  | TgBody bool string int "json option"

record server =
  srv_respond :: "(string \<times> json) list \<Rightarrow> string \<times> json \<Rightarrow> tg_reply"
  srv_decode_error :: "json \<Rightarrow> string"

type_synonym tgstate = "(string \<times> json) list"

section \<open>Error classification\<close>

fun index_from :: "int \<Rightarrow> string \<Rightarrow> string \<Rightarrow> int" where
  "index_from i [] sub = (if sub = [] then i else -1)"
| "index_from i (c # s) sub =
     (if length (c # s) < length sub then -1
      else if take (length sub) (c # s) = sub then i
      else index_from (i + 1) s sub)"

definition index :: "string \<Rightarrow> string \<Rightarrow> int" where
  "index s sub = (if sub = [] then 0 else index_from 0 s sub)"

definition contains :: "string \<Rightarrow> string \<Rightarrow> bool" where
  "contains haystack needle \<longleftrightarrow>
     length needle \<le> length haystack \<and> (haystack = needle \<or> 0 \<le> index haystack needle)"

definition isNotFound :: "string \<Rightarrow> bool" where
  "isNotFound desc \<longleftrightarrow> list_ex (contains desc)
     [''chat not found'', ''message to edit not found'', ''MESSAGE_ID_INVALID'']"

lemma index_from_nonneg:
  "sub \<noteq> [] \<Longrightarrow> 0 \<le> i \<Longrightarrow> 0 \<le> index_from i s sub \<longleftrightarrow> Contains s sub"
proof (induction i s sub rule: index_from.induct)
  case (1 i sub)
  then show ?case by (auto simp: Contains_iff)
next
  case (2 i c s sub)
  show ?case
  proof (cases "length (c # s) < length sub")
    case True
    then have "\<not> Contains (c # s) sub"
      by (auto simp: Contains_iff dest: arg_cong [where f = length])
    with True show ?thesis by simp
  next
    case False
    show ?thesis
    proof (cases "take (length sub) (c # s) = sub")
      case True
      then have "c # s = [] @ sub @ drop (length sub) (c # s)"
        by (metis append_Nil append_take_drop_id)
      then have "Contains (c # s) sub" unfolding Contains_iff by blast
      with True False 2 show ?thesis by simp
    next
      case no: False
      have "Contains (c # s) sub = Contains s sub"
        unfolding Contains_iff
      proof
        assume "\<exists>a b. c # s = a @ sub @ b"
        then obtain a b where ab: "c # s = a @ sub @ b" by blast
        have "a \<noteq> []" using ab no by (metis append_Nil append_eq_conv_conj)
        then show "\<exists>a b. s = a @ sub @ b" using ab by (cases a) auto
      next
        assume "\<exists>a b. s = a @ sub @ b"
        then show "\<exists>a b. c # s = a @ sub @ b" by (metis append_Cons)
      qed
      with no False 2 show ?thesis by simp
    qed
  qed
qed

text \<open>The hand-written substring search agrees with the substring relation.\<close>

theorem contains_correct: "contains haystack needle \<longleftrightarrow> (\<exists>a b. haystack = a @ needle @ b)"
proof (cases "needle = []")
  case True
  moreover have "haystack = [] @ [] @ haystack" by simp
  ultimately show ?thesis unfolding contains_def index_def by auto
next
  case False
  have self: "Contains needle needle"
    unfolding Contains_iff by (rule exI [of _ "[]"], rule exI [of _ "[]"]) simp
  have "Contains haystack needle \<Longrightarrow> length needle \<le> length haystack"
    by (auto simp: Contains_iff)
  then have "contains haystack needle \<longleftrightarrow> Contains haystack needle"
    using index_from_nonneg [OF False, of 0 haystack] False self
    by (auto simp: contains_def index_def)
  then show ?thesis by (simp add: Contains_iff)
qed

definition tgEndpoint :: string where
  "tgEndpoint = ''https://api.telegram.org/bot''"

text \<open>\<open>call\<close>: the URL and the body are logged, and the reply is classified.\<close>

definition tg_classify :: "string \<Rightarrow> tg_reply \<Rightarrow> merr + json option" where
  "tg_classify method reply =
     (case reply of
        TgBadRequest e \<Rightarrow> Inl (ErrOther e)
      | TgTransport e \<Rightarrow> Inl (ErrOther (method @ '': '' @ e))
      | TgBadBody e raw \<Rightarrow> Inl (ErrOther (method @ '': decode response: '' @ e @ ''; body='' @ raw))
      | TgBody ok desc code result \<Rightarrow>
          (if ok then Inr result
           else if code = 403 then
             Inl (ErrForbidden (method @ '': '' @ merr_text errForbidden @ '' ('' @ desc @ '')''))
           else if (code = 400 \<or> code = 404) \<and> isNotFound desc then
             Inl (ErrNotFoundM (method @ '': '' @ merr_text errNotFoundM @ '' ('' @ desc @ '')''))
           else Inl (ErrOther (method @ '': telegram '' @ Itoa code @ '': '' @ desc))))"

definition tg_call ::
  "server \<Rightarrow> string \<Rightarrow> string \<Rightarrow> json \<Rightarrow> (json \<Rightarrow> 'a option) \<Rightarrow> 'a \<Rightarrow> tgstate \<Rightarrow> (merr + 'a) \<times> tgstate" where
  "tg_call srv token method payload into zero s =
     (let req = (tgEndpoint @ token @ ''/'' @ method, payload) in
      (case tg_classify method (srv_respond srv s req) of
         Inl e \<Rightarrow> Inl e
       | Inr None \<Rightarrow> Inr zero
       | Inr (Some result) \<Rightarrow>
           (case into result of
              None \<Rightarrow> Inl (ErrOther (method @ '': decode result: '' @ srv_decode_error srv result))
            | Some v \<Rightarrow> Inr v), s @ [req]))"

section \<open>Reading results\<close>

text \<open>
  \<open>json.Unmarshal\<close> into a struct with one field: \<open>null\<close> leaves the zero value, an object sets
  the field from the keys that match its name (in any letter case), anything else is an error.
\<close>

fun set_field :: "string \<Rightarrow> (json \<Rightarrow> 'a \<Rightarrow> 'a option) \<Rightarrow> (string \<times> json) list \<Rightarrow> 'a \<Rightarrow> 'a option" where
  "set_field name f [] x = Some x"
| "set_field name f ((k, v) # fs) x =
     (if EqualFold k name
      then (case f v x of None \<Rightarrow> None | Some y \<Rightarrow> set_field name f fs y)
      else set_field name f fs x)"

definition in_struct :: "string \<Rightarrow> (json \<Rightarrow> 'a \<Rightarrow> 'a option) \<Rightarrow> json \<Rightarrow> 'a \<Rightarrow> 'a option" where
  "in_struct name f j x =
     (case j of JNull \<Rightarrow> Some x | JObj fs \<Rightarrow> set_field name f fs x | _ \<Rightarrow> None)"

definition dec_int64 :: "json \<Rightarrow> i64 \<Rightarrow> i64 option" where
  "dec_int64 j x = (case j of JNull \<Rightarrow> Some x
     | JInt i \<Rightarrow> if - (2 ^ 63) \<le> i \<and> i < 2 ^ 63 then Some (word_of_int i) else None
     | _ \<Rightarrow> None)"

definition dec_string :: "json \<Rightarrow> string \<Rightarrow> string option" where
  "dec_string j x = (case j of JNull \<Rightarrow> Some x | JStr s \<Rightarrow> Some s | _ \<Rightarrow> None)"

definition message_id_of :: "json \<Rightarrow> i64 option" where
  "message_id_of j = in_struct ''message_id'' dec_int64 j 0"

definition status_of :: "json \<Rightarrow> string option" where
  "status_of j = in_struct ''status'' dec_string j []"

definition username_of :: "json \<Rightarrow> string option" where
  "username_of j = in_struct ''user'' (in_struct ''username'' dec_string) j []"

section \<open>The methods\<close>

definition jid :: "i64 \<Rightarrow> json" where "jid w = JInt (sint w)"

definition with_thread :: "i64 \<Rightarrow> (string \<times> json) list" where
  "with_thread topic = (if 0 < sint topic then [(''message_thread_id'', jid topic)] else [])"

definition jbutton :: "Button \<Rightarrow> json" where
  "jbutton b = JObj [(''text'', JStr (b_Label b)), (''callback_data'', JStr (b_Callback b))]"

definition inline_keyboard :: "Button list list \<Rightarrow> json" where
  "inline_keyboard rows = JObj [(''inline_keyboard'', JArr (map (\<lambda>row. JArr (map jbutton row)) rows))]"

definition send_method :: "server \<Rightarrow> string \<Rightarrow> json \<Rightarrow> tgstate \<Rightarrow> (merr + i64) \<times> tgstate" where
  "send_method srv token payload s = tg_call srv token ''sendMessage'' payload message_id_of 0 s"

definition act_method :: "server \<Rightarrow> string \<Rightarrow> string \<Rightarrow> json \<Rightarrow> tgstate \<Rightarrow> merr option \<times> tgstate" where
  "act_method srv token method payload s =
     (case tg_call srv token method payload (\<lambda>_. Some ()) () s of
        (Inl e, s') \<Rightarrow> (Some e, s') | (Inr _, s') \<Rightarrow> (None, s'))"

definition tg_SendMessage where
  "tg_SendMessage srv token chat topic text =
     send_method srv token (JObj ([(''chat_id'', jid chat), (''text'', JStr text)] @ with_thread topic))"

definition force_reply :: "string \<Rightarrow> json" where
  "force_reply placeholder = JObj ([(''force_reply'', JBool True), (''selective'', JBool True)]
     @ (if placeholder = [] then [] else [(''input_field_placeholder'', JStr placeholder)]))"

definition tg_SendMessageWithForceReply where
  "tg_SendMessageWithForceReply srv token chat text placeholder =
     send_method srv token (JObj [(''chat_id'', jid chat), (''text'', JStr text),
       (''reply_markup'', force_reply placeholder)])"

definition tg_SendKeyboard where
  "tg_SendKeyboard srv token chat topic text ll lc rl rc =
     send_method srv token (JObj ([(''chat_id'', jid chat), (''text'', JStr text),
       (''reply_markup'', inline_keyboard [[mkButton ll lc, mkButton rl rc]])] @ with_thread topic))"

definition tg_SendInlineKeyboard where
  "tg_SendInlineKeyboard srv token chat topic text buttons =
     send_method srv token (JObj ([(''chat_id'', jid chat), (''text'', JStr text),
       (''reply_markup'', inline_keyboard (map (\<lambda>b. [b]) buttons))] @ with_thread topic))"

definition tg_sendKeyboardGrid where
  "tg_sendKeyboardGrid srv token chat topic text rows parseMode =
     send_method srv token (JObj ([(''chat_id'', jid chat), (''text'', JStr text),
       (''reply_markup'', inline_keyboard rows)] @ with_thread topic
       @ (if parseMode = [] then [] else [(''parse_mode'', JStr parseMode)])))"

definition tg_SendKeyboardGrid where
  "tg_SendKeyboardGrid srv token chat topic text rows = tg_sendKeyboardGrid srv token chat topic text rows []"

definition tg_SendKeyboardGridHTML where
  "tg_SendKeyboardGridHTML srv token chat topic html rows =
     tg_sendKeyboardGrid srv token chat topic html rows ''HTML''"

definition tg_SendMessageWithForceReplyHTML where
  "tg_SendMessageWithForceReplyHTML srv token chat html placeholder =
     send_method srv token (JObj [(''chat_id'', jid chat), (''text'', JStr html),
       (''reply_markup'', force_reply placeholder), (''parse_mode'', JStr ''HTML'')])"

definition tg_editKeyboardGrid where
  "tg_editKeyboardGrid srv token chat mid text rows parseMode =
     act_method srv token ''editMessageText'' (JObj ([(''chat_id'', jid chat), (''message_id'', jid mid),
       (''text'', JStr text), (''reply_markup'', inline_keyboard rows)]
       @ (if parseMode = [] then [] else [(''parse_mode'', JStr parseMode)])))"

definition tg_EditKeyboardGrid where
  "tg_EditKeyboardGrid srv token chat mid text rows = tg_editKeyboardGrid srv token chat mid text rows []"

definition tg_EditKeyboardGridHTML where
  "tg_EditKeyboardGridHTML srv token chat mid html rows =
     tg_editKeyboardGrid srv token chat mid html rows ''HTML''"

definition tg_EditMessage where
  "tg_EditMessage srv token chat mid text = act_method srv token ''editMessageText''
     (JObj [(''chat_id'', jid chat), (''message_id'', jid mid), (''text'', JStr text)])"

definition tg_EditKeyboard where
  "tg_EditKeyboard srv token chat mid text buttons = act_method srv token ''editMessageText''
     (JObj [(''chat_id'', jid chat), (''message_id'', jid mid), (''text'', JStr text),
       (''reply_markup'', inline_keyboard (if buttons = [] then [] else [buttons]))])"

definition tg_DeleteMessage where
  "tg_DeleteMessage srv token chat mid = act_method srv token ''deleteMessage''
     (JObj [(''chat_id'', jid chat), (''message_id'', jid mid)])"

definition tg_PinMessage where
  "tg_PinMessage srv token chat mid = act_method srv token ''pinChatMessage''
     (JObj [(''chat_id'', jid chat), (''message_id'', jid mid), (''disable_notification'', JBool True)])"

definition tg_AnswerCallback where
  "tg_AnswerCallback srv token qid text = act_method srv token ''answerCallbackQuery''
     (JObj ([(''callback_query_id'', JStr qid)] @ (if text = [] then [] else [(''text'', JStr text)])))"

definition tg_SendReaction where
  "tg_SendReaction srv token chat mid emoji = act_method srv token ''setMessageReaction''
     (JObj [(''chat_id'', jid chat), (''message_id'', jid mid),
       (''reaction'', JArr [JObj [(''type'', JStr ''emoji''), (''emoji'', JStr emoji)]])])"

definition tg_LeaveChat where
  "tg_LeaveChat srv token chat = act_method srv token ''leaveChat'' (JObj [(''chat_id'', jid chat)])"

definition tg_IsChatAdmin :: "server \<Rightarrow> string \<Rightarrow> i64 \<Rightarrow> i64 \<Rightarrow> tgstate \<Rightarrow> (merr + bool) \<times> tgstate" where
  "tg_IsChatAdmin srv token chat user s =
     (case tg_call srv token ''getChatMember'' (JObj [(''chat_id'', jid chat), (''user_id'', jid user)])
        status_of [] s of
        (Inl e, s') \<Rightarrow> (Inl e, s')
      | (Inr st, s') \<Rightarrow> (Inr (st = ''creator'' \<or> st = ''administrator''), s'))"

definition tg_ResolveChatMemberUsername ::
  "server \<Rightarrow> string \<Rightarrow> i64 \<Rightarrow> i64 \<Rightarrow> tgstate \<Rightarrow> (merr + string) \<times> tgstate" where
  "tg_ResolveChatMemberUsername srv token chat user s =
     tg_call srv token ''getChatMember'' (JObj [(''chat_id'', jid chat), (''user_id'', jid user)])
       username_of [] s"

definition FormatChatID :: "i64 \<Rightarrow> string" where
  "FormatChatID w = fmt_i64 w"

lemmas tg_methods = tg_SendMessage_def tg_SendMessageWithForceReply_def tg_SendKeyboard_def
  tg_SendInlineKeyboard_def tg_SendKeyboardGrid_def tg_SendKeyboardGridHTML_def
  tg_sendKeyboardGrid_def tg_SendMessageWithForceReplyHTML_def tg_EditKeyboardGrid_def
  tg_EditKeyboardGridHTML_def tg_editKeyboardGrid_def tg_EditMessage_def tg_EditKeyboard_def
  tg_DeleteMessage_def tg_PinMessage_def tg_AnswerCallback_def tg_SendReaction_def tg_LeaveChat_def

fun tg_do :: "server \<Rightarrow> string \<Rightarrow> mcall \<Rightarrow> tgstate \<Rightarrow> mresp \<times> tgstate" where
  "tg_do v t (SendMessage a b x) s = map_prod RId id (tg_SendMessage v t a b x s)"
| "tg_do v t (SendMessageWithForceReply a x p) s = map_prod RId id (tg_SendMessageWithForceReply v t a x p s)"
| "tg_do v t (SendKeyboard a b x ll lc rl rc) s = map_prod RId id (tg_SendKeyboard v t a b x ll lc rl rc s)"
| "tg_do v t (SendInlineKeyboard a b x bs) s = map_prod RId id (tg_SendInlineKeyboard v t a b x bs s)"
| "tg_do v t (SendKeyboardGrid a b x rs) s = map_prod RId id (tg_SendKeyboardGrid v t a b x rs s)"
| "tg_do v t (SendKeyboardGridHTML a b x rs) s = map_prod RId id (tg_SendKeyboardGridHTML v t a b x rs s)"
| "tg_do v t (SendMessageWithForceReplyHTML a x p) s =
     map_prod RId id (tg_SendMessageWithForceReplyHTML v t a x p s)"
| "tg_do v t (EditMessage a i x) s = map_prod RDone id (tg_EditMessage v t a i x s)"
| "tg_do v t (EditKeyboard a i x bs) s = map_prod RDone id (tg_EditKeyboard v t a i x bs s)"
| "tg_do v t (EditKeyboardGrid a i x rs) s = map_prod RDone id (tg_EditKeyboardGrid v t a i x rs s)"
| "tg_do v t (EditKeyboardGridHTML a i x rs) s = map_prod RDone id (tg_EditKeyboardGridHTML v t a i x rs s)"
| "tg_do v t (DeleteMessage a i) s = map_prod RDone id (tg_DeleteMessage v t a i s)"
| "tg_do v t (PinMessage a i) s = map_prod RDone id (tg_PinMessage v t a i s)"
| "tg_do v t (AnswerCallback q x) s = map_prod RDone id (tg_AnswerCallback v t q x s)"
| "tg_do v t (SendReaction a i e) s = map_prod RDone id (tg_SendReaction v t a i e s)"
| "tg_do v t (LeaveChat a) s = map_prod RDone id (tg_LeaveChat v t a s)"
| "tg_do v t (IsChatAdmin a u) s = map_prod RBool id (tg_IsChatAdmin v t a u s)"
| "tg_do v t (ResolveChatMemberUsername a u) s = map_prod RName id (tg_ResolveChatMemberUsername v t a u s)"

section \<open>The adapter is a messenger\<close>

text \<open>A server that accepts everything, and the request a call sends.\<close>

definition ok_server :: server where
  "ok_server = \<lparr>srv_respond = \<lambda>_ _. TgBody True [] 0 None, srv_decode_error = \<lambda>_. []\<rparr>"

definition request_of :: "string \<Rightarrow> mcall \<Rightarrow> string \<times> json" where
  "request_of token c = last (snd (tg_do ok_server token c []))"

lemma snd_tg_call [simp]:
  "snd (tg_call srv token m p into z s) = s @ [(tgEndpoint @ token @ ''/'' @ m, p)]"
  by (simp add: tg_call_def Let_def)

lemma snd_send_method [simp]:
  "snd (send_method srv token p s) = s @ [(tgEndpoint @ token @ ''/sendMessage'', p)]"
  by (simp add: send_method_def)

lemma snd_act_method [simp]:
  "snd (act_method srv token m p s) = s @ [(tgEndpoint @ token @ ''/'' @ m, p)]"
  by (simp add: act_method_def tg_call_def Let_def split: sum.splits option.splits)

lemma snd_tg_getChatMember [simp]:
  "snd (tg_IsChatAdmin srv token a u s) = s @ [(tgEndpoint @ token @ ''/getChatMember'',
     JObj [(''chat_id'', jid a), (''user_id'', jid u)])]"
  "snd (tg_ResolveChatMemberUsername srv token a u s) = s @ [(tgEndpoint @ token @ ''/getChatMember'',
     JObj [(''chat_id'', jid a), (''user_id'', jid u)])]"
  by (simp_all add: tg_IsChatAdmin_def tg_ResolveChatMemberUsername_def tg_call_def Let_def
      split: sum.splits option.splits)

lemma snd_tg_do: "snd (tg_do srv token c s) = s @ [request_of token c]"
  by (cases c) (simp_all add: request_of_def tg_methods)

lemma tg_do_kind: "answers c (fst (tg_do srv token c s))"
  by (cases c) simp_all

interpretation telegram: messenger "request_of token" "\<lambda>s. s" "tg_do srv token" for srv token
  by unfold_locales (rule snd_tg_do, rule tg_do_kind)

section \<open>Properties\<close>

text \<open>C38. How the adapter classifies a refused request: 403 is \<open>ErrForbidden\<close>, 400 or 404 with a
  known description is \<open>ErrNotFound\<close>, everything else is an unclassified error that carries the
  code; and a refused request never yields a message id.\<close>

theorem tg_SendMessage_classifies:
  "srv_respond srv s (request_of token (SendMessage chat topic text)) = TgBody False desc code res
   \<Longrightarrow> \<exists>msg. fst (tg_SendMessage srv token chat topic text s) =
     Inl ((if code = 403 then ErrForbidden
           else if (code = 400 \<or> code = 404) \<and>
             (\<exists>p \<in> {''chat not found'', ''message to edit not found'', ''MESSAGE_ID_INVALID''}.
                \<exists>a b. desc = a @ p @ b)
           then ErrNotFoundM else ErrOther) msg)"
  unfolding contains_correct [symmetric]
  by (auto simp: request_of_def tg_SendMessage_def send_method_def tg_call_def tg_classify_def
      isNotFound_def Let_def)

definition forbidding_server :: server where
  "forbidding_server = \<lparr>srv_respond = \<lambda>_ _. TgBody False ''bot was blocked'' 403 None, srv_decode_error = \<lambda>_. []\<rparr>"

theorem tg_SendMessage_classifies_witness:
  "\<exists>msg. fst (tg_SendMessage forbidding_server ''tok'' 5 0 ''hi'' []) = Inl (ErrForbidden msg)"
  using tg_SendMessage_classifies [of forbidding_server "[]" "''tok''" 5 0 "''hi''" "''bot was blocked''" 403 None]
  by (simp add: forbidding_server_def)

text \<open>A message is put into a forum thread exactly when the topic id is positive as a
  signed number: 0 and negative topics go to the General topic.\<close>

theorem tg_SendMessage_thread:
  "\<exists>fs. snd (request_of token (SendMessage chat topic text)) = JObj fs \<and>
     map_of fs ''message_thread_id'' = (if 0 < sint topic then Some (JInt (sint topic)) else None) \<and>
     map_of fs ''chat_id'' = Some (JInt (sint chat)) \<and> map_of fs ''text'' = Some (JStr text)"
  by (simp add: request_of_def tg_SendMessage_def with_thread_def jid_def)

end
