(* ===== verification/Notify.thy ===== *)
theory Notify
  imports Models Messenger
begin

text \<open>
  Package \<open>notify\<close> (\<open>pkg/notify/notify.go\<close>), over any messenger: \<open>send\<close> is its \<open>SendMessage\<close>.
\<close>

datatype notify_error = ErrNoMatchesTopic i64 | ErrSend merr

definition SendInGroup ::
  "(mcall \<Rightarrow> 's \<Rightarrow> (merr + i64) \<times> 's) \<Rightarrow> Group \<Rightarrow> string \<Rightarrow> string \<Rightarrow> 's \<Rightarrow> notify_error option \<times> 's" where
  "SendInGroup send grp username text s =
     (if g_GroupID grp = 0 \<or> g_MatchesTopicID grp = 0
      then (Some (ErrNoMatchesTopic (g_GroupID grp)), s)
      else
        let prefix = (if username = [] then [] else ''@'' @ username @ '', '');
            (r, s') = send (SendMessage (g_GroupID grp) (g_MatchesTopicID grp) (prefix @ text)) s
        in (case r of Inl e \<Rightarrow> Some (ErrSend e) | Inr _ \<Rightarrow> None, s'))"

lemma SendInGroup_unconfigured:
  "g_MatchesTopicID g = 0 \<Longrightarrow> SendInGroup send g u t s = (Some (ErrNoMatchesTopic (g_GroupID g)), s)"
  by (simp add: SendInGroup_def)

end
