(* ===== verification/Identity.thy ===== *)
theory Identity
  imports Models
begin

text \<open>
  Package \<open>identity\<close>: the per-operation service wrapper (\<open>identity.go\<close>) around the
  identity-service client, which is a parameter, and the process-wide LRU cache of S21
  nicknames (\<open>s21_nick_cache.go\<close>). An element of Go's \<open>list.List\<close> is identified by the
  Telegram id it carries; the list is the list of these ids, most recently used first.
\<close>

section \<open>The service wrapper\<close>

record IdentityUser =
  iu_TelegramID :: i64
  iu_Nickname :: string
  iu_CampusID :: string
  iu_CampusName :: string
  iu_CoalitionName :: string
  iu_Found :: bool

definition zero_IdentityUser :: IdentityUser where
  "zero_IdentityUser = \<lparr>iu_TelegramID = 0, iu_Nickname = [], iu_CampusID = [], iu_CampusName = [],
     iu_CoalitionName = [], iu_Found = False\<rparr>"

definition DisplayName :: "IdentityUser \<Rightarrow> string" where
  "DisplayName u = (if iu_Nickname u \<noteq> [] then iu_Nickname u else [])"

text \<open>The client's answers: its user rows and its errors, of which two are sentinels.\<close>

record ClientUser =
  cu_TelegramID :: i64
  cu_Nickname :: string
  cu_CampusID :: string
  cu_CampusName :: string
  cu_CoalitionName :: string

datatype identity_error = IdNotFound | IdInvalidS21Token | IdOther string

record identity_client =
  ic_GetUserByTelegram :: "i64 \<Rightarrow> identity_error + ClientUser"
  ic_GetUsersByNickname :: "string \<Rightarrow> identity_error + ClientUser list"

definition from_client :: "ClientUser \<Rightarrow> IdentityUser" where
  "from_client u = \<lparr>iu_TelegramID = cu_TelegramID u, iu_Nickname = cu_Nickname u,
     iu_CampusID = cu_CampusID u, iu_CampusName = cu_CampusName u,
     iu_CoalitionName = cu_CoalitionName u, iu_Found = True\<rparr>"

record Service =
  sv_cli :: identity_client
  sv_cache :: "(i64, IdentityUser) gomap"

definition identity_New :: "identity_client \<Rightarrow> Service" where
  "identity_New cli = \<lparr>sv_cli = cli, sv_cache = []\<rparr>"

definition cacheLookup :: "i64 \<Rightarrow> Service \<Rightarrow> IdentityUser option" where
  "cacheLookup tid s = mget (sv_cache s) tid"

definition cacheStore :: "IdentityUser \<Rightarrow> Service \<Rightarrow> Service" where
  "cacheStore u s = s\<lparr>sv_cache := mput (iu_TelegramID u) u (sv_cache s)\<rparr>"

definition Flush :: "Service \<Rightarrow> Service" where
  "Flush s = s\<lparr>sv_cache := []\<rparr>"

definition GetByTelegram :: "i64 \<Rightarrow> Service \<Rightarrow> (identity_error + IdentityUser) \<times> Service" where
  "GetByTelegram tid s =
     (case cacheLookup tid s of
        Some u \<Rightarrow> (Inr u, s)
      | None \<Rightarrow>
          (case ic_GetUserByTelegram (sv_cli s) tid of
             Inl IdNotFound \<Rightarrow>
               (let miss = zero_IdentityUser\<lparr>iu_TelegramID := tid\<rparr> in (Inr miss, cacheStore miss s))
           | Inl e \<Rightarrow> (Inl e, s)
           | Inr u \<Rightarrow> (Inr (from_client u), cacheStore (from_client u) s)))"

definition GetUsersByNickname :: "string \<Rightarrow> Service \<Rightarrow> identity_error + IdentityUser list" where
  "GetUsersByNickname nick s =
     (case ic_GetUsersByNickname (sv_cli s) nick of
        Inl e \<Rightarrow> Inl e
      | Inr users \<Rightarrow> Inr (map from_client users))"

text \<open>Once a lookup by Telegram id has succeeded, the service answers the same id with the
  same record from its cache, whatever the client would say, until the next \<open>Flush\<close>. \<open>Not
  found\<close> answers are cached the same way. (The client is taken to answer about the id it was
  asked for.)\<close>

theorem GetByTelegram_cached:
  assumes "\<And>u. ic_GetUserByTelegram (sv_cli s) tid = Inr u \<Longrightarrow> cu_TelegramID u = tid"
    and "\<And>u. mget (sv_cache s) tid = Some u \<Longrightarrow> iu_TelegramID u = tid"
    and "fst (GetByTelegram tid s) = Inr u"
  shows "GetByTelegram tid (snd (GetByTelegram tid s)\<lparr>sv_cli := cli\<rparr>) =
      (Inr u, snd (GetByTelegram tid s)\<lparr>sv_cli := cli\<rparr>)
    \<and> iu_TelegramID u = tid
    \<and> (iu_Found u \<longleftrightarrow> (case mget (sv_cache s) tid of Some v \<Rightarrow> iu_Found v
          | None \<Rightarrow> ic_GetUserByTelegram (sv_cli s) tid \<noteq> Inl IdNotFound))"
  using assms
  by (auto simp: GetByTelegram_def cacheLookup_def cacheStore_def from_client_def Let_def
      zero_IdentityUser_def split: option.splits sum.splits identity_error.splits)

definition example_client :: identity_client where
  "example_client = \<lparr>ic_GetUserByTelegram = (\<lambda>tid. if tid = 7 then Inr \<lparr>cu_TelegramID = 7,
       cu_Nickname = ''alice'', cu_CampusID = [], cu_CampusName = [], cu_CoalitionName = []\<rparr>
       else Inl IdNotFound), ic_GetUsersByNickname = (\<lambda>_. Inr [])\<rparr>"

theorem GetByTelegram_cached_witness:
  "fst (GetByTelegram 8 (snd (GetByTelegram 8 (identity_New example_client))\<lparr>sv_cli := example_client\<rparr>))
     = Inr (zero_IdentityUser\<lparr>iu_TelegramID := 8\<rparr>)"
proof -
  have "fst (GetByTelegram 8 (identity_New example_client)) = Inr (zero_IdentityUser\<lparr>iu_TelegramID := 8\<rparr>)"
    by (simp add: GetByTelegram_def identity_New_def example_client_def cacheLookup_def Let_def)
  from GetByTelegram_cached [OF _ _ this, of example_client] show ?thesis
    by (simp add: identity_New_def example_client_def)
qed

section \<open>The nickname cache\<close>

record s21NickEntry =
  ne_tid :: i64
  ne_user :: IdentityUser
  ne_fetchedAt :: time

record S21NickCache =
  nc_ttl :: duration
  nc_maxEntries :: nat
  nc_entries :: "(i64, s21NickEntry) gomap"
  nc_lru :: "i64 list"

definition defaultS21NickCacheMax :: nat where
  "defaultS21NickCacheMax = 20000"

definition NewS21NickCacheWithMax :: "duration \<Rightarrow> int \<Rightarrow> S21NickCache" where
  "NewS21NickCacheWithMax ttl maxEntries =
     \<lparr>nc_ttl = ttl, nc_maxEntries = (if maxEntries < 1 then defaultS21NickCacheMax else nat maxEntries),
      nc_entries = [], nc_lru = []\<rparr>"

definition NewS21NickCache :: "duration \<Rightarrow> S21NickCache" where
  "NewS21NickCache ttl = NewS21NickCacheWithMax ttl (int defaultS21NickCacheMax)"

text \<open>\<open>lru.Remove\<close>, \<open>MoveToFront\<close> and the removal from both structures.\<close>

definition lru_Remove :: "i64 \<Rightarrow> i64 list \<Rightarrow> i64 list" where
  "lru_Remove tid l = filter (\<lambda>t. t \<noteq> tid) l"

definition MoveToFront :: "i64 \<Rightarrow> i64 list \<Rightarrow> i64 list" where
  "MoveToFront tid l = tid # lru_Remove tid l"

definition nick_Get :: "time \<Rightarrow> i64 \<Rightarrow> S21NickCache \<Rightarrow> IdentityUser option \<times> S21NickCache" where
  "nick_Get now tid c =
     (case mget (nc_entries c) tid of
        None \<Rightarrow> (None, c)
      | Some e \<Rightarrow>
          if nc_ttl c < time_Sub now (ne_fetchedAt e)
          then (None, c\<lparr>nc_lru := lru_Remove tid (nc_lru c), nc_entries := mdel tid (nc_entries c)\<rparr>)
          else (Some (ne_user e), c\<lparr>nc_lru := MoveToFront tid (nc_lru c)\<rparr>))"

function evictLocked :: "S21NickCache \<Rightarrow> S21NickCache" where
  "evictLocked c =
     (if nc_maxEntries c < length (nc_entries c) \<and> nc_lru c \<noteq> []
      then evictLocked (c\<lparr>nc_lru := butlast (nc_lru c), nc_entries := mdel (last (nc_lru c)) (nc_entries c)\<rparr>)
      else c)"
  by pat_completeness auto
termination
  by (relation "measure (\<lambda>c. length (nc_lru c))") auto

declare evictLocked.simps [simp del]

definition nick_Put :: "time \<Rightarrow> i64 \<Rightarrow> IdentityUser \<Rightarrow> S21NickCache \<Rightarrow> S21NickCache" where
  "nick_Put now tid u c =
     (case mget (nc_entries c) tid of
        Some e \<Rightarrow> c\<lparr>nc_entries := mput tid (e\<lparr>ne_user := u, ne_fetchedAt := now\<rparr>) (nc_entries c),
                    nc_lru := MoveToFront tid (nc_lru c)\<rparr>
      | None \<Rightarrow> evictLocked (c\<lparr>nc_lru := tid # nc_lru c,
          nc_entries := mput tid \<lparr>ne_tid = tid, ne_user = u, ne_fetchedAt = now\<rparr> (nc_entries c)\<rparr>))"

definition nick_Invalidate :: "i64 \<Rightarrow> S21NickCache \<Rightarrow> S21NickCache" where
  "nick_Invalidate tid c =
     (case mget (nc_entries c) tid of
        None \<Rightarrow> c
      | Some e \<Rightarrow> c\<lparr>nc_lru := lru_Remove tid (nc_lru c), nc_entries := mdel tid (nc_entries c)\<rparr>)"

definition nick_Size :: "S21NickCache \<Rightarrow> nat" where
  "nick_Size c = length (nc_entries c)"

subsection \<open>Invariant\<close>

text \<open>The map and the list hold the same ids, once each, and never more than the cap.\<close>

definition wf_cache :: "S21NickCache \<Rightarrow> bool" where
  "wf_cache c \<longleftrightarrow> wf_map (nc_entries c) \<and> distinct (nc_lru c)
     \<and> set (nc_lru c) = dom (mget (nc_entries c))
     \<and> length (nc_entries c) \<le> nc_maxEntries c \<and> 1 \<le> nc_maxEntries c
     \<and> (\<forall>t e. mget (nc_entries c) t = Some e \<longrightarrow> ne_tid e = t)"

text \<open>Specification: the cached records in the order of last use.\<close>

definition nick_row :: "(i64, s21NickEntry) gomap \<Rightarrow> i64 \<Rightarrow> i64 \<times> IdentityUser \<times> time" where
  "nick_row m t = (t, case mget m t of
     Some e \<Rightarrow> (ne_user e, ne_fetchedAt e) | None \<Rightarrow> (zero_IdentityUser, 0))"

definition nick_abs :: "S21NickCache \<Rightarrow> (i64 \<times> IdentityUser \<times> time) list" where
  "nick_abs c = map (nick_row (nc_entries c)) (nc_lru c)"

definition spec_put :: "nat \<Rightarrow> time \<Rightarrow> i64 \<Rightarrow> IdentityUser \<Rightarrow> (i64 \<times> IdentityUser \<times> time) list
    \<Rightarrow> (i64 \<times> IdentityUser \<times> time) list" where
  "spec_put cap now tid u l = take cap ((tid, u, now) # filter (\<lambda>x. fst x \<noteq> tid) l)"

lemma wf_map_length: "wf_map m \<Longrightarrow> length m = card (dom (mget m))"
  unfolding wf_map_def dom_map_of_conv_image_fst
  by (metis distinct_card length_map list.set_map)

lemma dom_mdel [simp]: "dom (mget (mdel k m)) = dom (mget m) - {k}"
  by (auto split: if_splits)

lemma dom_mput [simp]: "dom (mget (mput k v m)) = insert k (dom (mget m))"
  by (auto split: if_splits)

lemma finite_dom_mget [simp]: "finite (dom (mget m))"
  by (rule finite_dom_map_of)

lemma wf_cache_lengths:
  assumes "wf_cache c"
  shows "length (nc_lru c) = length (nc_entries c)"
  using assms distinct_card [of "nc_lru c"] by (simp add: wf_cache_def wf_map_length)

lemma wf_cache_New [simp, wf_intros]: "wf_cache (NewS21NickCacheWithMax ttl n)"
  by (auto simp: wf_cache_def NewS21NickCacheWithMax_def defaultS21NickCacheMax_def)

lemma lru_Remove_facts [simp]:
  "set (lru_Remove t l) = set l - {t}" "distinct l \<Longrightarrow> distinct (lru_Remove t l)"
  by (auto simp: lru_Remove_def)

lemma wf_cache_drop:
  assumes "wf_cache c"
  shows "wf_cache (c\<lparr>nc_lru := lru_Remove t (nc_lru c), nc_entries := mdel t (nc_entries c)\<rparr>)"
proof -
  have "card (dom (mget (nc_entries c)) - {t}) \<le> card (dom (mget (nc_entries c)))"
    by (rule card_mono) auto
  then show ?thesis
    using assms wf_map_length [of "nc_entries c"] by (auto simp: wf_cache_def wf_map_length)
qed

lemma wf_cache_front:
  assumes "wf_cache c" and "mget (nc_entries c) t = Some e"
  shows "wf_cache (c\<lparr>nc_lru := MoveToFront t (nc_lru c)\<rparr>)"
  using assms by (auto simp: wf_cache_def MoveToFront_def)

lemma wf_cache_touch:
  assumes "wf_cache c" and "mget (nc_entries c) t = Some e" and "ne_tid e' = t"
  shows "wf_cache (c\<lparr>nc_entries := mput t e' (nc_entries c), nc_lru := MoveToFront t (nc_lru c)\<rparr>)"
proof -
  have t: "t \<in> dom (mget (nc_entries c))" using assms(2) by blast
  then have "insert t (dom (mget (nc_entries c))) = dom (mget (nc_entries c))" by blast
  then show ?thesis
    using assms t by (auto simp: wf_cache_def wf_map_length MoveToFront_def)
qed

lemma nick_Get_wf [wf_intros]: "wf_cache c \<Longrightarrow> wf_cache (snd (nick_Get now t c))"
  by (auto simp: nick_Get_def wf_cache_drop intro: wf_cache_front split: option.splits)

lemma nick_Invalidate_wf [wf_intros]: "wf_cache c \<Longrightarrow> wf_cache (nick_Invalidate t c)"
  by (auto simp: nick_Invalidate_def wf_cache_drop split: option.splits)

text \<open>An insertion evicts at most one entry, the last of the list.\<close>

lemma evict_none: "length (nc_entries c) \<le> nc_maxEntries c \<Longrightarrow> evictLocked c = c"
  by (subst evictLocked.simps) simp

lemma nick_Put_fresh:
  fixes now :: time and u :: IdentityUser
  assumes wf: "wf_cache c" and fresh: "mget (nc_entries c) t = None"
  defines "e \<equiv> \<lparr>ne_tid = t, ne_user = u, ne_fetchedAt = now\<rparr>"
  shows "nick_Put now t u c =
    (if length (nc_lru c) < nc_maxEntries c
     then c\<lparr>nc_lru := t # nc_lru c, nc_entries := mput t e (nc_entries c)\<rparr>
     else c\<lparr>nc_lru := t # butlast (nc_lru c),
            nc_entries := mdel (last (nc_lru c)) (mput t e (nc_entries c))\<rparr>)"
proof -
  let ?c1 = "c\<lparr>nc_lru := t # nc_lru c, nc_entries := mput t e (nc_entries c)\<rparr>"
  have "t \<notin> dom (mget (nc_entries c))" using fresh by blast
  then have len: "length (mput t e (nc_entries c)) = Suc (length (nc_lru c))"
    using wf by (simp add: wf_map_length wf_cache_lengths) (simp add: wf_cache_def wf_map_length)
  have put: "nick_Put now t u c = evictLocked ?c1" using fresh by (simp add: nick_Put_def e_def)
  show ?thesis
  proof (cases "length (nc_lru c) < nc_maxEntries c")
    case True
    then show ?thesis using put len by (simp add: evict_none)
  next
    case False
    have full: "length (nc_lru c) = nc_maxEntries c" and one: "1 \<le> nc_maxEntries c"
      using False wf wf_cache_lengths [OF wf] by (simp_all add: wf_cache_def)
    then have ne: "nc_lru c \<noteq> []" by auto
    let ?l = "last (nc_lru c)"
    have mem: "?l \<in> insert t (dom (mget (nc_entries c)))"
      using wf ne last_in_set [OF ne] by (simp add: wf_cache_def)
    have wfe: "wf_map (mput t e (nc_entries c))" using wf by (simp add: wf_cache_def)
    have "length (mdel ?l (mput t e (nc_entries c))) = nc_maxEntries c"
      using len full mem wfe by (simp add: wf_map_length card_Diff_singleton_if)
    then have "evictLocked (?c1\<lparr>nc_lru := butlast (t # nc_lru c), nc_entries := mdel ?l (mput t e (nc_entries c))\<rparr>)
        = ?c1\<lparr>nc_lru := butlast (t # nc_lru c), nc_entries := mdel ?l (mput t e (nc_entries c))\<rparr>"
      by (intro evict_none) simp
    then show ?thesis
      using put len full ne False by (subst (asm) evictLocked.simps) simp
  qed
qed

lemma nick_Put_wf [wf_intros]:
  assumes wf: "wf_cache c"
  shows "wf_cache (nick_Put now t u c)"
proof (cases "mget (nc_entries c) t")
  case (Some e)
  moreover have "ne_tid (e\<lparr>ne_user := u, ne_fetchedAt := now\<rparr>) = t"
    using Some wf by (simp add: wf_cache_def)
  ultimately show ?thesis using wf_cache_touch [OF wf Some] by (simp add: nick_Put_def)
next
  case None
  then have t: "t \<notin> set (nc_lru c)" using wf by (auto simp: wf_cache_def)
  show ?thesis
  proof (cases "length (nc_lru c) < nc_maxEntries c")
    case True
    moreover have "length (nc_entries c) = length (nc_lru c)" using wf_cache_lengths [OF wf] ..
    ultimately show ?thesis
      unfolding nick_Put_fresh [OF wf None] using wf t
      by (auto simp: wf_cache_def wf_map_length card_insert_if)
  next
    case False
    have ne: "nc_lru c \<noteq> []" using False wf by (auto simp: wf_cache_def)
    then obtain l x where l: "nc_lru c = l @ [x]" by (metis append_butlast_last_id)
    have fresh: "t \<notin> dom (mget (nc_entries c))" "t \<noteq> x" "x \<in> dom (mget (nc_entries c))"
      using None t l wf by (auto simp: wf_cache_def)
    have d: "distinct (l @ [x])" "set (l @ [x]) = dom (mget (nc_entries c))"
      using wf l by (simp_all add: wf_cache_def)
    have "card (insert t (dom (mget (nc_entries c))) - {x}) = card (dom (mget (nc_entries c)))"
      using fresh by (simp add: card_Diff_singleton_if card_insert_if)
    then show ?thesis
      unfolding nick_Put_fresh [OF wf None] using False wf t d l fresh
      by (auto simp: wf_cache_def wf_map_length)
  qed
qed

subsection \<open>Refinement\<close>

lemma nick_row_fst [simp]: "fst (nick_row m t) = t"
  by (simp add: nick_row_def)

lemma nick_abs_fst: "map fst (nick_abs c) = nc_lru c"
  by (simp add: nick_abs_def comp_def)

lemma nick_abs_length [simp]: "length (nick_abs c) = length (nc_lru c)"
  by (simp add: nick_abs_def)

lemma filter_nick_abs:
  "filter (\<lambda>x. fst x \<noteq> k) (nick_abs c) = map (nick_row (nc_entries c)) (lru_Remove k (nc_lru c))"
  by (simp add: nick_abs_def lru_Remove_def filter_map comp_def)

lemma nick_row_mput [simp]:
  "nick_row (mput k e m) t = (if t = k then (k, ne_user e, ne_fetchedAt e) else nick_row m t)"
  by (simp add: nick_row_def)

lemma nick_row_mdel [simp]:
  "nick_row (mdel k m) t = (if t = k then (k, zero_IdentityUser, 0) else nick_row m t)"
  by (simp add: nick_row_def)

lemma lru_Remove_absent: "t \<notin> set l \<Longrightarrow> lru_Remove t l = l"
  by (induction l) (auto simp: lru_Remove_def)

text \<open>C36. The cache refines an LRU list: \<open>Put\<close> moves or inserts the record at the front and cuts
  the list at the cap, so the record dropped is the one unused for longest; and it keeps the
  map and the list consistent and within the cap.\<close>

theorem nick_Put_refines:
  assumes "wf_cache c"
  shows "nick_abs (nick_Put now t u c) = spec_put (nc_maxEntries c) now t u (nick_abs c)
    \<and> wf_cache (nick_Put now t u c)"
proof (intro conjI nick_Put_wf assms)
  have len: "length (nc_lru c) \<le> nc_maxEntries c" and one: "1 \<le> nc_maxEntries c"
    using assms wf_cache_lengths [OF assms] by (simp_all add: wf_cache_def)
  show "nick_abs (nick_Put now t u c) = spec_put (nc_maxEntries c) now t u (nick_abs c)"
  proof (cases "mget (nc_entries c) t")
    case (Some e)
    then have "t \<in> set (nc_lru c)" using assms by (auto simp: wf_cache_def)
    then have "length (lru_Remove t (nc_lru c)) < length (nc_lru c)"
      unfolding lru_Remove_def by (intro length_filter_less) auto
    then show ?thesis
      unfolding spec_put_def filter_nick_abs using Some len
      by (auto simp: nick_Put_def nick_abs_def MoveToFront_def)
  next
    case None
    then have t: "t \<notin> set (nc_lru c)" using assms by (auto simp: wf_cache_def)
    show ?thesis
    proof (cases "length (nc_lru c) < nc_maxEntries c")
      case True
      then show ?thesis
        using t unfolding nick_Put_fresh [OF assms None] spec_put_def filter_nick_abs
        by (auto simp: nick_abs_def lru_Remove_absent)
    next
      case False
      with len one obtain l x where l: "nc_lru c = l @ [x]"
        by (cases "nc_lru c" rule: rev_cases) auto
      have "t \<noteq> x" "t \<notin> set l" "x \<notin> set l" and max: "nc_maxEntries c = Suc (length l)"
        using t l len False assms by (auto simp: wf_cache_def)
      then show ?thesis
        using False unfolding nick_Put_fresh [OF assms None] spec_put_def filter_nick_abs
        by (auto simp: nick_abs_def lru_Remove_absent l)
    qed
  qed
qed

definition example_user :: "string \<Rightarrow> IdentityUser" where
  "example_user n = zero_IdentityUser\<lparr>iu_Nickname := n, iu_Found := True\<rparr>"

lemma evictLocked_frame [frame_simps]:
  "nc_maxEntries (evictLocked c) = nc_maxEntries c \<and> nc_ttl (evictLocked c) = nc_ttl c"
  by (induction c rule: evictLocked.induct) (subst (1 2) evictLocked.simps, auto)

lemma nick_frame [frame_simps]:
  "nc_maxEntries (nick_Put now t u c) = nc_maxEntries c" "nc_ttl (nick_Put now t u c) = nc_ttl c"
  "nc_maxEntries (snd (nick_Get now t c)) = nc_maxEntries c" "nc_ttl (snd (nick_Get now t c)) = nc_ttl c"
  by (simp_all add: nick_Put_def nick_Get_def frame_simps split: option.splits)

theorem nick_Put_refines_witness:
  "nick_abs (nick_Put 3 9 (example_user ''c'') (nick_Put 2 8 (example_user ''b'')
     (nick_Put 1 7 (example_user ''a'') (NewS21NickCacheWithMax 100 2))))
   = [(9, example_user ''c'', 3), (8, example_user ''b'', 2)]"
  by (simp add: nick_Put_refines wf_intros frame_simps spec_put_def)
     (simp add: NewS21NickCacheWithMax_def nick_abs_def)

subsection \<open>How long an entry stays\<close>

datatype nick_op = NGet time i64 | NPut time i64 IdentityUser

fun nick_run :: "nick_op list \<Rightarrow> S21NickCache \<Rightarrow> S21NickCache" where
  "nick_run [] c = c"
| "nick_run (NGet now t # ops) c = nick_run ops (snd (nick_Get now t c))"
| "nick_run (NPut now t u # ops) c = nick_run ops (nick_Put now t u c)"

fun nick_op_tid :: "nick_op \<Rightarrow> i64" where
  "nick_op_tid (NGet _ t) = t" | "nick_op_tid (NPut _ t _) = t"

text \<open>Allowed traffic while \<open>t\<close> waits: lookups of \<open>t\<close> before it expires, anything on others.\<close>

fun keeps :: "i64 \<Rightarrow> time \<Rightarrow> duration \<Rightarrow> nick_op \<Rightarrow> bool" where
  "keeps t t0 ttl (NGet now x) = (x = t \<longrightarrow> time_Sub now t0 \<le> ttl)"
| "keeps t t0 ttl (NPut now x u) = (x \<noteq> t)"

definition held :: "i64 set \<Rightarrow> i64 \<Rightarrow> IdentityUser \<Rightarrow> time \<Rightarrow> S21NickCache \<Rightarrow> bool" where
  "held S t u t0 c \<longleftrightarrow> wf_cache c \<and> card S < nc_maxEntries c \<and>
     (\<exists>a b. nc_lru c = a @ t # b \<and> set a \<subseteq> S) \<and>
     mget (nc_entries c) t = Some \<lparr>ne_tid = t, ne_user = u, ne_fetchedAt = t0\<rparr>"

lemma held_Put_other:
  assumes "held S t u t0 c" and "x \<in> S" and "x \<noteq> t" and "finite S"
  shows "held S t u t0 (nick_Put now x v c)"
proof -
  from assms(1) obtain a b where wf: "wf_cache c" and card: "card S < nc_maxEntries c"
    and ab: "nc_lru c = a @ t # b" "set a \<subseteq> S"
    and e: "mget (nc_entries c) t = Some \<lparr>ne_tid = t, ne_user = u, ne_fetchedAt = t0\<rparr>"
    by (auto simp: held_def)
  have dist: "distinct (a @ t # b)" using wf ab by (simp add: wf_cache_def)
  have "(\<exists>a' b'. nc_lru (nick_Put now x v c) = a' @ t # b' \<and> set a' \<subseteq> S)
      \<and> mget (nc_entries (nick_Put now x v c)) t = mget (nc_entries c) t"
  proof (cases "mget (nc_entries c) x")
    case (Some e')
    have "nc_lru (nick_Put now x v c) = (x # lru_Remove x a) @ t # lru_Remove x b"
      using Some ab \<open>x \<noteq> t\<close> by (simp add: nick_Put_def MoveToFront_def lru_Remove_def)
    moreover have "set (x # lru_Remove x a) \<subseteq> S" using ab assms(2) by auto
    moreover have "mget (nc_entries (nick_Put now x v c)) t = mget (nc_entries c) t"
      using Some \<open>x \<noteq> t\<close> by (simp add: nick_Put_def)
    ultimately show ?thesis by blast
  next
    case None
    then have x: "x \<notin> set a" using wf ab by (auto simp: wf_cache_def)
    show ?thesis
    proof (cases "length (nc_lru c) < nc_maxEntries c")
      case True
      have "nc_lru (nick_Put now x v c) = (x # a) @ t # b"
        using True ab by (simp add: nick_Put_fresh [OF wf None])
      moreover have "set (x # a) \<subseteq> S" using ab assms(2) by auto
      moreover have "mget (nc_entries (nick_Put now x v c)) t = mget (nc_entries c) t"
        using True \<open>x \<noteq> t\<close> by (simp add: nick_Put_fresh [OF wf None])
      ultimately show ?thesis by blast
    next
      case False
      have "card (insert x (set a)) \<le> card S"
        using ab assms(2,4) by (intro card_mono) auto
      then have "Suc (length a) \<le> card S"
        using x dist by (simp add: distinct_card)
      then have "b \<noteq> []" using False card ab by auto
      then obtain b0 y where b: "b = b0 @ [y]" by (metis append_butlast_last_id)
      have "y \<noteq> t" using dist b by auto
      have "nc_lru (nick_Put now x v c) = (x # a) @ t # b0"
        using False ab b by (simp add: nick_Put_fresh [OF wf None] butlast_append)
      moreover have "set (x # a) \<subseteq> S" using ab assms(2) by auto
      moreover have "mget (nc_entries (nick_Put now x v c)) t = mget (nc_entries c) t"
        using False \<open>x \<noteq> t\<close> \<open>y \<noteq> t\<close> ab b by (simp add: nick_Put_fresh [OF wf None])
      ultimately show ?thesis by blast
    qed
  qed
  then show ?thesis
    using wf card e by (simp add: held_def nick_Put_wf frame_simps)
qed

lemma held_Get:
  assumes "held S t u t0 c" and "x \<noteq> t \<Longrightarrow> x \<in> S" and "x = t \<Longrightarrow> time_Sub now t0 \<le> nc_ttl c"
  shows "held S t u t0 (snd (nick_Get now x c))"
proof -
  from assms(1) obtain a b where wf: "wf_cache c" and card: "card S < nc_maxEntries c"
    and ab: "nc_lru c = a @ t # b" "set a \<subseteq> S"
    and e: "mget (nc_entries c) t = Some \<lparr>ne_tid = t, ne_user = u, ne_fetchedAt = t0\<rparr>"
    by (auto simp: held_def)
  let ?c' = "snd (nick_Get now x c)"
  have "\<exists>a' b'. nc_lru ?c' = a' @ t # b' \<and> set a' \<subseteq> S \<and> mget (nc_entries ?c') t = mget (nc_entries c) t"
  proof (cases "x = t")
    case True
    then have "nc_lru ?c' = [] @ t # lru_Remove t (nc_lru c)" "mget (nc_entries ?c') t = mget (nc_entries c) t"
      using e assms(3) by (simp_all add: nick_Get_def MoveToFront_def)
    then show ?thesis by (metis empty_subsetI list.set(1))
  next
    case False
    have rem: "lru_Remove x (nc_lru c) = lru_Remove x a @ t # lru_Remove x b"
      using False ab by (simp add: lru_Remove_def)
    have "?c' = c
      \<or> nc_lru ?c' = lru_Remove x a @ t # lru_Remove x b \<and> mget (nc_entries ?c') t = mget (nc_entries c) t
      \<or> nc_lru ?c' = (x # lru_Remove x a) @ t # lru_Remove x b \<and> mget (nc_entries ?c') t = mget (nc_entries c) t"
      using rem False by (simp add: nick_Get_def MoveToFront_def split: option.splits)
    then consider "?c' = c"
      | "nc_lru ?c' = lru_Remove x a @ t # lru_Remove x b" "mget (nc_entries ?c') t = mget (nc_entries c) t"
      | "nc_lru ?c' = (x # lru_Remove x a) @ t # lru_Remove x b" "mget (nc_entries ?c') t = mget (nc_entries c) t"
      by blast
    then show ?thesis
    proof cases
      case 1 with ab show ?thesis by auto
    next
      case 2
      moreover have "set (lru_Remove x a) \<subseteq> S" using ab by auto
      ultimately show ?thesis by blast
    next
      case 3
      moreover have "set (x # lru_Remove x a) \<subseteq> S" using ab assms(2) False by auto
      ultimately show ?thesis by blast
    qed
  qed
  then show ?thesis using wf card e nick_Get_wf [OF wf] by (auto simp: held_def frame_simps)
qed

lemma held_run:
  assumes "held S t u t0 c" and "finite S" and "\<forall>op \<in> set ops. keeps t t0 (nc_ttl c) op"
    and "nick_op_tid ` set ops - {t} \<subseteq> S"
  shows "held S t u t0 (nick_run ops c) \<and> nc_ttl (nick_run ops c) = nc_ttl c"
  using assms
proof (induction ops arbitrary: c)
  case Nil
  then show ?case by simp
next
  case (Cons op ops)
  show ?case
  proof (cases op)
    case (NGet now x)
    have "held S t u t0 (snd (nick_Get now x c))"
      using Cons.prems NGet by (intro held_Get) auto
    then show ?thesis using Cons.IH [of "snd (nick_Get now x c)"] Cons.prems NGet
      by (simp add: frame_simps) blast
  next
    case (NPut now x v)
    have "held S t u t0 (nick_Put now x v c)"
      using Cons.prems NPut by (intro held_Put_other) auto
    then show ?thesis using Cons.IH [of "nick_Put now x v c"] Cons.prems NPut
      by (simp add: frame_simps) blast
  qed
qed

text \<open>A cached record is still served, unchanged, until its TTL has passed, whatever other
  traffic there was in between, as long as that traffic touched fewer distinct other ids than
  the cap (20000 in production): no entry is evicted before the least recently used ones.\<close>

theorem nick_cache_retention:
  assumes "wf_cache c"
    and "\<forall>op \<in> set ops. keeps t t0 (nc_ttl c) op"
    and "card (nick_op_tid ` set ops - {t}) < nc_maxEntries c"
    and "time_Sub now t0 \<le> nc_ttl c"
  shows "fst (nick_Get now t (nick_run ops (nick_Put t0 t u c))) = Some u"
proof -
  let ?S = "nick_op_tid ` set ops - {t}"
  let ?c = "nick_Put t0 t u c"
  have lru: "nc_lru ?c = [] @ t # tl (nc_lru ?c)"
    and ent: "mget (nc_entries ?c) t = Some \<lparr>ne_tid = t, ne_user = u, ne_fetchedAt = t0\<rparr>"
  proof -
    have "nc_lru ?c = t # tl (nc_lru ?c) \<and>
       mget (nc_entries ?c) t = Some \<lparr>ne_tid = t, ne_user = u, ne_fetchedAt = t0\<rparr>"
    proof (cases "mget (nc_entries c) t")
      case (Some e)
      moreover have "ne_tid e = t" using Some assms(1) by (simp add: wf_cache_def)
      ultimately show ?thesis by (simp add: nick_Put_def MoveToFront_def)
    next
      case None
      have t: "t \<notin> set (nc_lru c)" using None assms(1) by (auto simp: wf_cache_def)
      have "0 < nc_maxEntries c" using assms(1) by (auto simp: wf_cache_def)
      moreover have "nc_lru c \<noteq> [] \<Longrightarrow> last (nc_lru c) \<noteq> t" using t by (metis last_in_set)
      ultimately show ?thesis
        by (cases "nc_lru c = []") (simp_all add: nick_Put_fresh [OF assms(1) None])
    qed
    then show "nc_lru ?c = [] @ t # tl (nc_lru ?c)"
      "mget (nc_entries ?c) t = Some \<lparr>ne_tid = t, ne_user = u, ne_fetchedAt = t0\<rparr>" by auto
  qed
  have "\<exists>a b. nc_lru ?c = a @ t # b \<and> set a \<subseteq> ?S"
    using lru by (metis empty_subsetI list.set(1))
  then have "held ?S t u t0 ?c"
    using ent assms(1,3) by (simp add: held_def nick_Put_wf frame_simps)
  then have "held ?S t u t0 (nick_run ops ?c)" "nc_ttl (nick_run ops ?c) = nc_ttl c"
    using held_run [of ?S t u t0 ?c ops] assms(2) by (auto simp: frame_simps)
  then show ?thesis using assms(4) by (auto simp: held_def nick_Get_def)
qed

theorem nick_cache_retention_witness:
  "fst (nick_Get 90 7 (nick_run [NPut 2 8 (example_user ''b''), NGet 3 9, NGet 4 7]
     (nick_Put 1 7 (example_user ''a'') (NewS21NickCacheWithMax 100 3)))) = Some (example_user ''a'')"
proof (rule nick_cache_retention)
  have "nick_op_tid ` set [NPut 2 8 (example_user ''b''), NGet 3 9, NGet 4 7] - {7} = {8, 9}" by auto
  then show "card (nick_op_tid ` set [NPut 2 8 (example_user ''b''), NGet 3 9, NGet 4 7] - {7})
      < nc_maxEntries (NewS21NickCacheWithMax 100 3)"
    by (simp add: NewS21NickCacheWithMax_def)
  show "wf_cache (NewS21NickCacheWithMax 100 3)" by (rule wf_intros)
qed (simp_all add: NewS21NickCacheWithMax_def time_Sub_def)

end
