(* ===== verification/Crypto.thy ===== *)
theory Crypto
  imports GoText
begin

text \<open>
  Package \<open>crypto\<close> (\<open>pkg/crypto/crypto.go\<close>): an authenticated cipher in a base64 envelope. The
  AES-256-GCM primitive of the standard library and its random nonces are parameters
  (\<open>AEAD\<close>, and an argument of \<open>Encrypt\<close>); base64 (\<open>base64.StdEncoding\<close>) is translated. Byte
  slices and strings are both lists of bytes.
\<close>

section \<open>Standard base64\<close>

definition b64_alphabet :: string where
  "b64_alphabet = ''ABCDEFGHIJKLMNOPQRSTUVWXYZabcdefghijklmnopqrstuvwxyz0123456789+/''"

definition b64_char :: "nat \<Rightarrow> char" where
  "b64_char i = b64_alphabet ! i"

fun index_of :: "nat \<Rightarrow> char \<Rightarrow> string \<Rightarrow> nat option" where
  "index_of i c [] = None"
| "index_of i c (d # ds) = (if c = d then Some i else index_of (i + 1) c ds)"

definition b64_value :: "char \<Rightarrow> nat option" where
  "b64_value c = index_of 0 c b64_alphabet"

fun EncodeToString :: "string \<Rightarrow> string" where
  "EncodeToString [] = []"
| "EncodeToString [a] =
     [b64_char (byte a div 4), b64_char (byte a mod 4 * 16), CHR ''='', CHR ''='']"
| "EncodeToString [a, b] =
     [b64_char (byte a div 4), b64_char (byte a mod 4 * 16 + byte b div 16),
      b64_char (byte b mod 16 * 4), CHR ''='']"
| "EncodeToString (a # b # c # r) =
     b64_char (byte a div 4) # b64_char (byte a mod 4 * 16 + byte b div 16)
     # b64_char (byte b mod 16 * 4 + byte c div 64) # b64_char (byte c mod 64) # EncodeToString r"

text \<open>
  The decoder skips \<open>\r\<close> and \<open>\n\<close>, reads groups of four characters and accepts padding in the
  last group only. It is not strict: spare bits before the padding are ignored.
\<close>

fun decode_groups :: "string \<Rightarrow> string option" where
  "decode_groups [] = Some []"
| "decode_groups (a # b # c # d # r) =
     (case (b64_value a, b64_value b) of
        (Some va, Some vb) \<Rightarrow>
          if c = CHR ''='' then
            (if d = CHR ''='' \<and> r = [] then Some [char_of (va * 4 + vb div 16)] else None)
          else (case b64_value c of
              None \<Rightarrow> None
            | Some vc \<Rightarrow>
                if d = CHR ''='' then
                  (if r = [] then Some [char_of (va * 4 + vb div 16), char_of (vb mod 16 * 16 + vc div 4)]
                   else None)
                else (case (b64_value d, decode_groups r) of
                    (Some vd, Some rest) \<Rightarrow>
                      Some (char_of (va * 4 + vb div 16) # char_of (vb mod 16 * 16 + vc div 4)
                        # char_of (vc mod 4 * 64 + vd) # rest)
                  | _ \<Rightarrow> None))
      | _ \<Rightarrow> None)"
| "decode_groups _ = None"

definition DecodeString :: "string \<Rightarrow> string option" where
  "DecodeString s = decode_groups (filter (\<lambda>c. byte c \<noteq> 13 \<and> byte c \<noteq> 10) s)"

lemma index_of_nth:
  "distinct ds \<Longrightarrow> j < length ds \<Longrightarrow> index_of i (ds ! j) ds = Some (i + j)"
proof (induction ds arbitrary: i j)
  case Nil
  then show ?case by simp
next
  case (Cons d ds)
  then show ?case by (cases j) auto
qed

lemma b64_length: "length b64_alphabet = 64"
  by (simp add: b64_alphabet_def)

lemma b64_distinct: "distinct b64_alphabet"
  by (simp add: b64_alphabet_def)

lemma b64_value_char [simp]: "i < 64 \<Longrightarrow> b64_value (b64_char i) = Some i"
  using index_of_nth [OF b64_distinct, of i 0] by (simp add: b64_value_def b64_char_def b64_length)

lemma b64_char_in: "i < 64 \<Longrightarrow> b64_char i \<in> set b64_alphabet"
  by (simp add: b64_char_def b64_length)

lemma b64_char_plain [simp]:
  assumes "i < 64"
  shows "b64_char i \<noteq> CHR ''=''" and "byte (b64_char i) \<noteq> 13" and "byte (b64_char i) \<noteq> 10"
proof -
  have "\<forall>c \<in> set b64_alphabet. c \<noteq> CHR ''='' \<and> byte c \<noteq> 13 \<and> byte c \<noteq> 10"
    by (simp add: b64_alphabet_def byte_def)
  then show "b64_char i \<noteq> CHR ''=''" "byte (b64_char i) \<noteq> 13" "byte (b64_char i) \<noteq> 10"
    using b64_char_in [OF assms] by blast+
qed

lemma char_of_byte [simp]: "char_of (byte c) = c"
  by (simp add: byte_def)

lemma byte_div [simp]:
  "byte a div 4 < 64" "byte b div 16 < 16" "byte c div 64 < 4"
  "byte b div 16 div 16 = 0" "byte c div 64 div 4 = 0"
  using byte_less [of a] byte_less [of b] byte_less [of c]
  by (simp_all add: less_mult_imp_div_less)

lemma byte_mod: "byte a mod 4 \<le> 3" "byte b mod 16 \<le> 15" "byte c mod 64 \<le> 63"
  by (simp_all add: mod_less_divisor less_Suc_eq_le [symmetric])

lemma b64_sums [simp]:
  "byte a mod 4 * 16 < 64" "byte a mod 4 * 16 + byte b div 16 < 64"
  "byte b mod 16 * 4 < 64" "byte b mod 16 * 4 + byte c div 64 < 64" "byte c mod 64 < 64"
  using byte_mod(1) [of a] byte_mod(2) [of b] byte_mod(3) [of c] byte_div(2) [of b] byte_div(3) [of c]
  by linarith+

lemma b64_recombine [simp]:
  "byte b div 16 mod 16 * 16 + byte b mod 16 = byte b"
  "byte c div 64 mod 4 * 64 + byte c mod 64 = byte c"
  by simp_all

lemma decode_groups_encode: "decode_groups (EncodeToString s) = Some s"
  by (induction s rule: EncodeToString.induct) simp_all

lemma EncodeToString_plain:
  "filter (\<lambda>c. byte c \<noteq> 13 \<and> byte c \<noteq> 10) (EncodeToString s) = EncodeToString s"
proof (induction s rule: EncodeToString.induct)
  case 1
  then show ?case by simp
qed (simp_all, simp_all add: byte_def)

lemma DecodeString_EncodeToString [simp]: "DecodeString (EncodeToString s) = Some s"
  by (simp add: DecodeString_def EncodeToString_plain decode_groups_encode)

section \<open>The envelope\<close>

text \<open>\<open>cipher.AEAD\<close>: \<open>Seal(nonce, pt)\<close> without the nonce prefix, and \<open>Open\<close>.\<close>

record AEAD =
  ae_NonceSize :: nat
  ae_Seal :: "string \<Rightarrow> string \<Rightarrow> string"
  ae_Open :: "string \<Rightarrow> string \<Rightarrow> string option"

datatype crypto_error = ErrKeySize | ErrDecodeKey | ErrAes | ErrNonce | ErrDecode | ErrTooShort | ErrOpen

definition KeySize :: nat where "KeySize = 32"

definition NewFromKey :: "(string \<Rightarrow> AEAD option) \<Rightarrow> string \<Rightarrow> crypto_error + AEAD" where
  "NewFromKey newGCM key =
     (if length key \<noteq> KeySize then Inl ErrKeySize
      else case newGCM key of None \<Rightarrow> Inl ErrAes | Some c \<Rightarrow> Inr c)"

definition crypto_New :: "(string \<Rightarrow> AEAD option) \<Rightarrow> string \<Rightarrow> crypto_error + AEAD" where
  "crypto_New newGCM base64Key =
     (case DecodeString base64Key of
        None \<Rightarrow> Inl ErrDecodeKey
      | Some key \<Rightarrow> NewFromKey newGCM key)"

text \<open>\<open>rnd\<close> is what \<open>io.ReadFull(rand.Reader, nonce)\<close> filled in, \<open>None\<close> when it failed.\<close>

definition Encrypt :: "AEAD \<Rightarrow> string option \<Rightarrow> string \<Rightarrow> crypto_error + string" where
  "Encrypt c rnd plaintext =
     (case rnd of
        None \<Rightarrow> Inl ErrNonce
      | Some nonce \<Rightarrow> Inr (EncodeToString (nonce @ ae_Seal c nonce plaintext)))"

definition Decrypt :: "AEAD \<Rightarrow> string \<Rightarrow> crypto_error + string" where
  "Decrypt c b64 =
     (case DecodeString b64 of
        None \<Rightarrow> Inl ErrDecode
      | Some raw \<Rightarrow>
          let ns = ae_NonceSize c in
          if length raw < ns then Inl ErrTooShort
          else case ae_Open c (take ns raw) (drop ns raw) of
              None \<Rightarrow> Inl ErrOpen
            | Some pt \<Rightarrow> Inr pt)"

text \<open>C37. \<open>Decrypt\<close> inverts \<open>Encrypt\<close> for every plaintext and every nonce of the cipher's size,
  given that the primitive opens what it sealed.\<close>

theorem Decrypt_Encrypt:
  assumes "\<And>n p. ae_Open c n (ae_Seal c n p) = Some p" and "length nonce = ae_NonceSize c"
    and "Encrypt c (Some nonce) p = Inr e"
  shows "Decrypt c e = Inr p"
  using assms by (auto simp: Encrypt_def Decrypt_def)

definition example_aead :: AEAD where
  "example_aead = \<lparr>ae_NonceSize = 2, ae_Seal = (\<lambda>n p. p @ n),
     ae_Open = (\<lambda>n ct. if drop (length ct - length n) ct = n then Some (take (length ct - length n) ct)
       else None)\<rparr>"

theorem Decrypt_Encrypt_witness:
  "Decrypt example_aead (EncodeToString ''xysecretxy'') = Inr ''secret''"
  by (rule Decrypt_Encrypt [where nonce = "''xy''"]) (simp_all add: example_aead_def Encrypt_def)

text \<open>A key is accepted exactly when it is base64 for 32 bytes (and the primitive takes it);
  every other key gives an error and no cipher.\<close>

theorem crypto_New_iff:
  "(\<exists>c. crypto_New newGCM k = Inr c) \<longleftrightarrow>
     (\<exists>key. DecodeString k = Some key \<and> length key = 32 \<and> newGCM key \<noteq> None)"
  by (auto simp: crypto_New_def NewFromKey_def KeySize_def split: option.splits)

text \<open>\<open>Decrypt\<close> returns an error, never a plaintext, on text that is not base64, on an
  envelope shorter than a nonce and on a body the primitive rejects; otherwise it returns what
  the primitive opened.\<close>

theorem Decrypt_total:
  "Decrypt c e = (if DecodeString e = None then Inl ErrDecode
     else if length (the (DecodeString e)) < ae_NonceSize c then Inl ErrTooShort
     else if ae_Open c (take (ae_NonceSize c) (the (DecodeString e)))
              (drop (ae_NonceSize c) (the (DecodeString e))) = None then Inl ErrOpen
     else Inr (the (ae_Open c (take (ae_NonceSize c) (the (DecodeString e)))
              (drop (ae_NonceSize c) (the (DecodeString e))))))"
  by (simp add: Decrypt_def Let_def split: option.splits)

end
