(* ===== verification/S21.thy ===== *)
theory S21
  imports GoText
begin

text \<open>
  Package \<open>s21\<close>: the client interface and the adapter \<open>realClient\<close> (\<open>client.go\<close>) around the
  platform client, which is a parameter, and the in-memory \<open>Mock\<close> (\<open>mock.go\<close>).
\<close>

section \<open>Profiles and errors\<close>

record Profile =
  pf_Login :: string
  pf_CampusID :: string
  pf_CampusName :: string
  pf_CoalitionName :: string

definition zero_Profile :: Profile where
  "zero_Profile = \<lparr>pf_Login = [], pf_CampusID = [], pf_CampusName = [], pf_CoalitionName = []\<rparr>"

text \<open>The package's sentinels and any other error, with its text where the code builds one.\<close>

datatype s21_error = ErrInvalidCredentials | ErrNotFoundS21 | ErrUnavailable | ErrS21 string

section \<open>The adapter\<close>

text \<open>What the platform client returns for the two queries used.\<close>

record SchoolRole = sr_ID :: string  sr_ShortName :: string

record DashboardData =
  db_Login :: string
  db_StudentRoles :: "SchoolRole list"
  db_Coalition :: string

record platform =
  pl_Dashboard :: "string \<Rightarrow> string \<Rightarrow> string + DashboardData"
  pl_StudentByLogin :: "string \<Rightarrow> string \<Rightarrow> string \<Rightarrow> string + string"

definition mapAuthError :: "string \<Rightarrow> s21_error" where
  "mapAuthError text =
     (let msg = ToLower text in
      if Contains msg ''unauthorized'' \<or> Contains msg ''authentication failed''
         \<or> Contains msg ''invalid'' \<or> Contains msg ''401''
      then ErrInvalidCredentials else ErrUnavailable)"

definition profileFromDashboardData :: "DashboardData \<Rightarrow> string \<Rightarrow> s21_error + Profile" where
  "profileFromDashboardData data (login :: string) =
     (if db_Login data = [] then Inl ErrInvalidCredentials
      else Inr \<lparr>pf_Login = db_Login data,
        pf_CampusID = (case db_StudentRoles data of [] \<Rightarrow> [] | r # _ \<Rightarrow> sr_ID r),
        pf_CampusName = (case db_StudentRoles data of [] \<Rightarrow> [] | r # _ \<Rightarrow> sr_ShortName r),
        pf_CoalitionName = db_Coalition data\<rparr>)"

definition real_Authenticate :: "platform \<Rightarrow> string \<Rightarrow> string \<Rightarrow> s21_error + Profile" where
  "real_Authenticate pl login password =
     (case pl_Dashboard pl login password of
        Inl e \<Rightarrow> Inl (mapAuthError e)
      | Inr data \<Rightarrow> profileFromDashboardData data login)"

definition profileFromDashboardOrLogin :: "platform \<Rightarrow> string \<Rightarrow> string \<Rightarrow> s21_error + Profile" where
  "profileFromDashboardOrLogin pl login password =
     (case pl_Dashboard pl login password of
        Inl e \<Rightarrow> Inl (mapAuthError e)
      | Inr data \<Rightarrow> profileFromDashboardData data login)"

definition real_LookupByLogin :: "platform \<Rightarrow> string \<Rightarrow> string \<Rightarrow> string \<Rightarrow> s21_error + Profile" where
  "real_LookupByLogin pl adminLogin adminPassword target =
     (case pl_Dashboard pl adminLogin adminPassword of
        Inl e \<Rightarrow> Inl (mapAuthError e)
      | Inr _ \<Rightarrow>
          (case pl_StudentByLogin pl adminLogin adminPassword target of
             Inl e \<Rightarrow> Inl (ErrS21 (''s21 lookup: '' @ e))
           | Inr studentID \<Rightarrow>
               if studentID = [] then Inl ErrNotFoundS21
               else case profileFromDashboardOrLogin pl adminLogin adminPassword of
                   Inl e \<Rightarrow> Inl e
                 | Inr admin \<Rightarrow> Inr \<lparr>pf_Login = target, pf_CampusID = pf_CampusID admin,
                     pf_CampusName = pf_CampusName admin, pf_CoalitionName = []\<rparr>))"

section \<open>The mock\<close>

record S21Mock =
  sm_Profiles :: "(string, Profile) gomap"
  sm_AuthPasswords :: "(string, string) gomap"
  sm_AdminPasswords :: "(string, string) gomap"
  sm_Failures :: "(string, s21_error option) gomap"

definition s21_NewMock :: S21Mock where
  "s21_NewMock = \<lparr>sm_Profiles = [], sm_AuthPasswords = [], sm_AdminPasswords = [], sm_Failures = []\<rparr>"

definition SetUser :: "string \<Rightarrow> string \<Rightarrow> Profile \<Rightarrow> S21Mock \<Rightarrow> S21Mock" where
  "SetUser login password profile m =
     (let profile = (if pf_Login profile = [] then profile\<lparr>pf_Login := login\<rparr> else profile) in
      m\<lparr>sm_Profiles := mput login profile (sm_Profiles m),
        sm_AuthPasswords := mput login password (sm_AuthPasswords m)\<rparr>)"

definition SetAdminPassword :: "string \<Rightarrow> string \<Rightarrow> S21Mock \<Rightarrow> S21Mock" where
  "SetAdminPassword login password m =
     m\<lparr>sm_AdminPasswords := mput login password (sm_AdminPasswords m)\<rparr>"

definition s21_FailNext :: "string \<Rightarrow> s21_error option \<Rightarrow> S21Mock \<Rightarrow> S21Mock" where
  "s21_FailNext method err m = m\<lparr>sm_Failures := mput method err (sm_Failures m)\<rparr>"

definition tryFail :: "string \<Rightarrow> S21Mock \<Rightarrow> s21_error option \<times> S21Mock" where
  "tryFail method m =
     (case mget (sm_Failures m) method of
        None \<Rightarrow> (None, m)
      | Some err \<Rightarrow> (err, m\<lparr>sm_Failures := mdel method (sm_Failures m)\<rparr>))"

definition get_Profile :: "string \<Rightarrow> S21Mock \<Rightarrow> Profile" where
  "get_Profile login m = (case mget (sm_Profiles m) login of None \<Rightarrow> zero_Profile | Some p \<Rightarrow> p)"

definition mock_Authenticate :: "string \<Rightarrow> string \<Rightarrow> S21Mock \<Rightarrow> (s21_error + Profile) \<times> S21Mock" where
  "mock_Authenticate login password m =
     (case tryFail ''Authenticate'' m of
        (Some e, m') \<Rightarrow> (Inl e, m')
      | (None, m') \<Rightarrow>
          (if mget (sm_AuthPasswords m') login \<noteq> Some password then Inl ErrInvalidCredentials
           else Inr (get_Profile login m'), m'))"

definition mock_LookupByLogin ::
  "string \<Rightarrow> string \<Rightarrow> string \<Rightarrow> S21Mock \<Rightarrow> (s21_error + Profile) \<times> S21Mock" where
  "mock_LookupByLogin adminLogin adminPassword target m =
     (case tryFail ''LookupByLogin'' m of
        (Some e, m') \<Rightarrow> (Inl e, m')
      | (None, m') \<Rightarrow>
          (if mget (sm_AdminPasswords m') adminLogin \<noteq> Some adminPassword then Inl ErrInvalidCredentials
           else case mget (sm_Profiles m') target of None \<Rightarrow> Inl ErrNotFoundS21 | Some p \<Rightarrow> Inr p, m'))"

section \<open>Properties\<close>

text \<open>\<open>LookupByLogin\<close> succeeds only when the admin's credentials pass and the target exists;
  its profile then carries the target's login and the admin's campus, never a coalition.\<close>

theorem real_LookupByLogin_iff:
  "real_LookupByLogin pl a pw t = Inr p \<longleftrightarrow>
     (\<exists>data sid. pl_Dashboard pl a pw = Inr data \<and> db_Login data \<noteq> [] \<and>
        pl_StudentByLogin pl a pw t = Inr sid \<and> sid \<noteq> [] \<and>
        p = \<lparr>pf_Login = t,
          pf_CampusID = (case db_StudentRoles data of [] \<Rightarrow> [] | r # _ \<Rightarrow> sr_ID r),
          pf_CampusName = (case db_StudentRoles data of [] \<Rightarrow> [] | r # _ \<Rightarrow> sr_ShortName r),
          pf_CoalitionName = []\<rparr>)"
  by (auto simp: real_LookupByLogin_def profileFromDashboardOrLogin_def profileFromDashboardData_def
      split: sum.splits if_splits)

lemma tryFail_frame [frame_simps]:
  "sm_Profiles (snd (tryFail x m)) = sm_Profiles m"
  "sm_AuthPasswords (snd (tryFail x m)) = sm_AuthPasswords m"
  "sm_AdminPasswords (snd (tryFail x m)) = sm_AdminPasswords m"
  by (simp_all add: tryFail_def split: option.splits)

text \<open>A configured user authenticates with exactly his password and gets the configured
  profile (its login filled in when empty); an injected failure is returned once and then gone.\<close>

theorem mock_Authenticate_SetUser:
  assumes "mget (sm_Failures m) ''Authenticate'' = None"
  shows "fst (mock_Authenticate login pw' (SetUser login pw p m)) =
      (if pw' = pw then Inr (if pf_Login p = [] then p\<lparr>pf_Login := login\<rparr> else p)
       else Inl ErrInvalidCredentials)
    \<and> fst (mock_Authenticate login pw' (s21_FailNext ''Authenticate'' (Some e) (SetUser login pw p m))) = Inl e
    \<and> fst (mock_Authenticate login pw (snd (mock_Authenticate login pw'
         (s21_FailNext ''Authenticate'' (Some e) (SetUser login pw p m))))) =
      Inr (if pf_Login p = [] then p\<lparr>pf_Login := login\<rparr> else p)"
  using assms
  by (simp add: mock_Authenticate_def SetUser_def tryFail_def s21_FailNext_def get_Profile_def Let_def)

theorem mock_Authenticate_SetUser_witness:
  "fst (mock_Authenticate ''bob'' ''bad'' (SetUser ''bob'' ''pw'' zero_Profile s21_NewMock))
     = Inl ErrInvalidCredentials"
  using mock_Authenticate_SetUser [of s21_NewMock "''bob''" "''bad''" "''pw''" zero_Profile]
  by (simp add: s21_NewMock_def)

end
