(* ===== verification/F64.thy ===== *)
theory F64
  imports Prelude "HOL-Library.Log_Nat"
begin

text \<open>
  Go's \<open>float64\<close>: IEEE 754 binary64 with round-to-nearest-even, on rational values. Signed
  zeros are identified (no code path divides by a zero whose sign matters or prints one).
  The operations compute: \<open>rnd64\<close> rounds a rational to 53 significant bits (fewer below
  the normal range) and \<open>enc\<close> sends what exceeds the range to infinity.
\<close>

section \<open>Rounding\<close>

definition p2 :: "int \<Rightarrow> rat" where
  "p2 k = (if 0 \<le> k then 2 ^ nat k else 1 / 2 ^ nat (- k))"

text \<open>Round half to even.\<close>

definition rne :: "rat \<Rightarrow> int" where
  "rne x = (let f = \<lfloor>x\<rfloor>; d = x - of_int f in
     if d < 1 / 2 then f else if 1 / 2 < d then f + 1 else if even f then f else f + 1)"

text \<open>The binary exponent of a positive rational: \<open>p2 e \<le> x < p2 (e + 1)\<close>.\<close>

definition exponent :: "rat \<Rightarrow> int" where
  "exponent x = (let (a, b) = quotient_of x; k = bitlen a - bitlen b in
     if p2 k \<le> x then k else k - 1)"

definition ulp_exp :: "rat \<Rightarrow> int" where
  "ulp_exp x = max (exponent x - 52) (- 1074)"

definition rnd_pos :: "rat \<Rightarrow> rat" where
  "rnd_pos x = of_int (rne (x / p2 (ulp_exp x))) * p2 (ulp_exp x)"

definition rnd64 :: "rat \<Rightarrow> rat" where
  "rnd64 x = (if x = 0 then 0 else if 0 < x then rnd_pos x else - rnd_pos (- x))"

section \<open>Values and operations\<close>

datatype f64 = Fin rat | PInf | NInf | NaN

definition enc :: "rat \<Rightarrow> f64" where
  "enc x = (let r = rnd64 x in
     if 2 ^ 1024 \<le> r then PInf else if r \<le> - (2 ^ 1024) then NInf else Fin r)"

abbreviation lit :: "rat \<Rightarrow> f64" where
  "lit \<equiv> enc"

fun f_neg :: "f64 \<Rightarrow> f64" where
  "f_neg (Fin a) = Fin (- a)" | "f_neg PInf = NInf" | "f_neg NInf = PInf" | "f_neg NaN = NaN"

fun f_add :: "f64 \<Rightarrow> f64 \<Rightarrow> f64" where
  "f_add (Fin a) (Fin b) = enc (a + b)"
| "f_add NaN _ = NaN"
| "f_add _ NaN = NaN"
| "f_add PInf NInf = NaN"
| "f_add NInf PInf = NaN"
| "f_add PInf _ = PInf"
| "f_add NInf _ = NInf"
| "f_add _ PInf = PInf"
| "f_add _ NInf = NInf"

definition f_sub :: "f64 \<Rightarrow> f64 \<Rightarrow> f64" where
  "f_sub x y = f_add x (f_neg y)"

definition inf_of_sign :: "bool \<Rightarrow> f64" where
  "inf_of_sign neg = (if neg then NInf else PInf)"

fun f_mul :: "f64 \<Rightarrow> f64 \<Rightarrow> f64" where
  "f_mul (Fin a) (Fin b) = enc (a * b)"
| "f_mul NaN _ = NaN"
| "f_mul _ NaN = NaN"
| "f_mul (Fin a) PInf = (if a = 0 then NaN else inf_of_sign (a < 0))"
| "f_mul (Fin a) NInf = (if a = 0 then NaN else inf_of_sign (0 < a))"
| "f_mul PInf (Fin a) = (if a = 0 then NaN else inf_of_sign (a < 0))"
| "f_mul NInf (Fin a) = (if a = 0 then NaN else inf_of_sign (0 < a))"
| "f_mul PInf PInf = PInf" | "f_mul NInf NInf = PInf"
| "f_mul PInf NInf = NInf" | "f_mul NInf PInf = NInf"

text \<open>A zero divisor counts as positive zero.\<close>

fun f_div :: "f64 \<Rightarrow> f64 \<Rightarrow> f64" where
  "f_div NaN _ = NaN"
| "f_div _ NaN = NaN"
| "f_div (Fin a) (Fin b) = (if b = 0 then (if a = 0 then NaN else inf_of_sign (a < 0)) else enc (a / b))"
| "f_div (Fin a) _ = Fin 0"
| "f_div PInf (Fin b) = inf_of_sign (b < 0)"
| "f_div NInf (Fin b) = inf_of_sign (0 \<le> b)"
| "f_div _ _ = NaN"

fun f_lt :: "f64 \<Rightarrow> f64 \<Rightarrow> bool" where
  "f_lt (Fin a) (Fin b) = (a < b)"
| "f_lt NaN _ = False"
| "f_lt _ NaN = False"
| "f_lt PInf _ = False"
| "f_lt _ NInf = False"
| "f_lt NInf _ = True"
| "f_lt _ PInf = True"

definition f_eq :: "f64 \<Rightarrow> f64 \<Rightarrow> bool" where
  "f_eq x y \<longleftrightarrow> x = y \<and> x \<noteq> NaN"

definition f_le :: "f64 \<Rightarrow> f64 \<Rightarrow> bool" where
  "f_le x y \<longleftrightarrow> f_lt x y \<or> f_eq x y"

fun f_abs :: "f64 \<Rightarrow> f64" where
  "f_abs (Fin a) = Fin \<bar>a\<bar>" | "f_abs PInf = PInf" | "f_abs NInf = PInf" | "f_abs NaN = NaN"

text \<open>The functions of package \<open>math\<close> the code calls; \<open>fm_pow10 x\<close> is \<open>math.Pow(10, x)\<close>.\<close>

record libm =
  fm_pow10 :: "f64 \<Rightarrow> f64"
  fm_exp :: "f64 \<Rightarrow> f64"
  fm_log :: "f64 \<Rightarrow> f64"
  fm_sqrt :: "f64 \<Rightarrow> f64"

section \<open>Facts about rounding\<close>

lemma p2_pos [simp]: "0 < p2 k"
  by (simp add: p2_def)

lemma p2_nonzero [simp]: "p2 k \<noteq> 0"
  by (metis p2_pos less_irrefl)

lemma p2_powi: "p2 k = 2 powi k"
  by (simp add: p2_def power_int_def inverse_eq_divide power_one_over)

lemma p2_add: "p2 (a + b) = p2 a * p2 b"
  by (simp add: p2_powi power_int_add)

lemma p2_mono: "a \<le> b \<Longrightarrow> p2 a \<le> p2 b"
  by (simp add: p2_powi power_int_increasing)

lemma p2_nat: "p2 (int n) = 2 ^ n"
  by (simp add: p2_def)

lemma p2_of_int: "0 \<le> k \<Longrightarrow> p2 k = of_int (2 ^ nat k)"
  by (simp add: p2_def)

lemma p2_1 [simp]: "p2 0 = 1" "p2 1 = 2"
  by (simp_all add: p2_def)

lemma exponent_bounds:
  assumes "0 < x"
  shows "p2 (exponent x) \<le> x" and "x < p2 (exponent x + 1)"
proof -
  obtain a b where q: "quotient_of x = (a, b)" by (cases "quotient_of x")
  have b: "0 < b" using q quotient_of_denom_pos by blast
  have x: "x = of_int a / of_int b" using q by (rule quotient_of_div)
  have a: "0 < a" using assms b unfolding x by (simp add: zero_less_divide_iff)
  let ?k = "bitlen a - bitlen b"
  have ba: "1 \<le> bitlen a" "1 \<le> bitlen b"
    using bitlen_eq_zero_iff [of a] bitlen_eq_zero_iff [of b] bitlen_nonneg [of a] bitlen_nonneg [of b] a b
    by linarith+
  have la: "2 ^ nat (bitlen a - 1) \<le> a" "a < 2 ^ nat (bitlen a)"
    using bitlen_bounds [OF a] by auto
  have lb: "2 ^ nat (bitlen b - 1) \<le> b" "b < 2 ^ nat (bitlen b)"
    using bitlen_bounds [OF b] by auto
  have A: "p2 (bitlen a - 1) \<le> of_int a" "of_int a < p2 (bitlen a)"
    using la ba p2_of_int [of "bitlen a - 1"] p2_of_int [of "bitlen a"]
    by (simp_all only: of_int_le_iff of_int_less_iff)
  have B: "p2 (bitlen b - 1) \<le> of_int b" "of_int b < p2 (bitlen b)"
    using lb ba p2_of_int [of "bitlen b - 1"] p2_of_int [of "bitlen b"]
    by (simp_all only: of_int_le_iff of_int_less_iff)
  have "x < p2 (?k + 1)"
  proof -
    have "of_int a < p2 (?k + 1) * p2 (bitlen b - 1)"
      using A(2) by (simp flip: p2_add)
    also have "\<dots> \<le> p2 (?k + 1) * of_int b"
      using B(1) by (intro mult_left_mono) (simp_all add: less_imp_le)
    finally show ?thesis using b by (simp add: x pos_divide_less_eq)
  qed
  moreover have "p2 (?k - 1) \<le> x"
  proof -
    have "p2 (?k - 1) * of_int b \<le> p2 (?k - 1) * p2 (bitlen b)"
      using B(2) by (intro mult_left_mono) (simp_all add: less_imp_le)
    also have "\<dots> = p2 (bitlen a - 1)" by (simp add: algebra_simps flip: p2_add)
    also have "\<dots> \<le> of_int a" by (rule A(1))
    finally show ?thesis using b by (simp add: x pos_le_divide_eq)
  qed
  ultimately show "p2 (exponent x) \<le> x" "x < p2 (exponent x + 1)"
    by (auto simp: exponent_def q Let_def not_le)
qed

lemma exponent_unique:
  assumes "0 < x" and "p2 e \<le> x" and "x < p2 (e + 1)"
  shows "exponent x = e"
proof -
  have "p2 (exponent x) < p2 (e + 1)" "p2 e < p2 (exponent x + 1)"
    using assms exponent_bounds [OF assms(1)] by linarith+
  then have "\<not> e + 1 \<le> exponent x" "\<not> exponent x + 1 \<le> e"
    using p2_mono by (meson linorder_not_le)+
  then show ?thesis by linarith
qed

lemma exponent_mono:
  assumes "0 < x" and "x \<le> y"
  shows "exponent x \<le> exponent y"
proof (rule ccontr)
  assume "\<not> exponent x \<le> exponent y"
  then have "p2 (exponent y + 1) \<le> p2 (exponent x)" by (intro p2_mono) simp
  moreover have "0 < y" using assms by linarith
  ultimately show False
    using exponent_bounds [OF assms(1)] exponent_bounds [of y] assms(2) by linarith
qed

lemma rne_bounds: "\<lfloor>x\<rfloor> \<le> rne x" "rne x \<le> \<lfloor>x\<rfloor> + 1"
  by (simp_all add: rne_def Let_def)

lemma rne_int [simp]: "rne (of_int i) = i"
  by (simp add: rne_def)

lemma rne_mono: "x \<le> y \<Longrightarrow> rne x \<le> rne y"
proof -
  assume xy: "x \<le> y"
  show ?thesis
  proof (cases "\<lfloor>x\<rfloor> = \<lfloor>y\<rfloor>")
    case True
    then show ?thesis using xy by (auto simp: rne_def Let_def)
  next
    case False
    then have "\<lfloor>x\<rfloor> + 1 \<le> \<lfloor>y\<rfloor>" using floor_mono [OF xy] by linarith
    then show ?thesis using rne_bounds(2) [of x] rne_bounds(1) [of y] by linarith
  qed
qed

lemma rne_nonneg: "0 \<le> x \<Longrightarrow> 0 \<le> rne x"
  using rne_mono [of 0 x] rne_int [of 0] by simp

lemma rnd_pos_nonneg: "0 < x \<Longrightarrow> 0 \<le> rnd_pos x"
  by (simp add: rnd_pos_def rne_nonneg less_imp_le)

text \<open>A rounded number stays within the power of two above it.\<close>

lemma rnd_pos_le_grid:
  assumes "x \<le> of_int m * p2 (ulp_exp x)"
  shows "rnd_pos x \<le> of_int m * p2 (ulp_exp x)"
proof -
  have "x / p2 (ulp_exp x) \<le> of_int m" using assms by (simp add: pos_divide_le_eq)
  then have "rne (x / p2 (ulp_exp x)) \<le> m" using rne_mono rne_int by metis
  then show ?thesis by (simp add: rnd_pos_def mult_right_mono less_imp_le)
qed

lemma rnd_pos_ge_grid:
  assumes "of_int m * p2 (ulp_exp x) \<le> x"
  shows "of_int m * p2 (ulp_exp x) \<le> rnd_pos x"
proof -
  have "of_int m \<le> x / p2 (ulp_exp x)" using assms by (simp add: pos_le_divide_eq)
  then have "m \<le> rne (x / p2 (ulp_exp x))" using rne_mono rne_int by metis
  then show ?thesis by (simp add: rnd_pos_def mult_right_mono less_imp_le)
qed

lemma rnd_pos_mono:
  assumes "0 < x" and "x \<le> y"
  shows "rnd_pos x \<le> rnd_pos y"
proof (cases "ulp_exp x = ulp_exp y")
  case True
  then show ?thesis using assms rne_mono [of "x / p2 (ulp_exp x)" "y / p2 (ulp_exp y)"]
    by (simp add: rnd_pos_def divide_right_mono mult_right_mono less_imp_le)
next
  case False
  have y: "0 < y" using assms by linarith
  have e: "exponent x \<le> exponent y" using assms by (rule exponent_mono)
  then have u: "ulp_exp x < ulp_exp y" "ulp_exp y = exponent y - 52"
    using False by (auto simp: ulp_exp_def)
  then have ex: "exponent x < exponent y" by (auto simp: ulp_exp_def)
  have "rnd_pos x \<le> p2 (exponent y)"
  proof -
    have "x \<le> p2 (exponent y)"
      using exponent_bounds(2) [OF assms(1)] p2_mono [of "exponent x + 1" "exponent y"] ex by linarith
    moreover have "p2 (exponent y) = of_int (2 ^ nat (exponent y - ulp_exp x)) * p2 (ulp_exp x)"
      using u by (simp add: p2_def [of "exponent y - ulp_exp x", symmetric, simplified] flip: p2_nat p2_add)
    ultimately show ?thesis using rnd_pos_le_grid by metis
  qed
  also have "p2 (exponent y) \<le> rnd_pos y"
  proof -
    have "p2 (exponent y) = of_int (2 ^ 52) * p2 (ulp_exp y)"
      using u p2_nat [of 52] p2_add [of 52 "exponent y - 52"] by simp
    then show ?thesis using rnd_pos_ge_grid exponent_bounds(1) [OF y] by metis
  qed
  finally show ?thesis .
qed

lemma rnd64_sign: "0 \<le> x \<Longrightarrow> 0 \<le> rnd64 x" "x \<le> 0 \<Longrightarrow> rnd64 x \<le> 0"
  using rnd_pos_nonneg [of x] rnd_pos_nonneg [of "- x"] by (simp_all add: rnd64_def)

lemma rnd64_mono:
  assumes "x \<le> y"
  shows "rnd64 x \<le> rnd64 y"
proof -
  consider "x \<le> 0" "0 \<le> y" | "0 < x" | "y < 0" using assms by linarith
  then show ?thesis
  proof cases
    case 1
    then show ?thesis using rnd64_sign(1) [of y] rnd64_sign(2) [of x] by linarith
  next
    case 2
    then show ?thesis using assms rnd_pos_mono [of x y] by (simp add: rnd64_def)
  next
    case 3
    then show ?thesis using assms rnd_pos_mono [of "- y" "- x"] by (simp add: rnd64_def)
  qed
qed

lemma rnd64_0 [simp]: "rnd64 0 = 0"
  by (simp add: rnd64_def)

text \<open>Integers up to \<open>2 ^ 53\<close> are exact.\<close>

lemma rnd_pos_int:
  assumes "0 < i" and "i < 2 ^ 53"
  shows "rnd_pos (of_int i) = of_int i"
proof -
  let ?x = "of_int i :: rat"
  have x: "0 < ?x" using assms by simp
  have "?x < p2 53" unfolding p2_of_int [of 53, simplified] of_int_less_iff using assms(2) by simp
  then have "p2 (exponent ?x) < p2 53" using exponent_bounds(1) [OF x] by linarith
  then have e: "exponent ?x < 53" using p2_mono [of 53 "exponent ?x"] by linarith
  then have u: "ulp_exp ?x \<le> 0" by (simp add: ulp_exp_def)
  have "?x / p2 (ulp_exp ?x) = of_int (i * 2 ^ nat (- ulp_exp ?x))"
    using u by (cases "ulp_exp ?x = 0") (simp_all add: p2_def)
  then have "rne (?x / p2 (ulp_exp ?x)) = i * 2 ^ nat (- ulp_exp ?x)" by (metis rne_int)
  then show ?thesis
    using u by (cases "ulp_exp ?x = 0") (simp_all add: rnd_pos_def p2_def)
qed

lemma rnd64_int:
  assumes "\<bar>i\<bar> < 2 ^ 53"
  shows "rnd64 (of_int i) = of_int i"
  using rnd_pos_int [of i] rnd_pos_int [of "- i"] assms by (auto simp: rnd64_def)

text \<open>Rounding twice is rounding once: results of operations are representable.\<close>

lemma rnd_pos_grid_exact:
  assumes "y = of_int m * p2 v" and "ulp_exp y \<le> v"
  shows "rnd_pos y = y"
proof -
  have "y / p2 (ulp_exp y) = of_int m * p2 (v - ulp_exp y)"
    using p2_add [of "v - ulp_exp y" "ulp_exp y"] unfolding assms(1) [symmetric]
    by (simp add: assms(1) [symmetric] field_simps) (simp add: assms(1))
  also have "\<dots> = of_int (m * 2 ^ nat (v - ulp_exp y))"
    using assms(2) by (simp add: p2_of_int)
  finally have "rne (y / p2 (ulp_exp y)) = m * 2 ^ nat (v - ulp_exp y)" by (metis rne_int)
  then have "rnd_pos y = of_int m * (p2 (v - ulp_exp y) * p2 (ulp_exp y))"
    using assms(2) by (simp add: rnd_pos_def p2_of_int)
  then show ?thesis using assms(1) by (simp flip: p2_add)
qed

lemma rnd_pos_idem:
  assumes "0 < x" and "0 < rnd_pos x"
  shows "rnd_pos (rnd_pos x) = rnd_pos x"
proof -
  let ?u = "ulp_exp x" and ?m = "rne (x / p2 (ulp_exp x))" and ?y = "rnd_pos x"
  have y: "?y = of_int ?m * p2 ?u" by (simp add: rnd_pos_def)
  have u: "exponent x + 1 \<le> 53 + ?u" by (simp add: ulp_exp_def)
  have "x < p2 (53 + ?u)"
    using exponent_bounds(2) [OF assms(1)] p2_mono [OF u] by linarith
  then have "x \<le> of_int (2 ^ 53) * p2 ?u" by (simp add: p2_add p2_of_int)
  then have le: "?y \<le> p2 (53 + ?u)" using rnd_pos_le_grid [of x "2 ^ 53"] by (simp add: p2_add p2_of_int)
  show ?thesis
  proof (cases "?y = p2 (53 + ?u)")
    case True
    have "?y = of_int 1 * p2 (53 + ?u)" using True by simp
    moreover have "exponent ?y = 53 + ?u"
      unfolding True by (rule exponent_unique) (simp_all only: p2_add [of _ 1], simp_all)
    then have "ulp_exp ?y \<le> 53 + ?u" by (simp add: ulp_exp_def)
    ultimately show ?thesis by (rule rnd_pos_grid_exact)
  next
    case False
    have "p2 (exponent ?y) < p2 (53 + ?u)"
      using False le exponent_bounds(1) [OF assms(2)] by linarith
    then have "\<not> 53 + ?u \<le> exponent ?y" using p2_mono by (meson linorder_not_le)
    then have "ulp_exp ?y \<le> ?u" by (simp add: ulp_exp_def)
    then show ?thesis by (rule rnd_pos_grid_exact [OF y])
  qed
qed

lemma rnd64_minus: "rnd64 (- x) = - rnd64 x"
  by (simp add: rnd64_def)

lemma rnd64_idem [simp]: "rnd64 (rnd64 x) = rnd64 x"
proof -
  have pos: "rnd64 (rnd64 x) = rnd64 x" if "0 < x" for x
    using that rnd_pos_idem [of x] rnd_pos_nonneg [of x]
    by (cases "rnd_pos x = 0") (simp_all add: rnd64_def)
  consider "x = 0" | "0 < x" | "0 < - x" by linarith
  then show ?thesis
  proof cases
    case 3
    then have "rnd64 (rnd64 (- x)) = rnd64 (- x)" by (rule pos)
    then show ?thesis by (simp add: rnd64_minus)
  qed (simp_all add: pos)
qed

text \<open>Within \<open>2 ^ 53\<close> in absolute value, results are finite and stay between integer bounds.\<close>

lemma rnd64_between:
  assumes "of_int i \<le> x" and "x \<le> of_int j" and "\<bar>i\<bar> < 2 ^ 53" and "\<bar>j\<bar> < 2 ^ 53"
  shows "of_int i \<le> rnd64 x" and "rnd64 x \<le> of_int j"
  using rnd64_mono [OF assms(1)] rnd64_mono [OF assms(2)] rnd64_int [OF assms(3)] rnd64_int [OF assms(4)]
  by simp_all

lemma enc_between:
  assumes "of_int i \<le> x" and "x \<le> of_int j" and "\<bar>i\<bar> < 2 ^ 53" and "\<bar>j\<bar> < 2 ^ 53"
  shows "enc x = Fin (rnd64 x)"
proof -
  have "(2 :: rat) ^ 53 \<le> 2 ^ 1024" by (rule power_increasing) simp_all
  moreover have "of_int \<bar>i\<bar> < (of_int (2 ^ 53) :: rat)" "of_int \<bar>j\<bar> < (of_int (2 ^ 53) :: rat)"
    using assms(3,4) unfolding of_int_less_iff .
  then have "- (2 ^ 53) < (of_int i :: rat)" "of_int j < (2 ^ 53 :: rat)" by simp_all
  ultimately have "rnd64 x < 2 ^ 1024" "- (2 ^ 1024) < rnd64 x"
    using rnd64_between [OF assms] by linarith+
  then show ?thesis by (simp add: enc_def Let_def)
qed

lemma enc_int: "\<bar>i\<bar> < 2 ^ 53 \<Longrightarrow> enc (of_int i) = Fin (of_int i)"
  using enc_between [of i "of_int i" i] rnd64_int [of i] by simp

lemma lit_numerals [simp]:
  "lit 0 = Fin 0" "lit 1 = Fin 1" "lit 16 = Fin 16" "lit 32 = Fin 32" "lit 400 = Fin 400"
  "lit 1000 = Fin 1000" "lit 1500 = Fin 1500" "lit 2 = Fin 2" "lit 3 = Fin 3"
  using enc_int [of 0] enc_int [of 1] enc_int [of 16] enc_int [of 32] enc_int [of 400]
    enc_int [of 1000] enc_int [of 1500] enc_int [of 2] enc_int [of 3] by simp_all

lemma lit_half [simp]: "lit (1 / 2) = Fin (1 / 2)"
proof -
  have "exponent (1 / 2) = - 1" by (rule exponent_unique) (simp_all add: p2_def)
  then have "ulp_exp (1 / 2) = - 53" by (simp add: ulp_exp_def)
  moreover have "(1 / 2 :: rat) = of_int 1 * p2 (- 1)" by (simp add: p2_def)
  ultimately have "rnd_pos (1 / 2) = 1 / 2" by (intro rnd_pos_grid_exact [of _ 1 "- 1"]) linarith+
  then have "rnd64 (1 / 2) = 1 / 2" by (simp add: rnd64_def)
  then show ?thesis using enc_between [of 0 "1 / 2" 1] by simp
qed

text \<open>Representable values.\<close>

definition rep64 :: "rat \<Rightarrow> bool" where
  "rep64 x \<longleftrightarrow> rnd64 x = x"

lemma rep64_rnd [simp]: "rep64 (rnd64 x)"
  by (simp add: rep64_def)

lemma rep64_int: "\<bar>i\<bar> < 2 ^ 53 \<Longrightarrow> rep64 (of_int i)"
  by (simp add: rep64_def rnd64_int)

lemma rnd64_add_up: "rep64 a \<Longrightarrow> 0 \<le> d \<Longrightarrow> a \<le> rnd64 (a + d)"
  using rnd64_mono [of a "a + d"] by (simp add: rep64_def)

lemma rnd64_add_down: "rep64 a \<Longrightarrow> d \<le> 0 \<Longrightarrow> rnd64 (a + d) \<le> a"
  using rnd64_mono [of "a + d" a] by (simp add: rep64_def)

end
