(* ===== verification/Rating.thy ===== *)
theory Rating
  imports F64 Models "HOL-Library.Char_ord" "HOL-Library.List_Lexorder"
begin

text \<open>
  Package \<open>rating\<close>, shared part (\<open>pkg/rating/rating.go\<close>): matches, ratings, validation and
  the leaderboard order; and, for the two engines, the reference tallies of a player's
  results, with the interface \<open>Engine\<close> as a locale. Go's \<open>int\<close> counters are HOL integers:
  they count matches and sum scores below 100. Strings compare bytewise.
\<close>

section \<open>Types and defaults\<close>

record RMatch =
  rm_Player1ID :: string
  rm_Player2ID :: string
  rm_Player1Score :: int
  rm_Player2Score :: int
  rm_PlayedAt :: time

record Meta =
  mt_PointsFor :: int
  mt_PointsAgainst :: int
  mt_WinStreak :: int
  mt_BestRating :: f64
  mt_LastPlayed :: time

record Rating =
  rt_Rating :: f64
  rt_Deviation :: f64
  rt_Volatility :: f64
  rt_GamesPlayed :: int
  rt_Wins :: int
  rt_Losses :: int
  rt_Meta :: Meta

type_synonym PlayerRatings = "(string, Rating) gomap"

definition zero_Meta :: Meta where
  "zero_Meta = \<lparr>mt_PointsFor = 0, mt_PointsAgainst = 0, mt_WinStreak = 0, mt_BestRating = Fin 0,
     mt_LastPlayed = zero_time\<rparr>"

definition zero_Rating :: Rating where
  "zero_Rating = \<lparr>rt_Rating = Fin 0, rt_Deviation = Fin 0, rt_Volatility = Fin 0, rt_GamesPlayed = 0,
     rt_Wins = 0, rt_Losses = 0, rt_Meta = zero_Meta\<rparr>"

definition ELODefault :: f64 where "ELODefault = lit 1000"
definition ELOKHigh :: f64 where "ELOKHigh = lit 32"
definition ELOKLow :: f64 where "ELOKLow = lit 16"
definition ELOKThreshold :: int where "ELOKThreshold = 30"

section \<open>Order of the leaderboard\<close>

definition rating_of :: "PlayerRatings \<Rightarrow> string \<Rightarrow> f64" where
  "rating_of pr pid = (case mget pr pid of None \<Rightarrow> Fin 0 | Some r \<Rightarrow> rt_Rating r)"

definition rating_less :: "PlayerRatings \<Rightarrow> string \<Rightarrow> string \<Rightarrow> bool" where
  "rating_less pr a b =
     (let ra = rating_of pr a; rb = rating_of pr b in
      if \<not> f_eq ra rb then f_lt rb ra else a < b)"

definition Sorted :: "PlayerRatings \<Rightarrow> string list" where
  "Sorted pr = sort_by (rating_less pr) (map fst pr)"

section \<open>Validation\<close>

datatype rating_error = EmptyPlayerID nat | SelfPlay nat | NegativeScore nat | UnknownEngine string

fun check_from :: "nat \<Rightarrow> RMatch list \<Rightarrow> rating_error option" where
  "check_from i [] = None"
| "check_from i (m # ms) =
     (if rm_Player1ID m = [] \<or> rm_Player2ID m = [] then Some (EmptyPlayerID i)
      else if rm_Player1ID m = rm_Player2ID m then Some (SelfPlay i)
      else if rm_Player1Score m < 0 \<or> rm_Player2Score m < 0 then Some (NegativeScore i)
      else check_from (i + 1) ms)"

definition validateAndSort :: "RMatch list \<Rightarrow> rating_error + RMatch list" where
  "validateAndSort ms =
     (case check_from 0 ms of
        Some e \<Rightarrow> Inl e
      | None \<Rightarrow> Inr (sort_by (\<lambda>a b. rm_PlayedAt a < rm_PlayedAt b) ms))"

text \<open>\<open>New\<close>: the engine of an id.\<close>

datatype engine = ELO | Glicko2 int

definition NewGlicko2 :: "int \<Rightarrow> engine" where
  "NewGlicko2 periodDays = Glicko2 (if periodDays < 1 then 1 else periodDays)"

definition rating_New :: "string \<Rightarrow> rating_error + engine" where
  "rating_New eid =
     (if eid = [] \<or> eid = ''elo'' then Inr ELO
      else if eid = ''glicko2'' then Inr (NewGlicko2 1)
      else Inl (UnknownEngine eid))"

fun engine_ID :: "engine \<Rightarrow> string" where
  "engine_ID ELO = ''elo''" | "engine_ID (Glicko2 _) = ''glicko2''"

section \<open>The order is total\<close>

text \<open>Floating-point comparison without NaN is a linear order.\<close>

definition f_key :: "f64 \<Rightarrow> rat \<times> rat" where
  "f_key x = (case x of NInf \<Rightarrow> (-1, 0) | Fin a \<Rightarrow> (0, a) | PInf \<Rightarrow> (1, 0) | NaN \<Rightarrow> (2, 0))"

lemma f_lt_key:
  "x \<noteq> NaN \<Longrightarrow> y \<noteq> NaN \<Longrightarrow>
   f_lt x y \<longleftrightarrow> fst (f_key x) < fst (f_key y) \<or> fst (f_key x) = fst (f_key y) \<and> snd (f_key x) < snd (f_key y)"
  by (cases x; cases y) (simp_all add: f_key_def)

lemma f_eq_key: "x \<noteq> NaN \<Longrightarrow> y \<noteq> NaN \<Longrightarrow> f_eq x y \<longleftrightarrow> f_key x = f_key y"
  by (cases x; cases y) (simp_all add: f_key_def f_eq_def)

lemma f_lt_linear: "x \<noteq> NaN \<Longrightarrow> y \<noteq> NaN \<Longrightarrow> f_lt x y \<or> f_eq x y \<or> f_lt y x"
  by (cases x; cases y) (auto simp: f_eq_def)

definition no_nan :: "PlayerRatings \<Rightarrow> bool" where
  "no_nan pr \<longleftrightarrow> list_all (\<lambda>(_, r). rt_Rating r \<noteq> NaN) pr"

lemma rating_of_not_nan: "no_nan pr \<Longrightarrow> rating_of pr pid \<noteq> NaN"
  by (auto simp: no_nan_def rating_of_def list_all_iff dest: map_of_SomeD split: option.splits)

lemma rating_less_lex:
  assumes "no_nan pr"
  shows "rating_less pr = lex_less (\<lambda>a b. f_lt (rating_of pr b) (rating_of pr a)) (\<lambda>a b. a < b)"
proof (intro ext)
  fix a b
  show "rating_less pr a b = lex_less (\<lambda>a b. f_lt (rating_of pr b) (rating_of pr a)) (\<lambda>a b. a < b) a b"
    using rating_of_not_nan [OF assms, of a] rating_of_not_nan [OF assms, of b]
    unfolding rating_less_def lex_less_def Let_def
    by (auto simp: f_lt_key f_eq_key prod_eq_iff)
qed

lemma sort_less_f_lt:
  assumes "\<And>a. f a \<noteq> NaN"
  shows "sort_less (\<lambda>a b. f_lt (f b) (f a))"
  by unfold_locales (use assms in \<open>auto simp: f_lt_key\<close>)

lemma sort_less_rating: "no_nan pr \<Longrightarrow> sort_less (rating_less pr)"
  unfolding rating_less_lex
  by (intro sort_less_lexI sort_less_f_lt rating_of_not_nan sort_less_key_up [of "\<lambda>x. x"])

lemma sorted_wrt_strict:
  assumes "sorted_wrt (\<lambda>a b. \<not> lt b a) xs" and "distinct xs"
    and "\<And>a b. a \<noteq> b \<Longrightarrow> lt a b \<or> lt b a"
  shows "sorted_wrt lt xs"
  using assms(1,2)
proof (induction xs)
  case (Cons x xs)
  moreover have "lt x y" if "y \<in> set xs" for y
    using that Cons.prems assms(3) [of x y] by auto
  ultimately show ?case by simp
qed simp

text \<open>\<open>Sorted\<close> lists every rated player once, best rating first and equal ratings by
  ascending id; the result does not depend on the iteration order of the map nor on the
  sorting algorithm. (It needs the ratings to be numbers: with a NaN the comparison is no
  order.)\<close>

theorem Sorted_correct:
  assumes "wf_map pr" and "no_nan pr"
  shows "distinct (Sorted pr) \<and> set (Sorted pr) = fst ` set pr
    \<and> sorted_wrt (\<lambda>a b. f_lt (rating_of pr b) (rating_of pr a) \<or> f_eq (rating_of pr a) (rating_of pr b) \<and> a < b)
        (Sorted pr)
    \<and> (\<forall>pr'. mset pr' = mset pr \<longrightarrow> Sorted pr' = Sorted pr)"
proof (intro conjI allI impI)
  show "distinct (Sorted pr)" using assms(1) by (simp add: Sorted_def wf_map_def)
  show "set (Sorted pr) = fst ` set pr" by (simp add: Sorted_def)
  have tot: "rating_less pr a b \<or> rating_less pr b a" if "a \<noteq> b" for a b
    using that rating_of_not_nan [OF assms(2), of a] rating_of_not_nan [OF assms(2), of b]
    by (auto simp: rating_less_def Let_def f_lt_key f_eq_key prod_eq_iff)
  have "sorted_wrt (\<lambda>a b. \<not> rating_less pr b a) (Sorted pr)"
    unfolding Sorted_def by (rule sort_less.sorted_sort_by [OF sort_less_rating [OF assms(2)]])
  moreover have "distinct (Sorted pr)" using assms(1) by (simp add: Sorted_def wf_map_def)
  ultimately have "sorted_wrt (\<lambda>a b. rating_less pr a b) (Sorted pr)"
    using tot by (rule sorted_wrt_strict)
  then show "sorted_wrt (\<lambda>a b. f_lt (rating_of pr b) (rating_of pr a) \<or> f_eq (rating_of pr a) (rating_of pr b) \<and> a < b)
        (Sorted pr)"
    by (rule sorted_wrt_mono_rel [rotated]) (auto simp: rating_less_def Let_def split: if_splits)
  fix pr' :: PlayerRatings
  assume eq: "mset pr' = mset pr"
  have "rating_of pr' = rating_of pr"
    using mget_perm [OF assms(1) eq [symmetric]] by (simp add: rating_of_def fun_eq_iff)
  then have less: "rating_less pr' = rating_less pr" by (simp add: rating_less_def fun_eq_iff)
  have "mset (map fst pr') = mset (map fst pr)" using eq by (metis mset_map)
  then show "Sorted pr' = Sorted pr"
    unfolding Sorted_def less using tot
    by (intro sort_less.sort_by_unique [OF sort_less_rating [OF assms(2)]]) blast+
qed

definition valid_match :: "RMatch \<Rightarrow> bool" where
  "valid_match m \<longleftrightarrow> rm_Player1ID m \<noteq> [] \<and> rm_Player2ID m \<noteq> [] \<and> rm_Player1ID m \<noteq> rm_Player2ID m
     \<and> 0 \<le> rm_Player1Score m \<and> 0 \<le> rm_Player2Score m"

lemma check_from_None: "check_from i ms = None \<longleftrightarrow> (\<forall>m \<in> set ms. valid_match m)"
  by (induction i ms rule: check_from.induct) (auto simp: valid_match_def)

lemma insert_by_filter:
  assumes "\<And>y. P y \<Longrightarrow> P x \<Longrightarrow> \<not> lt y x"
  shows "filter P (insert_by lt x xs) = filter P (x # xs)"
  using assms by (induction xs) auto

lemma sort_by_stable:
  assumes "\<And>a b. P a \<Longrightarrow> P b \<Longrightarrow> \<not> lt a b"
  shows "filter P (sort_by lt xs) = filter P xs"
  using assms by (induction xs) (simp_all add: insert_by_filter)

interpretation by_time: sort_less "\<lambda>a b. rm_PlayedAt a < rm_PlayedAt b"
  by (rule sort_less_key_up)

lemma validateAndSort_facts:
  "(validateAndSort ms = Inr s \<longrightarrow> mset s = mset ms \<and> sorted_wrt (\<lambda>a b. rm_PlayedAt a \<le> rm_PlayedAt b) s
      \<and> (\<forall>t. filter (\<lambda>m. rm_PlayedAt m = t) s = filter (\<lambda>m. rm_PlayedAt m = t) ms))
   \<and> ((\<exists>s. validateAndSort ms = Inr s) \<longleftrightarrow> (\<forall>m \<in> set ms. valid_match m))"
proof (intro conjI impI)
  assume "validateAndSort ms = Inr s"
  then have s: "s = sort_by (\<lambda>a b. rm_PlayedAt a < rm_PlayedAt b) ms"
    by (simp add: validateAndSort_def split: option.splits)
  show "mset s = mset ms" by (simp add: s)
  show "sorted_wrt (\<lambda>a b. rm_PlayedAt a \<le> rm_PlayedAt b) s"
    using by_time.sorted_sort_by [of ms] by (simp add: s not_less)
  show "\<forall>t. filter (\<lambda>m. rm_PlayedAt m = t) s = filter (\<lambda>m. rm_PlayedAt m = t) ms"
    unfolding s by (intro allI sort_by_stable) simp
next
  show "(\<exists>s. validateAndSort ms = Inr s) \<longleftrightarrow> (\<forall>m \<in> set ms. valid_match m)"
    by (auto simp: validateAndSort_def check_from_None [of 0, symmetric] split: option.splits)
qed

text \<open>Validation accepts exactly the histories in which every match has two different
  non-empty players and no negative score; the accepted history is then the same multiset of
  matches in chronological order, matches with equal times keeping their order.\<close>

theorem validateAndSort_correct:
  "(validateAndSort ms = Inr s \<longrightarrow> mset s = mset ms \<and> sorted_wrt (\<lambda>a b. rm_PlayedAt a \<le> rm_PlayedAt b) s
      \<and> (\<forall>t. filter (\<lambda>m. rm_PlayedAt m = t) s = filter (\<lambda>m. rm_PlayedAt m = t) ms))
   \<and> ((\<exists>s. validateAndSort ms = Inr s) \<longleftrightarrow> (\<forall>m \<in> set ms. valid_match m))"
  by (rule validateAndSort_facts)

definition example_matches :: "RMatch list" where
  "example_matches =
    [\<lparr>rm_Player1ID = ''a'', rm_Player2ID = ''b'', rm_Player1Score = 3, rm_Player2Score = 1, rm_PlayedAt = 20\<rparr>,
     \<lparr>rm_Player1ID = ''b'', rm_Player2ID = ''a'', rm_Player1Score = 3, rm_Player2Score = 2, rm_PlayedAt = 10\<rparr>]"

theorem validateAndSort_correct_witness:
  "validateAndSort example_matches = Inr (rev example_matches)
   \<and> mset (rev example_matches) = mset example_matches
   \<and> (\<exists>s. validateAndSort example_matches = Inr s)"
proof -
  have v: "validateAndSort example_matches = Inr (rev example_matches)"
    by (simp add: validateAndSort_def example_matches_def)
  moreover have "\<forall>m \<in> set example_matches. valid_match m"
    by (simp add: example_matches_def valid_match_def)
  ultimately show ?thesis
    using validateAndSort_correct [of example_matches "rev example_matches"] by blast
qed

definition example_ratings :: PlayerRatings where
  "example_ratings = [(''b'', zero_Rating\<lparr>rt_Rating := Fin 1500\<rparr>), (''c'', zero_Rating\<lparr>rt_Rating := Fin 1400\<rparr>),
     (''a'', zero_Rating\<lparr>rt_Rating := Fin 1500\<rparr>)]"

theorem Sorted_correct_witness:
  "distinct (Sorted example_ratings) \<and> set (Sorted example_ratings) = {''a'', ''b'', ''c''}"
proof -
  have "wf_map example_ratings" and "no_nan example_ratings"
    by (simp_all add: example_ratings_def wf_map_def no_nan_def)
  from Sorted_correct [OF this]
  have "distinct (Sorted example_ratings)" "set (Sorted example_ratings) = fst ` set example_ratings"
    by blast+
  moreover have "fst ` set example_ratings = {''a'', ''b'', ''c''}"
    by (auto simp: example_ratings_def)
  ultimately show ?thesis by simp
qed

section \<open>Tallies\<close>

text \<open>What a player's record should say after a list of matches, computed from the list.\<close>

record Tally =
  ty_games :: int
  ty_wins :: int
  ty_losses :: int
  ty_for :: int
  ty_against :: int
  ty_streak :: int
  ty_last :: time

definition plays :: "string \<Rightarrow> RMatch \<Rightarrow> bool" where
  "plays p m \<longleftrightarrow> p = rm_Player1ID m \<or> p = rm_Player2ID m"

definition score_for :: "string \<Rightarrow> RMatch \<Rightarrow> int" where
  "score_for p m = (if p = rm_Player1ID m then rm_Player1Score m else rm_Player2Score m)"

definition score_against :: "string \<Rightarrow> RMatch \<Rightarrow> int" where
  "score_against p m = (if p = rm_Player1ID m then rm_Player2Score m else rm_Player1Score m)"

text \<open>The run of equal results at the end: positive for wins, negative for losses.\<close>

definition run_of :: "bool list \<Rightarrow> int" where
  "run_of bs = (case rev bs of [] \<Rightarrow> 0
     | True # r \<Rightarrow> int (length (takeWhile (\<lambda>b. b) (rev bs)))
     | False # r \<Rightarrow> - int (length (takeWhile (\<lambda>b. \<not> b) (rev bs))))"

definition games_of :: "string \<Rightarrow> RMatch list \<Rightarrow> RMatch list" where
  "games_of p ms = filter (plays p) ms"

definition tally :: "string \<Rightarrow> RMatch list \<Rightarrow> Tally" where
  "tally p ms = (let gs = games_of p ms in
     \<lparr>ty_games = int (length gs),
      ty_wins = int (length (filter (\<lambda>m. score_against p m < score_for p m) gs)),
      ty_losses = int (length (filter (\<lambda>m. score_for p m < score_against p m) gs)),
      ty_for = sum_list (map (score_for p) gs),
      ty_against = sum_list (map (score_against p) gs),
      ty_streak = run_of (map (\<lambda>m. score_against p m < score_for p m)
        (filter (\<lambda>m. score_for p m \<noteq> score_against p m) gs)),
      ty_last = (if gs = [] then zero_time else rm_PlayedAt (last gs))\<rparr>)"

text \<open>The same, one match at a time.\<close>

definition tally_step :: "RMatch \<Rightarrow> int \<Rightarrow> int \<Rightarrow> Tally \<Rightarrow> Tally" where
  "tally_step m sf sa t =
     \<lparr>ty_games = ty_games t + 1,
      ty_wins = ty_wins t + of_bool (sa < sf),
      ty_losses = ty_losses t + of_bool (sf < sa),
      ty_for = ty_for t + sf, ty_against = ty_against t + sa,
      ty_streak = (if sa < sf then (if 0 \<le> ty_streak t then ty_streak t + 1 else 1)
        else if sf < sa then (if ty_streak t \<le> 0 then ty_streak t - 1 else -1) else ty_streak t),
      ty_last = rm_PlayedAt m\<rparr>"

lemma run_of_snoc:
  "run_of (bs @ [True]) = (if 0 \<le> run_of bs then run_of bs + 1 else 1)"
  "run_of (bs @ [False]) = (if run_of bs \<le> 0 then run_of bs - 1 else -1)"
  by (auto simp: run_of_def split: list.splits bool.splits)

lemma tally_Nil: "tally p [] = \<lparr>ty_games = 0, ty_wins = 0, ty_losses = 0, ty_for = 0, ty_against = 0,
    ty_streak = 0, ty_last = zero_time\<rparr>"
  by (simp add: tally_def games_of_def run_of_def)

lemma tally_snoc:
  "tally p (ms @ [m]) =
     (if plays p m then tally_step m (score_for p m) (score_against p m) (tally p ms) else tally p ms)"
  by (auto simp: tally_def tally_step_def games_of_def Let_def run_of_snoc)

definition rating_tally :: "Rating \<Rightarrow> Tally" where
  "rating_tally r =
     \<lparr>ty_games = rt_GamesPlayed r, ty_wins = rt_Wins r, ty_losses = rt_Losses r,
      ty_for = mt_PointsFor (rt_Meta r), ty_against = mt_PointsAgainst (rt_Meta r),
      ty_streak = mt_WinStreak (rt_Meta r), ty_last = mt_LastPlayed (rt_Meta r)\<rparr>"

lemma rating_tally_sel:
  "ty_games (rating_tally r) = rt_GamesPlayed r" "ty_wins (rating_tally r) = rt_Wins r"
  "ty_losses (rating_tally r) = rt_Losses r"
  by (simp_all add: rating_tally_def)

text \<open>The score a match gives to a player, and when it counts as a win or a loss.\<close>

definition outcome :: "int \<Rightarrow> int \<Rightarrow> f64" where
  "outcome sf sa = (if sa < sf then lit 1 else if sf < sa then lit 0 else lit (1 / 2))"

lemma outcome_decides [simp]:
  "f_eq (outcome sf sa) (Fin 1) \<longleftrightarrow> sa < sf"
  "f_eq (outcome sf sa) (Fin 0) \<longleftrightarrow> sf < sa"
  by (auto simp: outcome_def f_eq_def)

text \<open>Every match gives two games, one win for every loss.\<close>

lemma sum_games_step:
  assumes "finite P" and "rm_Player1ID m \<noteq> rm_Player2ID m" and "rm_Player1ID m \<in> P" and "rm_Player2ID m \<in> P"
  shows "(\<Sum>p \<in> P. of_bool (plays p m) :: int) = 2"
proof -
  have "P \<inter> {p. plays p m} = {rm_Player1ID m, rm_Player2ID m}" using assms by (auto simp: plays_def)
  then show ?thesis using assms by (simp add: sum.If_cases of_bool_def card_insert_if)
qed

lemma sum_wins_step:
  assumes "finite P" and "rm_Player1ID m \<noteq> rm_Player2ID m" and "rm_Player1ID m \<in> P" and "rm_Player2ID m \<in> P"
  shows "(\<Sum>p \<in> P. (if plays p m then of_bool (score_against p m < score_for p m)
      - of_bool (score_for p m < score_against p m) else 0) :: int) = 0"
proof -
  let ?f = "\<lambda>p. (if plays p m then of_bool (score_against p m < score_for p m)
      - of_bool (score_for p m < score_against p m) else 0) :: int"
  have "sum ?f P = sum ?f {rm_Player1ID m, rm_Player2ID m}"
    using assms by (intro sum.mono_neutral_right) (auto simp: plays_def)
  also have "\<dots> = 0" using assms(2) by (simp add: plays_def score_for_def score_against_def)
  finally show ?thesis .
qed

lemma sum_games:
  assumes "finite P" and "\<forall>m \<in> set ms. valid_match m \<and> rm_Player1ID m \<in> P \<and> rm_Player2ID m \<in> P"
  shows "(\<Sum>p \<in> P. ty_games (tally p ms)) = 2 * int (length ms)"
  using assms(2)
proof (induction ms rule: rev_induct)
  case Nil
  then show ?case by (simp add: tally_Nil)
next
  case (snoc m ms)
  have "(\<Sum>p \<in> P. ty_games (tally p (ms @ [m]))) =
      (\<Sum>p \<in> P. ty_games (tally p ms) + of_bool (plays p m))"
    by (intro sum.cong) (auto simp: tally_snoc tally_step_def)
  also have "\<dots> = 2 * int (length ms) + 2"
    using snoc sum_games_step [OF assms(1)] by (simp add: sum.distrib valid_match_def)
  finally show ?case by simp
qed

lemma sum_wins_losses:
  assumes "finite P" and "\<forall>m \<in> set ms. valid_match m \<and> rm_Player1ID m \<in> P \<and> rm_Player2ID m \<in> P"
  shows "(\<Sum>p \<in> P. ty_wins (tally p ms) - ty_losses (tally p ms)) = 0"
  using assms(2)
proof (induction ms rule: rev_induct)
  case Nil
  then show ?case by (simp add: tally_Nil)
next
  case (snoc m ms)
  have "(\<Sum>p \<in> P. ty_wins (tally p (ms @ [m])) - ty_losses (tally p (ms @ [m]))) =
      (\<Sum>p \<in> P. (ty_wins (tally p ms) - ty_losses (tally p ms)) + (if plays p m
         then of_bool (score_against p m < score_for p m) - of_bool (score_for p m < score_against p m) else 0))"
    by (intro sum.cong) (auto simp: tally_snoc tally_step_def)
  also have "\<dots> = 0"
    using snoc sum_wins_step [OF assms(1), of m] by (simp add: sum.distrib valid_match_def)
  finally show ?case by simp
qed

section \<open>The engine interface\<close>

text \<open>
  What every engine promises of \<open>Compute\<close>, whatever its arithmetic: it rejects what
  validation rejects, and otherwise it rates exactly the players that occur, with the
  tallies of the sorted history. \<open>None\<close> stands for a computation that does not return.
\<close>

locale rating_engine =
  fixes compute :: "RMatch list \<Rightarrow> (rating_error + PlayerRatings) option"
  assumes compute_rejects: "validateAndSort ms = Inl e \<Longrightarrow> compute ms = Some (Inl e)"
    and compute_valid: "compute ms = Some (Inr pr) \<Longrightarrow> \<exists>s. validateAndSort ms = Inr s"
    and compute_wf: "compute ms = Some (Inr pr) \<Longrightarrow> wf_map pr"
    and compute_players: "compute ms = Some (Inr pr) \<Longrightarrow>
      p \<in> fst ` set pr \<longleftrightarrow> (\<exists>m \<in> set ms. plays p m)"
    and compute_tally: "compute ms = Some (Inr pr) \<Longrightarrow> validateAndSort ms = Inr s \<Longrightarrow>
      mget pr p = Some r \<Longrightarrow> rating_tally r = tally p s"
begin

lemma compute_total:
  assumes "compute ms = Some (Inr pr)"
  shows "(\<Sum>p \<in> fst ` set pr. rt_GamesPlayed (the (mget pr p))) = 2 * int (length ms)"
    and "(\<Sum>p \<in> fst ` set pr. rt_Wins (the (mget pr p))) = (\<Sum>p \<in> fst ` set pr. rt_Losses (the (mget pr p)))"
proof -
  let ?P = "fst ` set pr"
  obtain s where s: "validateAndSort ms = Inr s" using compute_valid [OF assms] by blast
  have facts: "mset s = mset ms" "\<forall>m \<in> set ms. valid_match m"
    using validateAndSort_facts s by blast+
  have set_s: "set s = set ms" using facts(1) by (metis set_mset_mset)
  have in_P: "\<forall>m \<in> set s. valid_match m \<and> rm_Player1ID m \<in> ?P \<and> rm_Player2ID m \<in> ?P"
    using compute_players [OF assms] facts(2) set_s by (auto simp: plays_def)
  have t: "rating_tally (the (mget pr p)) = tally p s" if p: "p \<in> ?P" for p
  proof -
    have "p \<in> dom (mget pr)" using p by (simp add: dom_map_of_conv_image_fst)
    then obtain r where "mget pr p = Some r" by blast
    then show ?thesis using compute_tally [OF assms s] by simp
  qed
  have g: "rt_GamesPlayed (the (mget pr p)) = ty_games (tally p s)"
    and w: "rt_Wins (the (mget pr p)) = ty_wins (tally p s)"
    and l: "rt_Losses (the (mget pr p)) = ty_losses (tally p s)" if "p \<in> ?P" for p
    using t [OF that] rating_tally_sel [of "the (mget pr p)"] by simp_all
  show "(\<Sum>p \<in> ?P. rt_GamesPlayed (the (mget pr p))) = 2 * int (length ms)"
    using sum_games [OF _ in_P] g facts(1) by (simp flip: size_mset)
  show "(\<Sum>p \<in> ?P. rt_Wins (the (mget pr p))) = (\<Sum>p \<in> ?P. rt_Losses (the (mget pr p)))"
    using sum_wins_losses [OF _ in_P] w l by (simp add: sum_subtractf)
qed

end

end
