(* ===== verification/Elo.thy ===== *)
theory Elo
  imports Rating
begin

text \<open>
  The ELO engine (\<open>pkg/rating/elo.go\<close>) in binary64 arithmetic; \<open>math.Pow(10, _)\<close> comes from
  the parameter \<open>L\<close>. The map \<open>pr\<close> of the code is passed along the chronological matches.
\<close>

section \<open>The engine\<close>

definition eloK :: "int \<Rightarrow> f64" where
  "eloK games = (if games < ELOKThreshold then ELOKHigh else ELOKLow)"

definition applyMeta :: "RMatch \<Rightarrow> int \<Rightarrow> int \<Rightarrow> f64 \<Rightarrow> Rating \<Rightarrow> Rating" where
  "applyMeta m scoreFor scoreAgainst s r =
     (let meta = rt_Meta r;
          streak = mt_WinStreak meta;
          meta1 = meta\<lparr>mt_PointsFor := mt_PointsFor meta + scoreFor,
            mt_PointsAgainst := mt_PointsAgainst meta + scoreAgainst,
            mt_LastPlayed := rm_PlayedAt m\<rparr>;
          r1 = r\<lparr>rt_GamesPlayed := rt_GamesPlayed r + 1\<rparr>;
          r2 = (if f_eq s (lit 1) then
                  r1\<lparr>rt_Wins := rt_Wins r1 + 1,
                     rt_Meta := meta1\<lparr>mt_WinStreak := (if 0 \<le> streak then streak + 1 else 1)\<rparr>\<rparr>
                else if f_eq s (lit 0) then
                  r1\<lparr>rt_Losses := rt_Losses r1 + 1,
                     rt_Meta := meta1\<lparr>mt_WinStreak := (if streak \<le> 0 then streak - 1 else -1)\<rparr>\<rparr>
                else r1\<lparr>rt_Meta := meta1\<rparr>)
      in if f_lt (mt_BestRating (rt_Meta r2)) (rt_Rating r2)
         then r2\<lparr>rt_Meta := (rt_Meta r2)\<lparr>mt_BestRating := rt_Rating r2\<rparr>\<rparr> else r2)"

definition elo_get :: "PlayerRatings \<Rightarrow> string \<Rightarrow> Rating" where
  "elo_get pr p = (case mget pr p of Some r \<Rightarrow> r | None \<Rightarrow> zero_Rating\<lparr>rt_Rating := ELODefault\<rparr>)"

text \<open>The expected score of the first player.\<close>

definition elo_expected :: "libm \<Rightarrow> f64 \<Rightarrow> f64 \<Rightarrow> f64" where
  "elo_expected L ra rb =
     f_div (lit 1) (f_add (lit 1) (fm_pow10 L (f_div (f_sub rb ra) (lit 400))))"

definition elo_step :: "libm \<Rightarrow> PlayerRatings \<Rightarrow> RMatch \<Rightarrow> PlayerRatings" where
  "elo_step L pr m =
     (let ra = elo_get pr (rm_Player1ID m);
          rb = elo_get pr (rm_Player2ID m);
          ka = eloK (rt_GamesPlayed ra);
          kb = eloK (rt_GamesPlayed rb);
          ea = elo_expected L (rt_Rating ra) (rt_Rating rb);
          eb = f_sub (lit 1) ea;
          (sa, sb) = (if rm_Player2Score m < rm_Player1Score m then (lit 1, lit 0)
                      else if rm_Player1Score m < rm_Player2Score m then (lit 0, lit 1)
                      else (lit (1 / 2), lit (1 / 2)));
          ra1 = ra\<lparr>rt_Rating := f_add (rt_Rating ra) (f_mul ka (f_sub sa ea))\<rparr>;
          rb1 = rb\<lparr>rt_Rating := f_add (rt_Rating rb) (f_mul kb (f_sub sb eb))\<rparr>;
          ra2 = applyMeta m (rm_Player1Score m) (rm_Player2Score m) sa ra1;
          rb2 = applyMeta m (rm_Player2Score m) (rm_Player1Score m) sb rb1
      in mput (rm_Player2ID m) rb2 (mput (rm_Player1ID m) ra2 pr))"

definition ELO_Compute :: "libm \<Rightarrow> RMatch list \<Rightarrow> rating_error + PlayerRatings" where
  "ELO_Compute L ms =
     (case validateAndSort ms of
        Inl e \<Rightarrow> Inl e
      | Inr s \<Rightarrow> Inr (foldl (elo_step L) [] s))"

section \<open>Tallies\<close>

lemma applyMeta_tally:
  "rating_tally (applyMeta m sf sa (outcome sf sa) r) = tally_step m sf sa (rating_tally r)"
  by (auto simp: applyMeta_def tally_step_def rating_tally_def Let_def)

lemma applyMeta_rating [simp]: "rt_Rating (applyMeta m sf sa s r) = rt_Rating r"
  by (simp add: applyMeta_def Let_def)

lemma tally_rating_update [simp]: "rating_tally (r\<lparr>rt_Rating := x\<rparr>) = rating_tally r"
  by (simp add: rating_tally_def)

text \<open>The step, player by player.\<close>

definition elo_delta :: "libm \<Rightarrow> PlayerRatings \<Rightarrow> RMatch \<Rightarrow> string \<Rightarrow> f64" where
  "elo_delta L pr m p =
     (let ra = elo_get pr (rm_Player1ID m); rb = elo_get pr (rm_Player2ID m);
          ea = elo_expected L (rt_Rating ra) (rt_Rating rb) in
      if p = rm_Player2ID m
      then f_mul (eloK (rt_GamesPlayed rb))
        (f_sub (outcome (rm_Player2Score m) (rm_Player1Score m)) (f_sub (lit 1) ea))
      else f_mul (eloK (rt_GamesPlayed ra))
        (f_sub (outcome (rm_Player1Score m) (rm_Player2Score m)) ea))"

lemma elo_step_get:
  assumes "valid_match m"
  shows "mget (elo_step L pr m) p =
    (if plays p m then Some (applyMeta m (score_for p m) (score_against p m)
        (outcome (score_for p m) (score_against p m))
        ((elo_get pr p)\<lparr>rt_Rating := f_add (rt_Rating (elo_get pr p)) (elo_delta L pr m p)\<rparr>))
     else mget pr p)"
  using assms
  by (auto simp: elo_step_def elo_delta_def plays_def score_for_def score_against_def valid_match_def
      outcome_def Let_def)

lemma elo_get_tally:
  assumes "\<And>r. mget pr p = Some r \<Longrightarrow> rating_tally r = t" and "mget pr p = None \<Longrightarrow> t = tally p []"
  shows "rating_tally (elo_get pr p) = t"
  using assms
  by (auto simp: elo_get_def tally_Nil rating_tally_def zero_Rating_def zero_Meta_def split: option.splits)

text \<open>What holds of the map after a prefix of the history.\<close>

definition elo_inv :: "RMatch list \<Rightarrow> PlayerRatings \<Rightarrow> bool" where
  "elo_inv s pr \<longleftrightarrow> wf_map pr \<and> (\<forall>p. (mget pr p \<noteq> None \<longleftrightarrow> (\<exists>m \<in> set s. plays p m)) \<and>
     (\<forall>r. mget pr p = Some r \<longrightarrow> rating_tally r = tally p s))"

lemma tally_absent: "(\<forall>m \<in> set s. \<not> plays p m) \<Longrightarrow> tally p s = tally p []"
  by (induction s rule: rev_induct) (simp_all add: tally_snoc)

lemma elo_inv_step:
  assumes inv: "elo_inv s pr" and m: "valid_match m"
  shows "elo_inv (s @ [m]) (elo_step L pr m)"
proof -
  have wf: "wf_map (elo_step L pr m)"
    using inv by (simp add: elo_inv_def elo_step_def Let_def case_prod_beta)
  have t: "rating_tally (elo_get pr p) = tally p s" for p
  proof (rule elo_get_tally)
    show "rating_tally r = tally p s" if "mget pr p = Some r" for r
      using inv that by (simp add: elo_inv_def)
    assume "mget pr p = None"
    then have "\<forall>m \<in> set s. \<not> plays p m" using inv by (metis elo_inv_def)
    then show "tally p s = tally p []" by (rule tally_absent)
  qed
  show ?thesis
    using inv wf unfolding elo_inv_def elo_step_get [OF m]
    by (auto simp: applyMeta_tally t tally_snoc)
qed

lemma elo_inv_fold:
  "\<forall>m \<in> set s. valid_match m \<Longrightarrow> elo_inv s (foldl (elo_step L) [] s)"
proof (induction s rule: rev_induct)
  case Nil
  show ?case by (simp add: elo_inv_def)
next
  case (snoc m s)
  then show ?case using elo_inv_step by simp
qed

lemma ELO_Compute_inv:
  assumes "ELO_Compute L ms = Inr pr"
  obtains s where "validateAndSort ms = Inr s" and "elo_inv s pr"
    and "pr = foldl (elo_step L) [] s" and "set s = set ms"
proof -
  obtain s where s: "validateAndSort ms = Inr s" "pr = foldl (elo_step L) [] s"
    using assms by (auto simp: ELO_Compute_def split: sum.splits)
  have "mset s = mset ms" "\<forall>m \<in> set ms. valid_match m" using validateAndSort_facts s(1) by blast+
  then have "set s = set ms" by (metis set_mset_mset)
  moreover from this have "elo_inv s pr"
    unfolding s(2) using \<open>\<forall>m \<in> set ms. valid_match m\<close> by (intro elo_inv_fold) simp
  ultimately show ?thesis using s that by blast
qed

interpretation elo: rating_engine "\<lambda>ms. Some (ELO_Compute L ms)" for L
proof
  fix ms e pr p s r
  show "validateAndSort ms = Inl e \<Longrightarrow> Some (ELO_Compute L ms) = Some (Inl e)"
    by (simp add: ELO_Compute_def)
  assume "Some (ELO_Compute L ms) = Some (Inr pr)"
  then have c: "ELO_Compute L ms = Inr pr" by simp
  then obtain s' where s': "validateAndSort ms = Inr s'" "elo_inv s' pr" "set s' = set ms"
    by (rule ELO_Compute_inv) blast
  show "\<exists>s. validateAndSort ms = Inr s" using s'(1) by blast
  show "wf_map pr" using s'(2) by (simp add: elo_inv_def)
  have "p \<in> fst ` set pr \<longleftrightarrow> mget pr p \<noteq> None" by (simp add: map_of_eq_None_iff)
  then show "p \<in> fst ` set pr \<longleftrightarrow> (\<exists>m \<in> set ms. plays p m)" using s'(2,3) by (simp add: elo_inv_def)
  assume "validateAndSort ms = Inr s" and "mget pr p = Some r"
  then show "rating_tally r = tally p s" using s'(1,2) by (simp add: elo_inv_def)
qed

text \<open>The ELO leaderboard's counters: a player is rated exactly when he occurs in the history,
  and his games, wins, losses, points, current streak and last match are those of his matches
  in chronological order, independently of the floating-point part.\<close>

theorem ELO_counters:
  assumes "ELO_Compute L ms = Inr pr" and "validateAndSort ms = Inr s"
  shows "(p \<in> fst ` set pr \<longleftrightarrow> (\<exists>m \<in> set ms. plays p m))
    \<and> (mget pr p = Some r \<longrightarrow> rating_tally r = tally p s)
    \<and> (\<Sum>q \<in> fst ` set pr. rt_GamesPlayed (the (mget pr q))) = 2 * int (length ms)"
  using elo.compute_players [of L ms pr p] elo.compute_tally [of L ms pr s p r]
    elo.compute_total(1) [of L ms pr] assms by simp

definition example_libm :: libm where
  "example_libm = \<lparr>fm_pow10 = (\<lambda>_. lit 1), fm_exp = (\<lambda>_. lit 1), fm_log = (\<lambda>_. lit 0), fm_sqrt = (\<lambda>x. x)\<rparr>"

theorem ELO_counters_witness:
  "\<exists>pr. ELO_Compute example_libm example_matches = Inr pr \<and> ''a'' \<in> fst ` set pr
     \<and> (\<Sum>q \<in> fst ` set pr. rt_GamesPlayed (the (mget pr q))) = 4"
proof -
  have v: "validateAndSort example_matches = Inr (rev example_matches)"
    by (simp add: validateAndSort_def example_matches_def)
  then obtain pr where pr: "ELO_Compute example_libm example_matches = Inr pr"
    by (simp add: ELO_Compute_def)
  have "\<exists>m \<in> set example_matches. plays ''a'' m" by (simp add: example_matches_def plays_def)
  then show ?thesis
    using ELO_counters [OF pr v, of "''a''"] pr by (simp add: example_matches_def)
qed

section \<open>Ratings are numbers and move the right way\<close>

text \<open>Documented of \<open>math.Pow\<close> with base 10 and a finite exponent: a non-negative number, or
  \<open>+Inf\<close> on overflow.\<close>

definition pow10_ok :: "libm \<Rightarrow> bool" where
  "pow10_ok L \<longleftrightarrow> (\<forall>x. fm_pow10 L (Fin x) = PInf \<or> (\<exists>q \<ge> 0. fm_pow10 L (Fin x) = Fin q))"

lemma enc_unit:
  assumes "0 \<le> x" and "x \<le> 1"
  obtains y where "enc x = Fin y" and "0 \<le> y" and "y \<le> 1"
  using enc_between [of 0 x 1] rnd64_between [of 0 x 1] assms by simp

lemma recip_unit:
  assumes "0 \<le> q"
  obtains e where "f_div (Fin 1) (enc (1 + q)) = Fin e" and "0 \<le> e" and "e \<le> 1"
proof (cases "enc (1 + q)")
  case (Fin y)
  have "1 \<le> rnd64 (1 + q)" using rnd64_mono [of 1 "1 + q"] rnd64_int [of 1] assms by simp
  then have "1 \<le> y" using Fin by (simp add: enc_def Let_def split: if_splits)
  then show ?thesis using enc_unit [of "1 / y"] Fin that by auto
next
  case PInf
  then show ?thesis using that by simp
next
  case NInf
  have "0 \<le> rnd64 (1 + q)" using rnd64_sign(1) assms by simp
  moreover have "(0 :: rat) < 2 ^ 1024" by (rule zero_less_power) simp
  ultimately show ?thesis using NInf by (auto simp: enc_def Let_def split: if_splits)
next
  case NaN
  then show ?thesis by (simp add: enc_def Let_def split: if_splits)
qed

lemma expected_unit:
  assumes "pow10_ok L" and "\<bar>b - a\<bar> \<le> 2 ^ 53 - 1"
  obtains e where "elo_expected L (Fin a) (Fin b) = Fin e" and "0 \<le> e" and "e \<le> 1"
proof -
  have sub: "of_int (- (2 ^ 53 - 1)) \<le> b - a" "b - a \<le> of_int (2 ^ 53 - 1)"
    using assms(2) by (simp_all add: abs_le_iff)
  have d: "f_sub (Fin b) (Fin a) = Fin (rnd64 (b - a))"
    using enc_between [OF sub] by (simp add: f_sub_def)
  have r: "of_int (- (2 ^ 53 - 1)) \<le> rnd64 (b - a)" "rnd64 (b - a) \<le> of_int (2 ^ 53 - 1)"
    using rnd64_between [OF sub] by simp_all
  then have "of_int (- (2 ^ 53 - 1)) \<le> rnd64 (b - a) / 400" "rnd64 (b - a) / 400 \<le> of_int (2 ^ 53 - 1)"
    by simp_all
  from enc_between [OF this]
  have "f_div (Fin (rnd64 (b - a))) (Fin 400) = Fin (rnd64 (rnd64 (b - a) / 400))" by simp
  then obtain z where z: "f_div (f_sub (Fin b) (Fin a)) (lit 400) = Fin z" using d by simp
  from assms(1) consider "fm_pow10 L (Fin z) = PInf" | q where "0 \<le> q" "fm_pow10 L (Fin z) = Fin q"
    unfolding pow10_ok_def by blast
  then show ?thesis
  proof cases
    case 1
    then have "elo_expected L (Fin a) (Fin b) = Fin 0" unfolding elo_expected_def z by simp
    then show ?thesis using that by simp
  next
    case 2
    obtain e where "f_div (Fin 1) (enc (1 + q)) = Fin e" "0 \<le> e" "e \<le> 1"
      using recip_unit [OF 2(1)] .
    then show ?thesis using that 2 unfolding elo_expected_def z by simp
  qed
qed

text \<open>One player's change: at most \<open>K\<close>, with the sign of the result.\<close>

lemma change_bounds:
  assumes "0 \<le> e" and "e \<le> 1"
  obtains d where "f_mul (eloK g) (f_sub (outcome sf sa) (Fin e)) = Fin d"
    and "- 32 \<le> d" and "d \<le> 32" and "sa < sf \<Longrightarrow> 0 \<le> d" and "sf < sa \<Longrightarrow> d \<le> 0"
proof -
  have "\<exists>s. outcome sf sa = Fin s \<and> 0 \<le> s \<and> s \<le> 1 \<and> (sa < sf \<longrightarrow> s = 1) \<and> (sf < sa \<longrightarrow> s = 0)"
    by (auto simp: outcome_def intro: exI [of _ "1 / 2"])
  then obtain s where s: "outcome sf sa = Fin s" "0 \<le> s" "s \<le> 1" "sa < sf \<Longrightarrow> s = 1" "sf < sa \<Longrightarrow> s = 0"
    by blast
  have b: "of_int (-1) \<le> s - e" "s - e \<le> of_int 1" using s(2,3) assms by simp_all
  let ?t = "rnd64 (s - e)"
  have t: "f_sub (outcome sf sa) (Fin e) = Fin ?t" using enc_between [OF b] s(1) by (simp add: f_sub_def)
  have tb: "- 1 \<le> ?t" "?t \<le> 1" using rnd64_between [OF b] by simp_all
  have ts: "sa < sf \<Longrightarrow> 0 \<le> ?t" "sf < sa \<Longrightarrow> ?t \<le> 0"
    using s(4,5) assms rnd64_sign by simp_all
  have "eloK g = Fin 32 \<or> eloK g = Fin 16" by (simp add: eloK_def ELOKHigh_def ELOKLow_def)
  then obtain k where k: "eloK g = Fin k" "0 \<le> k" "k \<le> 32" by force
  have "\<bar>k * ?t\<bar> \<le> 32 * 1"
    unfolding abs_mult using k(2,3) tb by (intro mult_mono) (simp_all add: abs_le_iff)
  then have kb: "of_int (-32) \<le> k * ?t" "k * ?t \<le> of_int 32" by (simp_all add: abs_le_iff)
  have "f_mul (eloK g) (f_sub (outcome sf sa) (Fin e)) = Fin (rnd64 (k * ?t))"
    using enc_between [OF kb] t k(1) by simp
  moreover have "sa < sf \<Longrightarrow> 0 \<le> rnd64 (k * ?t)" "sf < sa \<Longrightarrow> rnd64 (k * ?t) \<le> 0"
    using ts k(2) by (auto intro!: rnd64_sign mult_nonneg_nonneg mult_nonneg_nonpos)
  ultimately show ?thesis using that rnd64_between [OF kb] by simp
qed

text \<open>A rating after \<open>g\<close> games is a representable number within \<open>32 g\<close> of 1000.\<close>

definition elo_ok :: "Rating \<Rightarrow> bool" where
  "elo_ok r \<longleftrightarrow> 0 \<le> rt_GamesPlayed r \<and>
     (\<exists>x. rt_Rating r = Fin x \<and> rep64 x \<and>
        of_int (1000 - 32 * rt_GamesPlayed r) \<le> x \<and> x \<le> of_int (1000 + 32 * rt_GamesPlayed r))"

lemma elo_ok_default: "elo_ok (zero_Rating\<lparr>rt_Rating := ELODefault\<rparr>)"
  using rep64_int [of 1000] by (simp add: elo_ok_def ELODefault_def zero_Rating_def)

lemma elo_add:
  assumes "elo_ok r" and "rt_GamesPlayed r < 2 ^ 46" and "rt_Rating r = Fin x"
    and "- 32 \<le> d" and "d \<le> 32"
  shows "f_add (Fin x) (Fin d) = Fin (rnd64 (x + d))"
    and "of_int (1000 - 32 * (rt_GamesPlayed r + 1)) \<le> rnd64 (x + d)"
    and "rnd64 (x + d) \<le> of_int (1000 + 32 * (rt_GamesPlayed r + 1))"
proof -
  let ?i = "1000 - 32 * (rt_GamesPlayed r + 1)" and ?j = "1000 + 32 * (rt_GamesPlayed r + 1)"
  have g: "0 \<le> rt_GamesPlayed r" and x: "of_int (1000 - 32 * rt_GamesPlayed r) \<le> x"
      "x \<le> of_int (1000 + 32 * rt_GamesPlayed r)"
    using assms(1,3) by (auto simp: elo_ok_def)
  have b: "of_int ?i \<le> x + d" "x + d \<le> of_int ?j" using x assms(4,5) by simp_all
  have r: "\<bar>?i\<bar> < 2 ^ 53" "\<bar>?j\<bar> < 2 ^ 53" using g assms(2) by (simp_all add: abs_less_iff)
  show "f_add (Fin x) (Fin d) = Fin (rnd64 (x + d))" using enc_between [OF b r] by simp
  show "of_int ?i \<le> rnd64 (x + d)" "rnd64 (x + d) \<le> of_int ?j" using rnd64_between [OF b r] .
qed

lemma elo_diff:
  assumes "elo_ok ra" and "elo_ok rb" and "rt_GamesPlayed ra < 2 ^ 46" and "rt_GamesPlayed rb < 2 ^ 46"
    and "rt_Rating ra = Fin a" and "rt_Rating rb = Fin b"
  shows "\<bar>b - a\<bar> \<le> 2 ^ 53 - 1"
proof -
  have "of_int (1000 - 32 * 2 ^ 46) \<le> y \<and> y \<le> of_int (1000 + 32 * 2 ^ 46)"
    if "elo_ok r" "rt_GamesPlayed r < 2 ^ 46" "rt_Rating r = Fin y" for r y
  proof -
    have y: "of_int (1000 - 32 * rt_GamesPlayed r) \<le> y" "y \<le> of_int (1000 + 32 * rt_GamesPlayed r)"
      using that by (auto simp: elo_ok_def)
    have "(of_int (1000 - 32 * 2 ^ 46) :: rat) \<le> of_int (1000 - 32 * rt_GamesPlayed r)"
      "(of_int (1000 + 32 * rt_GamesPlayed r) :: rat) \<le> of_int (1000 + 32 * 2 ^ 46)"
      unfolding of_int_le_iff using that(2) by linarith+
    with y show ?thesis by linarith
  qed
  from this [OF assms(1,3,5)] this [OF assms(2,4,6)] show ?thesis by (simp add: abs_le_iff)
qed

lemma elo_step_change:
  assumes L: "pow10_ok L" and m: "valid_match m" and p: "plays p m"
    and ok: "\<And>q. elo_ok (elo_get pr q) \<and> rt_GamesPlayed (elo_get pr q) < 2 ^ 46"
    and x: "rt_Rating (elo_get pr p) = Fin x"
  obtains y r where "mget (elo_step L pr m) p = Some r" and "rt_Rating r = Fin y" and "elo_ok r"
    and "score_against p m < score_for p m \<Longrightarrow> x \<le> y"
    and "score_for p m < score_against p m \<Longrightarrow> y \<le> x"
proof -
  let ?a = "elo_get pr (rm_Player1ID m)" and ?b = "elo_get pr (rm_Player2ID m)"
  obtain a b where ab: "rt_Rating ?a = Fin a" "rt_Rating ?b = Fin b"
    using ok unfolding elo_ok_def by metis
  obtain e where e: "elo_expected L (Fin a) (Fin b) = Fin e" "0 \<le> e" "e \<le> 1"
    using expected_unit [OF L elo_diff [of ?a ?b]] ok ab by metis
  have eb: "f_sub (lit 1) (Fin e) = Fin (rnd64 (1 - e))" "0 \<le> rnd64 (1 - e)" "rnd64 (1 - e) \<le> 1"
    using enc_between [of 0 "1 - e" 1] rnd64_between [of 0 "1 - e" 1] e(2,3) by (simp_all add: f_sub_def)
  obtain d where d: "elo_delta L pr m p = Fin d" "- 32 \<le> d" "d \<le> 32"
    "score_against p m < score_for p m \<Longrightarrow> 0 \<le> d" "score_for p m < score_against p m \<Longrightarrow> d \<le> 0"
  proof (cases "p = rm_Player2ID m")
    case True
    then have "score_for p m = rm_Player2Score m" "score_against p m = rm_Player1Score m"
      using m by (auto simp: score_for_def score_against_def valid_match_def)
    moreover have "elo_delta L pr m p = f_mul (eloK (rt_GamesPlayed ?b))
        (f_sub (outcome (rm_Player2Score m) (rm_Player1Score m)) (Fin (rnd64 (1 - e))))"
      unfolding elo_delta_def Let_def ab e(1) eb(1) using True by simp
    ultimately show ?thesis
      using change_bounds [OF eb(2,3), of "rt_GamesPlayed ?b" "rm_Player2Score m" "rm_Player1Score m"] that
      by metis
  next
    case False
    then have "score_for p m = rm_Player1Score m" "score_against p m = rm_Player2Score m"
      using p by (auto simp: score_for_def score_against_def plays_def)
    moreover have "elo_delta L pr m p = f_mul (eloK (rt_GamesPlayed ?a))
        (f_sub (outcome (rm_Player1Score m) (rm_Player2Score m)) (Fin e))"
      unfolding elo_delta_def Let_def ab e(1) using False by simp
    ultimately show ?thesis
      using change_bounds [OF e(2,3), of "rt_GamesPlayed ?a" "rm_Player1Score m" "rm_Player2Score m"] that
      by metis
  qed
  let ?r = "applyMeta m (score_for p m) (score_against p m) (outcome (score_for p m) (score_against p m))
        ((elo_get pr p)\<lparr>rt_Rating := f_add (rt_Rating (elo_get pr p)) (elo_delta L pr m p)\<rparr>)"
  have get: "mget (elo_step L pr m) p = Some ?r" using elo_step_get [OF m] p by simp
  have g: "rt_GamesPlayed ?r = rt_GamesPlayed (elo_get pr p) + 1"
    by (simp add: applyMeta_def Let_def)
  note add = elo_add [OF _ _ x d(2,3)]
  have y: "rt_Rating ?r = Fin (rnd64 (x + d))" using add(1) ok x d(1) by simp
  have "rep64 x" using ok [of p] x by (auto simp: elo_ok_def)
  moreover have "elo_ok ?r"
    unfolding elo_ok_def g y using add(2,3) ok [of p] by (auto simp: elo_ok_def)
  ultimately show ?thesis
    using that [OF get y] d(4,5) rnd64_add_up rnd64_add_down by blast
qed

text \<open>Every prefix of a history keeps the ratings in bounds.\<close>

definition elo_bounded :: "nat \<Rightarrow> PlayerRatings \<Rightarrow> bool" where
  "elo_bounded n pr \<longleftrightarrow> (\<forall>p r. mget pr p = Some r \<longrightarrow> elo_ok r \<and> rt_GamesPlayed r \<le> int n)"

lemma elo_bounded_get:
  assumes "elo_bounded n pr"
  shows "elo_ok (elo_get pr p) \<and> rt_GamesPlayed (elo_get pr p) \<le> int n"
  using assms elo_ok_default
  by (auto simp: elo_bounded_def elo_get_def zero_Rating_def split: option.splits)

lemma elo_bounded_step:
  assumes "pow10_ok L" and "valid_match m" and "elo_bounded n pr" and "n < 2 ^ 46"
  shows "elo_bounded (Suc n) (elo_step L pr m)"
  unfolding elo_bounded_def
proof (intro allI impI)
  fix p r
  assume r: "mget (elo_step L pr m) p = Some r"
  have "int n < 2 ^ 46" using assms(4) by simp
  then have ok: "elo_ok (elo_get pr q) \<and> rt_GamesPlayed (elo_get pr q) < 2 ^ 46" for q
    using elo_bounded_get [OF assms(3), of q] by linarith
  show "elo_ok r \<and> rt_GamesPlayed r \<le> int (Suc n)"
  proof (cases "plays p m")
    case True
    obtain x where x: "rt_Rating (elo_get pr p) = Fin x" using ok [of p] by (auto simp: elo_ok_def)
    have "elo_ok r" using elo_step_change [OF assms(1,2) True ok x] r by (metis option.inject)
    moreover have "rt_GamesPlayed r = rt_GamesPlayed (elo_get pr p) + 1"
      using r True elo_step_get [OF assms(2), of L pr p] by (auto simp: applyMeta_def Let_def)
    ultimately show ?thesis using elo_bounded_get [OF assms(3), of p] by simp
  next
    case False
    then have "mget pr p = Some r" using r elo_step_get [OF assms(2), of L pr p] by simp
    then show ?thesis using assms(3) by (force simp: elo_bounded_def)
  qed
qed

lemma elo_bounded_fold:
  assumes "pow10_ok L" and "\<forall>m \<in> set s. valid_match m" and "length s \<le> 2 ^ 46"
  shows "elo_bounded (length s) (foldl (elo_step L) [] s)"
  using assms(2,3)
proof (induction s rule: rev_induct)
  case Nil
  then show ?case by (simp add: elo_bounded_def)
next
  case (snoc m s)
  then have "elo_bounded (length s) (foldl (elo_step L) [] s)" by simp
  moreover have "length s < 2 ^ 46" using snoc.prems(2) by simp
  ultimately show ?case
    using elo_bounded_step [OF assms(1)] snoc.prems(1) by simp
qed

lemma ELO_Compute_bounded:
  assumes "pow10_ok L" and "length ms \<le> 2 ^ 46" and "ELO_Compute L ms = Inr pr"
  shows "elo_bounded (length ms) pr" and "no_nan pr"
proof -
  obtain s where s: "validateAndSort ms = Inr s" "pr = foldl (elo_step L) [] s" "elo_inv s pr"
    using ELO_Compute_inv [OF assms(3)] by blast
  have f: "mset s = mset ms" "\<forall>m \<in> set ms. valid_match m" using validateAndSort_facts s(1) by blast+
  have l: "set s = set ms" "length s = length ms" using f(1) by (metis set_mset_mset, metis size_mset)
  then have "elo_bounded (length s) pr"
    unfolding s(2) using assms(1,2) f(2) by (intro elo_bounded_fold) simp_all
  then show b: "elo_bounded (length ms) pr" using l by simp
  have "rt_Rating r \<noteq> NaN" if "(q, r) \<in> set pr" for q r
  proof -
    have "mget pr q = Some r" using that s(3) by (simp add: wf_map_get_iff elo_inv_def)
    then have "elo_ok r" using b unfolding elo_bounded_def by blast
    then show ?thesis by (auto simp: elo_ok_def)
  qed
  then show "no_nan pr" by (auto simp: no_nan_def list_all_iff)
qed

text \<open>C31. For histories of at most 2^46 matches every ELO rating is an ordinary number (no NaN,
  no infinity) within 32 points per game of the starting 1000, so the leaderboard order is
  well defined on it.\<close>

theorem ELO_ratings_bounded:
  assumes "pow10_ok L" and "length ms \<le> 2 ^ 46" and "ELO_Compute L ms = Inr pr"
  shows "no_nan pr \<and> (mget pr p = Some r \<longrightarrow> (\<exists>x. rt_Rating r = Fin x \<and>
    of_int (1000 - 32 * rt_GamesPlayed r) \<le> x \<and> x \<le> of_int (1000 + 32 * rt_GamesPlayed r)))"
  using ELO_Compute_bounded [OF assms] by (auto simp: elo_bounded_def elo_ok_def)

text \<open>One more match moves the ratings the right way: the winner's rating does not fall, the
  loser's does not rise, and nobody else's record changes. (Rounding may absorb a change, but
  never reverses it.)\<close>

theorem ELO_match_direction:
  assumes "pow10_ok L" and "length s < 2 ^ 46" and "\<forall>m \<in> set (s @ [m]). valid_match m"
    and "pr = foldl (elo_step L) [] s"
  shows "\<exists>x y. rt_Rating (elo_get pr p) = Fin x \<and> rt_Rating (elo_get (elo_step L pr m) p) = Fin y
    \<and> (plays p m \<longrightarrow> score_against p m < score_for p m \<longrightarrow> x \<le> y)
    \<and> (plays p m \<longrightarrow> score_for p m < score_against p m \<longrightarrow> y \<le> x)
    \<and> (\<not> plays p m \<longrightarrow> mget (elo_step L pr m) p = mget pr p)"
proof -
  have m: "valid_match m" using assms(3) by simp
  have b: "elo_bounded (length s) pr"
    unfolding assms(4) using assms(1-3) by (intro elo_bounded_fold) simp_all
  have "int (length s) < 2 ^ 46" using assms(2) by simp
  then have ok: "elo_ok (elo_get pr q) \<and> rt_GamesPlayed (elo_get pr q) < 2 ^ 46" for q
    using elo_bounded_get [OF b, of q] by linarith
  obtain x where x: "rt_Rating (elo_get pr p) = Fin x" using ok [of p] by (auto simp: elo_ok_def)
  show ?thesis
  proof (cases "plays p m")
    case True
    obtain y r where "mget (elo_step L pr m) p = Some r" "rt_Rating r = Fin y"
      "score_against p m < score_for p m \<Longrightarrow> x \<le> y" "score_for p m < score_against p m \<Longrightarrow> y \<le> x"
      using elo_step_change [OF assms(1) m True ok x] by metis
    then show ?thesis using x True by (auto simp: elo_get_def)
  next
    case False
    then have "mget (elo_step L pr m) p = mget pr p" using elo_step_get [OF m, of L pr p] by simp
    then show ?thesis using x False by (auto simp: elo_get_def)
  qed
qed

lemma pow10_ok_example: "pow10_ok example_libm"
  by (simp add: pow10_ok_def example_libm_def)

theorem ELO_ratings_bounded_witness:
  "\<exists>pr. ELO_Compute example_libm example_matches = Inr pr \<and> no_nan pr"
proof -
  have "validateAndSort example_matches = Inr (rev example_matches)"
    by (simp add: validateAndSort_def example_matches_def)
  then obtain pr where "ELO_Compute example_libm example_matches = Inr pr"
    by (simp add: ELO_Compute_def)
  moreover have "length example_matches \<le> 2 ^ 46" by (simp add: example_matches_def)
  ultimately show ?thesis using ELO_ratings_bounded [OF pow10_ok_example] by blast
qed

theorem ELO_match_direction_witness:
  "\<exists>x y. rt_Rating (elo_get [] ''a'') = Fin x
     \<and> rt_Rating (elo_get (elo_step example_libm [] (hd example_matches)) ''a'') = Fin y \<and> x \<le> y"
proof -
  have "\<forall>m \<in> set ([] @ [hd example_matches]). valid_match m" "plays ''a'' (hd example_matches)"
    "score_against ''a'' (hd example_matches) < score_for ''a'' (hd example_matches)"
    by (simp_all add: example_matches_def valid_match_def plays_def score_for_def score_against_def)
  from ELO_match_direction [OF pow10_ok_example _ this(1), of "[]" "''a''"] this(2,3)
  show ?thesis by auto
qed

end
