(* ===== verification/Glicko.thy ===== *)
theory Glicko
  imports Elo "HOL-Library.While_Combinator"
begin

text \<open>
  The Glicko-2 engine (\<open>pkg/rating/glicko2.go\<close>) in binary64 arithmetic, with \<open>math.Exp\<close>,
  \<open>math.Log\<close> and \<open>math.Sqrt\<close> from the parameter \<open>L\<close>. The three loops whose end is not evident
  (period advance, bracketing, root finding) may run forever in the code; \<open>None\<close> is the value of
  a computation that does not return. The heap objects \<open>*g2Player\<close> are each reachable from one
  key of the map \<open>players\<close> only, so the map holds them by value.
\<close>

section \<open>Player state\<close>

record g2Player =
  g2_mu :: f64
  g2_phi :: f64
  g2_sigma :: f64
  g2_gamesPlayed :: int
  g2_wins :: int
  g2_losses :: int
  g2_pointsFor :: int
  g2_pointsAgainst :: int
  g2_lastPlayed :: time
  g2_bestRating :: f64
  g2_winStreak :: int

definition Glicko2Scale :: rat where "Glicko2Scale = 1737178 / 10000"
definition Glicko2DefaultRating :: rat where "Glicko2DefaultRating = 1500"
definition Glicko2DefaultRD :: rat where "Glicko2DefaultRD = 350"
definition Glicko2DefaultVol :: rat where "Glicko2DefaultVol = 6 / 100"
definition Glicko2Tau :: rat where "Glicko2Tau = 1 / 2"

text \<open>The literal \<open>math.Pi\<close>; products of constants are exact before they are rounded.\<close>

definition go_Pi :: rat where
  "go_Pi = 314159265358979323846264338327950288419716939937510582097494459 / 10 ^ 62"

definition newG2Player :: g2Player where
  "newG2Player = \<lparr>g2_mu = lit ((Glicko2DefaultRating - 1500) / Glicko2Scale),
     g2_phi = lit (Glicko2DefaultRD / Glicko2Scale), g2_sigma = lit Glicko2DefaultVol,
     g2_gamesPlayed = 0, g2_wins = 0, g2_losses = 0, g2_pointsFor = 0, g2_pointsAgainst = 0,
     g2_lastPlayed = zero_time, g2_bestRating = lit Glicko2DefaultRating, g2_winStreak = 0\<rparr>"

definition g2_rating :: "g2Player \<Rightarrow> f64" where
  "g2_rating g = f_add (f_mul (g2_mu g) (lit Glicko2Scale)) (lit 1500)"

definition g2_deviation :: "g2Player \<Rightarrow> f64" where
  "g2_deviation g = f_mul (g2_phi g) (lit Glicko2Scale)"

definition applyG2Meta :: "RMatch \<Rightarrow> int \<Rightarrow> int \<Rightarrow> f64 \<Rightarrow> g2Player \<Rightarrow> g2Player" where
  "applyG2Meta m scoreFor scoreAgainst s p =
     (let p1 = p\<lparr>g2_gamesPlayed := g2_gamesPlayed p + 1, g2_pointsFor := g2_pointsFor p + scoreFor,
            g2_pointsAgainst := g2_pointsAgainst p + scoreAgainst, g2_lastPlayed := rm_PlayedAt m\<rparr>;
          streak = g2_winStreak p
      in if f_eq s (lit 1) then
           p1\<lparr>g2_wins := g2_wins p1 + 1, g2_winStreak := (if 0 \<le> streak then streak + 1 else 1)\<rparr>
         else if f_eq s (lit 0) then
           p1\<lparr>g2_losses := g2_losses p1 + 1, g2_winStreak := (if streak \<le> 0 then streak - 1 else -1)\<rparr>
         else p1)"

section \<open>Rating periods\<close>

record period =
  pd_start :: time
  pd_matches :: "RMatch list"

definition day_ns :: int where "day_ns = 24 * hour"

text \<open>\<open>time.Duration(periodDays) * 24 * time.Hour\<close>, two \<open>int64\<close> products.\<close>

definition period_dur :: "int \<Rightarrow> duration" where
  "period_dur periodDays = wrap64 (wrap64 (periodDays * 24) * hour)"

text \<open>Midnight UTC of the day of an instant.\<close>

definition start_of_day :: "time \<Rightarrow> time" where
  "start_of_day t = t - t mod day_ns"

partial_function (option) advance ::
  "duration \<Rightarrow> time \<Rightarrow> period list \<Rightarrow> period \<Rightarrow> (period list \<times> period) option" where
  "advance dur mt out cur =
     (if mt < pd_start cur + dur then Some (out, cur)
      else advance dur mt (out @ [cur]) \<lparr>pd_start = pd_start cur + dur, pd_matches = []\<rparr>)"

fun group_from :: "duration \<Rightarrow> RMatch list \<Rightarrow> period list \<Rightarrow> period \<Rightarrow> period list option" where
  "group_from dur [] out cur = Some (out @ [cur])"
| "group_from dur (m # ms) out cur =
     (case advance dur (rm_PlayedAt m) out cur of
        None \<Rightarrow> None
      | Some (out', cur') \<Rightarrow>
          group_from dur ms out' (cur'\<lparr>pd_matches := pd_matches cur' @ [m]\<rparr>))"

definition groupByPeriod :: "RMatch list \<Rightarrow> int \<Rightarrow> period list option" where
  "groupByPeriod ms periodDays =
     (case ms of
        [] \<Rightarrow> Some []
      | m # _ \<Rightarrow> group_from (period_dur periodDays) ms []
          \<lparr>pd_start = start_of_day (rm_PlayedAt m), pd_matches = []\<rparr>)"

section \<open>The update of one player\<close>

record g2Opp =
  op_mu :: f64
  op_phi :: f64
  op_score :: f64

definition gFn :: "libm \<Rightarrow> f64 \<Rightarrow> f64" where
  "gFn L phi = f_div (lit 1) (fm_sqrt L (f_add (lit 1)
     (f_div (f_mul (f_mul (lit 3) phi) phi) (lit (go_Pi * go_Pi)))))"

definition eFn :: "libm \<Rightarrow> f64 \<Rightarrow> f64 \<Rightarrow> f64 \<Rightarrow> f64" where
  "eFn L mu muJ phiJ = f_div (lit 1) (f_add (lit 1)
     (fm_exp L (f_mul (f_neg (gFn L phiJ)) (f_sub mu muJ))))"

text \<open>The function whose root is the new volatility.\<close>

definition g2_f :: "libm \<Rightarrow> f64 \<Rightarrow> f64 \<Rightarrow> f64 \<Rightarrow> f64 \<Rightarrow> f64 \<Rightarrow> f64" where
  "g2_f L a delta phi v x =
     (let tau = lit Glicko2Tau;
          ex = fm_exp L x;
          num = f_mul ex (f_sub (f_sub (f_sub (f_mul delta delta) (f_mul phi phi)) v) ex);
          s = f_add (f_add (f_mul phi phi) v) ex;
          den = f_mul (f_mul (lit 2) s) s
      in f_sub (f_div num den) (f_div (f_sub x a) (f_mul tau tau)))"

definition g2_bracket :: "libm \<Rightarrow> f64 \<Rightarrow> f64 \<Rightarrow> f64 \<Rightarrow> f64 \<Rightarrow> f64 option" where
  "g2_bracket L a delta phi v =
     (let tau = lit Glicko2Tau; dd = f_mul delta delta; pv = f_add (f_mul phi phi) v in
      if f_lt pv dd then Some (fm_log L (f_sub (f_sub dd (f_mul phi phi)) v))
      else map_option (\<lambda>k. f_sub a (f_mul k tau))
        (while_option (\<lambda>k. f_lt (g2_f L a delta phi v (f_sub a (f_mul k tau))) (lit 0))
          (\<lambda>k. f_add k (lit 1)) (lit 1)))"

definition g2_root :: "libm \<Rightarrow> f64 \<Rightarrow> f64 \<Rightarrow> f64 \<Rightarrow> f64 \<Rightarrow> f64 \<Rightarrow> f64 option" where
  "g2_root L a delta phi v B0 =
     (let f = g2_f L a delta phi v; eps = lit (1 / 10 ^ 6) in
      map_option (\<lambda>(A, fA, B, fB). A)
        (while_option (\<lambda>(A, fA, B, fB). f_lt eps (f_abs (f_sub B A)))
          (\<lambda>(A, fA, B, fB).
             let C = f_add A (f_div (f_mul (f_sub A B) fA) (f_sub fB fA));
                 fC = f C
             in if f_le (f_mul fC fB) (lit 0) then (B, fB, C, fC)
                else (A, f_div fA (lit 2), C, fC))
          (a, f a, B0, f B0)))"

definition glicko2Update :: "libm \<Rightarrow> f64 \<Rightarrow> f64 \<Rightarrow> f64 \<Rightarrow> g2Opp list \<Rightarrow> (f64 \<times> f64 \<times> f64) option" where
  "glicko2Update L mu phi sigma opps =
     (let v0 = foldl (\<lambda>v opp. let g = gFn L (op_phi opp); E = eFn L mu (op_mu opp) (op_phi opp) in
            f_add v (f_mul (f_mul (f_mul g g) E) (f_sub (lit 1) E))) (lit 0) opps
      in if f_eq v0 (lit 0)
         then Some (mu, fm_sqrt L (f_add (f_mul phi phi) (f_mul sigma sigma)), sigma)
         else
           let v = f_div (lit 1) v0;
               delta0 = foldl (\<lambda>d opp. let g = gFn L (op_phi opp); E = eFn L mu (op_mu opp) (op_phi opp) in
                 f_add d (f_mul g (f_sub (op_score opp) E))) (lit 0) opps;
               delta = f_mul delta0 v;
               a = fm_log L (f_mul sigma sigma)
           in case g2_bracket L a delta phi v of
                None \<Rightarrow> None
              | Some B0 \<Rightarrow>
                  (case g2_root L a delta phi v B0 of
                     None \<Rightarrow> None
                   | Some A \<Rightarrow>
                       let newSigma = fm_exp L (f_div A (lit 2));
                           phiStar = fm_sqrt L (f_add (f_mul phi phi) (f_mul newSigma newSigma));
                           newPhi = f_div (lit 1) (fm_sqrt L (f_add (f_div (lit 1) (f_mul phiStar phiStar))
                             (f_div (lit 1) v)));
                           muSum = foldl (\<lambda>s opp. f_add s (f_mul (gFn L (op_phi opp))
                             (f_sub (op_score opp) (eFn L mu (op_mu opp) (op_phi opp))))) (lit 0) opps
                       in Some (f_add mu (f_mul (f_mul newPhi newPhi) muSum), newPhi, newSigma)))"

section \<open>Compute\<close>

text \<open>\<open>get\<close>: the player of an id, created on first use.\<close>

definition g2_get :: "string \<Rightarrow> (string, g2Player) gomap \<Rightarrow> g2Player \<times> (string, g2Player) gomap" where
  "g2_get p players = (case mget players p of
     Some g \<Rightarrow> (g, players) | None \<Rightarrow> (newG2Player, mput p newG2Player players))"

definition opps_of :: "(string, g2Opp list) gomap \<Rightarrow> string \<Rightarrow> g2Opp list" where
  "opps_of parts p = (case mget parts p of None \<Rightarrow> [] | Some l \<Rightarrow> l)"

text \<open>Bucketing one match: opponents' current values, and the delayed meta update.\<close>

definition g2_bucket ::
  "(string, g2Player) gomap \<times> (string, g2Opp list) gomap \<times> (RMatch \<times> f64 \<times> f64) list \<Rightarrow> RMatch
   \<Rightarrow> (string, g2Player) gomap \<times> (string, g2Opp list) gomap \<times> (RMatch \<times> f64 \<times> f64) list" where
  "g2_bucket st m =
     (let (players, parts, metas) = st;
          (a, players1) = g2_get (rm_Player1ID m) players;
          (b, players2) = g2_get (rm_Player2ID m) players1;
          (sa, sb) = (if rm_Player2Score m < rm_Player1Score m then (lit 1, lit 0)
                      else if rm_Player1Score m < rm_Player2Score m then (lit 0, lit 1)
                      else (lit (1 / 2), lit (1 / 2)));
          parts1 = mput (rm_Player1ID m) (opps_of parts (rm_Player1ID m)
             @ [\<lparr>op_mu = g2_mu b, op_phi = g2_phi b, op_score = sa\<rparr>]) parts;
          parts2 = mput (rm_Player2ID m) (opps_of parts1 (rm_Player2ID m)
             @ [\<lparr>op_mu = g2_mu a, op_phi = g2_phi a, op_score = sb\<rparr>]) parts1
      in (players2, parts2, metas @ [(m, sa, sb)]))"

text \<open>The rating update of the active players, from the snapshot \<open>pre\<close>.\<close>

fun g2_active :: "libm \<Rightarrow> (string, g2Player) gomap \<Rightarrow> (string \<times> g2Opp list) list
    \<Rightarrow> (string, g2Player) gomap \<Rightarrow> (string, g2Player) gomap option" where
  "g2_active L pre [] players = Some players"
| "g2_active L pre ((p, opps) # rest) players =
     (let pp = fst (g2_get p pre) in
      case glicko2Update L (g2_mu pp) (g2_phi pp) (g2_sigma pp) opps of
        None \<Rightarrow> None
      | Some (mu, phi, sigma) \<Rightarrow>
          g2_active L pre rest (mput p ((fst (g2_get p players))
            \<lparr>g2_mu := mu, g2_phi := phi, g2_sigma := sigma\<rparr>) players))"

definition g2_inactive :: "libm \<Rightarrow> (string, g2Opp list) gomap \<Rightarrow> (string, g2Player) gomap
    \<Rightarrow> (string, g2Player) gomap" where
  "g2_inactive L parts players = map (\<lambda>(p, g). (p,
     if mget parts p \<noteq> None then g
     else g\<lparr>g2_phi := fm_sqrt L (f_add (f_mul (g2_phi g) (g2_phi g)) (f_mul (g2_sigma g) (g2_sigma g)))\<rparr>)) players"

definition g2_meta :: "(string, g2Player) gomap \<Rightarrow> RMatch \<times> f64 \<times> f64 \<Rightarrow> (string, g2Player) gomap" where
  "g2_meta players u =
     (let (m, sa, sb) = u;
          (a, players1) = g2_get (rm_Player1ID m) players;
          players2 = mput (rm_Player1ID m) (applyG2Meta m (rm_Player1Score m) (rm_Player2Score m) sa a) players1;
          (b, players3) = g2_get (rm_Player2ID m) players2
      in mput (rm_Player2ID m) (applyG2Meta m (rm_Player2Score m) (rm_Player1Score m) sb b) players3)"

definition g2_best :: "(string, g2Player) gomap \<Rightarrow> (string, g2Player) gomap" where
  "g2_best players = map (\<lambda>(p, g). (p,
     if f_lt (g2_bestRating g) (g2_rating g) then g\<lparr>g2_bestRating := g2_rating g\<rparr> else g)) players"

definition g2_period :: "libm \<Rightarrow> (string, g2Player) gomap \<Rightarrow> period \<Rightarrow> (string, g2Player) gomap option" where
  "g2_period L players p =
     (let (players1, parts, metas) = foldl g2_bucket (players, [], []) (pd_matches p) in
      case g2_active L players1 parts players1 of
        None \<Rightarrow> None
      | Some players2 \<Rightarrow> Some (g2_best (foldl g2_meta (g2_inactive L parts players2) metas)))"

fun g2_periods :: "libm \<Rightarrow> period list \<Rightarrow> (string, g2Player) gomap \<Rightarrow> (string, g2Player) gomap option" where
  "g2_periods L [] players = Some players"
| "g2_periods L (p # ps) players =
     (case g2_period L players p of None \<Rightarrow> None | Some players' \<Rightarrow> g2_periods L ps players')"

definition g2_result :: "g2Player \<Rightarrow> Rating" where
  "g2_result p = \<lparr>rt_Rating = g2_rating p, rt_Deviation = g2_deviation p, rt_Volatility = g2_sigma p,
     rt_GamesPlayed = g2_gamesPlayed p, rt_Wins = g2_wins p, rt_Losses = g2_losses p,
     rt_Meta = \<lparr>mt_PointsFor = g2_pointsFor p, mt_PointsAgainst = g2_pointsAgainst p,
       mt_WinStreak = g2_winStreak p, mt_BestRating = g2_bestRating p, mt_LastPlayed = g2_lastPlayed p\<rparr>\<rparr>"

definition Glicko2_Compute :: "libm \<Rightarrow> int \<Rightarrow> RMatch list \<Rightarrow> (rating_error + PlayerRatings) option" where
  "Glicko2_Compute L periodDays ms =
     (case validateAndSort ms of
        Inl e \<Rightarrow> Some (Inl e)
      | Inr s \<Rightarrow>
          (case groupByPeriod s periodDays of
             None \<Rightarrow> None
           | Some ps \<Rightarrow>
               (case g2_periods L ps [] of
                  None \<Rightarrow> None
                | Some players \<Rightarrow> Some (Inr (map (\<lambda>(p, g). (p, g2_result g)) players)))))"

section \<open>Periods\<close>

declare advance.simps [simp del]

lemma advance_stop: "mt < pd_start cur + dur \<Longrightarrow> advance dur mt out cur = Some (out, cur)"
  by (subst advance.simps) simp

lemma advance_go: "\<not> mt < pd_start cur + dur \<Longrightarrow>
    advance dur mt out cur = advance dur mt (out @ [cur]) \<lparr>pd_start = pd_start cur + dur, pd_matches = []\<rparr>"
  by (subst advance.simps) simp

text \<open>The windows produced so far: consecutive, the current one last, matches inside.\<close>

definition windows :: "duration \<Rightarrow> time \<Rightarrow> period list \<Rightarrow> bool" where
  "windows dur t0 ps \<longleftrightarrow> (\<forall>i < length ps. pd_start (ps ! i) = t0 + int i * dur \<and>
     (\<forall>m \<in> set (pd_matches (ps ! i)). pd_start (ps ! i) \<le> rm_PlayedAt m \<and>
        rm_PlayedAt m < pd_start (ps ! i) + dur))"

lemma windows_snoc:
  "windows dur t0 (out @ [cur]) \<longleftrightarrow> windows dur t0 out \<and> pd_start cur = t0 + int (length out) * dur \<and>
     (\<forall>m \<in> set (pd_matches cur). pd_start cur \<le> rm_PlayedAt m \<and> rm_PlayedAt m < pd_start cur + dur)"
  by (auto simp: windows_def nth_append less_Suc_eq)

lemma advance_correct:
  assumes "0 < dur" and "windows dur t0 (out @ [cur])" and "pd_start cur \<le> mt"
  shows "\<exists>out' cur'. advance dur mt out cur = Some (out', cur') \<and> windows dur t0 (out' @ [cur'])
    \<and> pd_start cur' \<le> mt \<and> mt < pd_start cur' + dur
    \<and> concat (map pd_matches (out' @ [cur'])) = concat (map pd_matches (out @ [cur]))"
  using assms(2,3)
proof (induction "nat (mt - pd_start cur)" arbitrary: out cur rule: less_induct)
  case less
  show ?case
  proof (cases "mt < pd_start cur + dur")
    case True
    then show ?thesis using less.prems by (simp add: advance_stop)
  next
    case False
    let ?next = "\<lparr>pd_start = pd_start cur + dur, pd_matches = []\<rparr>"
    have "windows dur t0 ((out @ [cur]) @ [?next])"
      unfolding windows_snoc [of _ _ "out @ [cur]"] using less.prems(1)
      by (auto simp: windows_snoc distrib_right)
    moreover have "nat (mt - pd_start ?next) < nat (mt - pd_start cur)" "pd_start ?next \<le> mt"
      using False assms(1) by simp_all
    ultimately obtain out' cur' where "advance dur mt (out @ [cur]) ?next = Some (out', cur')"
      "windows dur t0 (out' @ [cur'])" "pd_start cur' \<le> mt" "mt < pd_start cur' + dur"
      "concat (map pd_matches (out' @ [cur'])) = concat (map pd_matches ((out @ [cur]) @ [?next]))"
      using less.hyps [of ?next "out @ [cur]"] by blast
    then show ?thesis using advance_go [OF False] by simp
  qed
qed

lemma group_from_correct:
  assumes "0 < dur" and "windows dur t0 (out @ [cur])" and "sorted_wrt (\<lambda>a b. rm_PlayedAt a \<le> rm_PlayedAt b) ms"
    and "\<forall>m \<in> set ms. pd_start cur \<le> rm_PlayedAt m"
  shows "\<exists>ps. group_from dur ms out cur = Some ps \<and> windows dur t0 ps
    \<and> concat (map pd_matches ps) = concat (map pd_matches (out @ [cur])) @ ms"
  using assms(2-)
proof (induction ms arbitrary: out cur)
  case Nil
  then show ?case by simp
next
  case (Cons m ms)
  obtain out' cur' where a: "advance dur (rm_PlayedAt m) out cur = Some (out', cur')"
    and w: "windows dur t0 (out' @ [cur'])" "pd_start cur' \<le> rm_PlayedAt m" "rm_PlayedAt m < pd_start cur' + dur"
    and c: "concat (map pd_matches (out' @ [cur'])) = concat (map pd_matches (out @ [cur]))"
    using advance_correct [OF assms(1) Cons.prems(1), of "rm_PlayedAt m"] Cons.prems(3) by auto
  let ?cur = "cur'\<lparr>pd_matches := pd_matches cur' @ [m]\<rparr>"
  have "windows dur t0 (out' @ [?cur])" using w by (auto simp: windows_snoc)
  moreover have "\<forall>x \<in> set ms. pd_start ?cur \<le> rm_PlayedAt x" using w(2) Cons.prems(2) by auto
  ultimately obtain ps where "group_from dur ms out' ?cur = Some ps" "windows dur t0 ps"
    "concat (map pd_matches ps) = concat (map pd_matches (out' @ [?cur])) @ ms"
    using Cons.IH [of out' ?cur] Cons.prems(2) by auto
  then show ?case using a c by simp
qed

lemma period_dur_exact:
  assumes "1 \<le> d" and "d \<le> 106751"
  shows "period_dur d = d * day_ns" and "0 < period_dur d"
proof -
  have "wrap64 (d * 24) = d * 24" using assms by (intro wrap64_id) simp_all
  moreover have "wrap64 (d * 24 * hour) = d * 24 * hour"
    using assms by (intro wrap64_id) (simp_all add: hour_def)
  ultimately show "period_dur d = d * day_ns" by (simp add: period_dur_def day_ns_def)
  then show "0 < period_dur d" using assms by (simp add: day_ns_def hour_def)
qed

lemma groupByPeriod_facts:
  assumes "1 \<le> d" and "d \<le> 106751" and "sorted_wrt (\<lambda>a b. rm_PlayedAt a \<le> rm_PlayedAt b) ms"
  shows "\<exists>ps. groupByPeriod ms d = Some ps \<and> concat (map pd_matches ps) = ms \<and>
    (\<forall>i < length ps. pd_start (ps ! i) = start_of_day (rm_PlayedAt (hd ms)) + int i * (d * day_ns) \<and>
       (\<forall>m \<in> set (pd_matches (ps ! i)). pd_start (ps ! i) \<le> rm_PlayedAt m \<and>
          rm_PlayedAt m < pd_start (ps ! i) + d * day_ns))"
proof (cases ms)
  case Nil
  then show ?thesis by (simp add: groupByPeriod_def)
next
  case (Cons m ms')
  let ?cur = "\<lparr>pd_start = start_of_day (rm_PlayedAt m), pd_matches = []\<rparr>"
  have "0 \<le> rm_PlayedAt m mod day_ns" by (simp add: day_ns_def hour_def)
  then have "start_of_day (rm_PlayedAt m) \<le> rm_PlayedAt m" by (simp add: start_of_day_def)
  then have "\<forall>x \<in> set ms. pd_start ?cur \<le> rm_PlayedAt x" using assms(3) Cons by auto
  moreover have "windows (period_dur d) (start_of_day (rm_PlayedAt m)) ([] @ [?cur])"
    by (simp add: windows_def)
  ultimately obtain ps where ps: "group_from (period_dur d) ms [] ?cur = Some ps"
    and w: "windows (period_dur d) (start_of_day (rm_PlayedAt m)) ps" "concat (map pd_matches ps) = ms"
    using group_from_correct [OF period_dur_exact(2) [OF assms(1,2)] _ assms(3), of _ "[]" ?cur] by auto
  have "groupByPeriod ms d = Some ps"
    using ps Cons by (simp add: groupByPeriod_def del: group_from.simps)
  moreover have "hd ms = m" using Cons by simp
  ultimately show ?thesis
    using w unfolding windows_def period_dur_exact(1) [OF assms(1,2)] by blast
qed

text \<open>C32. Grouping into rating periods returns for every period length up to 106751 days: the
  periods are consecutive windows of that length from midnight of the first match's day,
  together they hold exactly the given chronological matches in order, and every match lies in
  the window of its period.\<close>

theorem groupByPeriod_correct:
  assumes "1 \<le> d" and "d \<le> 106751" and "sorted_wrt (\<lambda>a b. rm_PlayedAt a \<le> rm_PlayedAt b) ms"
  shows "\<exists>ps. groupByPeriod ms d = Some ps \<and> concat (map pd_matches ps) = ms \<and>
    (\<forall>i < length ps. pd_start (ps ! i) = start_of_day (rm_PlayedAt (hd ms)) + int i * (d * day_ns) \<and>
       (\<forall>m \<in> set (pd_matches (ps ! i)). pd_start (ps ! i) \<le> rm_PlayedAt m \<and>
          rm_PlayedAt m < pd_start (ps ! i) + d * day_ns))"
  by (rule groupByPeriod_facts [OF assms])

text \<open>
  The bound is sharp: one day more and the \<open>int64\<close> duration is negative, and the advance loop
  never ends.
\<close>

lemma period_dur_overflow: "period_dur 106752 < 0"
  by (simp add: period_dur_def wrap64_def hour_def)

lemma advance_diverges:
  assumes "dur \<le> 0" and "\<not> mt < pd_start cur + dur"
  shows "advance dur mt out cur = None"
proof (rule ccontr)
  assume "advance dur mt out cur \<noteq> None"
  then obtain r where r: "advance dur mt out cur = Some r" by blast
  have "dur \<le> 0 \<longrightarrow> mt < pd_start cur + dur"
  proof (rule advance.raw_induct [where P = "\<lambda>dur mt out cur r. dur \<le> 0 \<longrightarrow> mt < pd_start cur + dur", OF _ r])
    fix adv :: "duration \<Rightarrow> time \<Rightarrow> period list \<Rightarrow> period \<Rightarrow> (period list \<times> period) option"
      and dur mt out cur r
    assume IH: "\<And>dur mt out cur r. adv dur mt out cur = Some r \<Longrightarrow> dur \<le> 0 \<longrightarrow> mt < pd_start cur + dur"
      and step: "(if mt < pd_start cur + dur then Some (out, cur)
        else adv dur mt (out @ [cur]) \<lparr>pd_start = pd_start cur + dur, pd_matches = []\<rparr>) = Some r"
    show "dur \<le> 0 \<longrightarrow> mt < pd_start cur + dur"
    proof (cases "mt < pd_start cur + dur")
      case False
      then show ?thesis using step IH [of dur mt "out @ [cur]"] by fastforce
    qed simp
  qed
  then show False using assms by blast
qed

section \<open>Tallies\<close>

definition g2_tally :: "g2Player \<Rightarrow> Tally" where
  "g2_tally g = \<lparr>ty_games = g2_gamesPlayed g, ty_wins = g2_wins g, ty_losses = g2_losses g,
     ty_for = g2_pointsFor g, ty_against = g2_pointsAgainst g, ty_streak = g2_winStreak g,
     ty_last = g2_lastPlayed g\<rparr>"

definition tallies :: "(string, g2Player) gomap \<Rightarrow> string \<Rightarrow> Tally option" where
  "tallies players p = map_option g2_tally (mget players p)"

lemma applyG2Meta_tally:
  "g2_tally (applyG2Meta m sf sa (outcome sf sa) g) = tally_step m sf sa (g2_tally g)"
  by (auto simp: applyG2Meta_def tally_step_def g2_tally_def Let_def)

lemma g2_tally_new [simp]: "g2_tally newG2Player = tally p []"
  by (simp add: g2_tally_def newG2Player_def tally_Nil)

lemma g2_tally_update [simp]:
  "g2_tally (g\<lparr>g2_mu := x, g2_phi := y, g2_sigma := z\<rparr>) = g2_tally g"
  "g2_tally (g\<lparr>g2_phi := y\<rparr>) = g2_tally g"
  "g2_tally (g\<lparr>g2_bestRating := y\<rparr>) = g2_tally g"
  by (simp_all add: g2_tally_def)

lemma tallies_mput [simp]: "tallies (mput p g pl) q = (if q = p then Some (g2_tally g) else tallies pl q)"
  by (simp add: tallies_def)

lemma mget_map_values: "mget (map (\<lambda>(p, g). (p, f p g)) pl) q = map_option (f q) (mget pl q)"
  by (induction pl) auto

lemma wf_map_values [simp]: "wf_map (map (\<lambda>(p, g). (p, f p g)) pl) = wf_map pl"
  by (simp add: wf_map_def comp_def case_prod_beta)

lemma g2_inactive_tallies [simp]: "tallies (g2_inactive L parts pl) = tallies pl"
  by (rule ext) (simp add: tallies_def g2_inactive_def mget_map_values option.map_comp comp_def
      if_distrib [of g2_tally] cong: if_cong)

lemma g2_best_tallies [simp]: "tallies (g2_best pl) = tallies pl"
  by (rule ext) (simp add: tallies_def g2_best_def mget_map_values option.map_comp comp_def
      if_distrib [of g2_tally] cong: if_cong)

lemma g2_maps_wf [simp]: "wf_map (g2_inactive L parts pl) = wf_map pl" "wf_map (g2_best pl) = wf_map pl"
  by (simp_all add: g2_inactive_def g2_best_def)

lemma g2_active_tallies:
  assumes "g2_active L pre parts pl = Some pl'" and "\<forall>p \<in> fst ` set parts. tallies pl p \<noteq> None" and "wf_map pl"
  shows "tallies pl' = tallies pl \<and> wf_map pl'"
  using assms
proof (induction parts arbitrary: pl)
  case Nil
  then show ?case by simp
next
  case (Cons po parts)
  obtain p opps where po: "po = (p, opps)" by (cases po)
  obtain g where g: "mget pl p = Some g" using Cons.prems(2) po by (auto simp: tallies_def)
  obtain mu phi sigma where
    "g2_active L pre parts (mput p (g\<lparr>g2_mu := mu, g2_phi := phi, g2_sigma := sigma\<rparr>) pl) = Some pl'"
    using Cons.prems(1) po g by (auto simp: g2_get_def Let_def split: option.splits)
  moreover have "tallies (mput p (g\<lparr>g2_mu := mu, g2_phi := phi, g2_sigma := sigma\<rparr>) pl) = tallies pl"
    using g by (auto simp: tallies_def fun_eq_iff)
  ultimately show ?case
    using Cons.IH [of "mput p (g\<lparr>g2_mu := mu, g2_phi := phi, g2_sigma := sigma\<rparr>) pl"] Cons.prems(2,3)
    by auto
qed

text \<open>Bucketing creates the players of the period and changes nobody.\<close>

definition meta_of :: "RMatch \<Rightarrow> RMatch \<times> f64 \<times> f64" where
  "meta_of m = (m, outcome (rm_Player1Score m) (rm_Player2Score m), outcome (rm_Player2Score m) (rm_Player1Score m))"

lemma g2_bucket_effect:
  assumes "wf_map pl"
  shows "wf_map (fst (g2_bucket (pl, parts, metas) m))"
    and "tallies (fst (g2_bucket (pl, parts, metas) m)) p =
      (if plays p m \<and> tallies pl p = None then Some (tally p []) else tallies pl p)"
    and "mget (fst (snd (g2_bucket (pl, parts, metas) m))) p \<noteq> None \<longleftrightarrow> plays p m \<or> mget parts p \<noteq> None"
    and "snd (snd (g2_bucket (pl, parts, metas) m)) = metas @ [meta_of m]"
  using assms
  by (auto simp: g2_bucket_def g2_get_def plays_def meta_of_def outcome_def tallies_def Let_def
      g2_tally_new [symmetric] simp del: g2_tally_new split: option.splits)

lemma g2_bucket_fold:
  assumes "wf_map pl"
  shows "let r = foldl g2_bucket (pl, [], []) ms in
    wf_map (fst r) \<and> snd (snd r) = map meta_of ms
    \<and> (\<forall>p. tallies (fst r) p = (if (\<exists>m \<in> set ms. plays p m) \<and> tallies pl p = None then Some (tally p []) else tallies pl p))
    \<and> (\<forall>p. mget (fst (snd r)) p \<noteq> None \<longleftrightarrow> (\<exists>m \<in> set ms. plays p m))"
proof (induction ms rule: rev_induct)
  case Nil
  then show ?case using assms by (simp add: Let_def)
next
  case (snoc m ms)
  obtain pl1 parts metas where r: "foldl g2_bucket (pl, [], []) ms = (pl1, parts, metas)"
    by (cases "foldl g2_bucket (pl, [], []) ms")
  have wf1: "wf_map pl1" using snoc r by (simp add: Let_def)
  show ?case
    using snoc g2_bucket_effect [OF wf1, of parts metas m]
    by (simp add: Let_def r)
qed

lemma g2_meta_tallies:
  assumes "tallies pl (rm_Player1ID m) \<noteq> None" and "tallies pl (rm_Player2ID m) \<noteq> None"
    and "rm_Player1ID m \<noteq> rm_Player2ID m" and "wf_map pl"
  shows "wf_map (g2_meta pl (meta_of m))"
    and "tallies (g2_meta pl (meta_of m)) p =
      (if plays p m then Some (tally_step m (score_for p m) (score_against p m) (the (tallies pl p))) else tallies pl p)"
  using assms
  by (auto simp: g2_meta_def meta_of_def g2_get_def tallies_def plays_def score_for_def score_against_def
      applyG2Meta_tally Let_def split: option.splits)

text \<open>The state after the matches \<open>s\<close> of the periods so far.\<close>

definition g2_inv :: "RMatch list \<Rightarrow> (string, g2Player) gomap \<Rightarrow> bool" where
  "g2_inv s pl \<longleftrightarrow> wf_map pl \<and>
     (\<forall>p. tallies pl p = (if \<exists>m \<in> set s. plays p m then Some (tally p s) else None))"

lemma g2_meta_fold:
  assumes "wf_map pl" and "\<forall>m \<in> set ms. valid_match m"
    and "\<forall>p. tallies pl p = (if \<exists>m \<in> set (s @ ms). plays p m then Some (tally p s) else None)"
  shows "g2_inv (s @ ms) (foldl g2_meta pl (map meta_of ms))"
proof -
  have "wf_map (foldl g2_meta pl (map meta_of ms1)) \<and>
     (\<forall>p. tallies (foldl g2_meta pl (map meta_of ms1)) p =
        (if \<exists>m \<in> set (s @ ms). plays p m then Some (tally p (s @ ms1)) else None))"
    if "set ms1 \<subseteq> set ms" for ms1
    using that
  proof (induction ms1 rule: rev_induct)
    case Nil
    then show ?case using assms(1,3) by simp
  next
    case (snoc m ms1)
    let ?pl = "foldl g2_meta pl (map meta_of ms1)"
    have IH: "wf_map ?pl" "\<And>p. tallies ?pl p =
        (if \<exists>m \<in> set (s @ ms). plays p m then Some (tally p (s @ ms1)) else None)"
      using snoc by auto
    have m: "m \<in> set (s @ ms)" "rm_Player1ID m \<noteq> rm_Player2ID m"
      using snoc.prems assms(2) by (auto simp: valid_match_def)
    then have pl: "plays (rm_Player1ID m) m" "plays (rm_Player2ID m) m" by (simp_all add: plays_def)
    have some: "tallies ?pl (rm_Player1ID m) \<noteq> None" "tallies ?pl (rm_Player2ID m) \<noteq> None"
      unfolding IH(2) using m(1) pl by auto
    have in_s: "plays p m \<Longrightarrow> \<exists>m \<in> set (s @ ms). plays p m" for p using m(1) by blast
    show ?case
      using g2_meta_tallies [OF some m(2) IH(1)] in_s
      by (simp add: IH(2) tally_snoc flip: append_assoc)
  qed
  from this [OF subset_refl] show ?thesis by (simp add: g2_inv_def)
qed

lemma g2_period_inv:
  assumes "g2_inv s pl" and "\<forall>m \<in> set (pd_matches p). valid_match m" and "g2_period L pl p = Some pl'"
  shows "g2_inv (s @ pd_matches p) pl'"
proof -
  obtain pl1 parts metas where r: "foldl g2_bucket (pl, [], []) (pd_matches p) = (pl1, parts, metas)"
    by (cases "foldl g2_bucket (pl, [], []) (pd_matches p)")
  have wf: "wf_map pl" using assms(1) by (simp add: g2_inv_def)
  note b = g2_bucket_fold [OF wf, of "pd_matches p", unfolded r Let_def, simplified]
  obtain pl2 where a: "g2_active L pl1 parts pl1 = Some pl2"
    and pl': "pl' = g2_best (foldl g2_meta (g2_inactive L parts pl2) (map meta_of (pd_matches p)))"
    using assms(3) r b by (auto simp: g2_period_def split: option.splits)
  have dom: "\<forall>q \<in> fst ` set parts. tallies pl1 q \<noteq> None"
  proof
    fix q
    assume "q \<in> fst ` set parts"
    then have "mget parts q \<noteq> None" by (metis map_of_eq_None_iff)
    then have "\<exists>m \<in> set (pd_matches p). plays q m" using b by blast
    then show "tallies pl1 q \<noteq> None" using b by auto
  qed
  have t2: "tallies pl2 = tallies pl1" "wf_map pl2" using g2_active_tallies [OF a dom] b by auto
  have "\<forall>q. tallies pl1 q = (if \<exists>m \<in> set (s @ pd_matches p). plays q m then Some (tally q s) else None)"
  proof
    fix q
    have "tallies pl q = (if \<exists>m \<in> set s. plays q m then Some (tally q s) else None)"
      using assms(1) by (simp add: g2_inv_def)
    then show "tallies pl1 q = (if \<exists>m \<in> set (s @ pd_matches p). plays q m then Some (tally q s) else None)"
      using b tally_absent [of s q] by auto
  qed
  then have "g2_inv (s @ pd_matches p) (foldl g2_meta (g2_inactive L parts pl2) (map meta_of (pd_matches p)))"
    using t2 assms(2) by (intro g2_meta_fold) simp_all
  then show ?thesis unfolding pl' by (simp add: g2_inv_def)
qed

lemma g2_periods_inv:
  assumes "g2_inv s pl" and "\<forall>m \<in> set (concat (map pd_matches ps)). valid_match m"
    and "g2_periods L ps pl = Some pl'"
  shows "g2_inv (s @ concat (map pd_matches ps)) pl'"
  using assms
proof (induction ps arbitrary: s pl)
  case Nil
  then show ?case by simp
next
  case (Cons p ps)
  from Cons.prems(3) obtain pl1 where 1: "g2_period L pl p = Some pl1" "g2_periods L ps pl1 = Some pl'"
    by (auto split: option.splits)
  have "g2_inv (s @ pd_matches p) pl1" using g2_period_inv [OF Cons.prems(1) _ 1(1)] Cons.prems(2) by simp
  from Cons.IH [OF this _ 1(2)] Cons.prems(2) show ?case by simp
qed

text \<open>Grouping never loses a match, also when the period length is out of range.\<close>

lemma advance_concat:
  assumes "advance dur mt out cur = Some (out', cur')"
  shows "concat (map pd_matches (out' @ [cur'])) = concat (map pd_matches (out @ [cur]))"
proof -
  have "concat (map pd_matches (fst (out', cur') @ [snd (out', cur')])) = concat (map pd_matches (out @ [cur]))"
  proof (rule advance.raw_induct [where P = "\<lambda>dur mt out cur r.
      concat (map pd_matches (fst r @ [snd r])) = concat (map pd_matches (out @ [cur]))", OF _ assms])
    fix adv :: "duration \<Rightarrow> time \<Rightarrow> period list \<Rightarrow> period \<Rightarrow> (period list \<times> period) option"
      and dur mt out cur r
    assume IH: "\<And>dur mt out cur r. adv dur mt out cur = Some r \<Longrightarrow>
        concat (map pd_matches (fst r @ [snd r])) = concat (map pd_matches (out @ [cur]))"
      and step: "(if mt < pd_start cur + dur then Some (out, cur)
        else adv dur mt (out @ [cur]) \<lparr>pd_start = pd_start cur + dur, pd_matches = []\<rparr>) = Some r"
    show "concat (map pd_matches (fst r @ [snd r])) = concat (map pd_matches (out @ [cur]))"
    proof (cases "mt < pd_start cur + dur")
      case False
      then show ?thesis using step IH [of dur mt "out @ [cur]" _ r] by simp
    qed (use step in auto)
  qed
  then show ?thesis by simp
qed

lemma group_from_concat:
  "group_from dur ms out cur = Some ps \<Longrightarrow>
   concat (map pd_matches ps) = concat (map pd_matches (out @ [cur])) @ ms"
proof (induction ms arbitrary: out cur)
  case Nil
  then show ?case by auto
next
  case (Cons m ms)
  then obtain out' cur' where a: "advance dur (rm_PlayedAt m) out cur = Some (out', cur')"
    and g: "group_from dur ms out' (cur'\<lparr>pd_matches := pd_matches cur' @ [m]\<rparr>) = Some ps"
    by (auto split: option.splits)
  show ?case using Cons.IH [OF g] advance_concat [OF a] by simp
qed

lemma groupByPeriod_concat: "groupByPeriod ms d = Some ps \<Longrightarrow> concat (map pd_matches ps) = ms"
  using group_from_concat [of _ ms "[]" _ ps]
  by (cases ms) (auto simp: groupByPeriod_def simp del: group_from.simps)

lemma Glicko2_Compute_inv:
  assumes "Glicko2_Compute L d ms = Some (Inr pr)"
  obtains s pl where "validateAndSort ms = Inr s" and "set s = set ms" and "g2_inv s pl"
    and "pr = map (\<lambda>(p, g). (p, g2_result g)) pl"
proof -
  obtain s ps pl where s: "validateAndSort ms = Inr s" "groupByPeriod s d = Some ps"
    "g2_periods L ps [] = Some pl" "pr = map (\<lambda>(p, g). (p, g2_result g)) pl"
    using assms by (auto simp: Glicko2_Compute_def split: sum.splits option.splits)
  have f: "mset s = mset ms" "\<forall>m \<in> set ms. valid_match m" using validateAndSort_facts s(1) by blast+
  have set_s: "set s = set ms" using f(1) by (metis set_mset_mset)
  have "g2_inv [] []" by (simp add: g2_inv_def tallies_def)
  from g2_periods_inv [OF this _ s(3)] have "g2_inv s pl"
    using groupByPeriod_concat [OF s(2)] f(2) set_s by simp
  then show ?thesis using that s set_s by blast
qed

lemma rating_tally_g2_result [simp]: "rating_tally (g2_result g) = g2_tally g"
  by (simp add: rating_tally_def g2_result_def g2_tally_def)

interpretation glicko: rating_engine "Glicko2_Compute L d" for L d
proof
  fix ms e pr p s r
  show "validateAndSort ms = Inl e \<Longrightarrow> Glicko2_Compute L d ms = Some (Inl e)"
    by (simp add: Glicko2_Compute_def)
  assume "Glicko2_Compute L d ms = Some (Inr pr)"
  then obtain s' pl where s': "validateAndSort ms = Inr s'" "set s' = set ms" "g2_inv s' pl"
    and pr: "pr = map (\<lambda>(p, g). (p, g2_result g)) pl"
    by (rule Glicko2_Compute_inv)
  show "\<exists>s. validateAndSort ms = Inr s" using s'(1) by blast
  show "wf_map pr" using s'(3) by (simp add: g2_inv_def pr)
  have get: "mget pr q = map_option g2_result (mget pl q)" for q
    unfolding pr by (rule mget_map_values)
  have "p \<in> fst ` set pr \<longleftrightarrow> mget pr p \<noteq> None" by (simp add: map_of_eq_None_iff)
  also have "\<dots> \<longleftrightarrow> tallies pl p \<noteq> None" by (simp add: get tallies_def)
  finally show "p \<in> fst ` set pr \<longleftrightarrow> (\<exists>m \<in> set ms. plays p m)" using s'(2,3) by (simp add: g2_inv_def)
  assume "validateAndSort ms = Inr s" and r: "mget pr p = Some r"
  then have "s = s'" using s'(1) by simp
  obtain g where g: "mget pl p = Some g" "r = g2_result g" using r get by auto
  then have "tallies pl p = Some (rating_tally r)" by (simp add: tallies_def)
  then show "rating_tally r = tally p s"
    using s'(3) \<open>s = s'\<close> by (auto simp: g2_inv_def split: if_splits)
qed

text \<open>C34. The two engines report the same players with the same games, wins, losses, points, streak
  and last match for every history: switching the engine changes ratings only.\<close>

theorem engines_agree:
  assumes "ELO_Compute L ms = Inr pr" and "Glicko2_Compute L' d ms = Some (Inr pr')"
  shows "fst ` set pr = fst ` set pr' \<and>
    (\<forall>p r r'. mget pr p = Some r \<longrightarrow> mget pr' p = Some r' \<longrightarrow> rating_tally r = rating_tally r')"
proof (intro conjI allI impI set_eqI)
  fix p
  show "p \<in> fst ` set pr \<longleftrightarrow> p \<in> fst ` set pr'"
    using elo.compute_players [of L ms pr p] glicko.compute_players [OF assms(2), of p] assms(1) by simp
next
  fix p r r'
  assume r: "mget pr p = Some r" "mget pr' p = Some r'"
  obtain s where s: "validateAndSort ms = Inr s" using glicko.compute_valid [OF assms(2)] by blast
  show "rating_tally r = rating_tally r'"
    using elo.compute_tally [of L ms pr s p r] glicko.compute_tally [OF assms(2) s r(2)] assms(1) s r(1)
    by simp
qed

section \<open>Termination\<close>

lemma g2_active_returns:
  assumes "\<forall>mu phi sigma opps. glicko2Update L mu phi sigma opps \<noteq> None"
  shows "g2_active L pre parts pl \<noteq> None"
proof (induction parts arbitrary: pl)
  case Nil
  then show ?case by simp
next
  case (Cons po parts)
  obtain p opps where po: "po = (p, opps)" by (cases po)
  let ?pp = "fst (g2_get p pre)"
  obtain mu phi sigma where
    "glicko2Update L (g2_mu ?pp) (g2_phi ?pp) (g2_sigma ?pp) opps = Some (mu, phi, sigma)"
    using assms by (metis option.exhaust prod_cases3)
  then show ?case using Cons po by (simp add: Let_def)
qed

lemma g2_periods_returns:
  assumes "\<forall>mu phi sigma opps. glicko2Update L mu phi sigma opps \<noteq> None"
  shows "g2_periods L ps pl \<noteq> None"
proof (induction ps arbitrary: pl)
  case (Cons p ps)
  have "g2_period L pl p \<noteq> None"
    using g2_active_returns [OF assms] by (simp add: g2_period_def case_prod_beta split: option.splits)
  then show ?case using Cons by (auto split: option.splits)
qed simp

lemma Glicko2_Compute_facts:
  assumes "\<forall>mu phi sigma opps. glicko2Update L mu phi sigma opps \<noteq> None"
    and "1 \<le> d" and "d \<le> 106751"
  shows "(\<exists>pr. Glicko2_Compute L d ms = Some (Inr pr)) \<or>
    (\<exists>e. Glicko2_Compute L d ms = Some (Inl e) \<and> validateAndSort ms = Inl e)"
proof (cases "validateAndSort ms")
  case (Inl e)
  then show ?thesis by (simp add: Glicko2_Compute_def)
next
  case (Inr s)
  then have "sorted_wrt (\<lambda>a b. rm_PlayedAt a \<le> rm_PlayedAt b) s" using validateAndSort_facts by blast
  then obtain ps where "groupByPeriod s d = Some ps"
    using groupByPeriod_facts [OF assms(2,3)] by blast
  then show ?thesis
    using Inr g2_periods_returns [OF assms(1), of ps "[]"] by (auto simp: Glicko2_Compute_def)
qed


text \<open>A one-player update without opponents leaves the rating and inflates the deviation.\<close>

lemma glicko2Update_no_opponents:
  "glicko2Update L mu phi sigma [] =
     Some (mu, fm_sqrt L (f_add (f_mul phi phi) (f_mul sigma sigma)), sigma)"
  by (simp add: glicko2Update_def f_eq_def)

section \<open>Concrete inputs\<close>

text \<open>A library whose logarithm has no value: the update returns after one test of each loop.\<close>

definition nan_libm :: libm where
  "nan_libm = \<lparr>fm_pow10 = (\<lambda>_. lit 1), fm_exp = (\<lambda>_. NaN), fm_log = (\<lambda>_. NaN), fm_sqrt = (\<lambda>x. x)\<rparr>"

lemma f_NaN [simp]: "f_add x NaN = NaN" "f_mul x NaN = NaN" "f_mul NaN x = NaN" "f_add NaN x = NaN"
  "f_sub NaN x = NaN" "f_sub x NaN = NaN" "f_lt x NaN = False" "f_lt NaN x = False"
  by (cases x; simp add: f_sub_def)+

lemma nan_libm_returns: "glicko2Update nan_libm mu phi sigma opps \<noteq> None"
proof -
  have "g2_bracket nan_libm NaN delta phi v = Some NaN" for delta v
    by (simp add: g2_bracket_def g2_f_def nan_libm_def Let_def while_option_unfold)
  moreover have "g2_root nan_libm NaN delta phi v B = Some NaN" for delta v B
    by (simp add: g2_root_def g2_f_def nan_libm_def Let_def while_option_unfold)
  moreover have "fm_log nan_libm x = NaN" for x by (simp add: nan_libm_def)
  ultimately show ?thesis by (simp add: glicko2Update_def Let_def split: option.splits)
qed


theorem engines_agree_witness:
  "\<exists>pr pr'. ELO_Compute nan_libm example_matches = Inr pr
     \<and> Glicko2_Compute nan_libm 7 example_matches = Some (Inr pr') \<and> fst ` set pr = fst ` set pr'"
proof -
  have v: "validateAndSort example_matches = Inr (rev example_matches)"
    by (simp add: validateAndSort_def example_matches_def)
  then obtain pr where pr: "ELO_Compute nan_libm example_matches = Inr pr"
    by (simp add: ELO_Compute_def)
  obtain pr' where pr': "Glicko2_Compute nan_libm 7 example_matches = Some (Inr pr')"
    using v Glicko2_Compute_facts [of nan_libm 7 example_matches] nan_libm_returns by auto
  show ?thesis using engines_agree [OF pr pr'] pr pr' by blast
qed

theorem groupByPeriod_correct_witness:
  "\<exists>ps. groupByPeriod (rev example_matches) 7 = Some ps \<and> concat (map pd_matches ps) = rev example_matches"
proof -
  have "sorted_wrt (\<lambda>a b. rm_PlayedAt a \<le> rm_PlayedAt b) (rev example_matches)"
    by (simp add: example_matches_def)
  from groupByPeriod_correct [OF _ _ this, of 7] show ?thesis by auto
qed

end
