(* ===== verification/World.thy ===== *)
theory World
  imports MemstoreProps Notify Identity Crypto S21 Glicko
begin

text \<open>
  The state and the surroundings of package \<open>handlers\<close>. \<open>world\<close> is what the code keeps between
  updates: the store, the nickname cache, the in-flight drafts, the queue of detached
  refreshes, and the log of messenger calls. \<open>env\<close> is what one update meets from outside:
  the clock (\<open>Config.Now\<close>, constant while an update is handled), the configuration, the
  answers of the messenger (functions of the calls made so far), the answers of the platform
  and of the identity service, and the functions of the package \<open>s21-account-go\<close>, which is not
  part of the repository; \<open>e_ackFirst\<close> is the order in which the two goroutines of
  \<open>editAndAck\<close> run. The account package reaches the account rows through the repository
  interface only: its effect is a list of repository operations.
\<close>

section \<open>Parameters\<close>

text \<open>Errors of the account package, and of a call made through it.\<close>

datatype account_error = AccNotFound | AccInvalidCredentials | AccNoHealthy
  | AccIdentity identity_error | AccOther string

datatype account_op = AccUpsert S21Account | AccDelete i64

fun run_account_op :: "account_op \<Rightarrow> memstore \<Rightarrow> memstore" where
  "run_account_op (AccUpsert a) s = s21AccountRepo_Upsert a s"
| "run_account_op (AccDelete t) s = s21AccountRepo_Delete t s"

definition run_account_ops :: "account_op list \<Rightarrow> memstore \<Rightarrow> memstore" where
  "run_account_ops ops s = fold run_account_op ops s"

record Decision =
  dc_Logout :: bool
  dc_LogoutDM :: string
  dc_PersistUpdate :: bool
  dc_UpdatedAccount :: S21Account
  dc_WarningDM :: string

record env =
  e_now :: time
  e_wall :: time
  e_IdentityBaseURL :: string
  e_RatingPeriodDaysDefault :: int
  e_send :: "mcall list \<Rightarrow> mcall \<Rightarrow> merr + i64"
  e_act :: "mcall list \<Rightarrow> mcall \<Rightarrow> merr option"
  e_admin :: "mcall list \<Rightarrow> i64 \<Rightarrow> i64 \<Rightarrow> merr + bool"
  e_username :: "mcall list \<Rightarrow> i64 \<Rightarrow> i64 \<Rightarrow> merr + string"
  e_client :: "nat \<Rightarrow> string \<Rightarrow> string \<Rightarrow> identity_client"
  e_Authenticate :: "string \<Rightarrow> string \<Rightarrow> s21_error + Profile"
  e_cipher :: AEAD
  e_libm :: libm
  e_ackFirst :: bool
  e_PickHealthy :: "S21Account list \<Rightarrow> time \<Rightarrow>
    (string \<Rightarrow> string \<Rightarrow> account_error + IdentityUser list) \<Rightarrow> (account_error + IdentityUser list) \<times> account_op list"
  e_ValidateAndStore :: "S21Account list \<Rightarrow> (string \<Rightarrow> string \<Rightarrow> account_error + Profile) \<Rightarrow>
    i64 \<Rightarrow> string \<Rightarrow> string \<Rightarrow> time \<Rightarrow> (account_error + S21Account) \<times> account_op list"
  e_ApplyAuthResult :: "S21Account \<Rightarrow> account_error option \<Rightarrow> time \<Rightarrow> Decision"
  e_RenderWhoami :: "S21Account \<Rightarrow> time \<Rightarrow> string"
  e_account_error_text :: "account_error \<Rightarrow> string"

section \<open>State\<close>

text \<open>One in-flight interactive flow (\<open>matchDraft\<close> of \<open>match_interactive.go\<close>).\<close>

record matchDraft =
  d_ownerID :: i64
  d_ownerLabel :: string
  d_isScore :: bool
  d_page :: int
  d_oppID :: i64
  d_oppLabel :: string
  d_p1 :: int
  d_p2 :: int
  d_touchedAt :: time

record world =
  st :: memstore
  calls :: "mcall list"
  nicks :: S21NickCache
  matchDrafts :: "(string, matchDraft) gomap"
  detached :: "Group list"
  rounds :: nat

definition s21NickCacheTTL :: duration where "s21NickCacheTTL = 7 * 24 * hour"
definition s21NickDurableTTL :: duration where "s21NickDurableTTL = 30 * 24 * hour"

text \<open>\<open>handlers.New\<close> over a store: defaults of the configuration are applied.\<close>

definition handlers_New :: "memstore \<Rightarrow> world" where
  "handlers_New s = \<lparr>st = s, calls = [], nicks = NewS21NickCache s21NickCacheTTL, matchDrafts = [],
     detached = [], rounds = 0\<rparr>"

definition config_defaults :: "env \<Rightarrow> env" where
  "config_defaults e = (if e_RatingPeriodDaysDefault e < 1 then e\<lparr>e_RatingPeriodDaysDefault := 1\<rparr> else e)"

text \<open>What a handler returns: nil, an error, or no value because it panicked.\<close>

datatype herr = EStore store_error | EMess merr | ERating rating_error | EText string | EDiverges

datatype hres = HNil | HErr herr | HPanic

definition store_error_text :: "store_error \<Rightarrow> string" where
  "store_error_text e = (case e of ErrNotFound \<Rightarrow> ''store: not found'' | ErrConflict \<Rightarrow> ''store: conflict'')"

section \<open>Calling the messenger\<close>

definition m_send :: "env \<Rightarrow> mcall \<Rightarrow> world \<Rightarrow> (merr + i64) \<times> world" where
  "m_send e c w = (e_send e (calls w) c, w\<lparr>calls := calls w @ [c]\<rparr>)"

definition m_act :: "env \<Rightarrow> mcall \<Rightarrow> world \<Rightarrow> merr option \<times> world" where
  "m_act e c w = (e_act e (calls w) c, w\<lparr>calls := calls w @ [c]\<rparr>)"

definition m_IsChatAdmin :: "env \<Rightarrow> i64 \<Rightarrow> i64 \<Rightarrow> world \<Rightarrow> (merr + bool) \<times> world" where
  "m_IsChatAdmin e chat user w =
     (e_admin e (calls w) chat user, w\<lparr>calls := calls w @ [IsChatAdmin chat user]\<rparr>)"

definition m_ResolveChatMemberUsername :: "env \<Rightarrow> i64 \<Rightarrow> i64 \<Rightarrow> world \<Rightarrow> (merr + string) \<times> world" where
  "m_ResolveChatMemberUsername e chat user w =
     (e_username e (calls w) chat user, w\<lparr>calls := calls w @ [ResolveChatMemberUsername chat user]\<rparr>)"

fun m_invoke :: "env \<Rightarrow> mcall \<Rightarrow> world \<Rightarrow> mresp \<times> world" where
  "m_invoke e (IsChatAdmin a u) w = map_prod RBool id (m_IsChatAdmin e a u w)"
| "m_invoke e (ResolveChatMemberUsername a u) w = map_prod RName id (m_ResolveChatMemberUsername e a u w)"
| "m_invoke e (SendMessage a b t) w = map_prod RId id (m_send e (SendMessage a b t) w)"
| "m_invoke e (SendMessageWithForceReply a t p) w = map_prod RId id (m_send e (SendMessageWithForceReply a t p) w)"
| "m_invoke e (SendKeyboard a b t l1 c1 l2 c2) w = map_prod RId id (m_send e (SendKeyboard a b t l1 c1 l2 c2) w)"
| "m_invoke e (SendInlineKeyboard a b t bs) w = map_prod RId id (m_send e (SendInlineKeyboard a b t bs) w)"
| "m_invoke e (SendKeyboardGrid a b t rs) w = map_prod RId id (m_send e (SendKeyboardGrid a b t rs) w)"
| "m_invoke e (SendKeyboardGridHTML a b t rs) w = map_prod RId id (m_send e (SendKeyboardGridHTML a b t rs) w)"
| "m_invoke e (SendMessageWithForceReplyHTML a t p) w =
     map_prod RId id (m_send e (SendMessageWithForceReplyHTML a t p) w)"
| "m_invoke e (EditMessage a i t) w = map_prod RDone id (m_act e (EditMessage a i t) w)"
| "m_invoke e (EditKeyboard a i t bs) w = map_prod RDone id (m_act e (EditKeyboard a i t bs) w)"
| "m_invoke e (EditKeyboardGrid a i t rs) w = map_prod RDone id (m_act e (EditKeyboardGrid a i t rs) w)"
| "m_invoke e (EditKeyboardGridHTML a i t rs) w = map_prod RDone id (m_act e (EditKeyboardGridHTML a i t rs) w)"
| "m_invoke e (DeleteMessage a i) w = map_prod RDone id (m_act e (DeleteMessage a i) w)"
| "m_invoke e (PinMessage a i) w = map_prod RDone id (m_act e (PinMessage a i) w)"
| "m_invoke e (AnswerCallback q t) w = map_prod RDone id (m_act e (AnswerCallback q t) w)"
| "m_invoke e (SendReaction a i r) w = map_prod RDone id (m_act e (SendReaction a i r) w)"
| "m_invoke e (LeaveChat a) w = map_prod RDone id (m_act e (LeaveChat a) w)"

lemma m_snd [simp]:
  "snd (m_send e c w) = w\<lparr>calls := calls w @ [c]\<rparr>"
  "snd (m_act e c w) = w\<lparr>calls := calls w @ [c]\<rparr>"
  "snd (m_IsChatAdmin e a u w) = w\<lparr>calls := calls w @ [IsChatAdmin a u]\<rparr>"
  "snd (m_ResolveChatMemberUsername e a u w) = w\<lparr>calls := calls w @ [ResolveChatMemberUsername a u]\<rparr>"
  by (simp_all add: m_send_def m_act_def m_IsChatAdmin_def m_ResolveChatMemberUsername_def)

interpretation world: messenger "\<lambda>c. c" calls "m_invoke e" for e
proof
  fix c and w :: world
  show "calls (snd (m_invoke e c w)) = calls w @ [c]" by (cases c) simp_all
  show "answers c (fst (m_invoke e c w))" by (cases c) simp_all
qed

text \<open>An error-only call as the result of a handler, and \<open>_, err := M.Send...; return err\<close>.\<close>

definition of_merr :: "merr option \<Rightarrow> hres" where
  "of_merr r = (case r of None \<Rightarrow> HNil | Some x \<Rightarrow> HErr (EMess x))"

definition act_res :: "env \<Rightarrow> mcall \<Rightarrow> world \<Rightarrow> hres \<times> world" where
  "act_res e c w = (let (r, w1) = m_act e c w in (of_merr r, w1))"

definition send_res :: "env \<Rightarrow> mcall \<Rightarrow> world \<Rightarrow> hres \<times> world" where
  "send_res e c w = (let (r, w1) = m_send e c w in (case r of Inl x \<Rightarrow> HErr (EMess x) | Inr _ \<Rightarrow> HNil, w1))"

lemma res_snd [simp]:
  "snd (act_res e c w) = w\<lparr>calls := calls w @ [c]\<rparr>"
  "snd (send_res e c w) = w\<lparr>calls := calls w @ [c]\<rparr>"
  by (simp_all add: act_res_def send_res_def case_prod_beta)

text \<open>Updating the store.\<close>

definition upd_st :: "(memstore \<Rightarrow> memstore) \<Rightarrow> world \<Rightarrow> world" where
  "upd_st f w = w\<lparr>st := f (st w)\<rparr>"

lemma upd_st_sel [simp]:
  "st (upd_st f w) = f (st w)" "calls (upd_st f w) = calls w" "nicks (upd_st f w) = nicks w"
  "matchDrafts (upd_st f w) = matchDrafts w" "detached (upd_st f w) = detached w"
  "rounds (upd_st f w) = rounds w"
  by (simp_all add: upd_st_def)

section \<open>The account repository under the account package\<close>

lemma run_account_op_frame [simp]:
  "participants (run_account_op a s) = participants s" "admins (run_account_op a s) = admins s"
  "groups (run_account_op a s) = groups s" "matches (run_account_op a s) = matches s"
  "confirmations (run_account_op a s) = confirmations s" "undos (run_account_op a s) = undos s"
  "settings (run_account_op a s) = settings s" "matchCounters (run_account_op a s) = matchCounters s"
  "nickCache (run_account_op a s) = nickCache s"
  by (cases a; simp add: repo_put_defs)+

lemma run_account_ops_frame [simp]:
  "participants (run_account_ops ops s) = participants s" "admins (run_account_ops ops s) = admins s"
  "groups (run_account_ops ops s) = groups s" "matches (run_account_ops ops s) = matches s"
  "confirmations (run_account_ops ops s) = confirmations s" "undos (run_account_ops ops s) = undos s"
  "settings (run_account_ops ops s) = settings s" "matchCounters (run_account_ops ops s) = matchCounters s"
  "nickCache (run_account_ops ops s) = nickCache s"
  unfolding run_account_ops_def by (induction ops arbitrary: s; simp)+

lemma run_account_ops_wf [wf_intros]: "wf_store s \<Longrightarrow> wf_store (run_account_ops ops s)"
proof -
  have "wf_map (s21Accounts s) \<and> keyed acc_TelegramID (s21Accounts s) \<Longrightarrow>
      wf_map (s21Accounts (run_account_ops ops s)) \<and> keyed acc_TelegramID (s21Accounts (run_account_ops ops s))"
    unfolding run_account_ops_def
  proof (induction ops arbitrary: s)
    case (Cons a ops)
    then show ?case by (cases a) (simp_all add: repo_put_defs keyed_mput keyed_mdel)
  qed simp
  then show "wf_store s \<Longrightarrow> wf_store (run_account_ops ops s)"
    by (simp add: wf_store_def)
qed

end
