(* ===== verification/Players.thy ===== *)
theory Players
  imports World Validation
begin

text \<open>
  Package \<open>handlers\<close>, the helpers every flow uses: replies and command parsing
  (\<open>handlers.go\<close>, \<open>errs.go\<close>), the identity look-ups through three cache levels, the labels of
  players and the match announcement, and the resolution of a player token (\<open>match.go\<close>).
\<close>

section \<open>Replies, commands, administrators\<close>

definition reply :: "env \<Rightarrow> Message \<Rightarrow> string \<Rightarrow> world \<Rightarrow> hres \<times> world" where
  "reply e m text w = send_res e (SendMessage (ch_ID (msg_Chat m)) (msg_MessageThreadID m) text) w"

definition userFacingError :: "env \<Rightarrow> Message \<Rightarrow> string \<Rightarrow> world \<Rightarrow> hres \<times> world" where
  "userFacingError e m userMsg w = reply e m userMsg w"

definition fromID :: "Message \<Rightarrow> i64" where
  "fromID m = (case msg_From m of None \<Rightarrow> 0 | Some u \<Rightarrow> usr_ID u)"

text \<open>
  The user behind a message or a tap. The dispatchers return early when there is none, so a
  handler that reads \<open>m.From.ID\<close> never meets the zero user.
\<close>

definition zero_User :: User where
  "zero_User = \<lparr>usr_ID = 0, usr_IsBot = False, usr_Username = [], usr_FirstName = [], usr_LastName = []\<rparr>"

definition sender :: "Message \<Rightarrow> User" where
  "sender m = (case msg_From m of None \<Rightarrow> zero_User | Some u \<Rightarrow> u)"

definition tapper :: "CallbackQuery \<Rightarrow> User" where
  "tapper q = (case cq_From q of None \<Rightarrow> zero_User | Some u \<Rightarrow> u)"

definition splitCommand :: "string \<Rightarrow> string \<times> string" where
  "splitCommand text =
     (let t = TrimSpace text; cut = takeWhile (\<lambda>c. c \<noteq> CHR ''@'') in
      if \<not> HasPrefix t ''/'' then ([], [])
      else case SplitN2 CHR '' '' t of
          None \<Rightarrow> (cut t, [])
        | Some (c, r) \<Rightarrow> (cut c, TrimSpace r))"

definition isChatAdmin :: "env \<Rightarrow> i64 \<Rightarrow> i64 \<Rightarrow> world \<Rightarrow> bool \<times> world" where
  "isChatAdmin e chat user w =
     (let (r, w1) = m_IsChatAdmin e chat user w in (case r of Inl _ \<Rightarrow> False | Inr b \<Rightarrow> b, w1))"

definition spoilerWrap :: "string \<Rightarrow> string" where
  "spoilerWrap tag = ''<tg-spoiler>'' @ tag @ ''</tg-spoiler>''"

definition parseGroupMatchPayload :: "string \<Rightarrow> (i64 \<times> u64) option" where
  "parseGroupMatchPayload s =
     (case SplitN2 CHR '':'' s of
        None \<Rightarrow> None
      | Some (a, b) \<Rightarrow>
          (case (ParseInt 64 a, ParseUint 64 b) of
             (Some g, Some i) \<Rightarrow> Some (word_of_int g, word_of_nat i)
           | _ \<Rightarrow> None))"

text \<open>The payload of the match buttons.\<close>

definition groupMatchPayload :: "i64 \<Rightarrow> u64 \<Rightarrow> string" where
  "groupMatchPayload g i = fmt_i64 g @ '':'' @ fmt_u64 i"

definition cbConfirmPrefix :: string where "cbConfirmPrefix = ''m:c:''"
definition cbCancelPrefix :: string where "cbCancelPrefix = ''m:x:''"

section \<open>Identity look-ups\<close>

text \<open>
  \<open>withIdentity\<close>: the account package calls \<open>fn\<close> with a fresh service for the credentials it
  chooses, and its result is the closure's on success. Each use has its own round of client
  answers.
\<close>

definition withIdentity ::
  "env \<Rightarrow> (Service \<Rightarrow> identity_error + IdentityUser list) \<Rightarrow> world \<Rightarrow> (account_error + IdentityUser list) \<times> world" where
  "withIdentity e fn w =
     (if e_IdentityBaseURL e = [] then (Inl (AccOther ''identity base URL not configured''), w)
      else
        let call = (\<lambda>login password.
              case fn (identity_New (e_client e (rounds w) login password)) of
                Inl IdInvalidS21Token \<Rightarrow> Inl AccInvalidCredentials
              | Inl err \<Rightarrow> Inl (AccIdentity err)
              | Inr us \<Rightarrow> Inr us);
            (r, ops) = e_PickHealthy e (s21AccountRepo_List (st w)) (e_now e) call
        in (r, w\<lparr>st := run_account_ops ops (st w), rounds := Suc (rounds w)\<rparr>))"

definition nick_entry :: "time \<Rightarrow> i64 \<Rightarrow> IdentityUser \<Rightarrow> S21NickCacheEntry" where
  "nick_entry now tid u = \<lparr>n_TelegramID = tid, n_Found = iu_Found u, n_Nickname = iu_Nickname u,
     n_CampusID = iu_CampusID u, n_CampusName = iu_CampusName u,
     n_CoalitionName = iu_CoalitionName u, n_CachedAt = now\<rparr>"

definition of_entry :: "S21NickCacheEntry \<Rightarrow> IdentityUser" where
  "of_entry r = \<lparr>iu_TelegramID = n_TelegramID r, iu_Nickname = n_Nickname r, iu_CampusID = n_CampusID r,
     iu_CampusName = n_CampusName r, iu_CoalitionName = n_CoalitionName r, iu_Found = n_Found r\<rparr>"

definition nick_answer :: "IdentityUser \<Rightarrow> string \<times> bool" where
  "nick_answer u = (iu_Nickname u, iu_Found u \<and> iu_Nickname u \<noteq> [])"

text \<open>The third level: ask the identity service, then write through to both caches.\<close>

definition lookupRemote :: "env \<Rightarrow> i64 \<Rightarrow> world \<Rightarrow> (string \<times> bool) \<times> world" where
  "lookupRemote e tid w =
     (let (r, w1) = withIdentity e
            (\<lambda>svc. case fst (GetByTelegram tid svc) of Inl err \<Rightarrow> Inl err | Inr u \<Rightarrow> Inr [u]) w
      in case r of
           Inr (got # _) \<Rightarrow>
             (nick_answer got,
              upd_st (nickCacheRepo_Upsert (nick_entry (e_now e) tid got))
                (w1\<lparr>nicks := nick_Put (e_now e) tid got (nicks w1)\<rparr>))
         | _ \<Rightarrow> (([], False), w1))"

definition lookupS21Nickname :: "env \<Rightarrow> i64 \<Rightarrow> world \<Rightarrow> (string \<times> bool) \<times> world" where
  "lookupS21Nickname e tid w =
     (let (hit, c) = nick_Get (e_now e) tid (nicks w); w1 = w\<lparr>nicks := c\<rparr> in
      case hit of
        Some u \<Rightarrow> (nick_answer u, w1)
      | None \<Rightarrow>
          (case nickCacheRepo_Get (st w1) tid of
             Inr row \<Rightarrow>
               if time_Sub (e_now e) (n_CachedAt row) \<le> s21NickDurableTTL
               then (nick_answer (of_entry row), w1\<lparr>nicks := nick_Put (e_now e) tid (of_entry row) (nicks w1)\<rparr>)
               else lookupRemote e tid w1
           | Inl _ \<Rightarrow> lookupRemote e tid w1))"

definition hasNickname :: "env \<Rightarrow> i64 \<Rightarrow> world \<Rightarrow> bool \<times> world" where
  "hasNickname e tid w = (let (r, w1) = lookupS21Nickname e tid w in (snd r, w1))"

definition displayFor :: "env \<Rightarrow> i64 \<Rightarrow> i64 \<Rightarrow> string \<Rightarrow> world \<Rightarrow> string \<times> world" where
  "displayFor e gid tid fallback w =
     (let ((nick, ok), w1) = lookupS21Nickname e tid w in
      (if ok then nick
       else if fallback \<noteq> [] then ''@'' @ fallback
       else case participantRepo_Get (st w1) (gid, tid) of
           Inr p \<Rightarrow> if p_TelegramUsername p \<noteq> [] then ''@'' @ p_TelegramUsername p
             else ''Player '' @ fmt_i64 tid
         | Inl _ \<Rightarrow> ''Player '' @ fmt_i64 tid, w1))"

definition label_of :: "string \<Rightarrow> string \<Rightarrow> i64 \<Rightarrow> string" where
  "label_of nick user tid =
     (if nick \<noteq> [] \<and> user \<noteq> [] then nick @ '' (@'' @ user @ '')''
      else if nick \<noteq> [] then nick
      else if user \<noteq> [] then ''@'' @ user
      else ''Player '' @ fmt_i64 tid)"

definition playerLabel :: "env \<Rightarrow> i64 \<Rightarrow> i64 \<Rightarrow> world \<Rightarrow> string \<times> world" where
  "playerLabel e gid tid w =
     (let ((nick, ok), w1) = lookupS21Nickname e tid w;
          user = (case participantRepo_Get (st w1) (gid, tid) of Inr p \<Rightarrow> p_TelegramUsername p | Inl _ \<Rightarrow> [])
      in (label_of nick user tid, w1))"

text \<open>The scoreboard line, the winner's side on the left.\<close>

definition match_text :: "u64 \<Rightarrow> string \<Rightarrow> string \<Rightarrow> u32 \<Rightarrow> u32 \<Rightarrow> string \<Rightarrow> string" where
  "match_text i verb ll ls rs rl =
     ''Match #'' @ fmt_u64 i @ '' '' @ verb @ ''.'' @ nl @ ll @ '' '' @ dec (unat ls)
       @ '' '' @ emdash @ '' '' @ dec (unat rs) @ '' '' @ rl"

definition renderMatch :: "env \<Rightarrow> i64 \<Rightarrow> Match \<Rightarrow> string \<Rightarrow> world \<Rightarrow> string \<times> world" where
  "renderMatch e gid m verb w =
     (let (p1, w1) = playerLabel e gid (m_Player1ID m) w;
          (p2, w2) = playerLabel e gid (m_Player2ID m) w1
      in (if m_Player1Score m < m_Player2Score m
          then match_text (m_MatchID m) verb p2 (m_Player2Score m) (m_Player1Score m) p1
          else match_text (m_MatchID m) verb p1 (m_Player1Score m) (m_Player2Score m) p2, w2))"

section \<open>Player tokens\<close>

record matchPlayer =
  mp_TelegramID :: i64
  mp_Display :: string
  mp_Note :: string

text \<open>The error is the text the user gets.\<close>

definition resolveMatchToken :: "env \<Rightarrow> i64 \<Rightarrow> string \<Rightarrow> world \<Rightarrow> (string + matchPlayer) \<times> world" where
  "resolveMatchToken e gid token w =
     (case ParseIdentifier token of
        Inl _ \<Rightarrow> (Inl (''invalid identifier: '' @ token), w)
      | Inr i \<Rightarrow>
          if IsTelegram i then
            (case participantRepo_GetByUsername (st w) gid (Value i) of
               Inl _ \<Rightarrow> (Inl (''@'' @ Value i @ '' hasn't joined this group yet '' @ emdash
                 @ '' ask them to send /ping in the matches topic so I learn their username.''), w)
             | Inr p \<Rightarrow>
                 let (d, w1) = displayFor e gid (p_TelegramID p) (Value i) w in
                 (Inr \<lparr>mp_TelegramID = p_TelegramID p, mp_Display = d, mp_Note = []\<rparr>, w1))
          else
            let (r, w1) = withIdentity e (GetUsersByNickname (Value i)) w in
            (case r of
               Inl AccNoHealthy \<Rightarrow> Inl ''No logged-in S21 accounts available. Anyone in this group can run /login in @ttbot (DM).''
             | Inl err \<Rightarrow> Inl (''Identity service error: '' @ e_account_error_text e err)
             | Inr [] \<Rightarrow> Inl (''Nickname '' @ Value i @ '' not registered. Ask user to /provide_nickname ''
                 @ Value i @ '' in @school_21_identity_bot.'')
             | Inr (chosen # rest) \<Rightarrow>
                 Inr \<lparr>mp_TelegramID = iu_TelegramID chosen, mp_Display = iu_Nickname chosen,
                   mp_Note = (if rest = [] then []
                     else ''Note: nickname '' @ Value i @ '' is claimed by '' @ dec (length (chosen # rest))
                       @ '' telegram accounts; picked the earliest.'')\<rparr>, w1))"

section \<open>What the look-ups leave alone\<close>

text \<open>
  Look-ups touch the two nickname caches and the account rows only: not the rest of the
  store, not the chat, not the drafts.
\<close>

definition quiet :: "world \<Rightarrow> world \<Rightarrow> bool" where
  "quiet w w' \<longleftrightarrow>
     participants (st w') = participants (st w) \<and> admins (st w') = admins (st w) \<and>
     groups (st w') = groups (st w) \<and> matches (st w') = matches (st w) \<and>
     confirmations (st w') = confirmations (st w) \<and> undos (st w') = undos (st w) \<and>
     settings (st w') = settings (st w) \<and> matchCounters (st w') = matchCounters (st w) \<and>
     calls w' = calls w \<and> matchDrafts w' = matchDrafts w \<and> detached w' = detached w \<and>
     (wf_store (st w) \<longrightarrow> wf_store (st w')) \<and> (wf_cache (nicks w) \<longrightarrow> wf_cache (nicks w'))"

lemma quiet_refl [simp]: "quiet w w"
  by (simp add: quiet_def)

lemma quiet_trans: "quiet w1 w2 \<Longrightarrow> quiet w2 w3 \<Longrightarrow> quiet w1 w3"
  by (simp add: quiet_def)

lemma quietD:
  assumes "quiet w w'"
  shows "participants (st w') = participants (st w)" and "admins (st w') = admins (st w)"
    and "groups (st w') = groups (st w)" and "matches (st w') = matches (st w)"
    and "confirmations (st w') = confirmations (st w)" and "undos (st w') = undos (st w)"
    and "settings (st w') = settings (st w)" and "matchCounters (st w') = matchCounters (st w)"
    and "calls w' = calls w" and "matchDrafts w' = matchDrafts w" and "detached w' = detached w"
  using assms by (simp_all add: quiet_def)

lemma quiet_wf:
  assumes "quiet w w'"
  shows "wf_store (st w) \<Longrightarrow> wf_store (st w')" and "wf_cache (nicks w) \<Longrightarrow> wf_cache (nicks w')"
  using assms by (simp_all add: quiet_def)

lemma quiet_nicks:
  assumes "quiet w w'" and "wf_cache (nicks w') \<Longrightarrow> wf_cache c"
  shows "quiet w (w'\<lparr>nicks := c\<rparr>)"
  using assms by (simp add: quiet_def)

lemma quiet_entry:
  assumes "quiet w w'"
  shows "quiet w (upd_st (nickCacheRepo_Upsert r) w')"
  using assms by (simp add: quiet_def repo_put_defs wf_store_def)

lemma withIdentity_quiet: "quiet w (snd (withIdentity e fn w))"
  by (simp add: withIdentity_def quiet_def case_prod_beta Let_def run_account_ops_wf)

lemma lookupRemote_quiet: "quiet w (snd (lookupRemote e tid w))"
proof -
  have "quiet w (upd_st (nickCacheRepo_Upsert r) (w1\<lparr>nicks := nick_Put (e_now e) tid got (nicks w1)\<rparr>))"
    if "quiet w w1" for r got w1
    by (intro quiet_entry quiet_nicks that nick_Put_wf)
  then show ?thesis
    using withIdentity_quiet
    by (simp add: lookupRemote_def case_prod_beta Let_def split: sum.splits list.splits)
qed

lemma lookupS21Nickname_quiet: "quiet w (snd (lookupS21Nickname e tid w))"
proof -
  let ?w1 = "w\<lparr>nicks := snd (nick_Get (e_now e) tid (nicks w))\<rparr>"
  have w1: "quiet w ?w1" by (intro quiet_nicks quiet_refl nick_Get_wf)
  have put: "quiet w (?w1\<lparr>nicks := nick_Put (e_now e) tid u (nicks ?w1)\<rparr>)" for u
    by (intro quiet_nicks [OF w1] nick_Put_wf)
  show ?thesis
    using w1 put quiet_trans [OF w1 lookupRemote_quiet]
    by (simp add: lookupS21Nickname_def case_prod_beta Let_def split: option.splits sum.splits)
qed

lemma hasNickname_quiet: "quiet w (snd (hasNickname e tid w))"
  by (simp add: hasNickname_def case_prod_beta lookupS21Nickname_quiet)

lemma displayFor_quiet: "quiet w (snd (displayFor e gid tid fb w))"
  by (simp add: displayFor_def case_prod_beta lookupS21Nickname_quiet)

lemma playerLabel_quiet: "quiet w (snd (playerLabel e gid tid w))"
  by (simp add: playerLabel_def case_prod_beta lookupS21Nickname_quiet)

lemma renderMatch_quiet: "quiet w (snd (renderMatch e gid m verb w))"
  unfolding renderMatch_def case_prod_beta Let_def snd_conv
  by (rule quiet_trans [OF playerLabel_quiet playerLabel_quiet])

lemma resolveMatchToken_quiet: "quiet w (snd (resolveMatchToken e gid token w))"
  by (simp add: resolveMatchToken_def case_prod_beta Let_def withIdentity_quiet displayFor_quiet
      split: sum.splits)

lemmas withIdentity_frame [simp] = quietD [OF withIdentity_quiet]
lemmas lookupS21Nickname_frame [simp] = quietD [OF lookupS21Nickname_quiet]
lemmas hasNickname_frame [simp] = quietD [OF hasNickname_quiet]
lemmas displayFor_frame [simp] = quietD [OF displayFor_quiet]
lemmas playerLabel_frame [simp] = quietD [OF playerLabel_quiet]
lemmas renderMatch_frame [simp] = quietD [OF renderMatch_quiet]
lemmas resolveMatchToken_frame [simp] = quietD [OF resolveMatchToken_quiet]

lemma reply_frame [simp]:
  "snd (reply e m t w) = w\<lparr>calls := calls w @ [SendMessage (ch_ID (msg_Chat m)) (msg_MessageThreadID m) t]\<rparr>"
  by (simp add: reply_def)

lemma isChatAdmin_frame [simp]:
  "snd (isChatAdmin e a u w) = w\<lparr>calls := calls w @ [IsChatAdmin a u]\<rparr>"
  by (simp add: isChatAdmin_def case_prod_beta)

section \<open>Properties\<close>

text \<open>The payload put on the Confirm and Cancel buttons of a match is read back to exactly its
  group and match id, negative (supergroup) ids included.\<close>

lemma groupMatchPayload_roundtrip [simp]:
  "parseGroupMatchPayload (groupMatchPayload g i) = Some (g, i)"
proof -
  have "CHR '':'' \<notin> set (fmt_i64 g)" using fmt_i64_chars by (fastforce simp: is_digit_def byte_def)
  then have "SplitN2 CHR '':'' (groupMatchPayload g i) = Some (fmt_i64 g, fmt_u64 i)"
    unfolding groupMatchPayload_def by (simp add: SplitN2_append)
  moreover obtain x where "ParseInt 64 (fmt_i64 g) = Some x" "word_of_int x = g"
    using ParseInt_fmt_i64 [of g] by auto
  moreover obtain n where "ParseUint 64 (fmt_u64 i) = Some n" "word_of_nat n = i"
    using ParseUint_fmt_u64 [of i] by auto
  ultimately show ?thesis by (simp add: parseGroupMatchPayload_def)
qed

text \<open>C30. Every announcement of a match carries its id in a form that \<open>/undo\<close> finds when it is
  sent as a reply to the announcement, whatever the names of the players are.\<close>

theorem renderMatch_announces_id:
  "ExtractMatchID (fst (renderMatch e gid m verb w)) = Some (m_MatchID m)"
proof -
  have "ExtractMatchID (match_text i verb ll ls rs rl) = Some i" for i ll ls rs rl
  proof -
    have "match_text i verb ll ls rs rl = ''Match '' @ ''#'' @ fmt_u64 i @ ('' '' @ verb @ ''.'' @ nl @ ll
        @ '' '' @ dec (unat ls) @ '' '' @ emdash @ '' '' @ dec (unat rs) @ '' '' @ rl)"
      by (simp add: match_text_def)
    then show ?thesis
      using ExtractMatchID_at [of "''Match ''" "'' '' @ verb @ ''.'' @ nl @ ll
        @ '' '' @ dec (unat ls) @ '' '' @ emdash @ '' '' @ dec (unat rs) @ '' '' @ rl" i]
      by (simp add: is_digit_def byte_def)
  qed
  then show ?thesis by (simp add: renderMatch_def case_prod_beta Let_def)
qed

end
