(* ===== verification/Drafts.thy ===== *)
theory Drafts
  imports Players
begin

text \<open>
  The state of the interactive \<open>/match\<close> flow (\<open>pkg/handlers/match_interactive.go\<close>): the draft
  map with its garbage collection, and the mirror of a draft in the message text (state tag
  with query-escaped labels, parsed back on a cold start).
\<close>

section \<open>Query escaping\<close>

text \<open>\<open>url.QueryEscape\<close> and \<open>url.QueryUnescape\<close>, bytewise as the library works.\<close>

definition unreserved :: "char \<Rightarrow> bool" where
  "unreserved c \<longleftrightarrow> is_alnum c \<or> c \<in> set ''-_.~''"

definition hex_digit :: "nat \<Rightarrow> char" where
  "hex_digit d = ''0123456789ABCDEF'' ! d"

definition hex_value :: "char \<Rightarrow> nat option" where
  "hex_value c = (let b = byte c in
     if 48 \<le> b \<and> b \<le> 57 then Some (b - 48)
     else if 65 \<le> b \<and> b \<le> 70 then Some (b - 55)
     else if 97 \<le> b \<and> b \<le> 102 then Some (b - 87) else None)"

fun QueryEscape :: "string \<Rightarrow> string" where
  "QueryEscape [] = []"
| "QueryEscape (c # s) =
     (if unreserved c then c # QueryEscape s
      else if c = CHR '' '' then CHR ''+'' # QueryEscape s
      else CHR ''%'' # hex_digit (byte c div 16) # hex_digit (byte c mod 16) # QueryEscape s)"

fun QueryUnescape :: "string \<Rightarrow> string option" where
  "QueryUnescape [] = Some []"
| "QueryUnescape (c # s) =
     (if c = CHR ''%'' then
        (case s of
           h # l # r \<Rightarrow>
             (case (hex_value h, hex_value l, QueryUnescape r) of
                (Some a, Some b, Some t) \<Rightarrow> Some (char_of (a * 16 + b) # t)
              | _ \<Rightarrow> None)
         | _ \<Rightarrow> None)
      else map_option (Cons (if c = CHR ''+'' then CHR '' '' else c)) (QueryUnescape s))"

lemma hex_value_digit [simp]: "d < 16 \<Longrightarrow> hex_value (hex_digit d) = Some d"
proof -
  assume "d < 16"
  then have "d \<in> set [0..<16]" by simp
  moreover have "list_all (\<lambda>d. hex_value (hex_digit d) = Some d) [0..<16]" by code_simp
  ultimately show ?thesis by (simp only: list_all_iff)
qed

lemma unreserved_plain: "unreserved c \<Longrightarrow> c \<noteq> CHR ''%'' \<and> c \<noteq> CHR ''+''"
  by (auto simp: unreserved_def is_alnum_def is_alpha_def is_upper_def is_lower_def is_digit_def byte_def)

lemma QueryUnescape_QueryEscape [simp]: "QueryUnescape (QueryEscape s) = Some s"
proof (induction s)
  case (Cons c s)
  have "byte c div 16 < 16" "byte c mod 16 < 16" using byte_less [of c] by (simp_all add: less_mult_imp_div_less)
  moreover have "char_of (byte c div 16 * 16 + byte c mod 16) = c" by simp
  ultimately show ?case using Cons unreserved_plain [of c] by simp
qed simp

section \<open>State tags\<close>

text \<open>\<open>\S\<close> of the regular expressions.\<close>

definition non_space :: "char \<Rightarrow> bool" where
  "non_space c \<longleftrightarrow> byte c \<notin> {9, 10, 12, 13, 32}"

text \<open>Matching pieces at the head of a text: a literal, a maximal run of a class.\<close>

definition lit_at :: "string \<Rightarrow> string \<Rightarrow> string option" where
  "lit_at p s = (if HasPrefix s p then Some (drop (length p) s) else None)"

definition digits_at :: "string \<Rightarrow> (string \<times> string) option" where
  "digits_at s = (let d = takeWhile is_digit s in if d = [] then None else Some (d, dropWhile is_digit s))"

definition word_at :: "string \<Rightarrow> string \<times> string" where
  "word_at s = (takeWhile non_space s, dropWhile non_space s)"

definition score_at :: "string \<Rightarrow> (char \<times> string) option" where
  "score_at s = (case s of c # r \<Rightarrow> if is_digit c \<or> c = CHR ''-'' then Some (c, r) else None | [] \<Rightarrow> None)"

fun search :: "(string \<Rightarrow> 'a option) \<Rightarrow> string \<Rightarrow> 'a option" where
  "search f [] = f []"
| "search f (c # s) = (case f (c # s) of Some x \<Rightarrow> Some x | None \<Rightarrow> search f s)"

text \<open>The two header expressions, anchored at the head; the submatches in order.\<close>

definition opp_header_at :: "string \<Rightarrow> (string \<times> string \<times> string) option" where
  "opp_header_at s =
     (case lit_at ''[MATCH_OP=opp owner='' s of None \<Rightarrow> None | Some s1 \<Rightarrow>
      (case digits_at s1 of None \<Rightarrow> None | Some (owner, s2) \<Rightarrow>
      (case lit_at '' owner_label='' s2 of None \<Rightarrow> None | Some s3 \<Rightarrow>
      (case lit_at '' page='' (snd (word_at s3)) of None \<Rightarrow> None | Some s4 \<Rightarrow>
      (case digits_at s4 of None \<Rightarrow> None | Some (page, s5) \<Rightarrow>
       if HasPrefix s5 '']'' then Some (owner, fst (word_at s3), page) else None)))))"

definition score_header_at :: "string \<Rightarrow> (string \<times> string \<times> string \<times> string \<times> char \<times> char) option" where
  "score_header_at s =
     (case lit_at ''[MATCH_OP=score owner='' s of None \<Rightarrow> None | Some s1 \<Rightarrow>
      (case digits_at s1 of None \<Rightarrow> None | Some (owner, s2) \<Rightarrow>
      (case lit_at '' owner_label='' s2 of None \<Rightarrow> None | Some s3 \<Rightarrow>
      (case lit_at '' opp='' (snd (word_at s3)) of None \<Rightarrow> None | Some s4 \<Rightarrow>
      (case digits_at s4 of None \<Rightarrow> None | Some (opp, s5) \<Rightarrow>
      (case lit_at '' opp_label='' s5 of None \<Rightarrow> None | Some s6 \<Rightarrow>
      (case lit_at '' p1='' (snd (word_at s6)) of None \<Rightarrow> None | Some s7 \<Rightarrow>
      (case score_at s7 of None \<Rightarrow> None | Some (c1, s8) \<Rightarrow>
      (case lit_at '' p2='' s8 of None \<Rightarrow> None | Some s9 \<Rightarrow>
      (case score_at s9 of None \<Rightarrow> None | Some (c2, s10) \<Rightarrow>
       if HasPrefix s10 '']'' then Some (owner, fst (word_at s3), opp, fst (word_at s6), c1, c2)
       else None))))))))))"

definition matchOppHeaderRe :: "string \<Rightarrow> (string \<times> string \<times> string) option" where
  "matchOppHeaderRe = search opp_header_at"

definition matchScoreHeaderRe :: "string \<Rightarrow> (string \<times> string \<times> string \<times> string \<times> char \<times> char) option" where
  "matchScoreHeaderRe = search score_header_at"

text \<open>\<open>strconv.ParseInt\<close> on digits with its error ignored: out of range gives the maximum.\<close>

definition digits_int :: "string \<Rightarrow> int" where
  "digits_int ds = min (2 ^ 63 - 1) (int (dec_val ds))"

definition unescape_or_empty :: "string \<Rightarrow> string" where
  "unescape_or_empty s = (case QueryUnescape s of Some t \<Rightarrow> t | None \<Rightarrow> [])"

definition parseScoreTok :: "string \<Rightarrow> int" where
  "parseScoreTok s = (if s = ''-'' then -1 else case Atoi s of Some v \<Rightarrow> v | None \<Rightarrow> -1)"

definition scoreTok :: "int \<Rightarrow> string" where
  "scoreTok v = (if v < 0 then ''-'' else Itoa v)"

definition zero_draft :: matchDraft where
  "zero_draft = \<lparr>d_ownerID = 0, d_ownerLabel = [], d_isScore = False, d_page = 0, d_oppID = 0,
     d_oppLabel = [], d_p1 = 0, d_p2 = 0, d_touchedAt = zero_time\<rparr>"

definition parseDraftFromHeader :: "string \<Rightarrow> matchDraft option" where
  "parseDraftFromHeader text =
     (case matchOppHeaderRe text of
        Some (owner, label, page) \<Rightarrow>
          Some (zero_draft\<lparr>d_ownerID := word_of_int (digits_int owner),
            d_ownerLabel := unescape_or_empty label, d_page := digits_int page, d_p1 := -1, d_p2 := -1\<rparr>)
      | None \<Rightarrow>
          (case matchScoreHeaderRe text of
             Some (owner, label, opp, oppLabel, c1, c2) \<Rightarrow>
               Some (zero_draft\<lparr>d_ownerID := word_of_int (digits_int owner),
                 d_ownerLabel := unescape_or_empty label, d_isScore := True,
                 d_oppID := word_of_int (digits_int opp), d_oppLabel := unescape_or_empty oppLabel,
                 d_p1 := parseScoreTok [c1], d_p2 := parseScoreTok [c2]\<rparr>)
           | None \<Rightarrow> None))"

definition renderOppHeader :: "matchDraft \<Rightarrow> string" where
  "renderOppHeader d = ''[MATCH_OP=opp owner='' @ fmt_i64 (d_ownerID d) @ '' owner_label=''
     @ QueryEscape (d_ownerLabel d) @ '' page='' @ Itoa (d_page d) @ '']''"

definition renderScoreHeader :: "matchDraft \<Rightarrow> string" where
  "renderScoreHeader d = ''[MATCH_OP=score owner='' @ fmt_i64 (d_ownerID d) @ '' owner_label=''
     @ QueryEscape (d_ownerLabel d) @ '' opp='' @ fmt_i64 (d_oppID d) @ '' opp_label=''
     @ QueryEscape (d_oppLabel d) @ '' p1='' @ scoreTok (d_p1 d) @ '' p2='' @ scoreTok (d_p2 d) @ '']''"

section \<open>The draft map\<close>

definition matchDraftStaleAfter :: duration where "matchDraftStaleAfter = 30 * minute"
definition matchDraftMaxEntries :: nat where "matchDraftMaxEntries = 5000"

definition draftKey :: "i64 \<Rightarrow> i64 \<Rightarrow> string" where
  "draftKey chat msg = fmt_i64 chat @ '':'' @ fmt_i64 msg"

definition stale :: "time \<Rightarrow> matchDraft \<Rightarrow> bool" where
  "stale now d \<longleftrightarrow> \<not> IsZero (d_touchedAt d) \<and> matchDraftStaleAfter < time_Sub now (d_touchedAt d)"

text \<open>
  \<open>gcDraftsLocked\<close>: the stale ones go, then the oldest down to the cap. \<open>sort.Slice\<close> leaves open
  how equal times are ordered; so does the model, whose list is in an arbitrary order.
\<close>

definition oldest_first :: "(string, matchDraft) gomap \<Rightarrow> (string \<times> matchDraft) list" where
  "oldest_first ds = sort_by (\<lambda>a b. d_touchedAt (snd a) < d_touchedAt (snd b)) ds"

definition gcDrafts :: "time \<Rightarrow> (string, matchDraft) gomap \<Rightarrow> (string, matchDraft) gomap" where
  "gcDrafts now ds =
     (let live = filter (\<lambda>(k, d). \<not> stale now d) ds in
      if length live \<le> matchDraftMaxEntries then live
      else let victims = map fst (take (length live - matchDraftMaxEntries) (oldest_first live))
           in filter (\<lambda>(k, d). k \<notin> set victims) live)"

definition storeDraft :: "env \<Rightarrow> i64 \<Rightarrow> i64 \<Rightarrow> matchDraft \<Rightarrow> world \<Rightarrow> world" where
  "storeDraft e chat msg d w =
     w\<lparr>matchDrafts := gcDrafts (e_now e)
         (mput (draftKey chat msg) (d\<lparr>d_touchedAt := e_now e\<rparr>) (matchDrafts w))\<rparr>"

definition dropDraft :: "i64 \<Rightarrow> i64 \<Rightarrow> world \<Rightarrow> world" where
  "dropDraft chat msg w = w\<lparr>matchDrafts := mdel (draftKey chat msg) (matchDrafts w)\<rparr>"

definition loadOrRestoreDraft :: "env \<Rightarrow> i64 \<Rightarrow> i64 \<Rightarrow> string \<Rightarrow> world \<Rightarrow> matchDraft option \<times> world" where
  "loadOrRestoreDraft e chat msg text w =
     (case mget (matchDrafts w) (draftKey chat msg) of
        Some d \<Rightarrow> (Some d, w\<lparr>matchDrafts := gcDrafts (e_now e) (matchDrafts w)\<rparr>)
      | None \<Rightarrow>
          (case parseDraftFromHeader text of
             None \<Rightarrow> (None, w)
           | Some d0 \<Rightarrow>
               let d = d0\<lparr>d_touchedAt := e_now e\<rparr> in
               (Some d, w\<lparr>matchDrafts := gcDrafts (e_now e) (mput (draftKey chat msg) d (matchDrafts w))\<rparr>)))"

text \<open>Assignments to a draft that a handler holds show in the map while the map still has it.\<close>

definition saveDraft :: "i64 \<Rightarrow> i64 \<Rightarrow> matchDraft \<Rightarrow> world \<Rightarrow> world" where
  "saveDraft chat msg d w =
     (if mget (matchDrafts w) (draftKey chat msg) = None then w
      else w\<lparr>matchDrafts := mput (draftKey chat msg) d (matchDrafts w)\<rparr>)"

section \<open>Garbage collection\<close>

interpretation by_touched: sort_less "\<lambda>a b. d_touchedAt (snd a) < d_touchedAt (snd b)"
  by (rule sort_less_key_up)

lemma length_gcDrafts:
  assumes "wf_map ds"
  shows "length (gcDrafts now ds) \<le> matchDraftMaxEntries"
proof -
  define live where "live = filter (\<lambda>(k, d). \<not> stale now d) ds"
  have live: "distinct (map fst live)"
    using assms unfolding live_def wf_map_def by (induction ds) (auto simp: image_iff)
  show ?thesis
  proof (cases "length live \<le> matchDraftMaxEntries")
    case True
    then show ?thesis by (simp add: gcDrafts_def live_def Let_def)
  next
    case False
    let ?n = "length live - matchDraftMaxEntries"
    let ?v = "map fst (take ?n (oldest_first live))"
    have o: "mset (oldest_first live) = mset live" by (simp add: oldest_first_def)
    then have od: "distinct (map fst (oldest_first live))"
      using live by (metis mset_map mset_eq_imp_distinct_iff)
    have set_o: "set (oldest_first live) = set live" using o by (metis set_mset_mset)
    have len_o: "length (oldest_first live) = length live" using o by (metis size_mset)
    have "set (filter (\<lambda>(k, d). k \<notin> set ?v) live) = set (drop ?n (oldest_first live))"
    proof -
      have s: "set (oldest_first live) = set (take ?n (oldest_first live)) \<union> set (drop ?n (oldest_first live))"
        by (metis append_take_drop_id set_append)
      have "distinct (map fst (take ?n (oldest_first live)) @ map fst (drop ?n (oldest_first live)))"
        using od by (metis append_take_drop_id map_append)
      then have "fst ` set (take ?n (oldest_first live)) \<inter> fst ` set (drop ?n (oldest_first live)) = {}"
        by simp
      then show ?thesis using s set_o by (auto simp: image_iff) (metis IntI empty_iff fst_conv image_eqI)+
    qed
    moreover have "distinct live" "distinct (oldest_first live)" using live od by (simp_all add: distinct_map)
    ultimately have "length (filter (\<lambda>(k, d). k \<notin> set ?v) live) = length (drop ?n (oldest_first live))"
      by (metis distinct_card distinct_drop distinct_filter)
    then show ?thesis using False len_o by (simp add: gcDrafts_def live_def [symmetric] Let_def)
  qed
qed

end
