(* ===== verification/Interactive.thy ===== *)
theory Interactive
  imports Drafts
begin

text \<open>
  The interactive \<open>/match\<close> flow (\<open>pkg/handlers/match_interactive.go\<close>): the opponent and score
  pickers, the state machine a tap drives (\<open>dispatchTap\<close>), and the registration of the match
  the flow ends in. A tap holds the draft's mutex, so it is one step; the draft it has
  changed is written back at its end.
\<close>

section \<open>Texts\<close>

definition miPrefix :: string where "miPrefix = ''m:i:''"
definition oppPerPage :: nat where "oppPerPage = 15"
definition oppGridCols :: nat where "oppGridCols = 3"
definition scoreMaxVal :: nat where "scoreMaxVal = 7"

definition bullet :: string where "bullet = [CHR 0xE2, CHR 0x80, CHR 0xA2]"
definition middot :: string where "middot = [CHR 0xC2, CHR 0xB7]"
definition cross :: string where "cross = [CHR 0xE2, CHR 0x9C, CHR 0x95]"
definition check :: string where "check = [CHR 0xE2, CHR 0x9C, CHR 0x85]"
definition left_arrow :: string where "left_arrow = [CHR 0xE2, CHR 0xAC, CHR 0x85]"
definition right_arrow :: string where "right_arrow = [CHR 0xE2, CHR 0x9E, CHR 0xA1]"
definition ellipsis :: string where "ellipsis = [CHR 0xE2, CHR 0x80, CHR 0xA6]"

definition truncateText :: "string \<Rightarrow> nat \<Rightarrow> string" where
  "truncateText s n = (if length s \<le> n then s else take n s @ ellipsis)"

definition cellLabel :: "nat \<Rightarrow> bool \<Rightarrow> string" where
  "cellLabel v selected = (if selected then bullet @ '' '' @ dec v @ '' '' @ bullet else dec v)"

definition safeLabel :: "string \<Rightarrow> string" where
  "safeLabel s = (if s = [] then ''player'' else s)"

section \<open>The opponent picker\<close>

record opponentCandidate =
  oc_telegramID :: i64
  oc_label :: string
  oc_matchCount :: int

definition candidate :: "memstore \<Rightarrow> i64 \<Rightarrow> Participant \<Rightarrow> opponentCandidate" where
  "candidate s gid p = \<lparr>oc_telegramID = p_TelegramID p,
     oc_label = (if p_TelegramUsername p = [] then ''id '' @ fmt_i64 (p_TelegramID p)
       else ''@'' @ p_TelegramUsername p),
     oc_matchCount = (case mget (matchRepo_CountsByPlayer s gid) (p_TelegramID p) of
       None \<Rightarrow> 0 | Some n \<Rightarrow> n)\<rparr>"

definition candidate_less :: "opponentCandidate \<Rightarrow> opponentCandidate \<Rightarrow> bool" where
  "candidate_less a b \<longleftrightarrow>
     (if oc_matchCount a \<noteq> oc_matchCount b then oc_matchCount b < oc_matchCount a
      else sint (oc_telegramID a) < sint (oc_telegramID b))"

definition opponentCandidates :: "memstore \<Rightarrow> i64 \<Rightarrow> i64 \<Rightarrow> opponentCandidate list" where
  "opponentCandidates s gid caller = sort_by candidate_less
     (map (candidate s gid) (filter (\<lambda>p. p_TelegramID p \<noteq> caller) (participantRepo_ListByGroup s gid)))"

definition opp_button :: "opponentCandidate \<Rightarrow> Button" where
  "opp_button c = mkButton (oc_label c) (miPrefix @ ''opp:'' @ fmt_i64 (oc_telegramID c))"

function grid :: "'a list \<Rightarrow> 'a list list" where
  "grid xs = (if xs = [] then [] else take oppGridCols xs # grid (drop oppGridCols xs))"
  by auto
termination
  by (relation "measure length") (auto simp: oppGridCols_def)

declare grid.simps [simp del]

definition totalPages :: "opponentCandidate list \<Rightarrow> int" where
  "totalPages cs = int ((length cs + oppPerPage - 1) div oppPerPage)"

definition clampPage :: "int \<Rightarrow> int \<Rightarrow> int" where
  "clampPage pages page = (let p = (if page < 1 then 1 else page) in if pages < p then pages else p)"

definition page_of :: "int \<Rightarrow> 'a list \<Rightarrow> 'a list" where
  "page_of p xs = take oppPerPage (drop (nat (p - 1) * oppPerPage) xs)"

definition nav_row :: "int \<Rightarrow> int \<Rightarrow> Button list" where
  "nav_row p pages =
     (if pages \<le> 1 then []
      else [if 1 < p then mkButton (left_arrow @ '' Prev'') (miPrefix @ ''nav:'' @ Itoa (p - 1))
            else mkButton middot (miPrefix @ ''noop'')])
     @ [mkButton (cross @ '' Cancel'') (miPrefix @ ''cancel'')]
     @ (if pages \<le> 1 then []
        else [if p < pages then mkButton (''Next '' @ right_arrow) (miPrefix @ ''nav:'' @ Itoa (p + 1))
              else mkButton middot (miPrefix @ ''noop'')])"

text \<open>No rows (\<open>nil\<close>) when there is nobody to play; the page of the draft is clamped otherwise.\<close>

definition renderOpponentPicker ::
  "memstore \<Rightarrow> i64 \<Rightarrow> matchDraft \<Rightarrow> (string \<times> Button list list) option \<times> matchDraft" where
  "renderOpponentPicker s gid d =
     (let cs = opponentCandidates s gid (d_ownerID d) in
      if cs = [] then (None, d)
      else
        let pages = totalPages cs; d1 = d\<lparr>d_page := clampPage pages (d_page d)\<rparr>;
            body = ''Page '' @ Itoa (d_page d1) @ ''/'' @ Itoa pages @ '' '' @ emdash
              @ '' opponents, most-played first:''
        in (Some (body @ nl @ nl @ spoilerWrap (renderOppHeader d1),
                  grid (map opp_button (page_of (d_page d1) cs)) @ [nav_row (d_page d1) pages]), d1))"

section \<open>The score picker\<close>

definition score_row :: "matchDraft \<Rightarrow> nat \<Rightarrow> Button list" where
  "score_row d v =
     [mkButton (cellLabel v (int v = d_p1 d)) (miPrefix @ ''s:1:'' @ dec v),
      mkButton (cellLabel v (int v = d_p2 d)) (miPrefix @ ''s:2:'' @ dec v)]"

definition renderScorePicker :: "matchDraft \<Rightarrow> string \<times> Button list list" where
  "renderScorePicker d =
     (safeLabel (d_ownerLabel d) @ '' vs '' @ safeLabel (d_oppLabel d) @ nl @ nl
        @ ''Tap your score on the left, '' @ safeLabel (d_oppLabel d)
        @ [CHR 0x27] @ ''s score on the right. Re-tap to change. Confirm when both sides have a ''
        @ bullet @ ''.'' @ nl @ nl @ spoilerWrap (renderScoreHeader d),
      map (score_row d) [0..<scoreMaxVal + 1]
        @ [[mkButton (check @ '' Confirm'') (miPrefix @ ''confirm''),
            mkButton (cross @ '' Cancel'') (miPrefix @ ''cancel'')],
           [mkButton (left_arrow @ '' Back to opponent'') (miPrefix @ ''back'')]])"

section \<open>Registration\<close>

definition new_match :: "i64 \<Rightarrow> i64 \<Rightarrow> i64 \<Rightarrow> u32 \<Rightarrow> u32 \<Rightarrow> i64 \<Rightarrow> bool \<Rightarrow> time \<Rightarrow> u64 \<Rightarrow> Match" where
  "new_match gid a b s1 s2 by isAdmin now i =
     \<lparr>m_GroupID = gid, m_MatchID = i, m_Player1ID = a, m_Player2ID = b, m_Player1Score = s1,
      m_Player2Score = s2, m_RegisteredBy = by,
      m_Status = (if isAdmin then MatchStatusApproved else MatchStatusPending),
      m_PlayedAt = now, m_CreatedAt = now\<rparr>"

definition detachedRefreshStatsTopic :: "Group \<Rightarrow> world \<Rightarrow> world" where
  "detachedRefreshStatsTopic g w = w\<lparr>detached := detached w @ [g]\<rparr>"

definition own_confirmation :: "i64 \<Rightarrow> u64 \<Rightarrow> i64 \<Rightarrow> time \<Rightarrow> MatchConfirmation" where
  "own_confirmation gid i tid now =
     \<lparr>c_GroupID = gid, c_MatchID = i, c_TelegramID = tid, c_ConfirmedAt = now\<rparr>"

text \<open>\<open>isAdmin, _ := h.M.IsChatAdmin(...)\<close>: an interface error answers \<open>false\<close>.\<close>

definition registerInteractiveMatch ::
  "env \<Rightarrow> Group \<Rightarrow> i64 \<Rightarrow> i64 \<Rightarrow> u32 \<Rightarrow> u32 \<Rightarrow> world \<Rightarrow> (string + string \<times> Button list list) \<times> world" where
  "registerInteractiveMatch e g owner opp s1 s2 w =
     (if owner = opp then (Inl ''self-play not allowed'', w)
      else
        let (isAdmin, w1) = isChatAdmin e (g_GroupID g) owner w;
            now = e_now e;
            (i, st2) = AllocateAndInsertMatch (g_GroupID g) (new_match (g_GroupID g) owner opp s1 s2 owner isAdmin now) (st w1);
            w2 = w1\<lparr>st := st2\<rparr>;
            (text, w3) = renderMatch e (g_GroupID g) (new_match 0 owner opp s1 s2 owner isAdmin now i)
              (if isAdmin then ''registered'' else ''pending'') w2
        in if isAdmin then (Inr (text, []), detachedRefreshStatsTopic g w3)
           else
             (Inr (text, [[mkButton ''Confirm'' (cbConfirmPrefix @ groupMatchPayload (g_GroupID g) i),
                           mkButton ''Cancel'' (cbCancelPrefix @ groupMatchPayload (g_GroupID g) i)]]),
              upd_st (confirmRepo_Insert (own_confirmation (g_GroupID g) i owner now)) w3))"

section \<open>Taps\<close>

text \<open>Calls whose error is the result; errors are kept as their texts, which is all the caller uses.\<close>

definition act_text :: "env \<Rightarrow> mcall \<Rightarrow> world \<Rightarrow> string option \<times> world" where
  "act_text e c w = (let (r, w1) = m_act e c w in (map_option merr_text r, w1))"

definition ack :: "env \<Rightarrow> CallbackQuery \<Rightarrow> string \<Rightarrow> matchDraft \<Rightarrow> world \<Rightarrow> string option \<times> matchDraft \<times> world" where
  "ack e q toast d w = (let (r, w1) = act_text e (AnswerCallback (cq_ID q) toast) w in (r, d, w1))"

text \<open>The two calls run concurrently; the error of the edit is the result, that of the ack is logged.\<close>

definition editAndAck ::
  "env \<Rightarrow> CallbackQuery \<Rightarrow> Message \<Rightarrow> string \<times> Button list list \<Rightarrow> string \<Rightarrow> matchDraft \<Rightarrow> world \<Rightarrow> string option \<times> matchDraft \<times> world" where
  "editAndAck e q m v toast d w =
     (let edit = EditKeyboardGridHTML (ch_ID (msg_Chat m)) (msg_MessageID m) (fst v) (snd v);
          answer = AnswerCallback (cq_ID q) toast
      in if e_ackFirst e
         then let (_, w1) = m_act e answer w; (r, w2) = act_text e edit w1 in (r, d, w2)
         else let (r, w1) = act_text e edit w; (_, w2) = m_act e answer w1 in (r, d, w2))"

definition showOpponents ::
  "env \<Rightarrow> CallbackQuery \<Rightarrow> Message \<Rightarrow> matchDraft \<Rightarrow> world \<Rightarrow> string option \<times> matchDraft \<times> world" where
  "showOpponents e q m d w =
     (case renderOpponentPicker (st w) (ch_ID (msg_Chat m)) d of
        (None, d1) \<Rightarrow> ack e q [] d1 w
      | (Some v, d1) \<Rightarrow> editAndAck e q m v [] d1 w)"

definition tapCancel ::
  "env \<Rightarrow> CallbackQuery \<Rightarrow> Message \<Rightarrow> matchDraft \<Rightarrow> world \<Rightarrow> string option \<times> matchDraft \<times> world" where
  "tapCancel e q m d w =
     (let w1 = dropDraft (ch_ID (msg_Chat m)) (msg_MessageID m) w;
          (r, w2) = act_text e (EditMessage (ch_ID (msg_Chat m)) (msg_MessageID m) ''/match cancelled.'') w1
      in case r of Some t \<Rightarrow> (Some (''edit: '' @ t), d, w2) | None \<Rightarrow> ack e q ''Cancelled'' d w2)"

definition tapNav ::
  "env \<Rightarrow> CallbackQuery \<Rightarrow> Message \<Rightarrow> string \<Rightarrow> matchDraft \<Rightarrow> world \<Rightarrow> string option \<times> matchDraft \<times> world" where
  "tapNav e q m arg d w =
     (case Atoi arg of
        None \<Rightarrow> ack e q [] d w
      | Some page \<Rightarrow> showOpponents e q m (d\<lparr>d_page := page, d_isScore := False\<rparr>) w)"

definition tapOpp ::
  "env \<Rightarrow> CallbackQuery \<Rightarrow> Message \<Rightarrow> string \<Rightarrow> matchDraft \<Rightarrow> world \<Rightarrow> string option \<times> matchDraft \<times> world" where
  "tapOpp e q m arg d w =
     (case ParseInt 64 arg of
        None \<Rightarrow> ack e q [] d w
      | Some v \<Rightarrow>
          let tid = word_of_int v; chat = ch_ID (msg_Chat m) in
          if tid = d_ownerID d then ack e q [] d w
          else
            let (own, w1) = (if d_ownerLabel d = [] then playerLabel e chat (d_ownerID d) w else (d_ownerLabel d, w));
                (opp, w2) = playerLabel e chat tid w1;
                d1 = d\<lparr>d_ownerLabel := own, d_oppID := tid, d_oppLabel := opp, d_isScore := True,
                       d_p1 := -1, d_p2 := -1\<rparr>
            in editAndAck e q m (renderScorePicker d1) [] d1 w2)"

definition tapBack ::
  "env \<Rightarrow> CallbackQuery \<Rightarrow> Message \<Rightarrow> matchDraft \<Rightarrow> world \<Rightarrow> string option \<times> matchDraft \<times> world" where
  "tapBack e q m d w =
     (if \<not> d_isScore d then ack e q [] d w
      else showOpponents e q m (d\<lparr>d_isScore := False, d_page := 1\<rparr>) w)"

definition tapScore ::
  "env \<Rightarrow> CallbackQuery \<Rightarrow> Message \<Rightarrow> string \<Rightarrow> matchDraft \<Rightarrow> world \<Rightarrow> string option \<times> matchDraft \<times> world" where
  "tapScore e q m arg d w =
     (if \<not> d_isScore d then ack e q [] d w
      else case SplitN2 CHR '':'' arg of
          None \<Rightarrow> ack e q [] d w
        | Some (a, b) \<Rightarrow>
            (case (Atoi a, Atoi b) of
               (Some side, Some v) \<Rightarrow>
                 if v < 0 \<or> int scoreMaxVal < v then ack e q [] d w
                 else if side = 1 then
                   let d1 = d\<lparr>d_p1 := v\<rparr> in editAndAck e q m (renderScorePicker d1) [] d1 w
                 else if side = 2 then
                   let d1 = d\<lparr>d_p2 := v\<rparr> in editAndAck e q m (renderScorePicker d1) [] d1 w
                 else ack e q [] d w
             | _ \<Rightarrow> ack e q [] d w))"

definition tapConfirm ::
  "env \<Rightarrow> CallbackQuery \<Rightarrow> Message \<Rightarrow> matchDraft \<Rightarrow> world \<Rightarrow> string option \<times> matchDraft \<times> world" where
  "tapConfirm e q m d w =
     (let chat = ch_ID (msg_Chat m) in
      if \<not> d_isScore d then ack e q [] d w
      else if d_p1 d < 0 \<or> d_p2 d < 0 then ack e q ''Pick a score for both players first.'' d w
      else if d_p1 d = d_p2 d then ack e q ''Score must have a winner.'' d w
      else case groupRepo_Get (st w) chat of
          Inl err \<Rightarrow> (Some (''group lookup: '' @ store_error_text err), d, w)
        | Inr g \<Rightarrow>
            let (r, w1) = registerInteractiveMatch e g (d_ownerID d) (d_oppID d)
                  (word_of_int (d_p1 d)) (word_of_int (d_p2 d)) w
            in case r of
                 Inl t \<Rightarrow> (Some (''registration: '' @ t), d, w1)
               | Inr (summary, rows) \<Rightarrow>
                   let w2 = dropDraft chat (msg_MessageID m) w1;
                       (_, w3) = m_act e (EditKeyboardGrid chat (msg_MessageID m) summary rows) w2
                   in ack e q ''Match registered'' d w3)"

definition dispatchTap ::
  "env \<Rightarrow> CallbackQuery \<Rightarrow> Message \<Rightarrow> matchDraft \<Rightarrow> string \<Rightarrow> world \<Rightarrow> string option \<times> matchDraft \<times> world" where
  "dispatchTap e q m d0 payload w =
     (let d = d0\<lparr>d_touchedAt := e_now e\<rparr> in
      if payload = ''cancel'' then tapCancel e q m d w
      else if payload = ''noop'' then ack e q [] d w
      else if HasPrefix payload ''nav:'' then tapNav e q m (TrimPrefix payload ''nav:'') d w
      else if HasPrefix payload ''opp:'' then tapOpp e q m (TrimPrefix payload ''opp:'') d w
      else if payload = ''back'' then tapBack e q m d w
      else if HasPrefix payload ''s:'' then tapScore e q m (TrimPrefix payload ''s:'') d w
      else if payload = ''confirm'' then tapConfirm e q m d w
      else ack e q [] d w)"

definition failTapGracefully :: "env \<Rightarrow> CallbackQuery \<Rightarrow> Message \<Rightarrow> string \<Rightarrow> world \<Rightarrow> world" where
  "failTapGracefully e q m cause w =
     (let chat = ch_ID (msg_Chat m); w1 = dropDraft chat (msg_MessageID m) w;
          text = ''/match '' @ emdash @ '' failed.'' @ nl @ ''Error: '' @ truncateText cause 300
            @ nl @ nl @ ''Run /match again to retry.'';
          (_, w2) = m_act e (EditKeyboardGrid chat (msg_MessageID m) text []) w1;
          (_, w3) = m_act e (AnswerCallback (cq_ID q) (''Error: '' @ truncateText cause 150)) w2
      in w3)"

definition handleMatchInteractiveCallback ::
  "env \<Rightarrow> CallbackQuery \<Rightarrow> string \<Rightarrow> world \<Rightarrow> hres \<times> world" where
  "handleMatchInteractiveCallback e q payload w =
     (case cq_Message q of
        None \<Rightarrow> act_res e (AnswerCallback (cq_ID q) []) w
      | Some m \<Rightarrow>
          let chat = ch_ID (msg_Chat m); i = msg_MessageID m;
              (found, w1) = loadOrRestoreDraft e chat i (msg_Text m) w
          in case found of
               None \<Rightarrow> act_res e (AnswerCallback (cq_ID q) []) w1
             | Some d \<Rightarrow>
                 if cq_From q = None \<or> usr_ID (tapper q) \<noteq> d_ownerID d
                 then act_res e (AnswerCallback (cq_ID q)
                   ''Only the person who ran /match can use these buttons.'') w1
                 else
                   let (r, d1, w2) = dispatchTap e q m d payload w1;
                       w3 = saveDraft chat i d1 w2
                   in case r of
                        None \<Rightarrow> (HNil, w3)
                      | Some cause \<Rightarrow> (HNil, failTapGracefully e q m cause w3))"

section \<open>Entry\<close>

definition startInteractiveMatch :: "env \<Rightarrow> Message \<Rightarrow> Group \<Rightarrow> world \<Rightarrow> hres \<times> world" where
  "startInteractiveMatch e m g w =
     (let d = zero_draft\<lparr>d_ownerID := usr_ID (sender m), d_page := 1, d_p1 := -1, d_p2 := -1\<rparr> in
      case renderOpponentPicker (st w) (g_GroupID g) d of
        (None, _) \<Rightarrow> reply e m ''No other participants yet. Wait for someone else to /ping or send a command in this group, then try again.'' w
      | (Some (text, rows), d1) \<Rightarrow>
          (let (r, w1) = m_send e (SendKeyboardGridHTML (g_GroupID g) (g_MatchesTopicID g) text rows) w in
           case r of
             Inl err \<Rightarrow> (HErr (EMess err), w1)
           | Inr i \<Rightarrow> (HNil, storeDraft e (g_GroupID g) i d1 w1)))"

end
