(* ===== verification/Matches.thy ===== *)
theory Matches
  imports Interactive
begin

text \<open>
  The typed \<open>/match\<close> command and the Confirm and Cancel buttons (\<open>pkg/handlers/match.go\<close>), and
  \<open>/undo\<close> (\<open>pkg/handlers/undo.go\<close>).
\<close>

section \<open>The typed command\<close>

text \<open>The two players of the tokens before the score: the author against one, or two named ones.\<close>

definition matchPlayers ::
  "env \<Rightarrow> Message \<Rightarrow> string list \<Rightarrow> world \<Rightarrow> (string + matchPlayer \<times> matchPlayer) \<times> world" where
  "matchPlayers e m tokens w =
     (let chat = ch_ID (msg_Chat m) in
      case tokens of
        [a, _] \<Rightarrow>
          let (d, w1) = displayFor e chat (usr_ID (sender m)) (usr_Username (sender m)) w;
              (r, w2) = resolveMatchToken e chat a w1
          in (case r of Inl t \<Rightarrow> Inl t
              | Inr q \<Rightarrow> Inr (\<lparr>mp_TelegramID = usr_ID (sender m), mp_Display = d, mp_Note = []\<rparr>, q), w2)
      | [a, b, _] \<Rightarrow>
          let (r1, w1) = resolveMatchToken e chat a w in
          (case r1 of
             Inl t \<Rightarrow> (Inl t, w1)
           | Inr p \<Rightarrow>
               let (r2, w2) = resolveMatchToken e chat b w1 in
               (case r2 of Inl t \<Rightarrow> Inl t | Inr q \<Rightarrow> Inr (p, q), w2))
      | _ \<Rightarrow> (Inl [], w))"

definition ratingsNote :: "bool \<Rightarrow> string list \<Rightarrow> string" where
  "ratingsNote isAdmin missing =
     (let notes =
        (if isAdmin then [] else [''Won't affect ratings until both players confirm (or a chat admin confirms).''])
        @ (if missing = [] then []
           else [Join missing '' and '' @ '' ''
             @ (if length missing > 1 then ''must each provide an S21 nickname'' else ''must provide an S21 nickname'')
             @ '' via @school_21_identity_bot for this to count toward ratings.''])
      in if notes = [] then [] else nl @ nl @ emdash @ '' '' @ Join notes (nl @ emdash @ '' ''))"

definition playerNote :: "matchPlayer \<Rightarrow> string" where
  "playerNote p = (if mp_Note p = [] then [] else nl @ mp_Note p)"

definition missingNickname :: "env \<Rightarrow> matchPlayer \<Rightarrow> world \<Rightarrow> string list \<times> world" where
  "missingNickname e p w =
     (let (has, w1) = hasNickname e (mp_TelegramID p) w in (if has then [] else [mp_Display p], w1))"

text \<open>Everything after the players are known: insert the row, announce it, ask for confirmation.\<close>

definition registerMatch ::
  "env \<Rightarrow> Message \<Rightarrow> Group \<Rightarrow> matchPlayer \<Rightarrow> matchPlayer \<Rightarrow> Score \<Rightarrow> world \<Rightarrow> hres \<times> world" where
  "registerMatch e m g p q score w =
     (let (isAdmin, w1) = isChatAdmin e (ch_ID (msg_Chat m)) (usr_ID (sender m)) w;
          now = e_now e; gid = g_GroupID g; by = usr_ID (sender m);
          (i, st2) = AllocateAndInsertMatch gid
            (new_match gid (mp_TelegramID p) (mp_TelegramID q) (P1 score) (P2 score) by isAdmin now) (st w1);
          w2 = w1\<lparr>st := st2\<rparr>;
          (text0, w3) = renderMatch e gid
            (new_match 0 (mp_TelegramID p) (mp_TelegramID q) (P1 score) (P2 score) by isAdmin now i)
            (if isAdmin then ''registered'' else ''pending'') w2;
          text = text0 @ playerNote p @ playerNote q;
          (m1, w4) = missingNickname e p w3;
          (m2, w5) = missingNickname e q w4;
          full = text @ ratingsNote isAdmin (m1 @ m2)
      in if isAdmin then
           (let (r, w6) = m_send e (SendMessage gid (g_MatchesTopicID g) full) w5 in
            case r of Inl err \<Rightarrow> (HErr (EMess err), w6)
            | Inr _ \<Rightarrow> (HNil, detachedRefreshStatsTopic g w6))
         else
           send_res e (SendKeyboard gid (g_MatchesTopicID g) full
               ''Confirm'' (cbConfirmPrefix @ groupMatchPayload gid i)
               ''Cancel'' (cbCancelPrefix @ groupMatchPayload gid i))
             (upd_st (confirmRepo_Insert (own_confirmation gid i by now)) w5))"

definition typedMatch :: "env \<Rightarrow> Message \<Rightarrow> Group \<Rightarrow> string \<Rightarrow> world \<Rightarrow> hres \<times> world" where
  "typedMatch e m g args w =
     (let tokens = Fields args in
      if length tokens < 2 \<or> 3 < length tokens then
        reply e m ''Usage: /match [@player1] @player2 <s1>-<s2>, or /match alone for an interactive picker.'' w
      else case ParseScore (last tokens) of
          Inl err \<Rightarrow> reply e m (score_error_text err) w
        | Inr score \<Rightarrow>
            let (r, w1) = matchPlayers e m tokens w in
            (case r of
               Inl t \<Rightarrow> reply e m t w1
             | Inr (p, q) \<Rightarrow>
                 if mp_TelegramID p = mp_TelegramID q then reply e m ''A player cannot play themselves.'' w1
                 else registerMatch e m g p q score w1))"

definition handleMatch :: "env \<Rightarrow> Message \<Rightarrow> string \<Rightarrow> world \<Rightarrow> hres \<times> world" where
  "handleMatch e m args w =
     (case groupRepo_Get (st w) (ch_ID (msg_Chat m)) of
        Inl _ \<Rightarrow> (HNil, w)
      | Inr g \<Rightarrow>
          if \<not> FullyConfigured g then
            reply e m ''Topics not configured. Admin: run /set_matches_topic and /set_stats_topic.'' w
          else if msg_MessageThreadID m \<noteq> g_MatchesTopicID g then
            reply e m ''/match must be run in the matches topic of this group.'' w
          else if TrimSpace args = [] then startInteractiveMatch e m g w
          else typedMatch e m g args w)"

section \<open>Confirm and Cancel\<close>

definition answer_res :: "env \<Rightarrow> CallbackQuery \<Rightarrow> string \<Rightarrow> world \<Rightarrow> hres \<times> world" where
  "answer_res e q toast w = act_res e (AnswerCallback (cq_ID q) toast) w"

text \<open>\<open>q.From.ID != Player1ID && q.From.ID != Player2ID && !h.isChatAdmin(...)\<close>, negated.\<close>

definition mayDecide :: "env \<Rightarrow> i64 \<Rightarrow> Match \<Rightarrow> i64 \<Rightarrow> world \<Rightarrow> bool \<times> world" where
  "mayDecide e gid match user w =
     (if user = m_Player1ID match \<or> user = m_Player2ID match then (True, w) else isChatAdmin e gid user w)"

text \<open>A tap on an inaccessible message (\<open>q.Message == nil\<close>) dereferences nil after the status write.\<close>

definition approveMatch ::
  "env \<Rightarrow> CallbackQuery \<Rightarrow> Group \<Rightarrow> i64 \<Rightarrow> u64 \<Rightarrow> Match \<Rightarrow> string \<Rightarrow> world \<Rightarrow> hres \<times> world" where
  "approveMatch e q g gid mid match toast w =
     (let w1 = upd_st (\<lambda>s. snd (matchRepo_UpdateStatus (gid, mid) MatchStatusApproved s)) w in
      case cq_Message q of
        None \<Rightarrow> (HPanic, w1)
      | Some msg \<Rightarrow>
          let (text, w2) = renderMatch e gid match ''confirmed'' w1;
              (_, w3) = m_act e (EditKeyboard (ch_ID (msg_Chat msg)) (msg_MessageID msg) text []) w2
          in answer_res e q toast (detachedRefreshStatsTopic g w3))"

definition confirmButtons :: "string \<Rightarrow> bool \<Rightarrow> bool \<Rightarrow> Button list" where
  "confirmButtons payload done1 done2 =
     (if done1 then [] else [mkButton ''Confirm'' (cbConfirmPrefix @ payload)])
     @ (if done2 then [] else [mkButton ''Confirm'' (cbConfirmPrefix @ payload)])
     @ [mkButton ''Cancel'' (cbCancelPrefix @ payload)]"

definition handleConfirmTap :: "env \<Rightarrow> CallbackQuery \<Rightarrow> string \<Rightarrow> world \<Rightarrow> hres \<times> world" where
  "handleConfirmTap e q payload w =
     (case parseGroupMatchPayload payload of
        None \<Rightarrow> answer_res e q [] w
      | Some (gid, mid) \<Rightarrow>
          (case matchRepo_Get (st w) (gid, mid) of
             Inl _ \<Rightarrow> answer_res e q [] w
           | Inr match \<Rightarrow>
               let user = usr_ID (tapper q); (ok, w1) = mayDecide e gid match user w in
               if \<not> ok then answer_res e q [] w1
               else if m_Status match \<noteq> MatchStatusPending then answer_res e q [] w1
               else
                 let w2 = upd_st (confirmRepo_Insert (own_confirmation gid mid user (e_now e))) w1;
                     g = (case groupRepo_Get (st w2) gid of Inl _ \<Rightarrow> zero_Group | Inr g \<Rightarrow> g);
                     (admin, w3) = isChatAdmin e gid user w2
                 in if admin then approveMatch e q g gid mid match ''Approved by admin'' w3
                    else
                      let confirmed = map c_TelegramID (confirmRepo_ListForMatch (st w3) (gid, mid));
                          done1 = (m_Player1ID match \<in> set confirmed);
                          done2 = (m_Player2ID match \<in> set confirmed)
                      in if done1 \<and> done2 then approveMatch e q g gid mid match ''Confirmed'' w3
                         else (case cq_Message q of
                                 None \<Rightarrow> (HPanic, w3)
                               | Some msg \<Rightarrow>
                                   let (_, w4) = m_act e (EditKeyboard (ch_ID (msg_Chat msg)) (msg_MessageID msg)
                                         (msg_Text msg) (confirmButtons payload done1 done2)) w3
                                   in answer_res e q ''Confirmed'' w4)))"

definition handleCancelTap :: "env \<Rightarrow> CallbackQuery \<Rightarrow> string \<Rightarrow> world \<Rightarrow> hres \<times> world" where
  "handleCancelTap e q payload w =
     (case parseGroupMatchPayload payload of
        None \<Rightarrow> answer_res e q [] w
      | Some (gid, mid) \<Rightarrow>
          (case matchRepo_Get (st w) (gid, mid) of
             Inl _ \<Rightarrow> answer_res e q [] w
           | Inr match \<Rightarrow>
               let (ok, w1) = mayDecide e gid match (usr_ID (tapper q)) w in
               if \<not> ok then answer_res e q [] w1
               else if m_Status match \<noteq> MatchStatusPending then answer_res e q [] w1
               else
                 let (r, st2) = matchRepo_Delete (gid, mid) (st w1); w2 = w1\<lparr>st := st2\<rparr> in
                 if r \<noteq> None \<and> r \<noteq> Some ErrNotFound then (HErr (EStore (the r)), w2)
                 else (case cq_Message q of
                         None \<Rightarrow> (HPanic, w2)
                       | Some msg \<Rightarrow>
                           let (_, w3) = m_act e (EditMessage (ch_ID (msg_Chat msg)) (msg_MessageID msg)
                                 (''Match #'' @ fmt_u64 mid @ '' cancelled.'')) w2
                           in answer_res e q ''Cancelled'' w3)))"

section \<open>Undo and restore\<close>

definition toggledStatus :: "MatchStatus \<Rightarrow> MatchStatus" where
  "toggledStatus s = (if s = MatchStatusApproved then MatchStatusUndone else MatchStatusApproved)"

definition toggleMatchAndAnnounce :: "env \<Rightarrow> Message \<Rightarrow> Group \<Rightarrow> Match \<Rightarrow> world \<Rightarrow> hres \<times> world" where
  "toggleMatchAndAnnounce e m g match w =
     (let newStatus = toggledStatus (m_Status match);
          verb = (if m_Status match = MatchStatusApproved then ''undone'' else ''restored'');
          k = (g_GroupID g, m_MatchID match);
          (r, st1) = matchRepo_UpdateStatus k newStatus (st w); w1 = w\<lparr>st := st1\<rparr>
      in if r \<noteq> None \<and> r \<noteq> Some ErrNotFound then (HErr (EStore (the r)), w1)
         else
           let w2 = upd_st (undoRepo_DeleteForMatch k) w1;
               (_, w3) = m_act e (SendReaction (ch_ID (msg_Chat m)) (msg_MessageID m) thumbs_up) w2;
               (text, w4) = renderMatch e (g_GroupID g) (match\<lparr>m_Status := newStatus\<rparr>) verb w3;
               (res, w5) = reply e m text w4
           in if res = HNil then (HNil, detachedRefreshStatsTopic g w5) else (res, w5))"

definition undoTarget :: "Message \<Rightarrow> string \<Rightarrow> u64 option" where
  "undoTarget m args =
     (case ExtractMatchID args of
        Some i \<Rightarrow> Some i
      | None \<Rightarrow> (case msg_ReplyTo m of None \<Rightarrow> None | Some r \<Rightarrow> ExtractMatchID (msg_Text r)))"

text \<open>The part after the match is found.\<close>

definition requestUndo :: "env \<Rightarrow> Message \<Rightarrow> Group \<Rightarrow> u64 \<Rightarrow> Match \<Rightarrow> world \<Rightarrow> hres \<times> world" where
  "requestUndo e m g mid match w =
     (let user = usr_ID (sender m); gid = g_GroupID g;
          isParticipant = (m_Player1ID match = user \<or> m_Player2ID match = user);
          (isAdmin, w1) = isChatAdmin e (ch_ID (msg_Chat m)) user w
      in if \<not> isParticipant \<and> \<not> isAdmin then
           reply e m ''Only match participants or group admins can undo matches.'' w1
         else if m_Status match \<noteq> MatchStatusApproved \<and> m_Status match \<noteq> MatchStatusUndone then
           reply e m ''Only APPROVED matches can be undone.'' w1
         else if list_ex (\<lambda>u. u_TelegramID u = user \<and> \<not> isAdmin) (undoRepo_ListForMatch (st w1) (gid, mid)) then
           reply e m (''Undo request for Match #'' @ fmt_u64 mid @ '' cancelled.'')
             (upd_st (\<lambda>s. snd (undoRepo_Delete (gid, mid, user) s)) w1)
         else
           let w2 = upd_st (undoRepo_Insert \<lparr>u_GroupID = gid, u_MatchID = mid, u_TelegramID = user,
                 u_RequestedAt = e_now e\<rparr>) w1
           in if isAdmin then toggleMatchAndAnnounce e m g match w2
              else
                let have = map u_TelegramID (undoRepo_ListForMatch (st w2) (gid, mid)) in
                if m_Player1ID match \<in> set have \<and> m_Player2ID match \<in> set have
                then toggleMatchAndAnnounce e m g match w2
                else
                  let (_, w3) = m_act e (SendReaction (ch_ID (msg_Chat m)) (msg_MessageID m) thumbs_up) w2
                  in reply e m (''Undo requested for Match #'' @ fmt_u64 mid @ ''. Waiting for other player.'') w3)"

definition handleUndo :: "env \<Rightarrow> Message \<Rightarrow> string \<Rightarrow> world \<Rightarrow> hres \<times> world" where
  "handleUndo e m args w =
     (case groupRepo_Get (st w) (ch_ID (msg_Chat m)) of
        Inl _ \<Rightarrow> (HNil, w)
      | Inr g \<Rightarrow>
          if \<not> FullyConfigured g then (HNil, w)
          else if msg_MessageThreadID m \<noteq> g_MatchesTopicID g then
            reply e m ''/undo must be run in the matches topic of this group.'' w
          else case undoTarget m args of
              None \<Rightarrow> reply e m ''Could not find match ID. Use /undo #<id> or reply to a match message.'' w
            | Some mid \<Rightarrow>
                (case matchRepo_Get (st w) (g_GroupID g, mid) of
                   Inl _ \<Rightarrow> reply e m (''Match #'' @ fmt_u64 mid @ '' not found in this group.'') w
                 | Inr match \<Rightarrow> requestUndo e m g mid match w))"

end
