(* ===== verification/Rankings.thy ===== *)
theory Rankings
  imports Matches
begin

text \<open>
  The stats topic (\<open>pkg/handlers/rankings.go\<close>): which matches count, the rendering of the
  leaderboards and of the per-player stats, and the upkeep of the three messages.
\<close>

definition MaxRankings :: nat where "MaxRankings = 100"

section \<open>Formatting and scanning\<close>

text \<open>The verb \<open>%.0f\<close>: the integer nearest to the value, ties to even.\<close>

definition fmt_f0 :: "f64 \<Rightarrow> string" where
  "fmt_f0 x = (case x of
     NaN \<Rightarrow> ''NaN'' | PInf \<Rightarrow> ''+Inf'' | NInf \<Rightarrow> ''-Inf''
   | Fin a \<Rightarrow> if a < 0 then CHR ''-'' # dec (nat (rne (- a))) else dec (nat (rne a)))"

text \<open>
  \<open>fmt.Sscanf(s, "%d", &d)\<close> with \<open>d\<close> zero before: leading white space but no newline is
  skipped, then a signed decimal number is read; what follows it is not looked at. \<open>d\<close> stays
  zero on every error.
\<close>

function skip_space :: "string \<Rightarrow> string option" where
  "skip_space s =
     (if s \<noteq> [] \<and> hd s = CHR 0x0A then None
      else if space_len s = 0 then Some s
      else skip_space (drop (space_len s) s))"
  by pat_completeness auto
termination
proof (relation "measure length")
  fix s :: string
  assume "space_len s \<noteq> 0"
  then show "(drop (space_len s) s, s) \<in> measure length"
    using space_len_le [of s] by simp
qed simp

declare skip_space.simps [simp del]

definition Sscanf_d :: "string \<Rightarrow> int" where
  "Sscanf_d s =
     (case skip_space s of
        None \<Rightarrow> 0
      | Some t \<Rightarrow>
          let signed = (t \<noteq> [] \<and> (hd t = CHR ''+'' \<or> hd t = CHR ''-''));
              sign = (if signed then [hd t] else []);
              ds = takeWhile is_digit (if signed then tl t else t)
          in if ds = [] then 0
             else case ParseInt 64 (sign @ ds) of None \<Rightarrow> 0 | Some d \<Rightarrow> d)"

text \<open>\<open>strings.TrimRight(s, "\n")\<close>.\<close>

definition TrimRightNl :: "string \<Rightarrow> string" where
  "TrimRightNl s = rev (dropWhile (\<lambda>c. c = CHR 0x0A) (rev s))"

section \<open>Engines and ratings\<close>

definition periodDaysOf :: "env \<Rightarrow> world \<Rightarrow> int" where
  "periodDaysOf e w =
     (case settingsRepo_Get (st w) ''rating_period_days'' of
        Inl _ \<Rightarrow> e_RatingPeriodDaysDefault e
      | Inr s \<Rightarrow> let d = Sscanf_d (s_Value s) in if 0 < d then d else e_RatingPeriodDaysDefault e)"

definition buildEngines :: "env \<Rightarrow> world \<Rightarrow> engine \<times> engine" where
  "buildEngines e w = (ELO, NewGlicko2 (periodDaysOf e w))"

fun engine_Compute :: "libm \<Rightarrow> engine \<Rightarrow> RMatch list \<Rightarrow> (rating_error + PlayerRatings) option" where
  "engine_Compute L ELO ms = Some (ELO_Compute L ms)"
| "engine_Compute L (Glicko2 d) ms = Glicko2_Compute L d ms"

text \<open>The map \<open>nicknamed\<close>: each player of the list is looked up once, in order of appearance.\<close>

fun nicknames_for :: "env \<Rightarrow> i64 list \<Rightarrow> (i64, bool) gomap \<Rightarrow> world \<Rightarrow> (i64, bool) gomap \<times> world" where
  "nicknames_for e [] seen w = (seen, w)"
| "nicknames_for e (p # ps) seen w =
     (if mget seen p \<noteq> None then nicknames_for e ps seen w
      else let (has, w1) = hasNickname e p w in nicknames_for e ps (mput p has seen) w1)"

definition rating_input :: "Match \<Rightarrow> RMatch" where
  "rating_input m = \<lparr>rm_Player1ID = fmt_i64 (m_Player1ID m), rm_Player2ID = fmt_i64 (m_Player2ID m),
     rm_Player1Score = uint (m_Player1Score m), rm_Player2Score = uint (m_Player2Score m),
     rm_PlayedAt = m_PlayedAt m\<rparr>"

definition counts_in :: "(i64, bool) gomap \<Rightarrow> Match \<Rightarrow> bool" where
  "counts_in nicknamed m \<longleftrightarrow> m_Status m = MatchStatusApproved \<and>
     mget nicknamed (m_Player1ID m) = Some True \<and> mget nicknamed (m_Player2ID m) = Some True"

definition ratingMatches :: "env \<Rightarrow> Group \<Rightarrow> world \<Rightarrow> RMatch list \<times> world" where
  "ratingMatches e g w =
     (let ms = matchRepo_ListByGroup (st w) (g_GroupID g);
          (nicknamed, w1) = nicknames_for e (concat (map (\<lambda>m. [m_Player1ID m, m_Player2ID m]) ms)) [] w
      in (map rating_input (filter (counts_in nicknamed) ms), w1))"

text \<open>\<open>None\<close>: the computation does not return (a diverging Glicko-2 period loop).\<close>

definition computeRatingsFor ::
  "env \<Rightarrow> Group \<Rightarrow> engine \<Rightarrow> world \<Rightarrow> (rating_error + PlayerRatings) option \<times> world" where
  "computeRatingsFor e g eng w =
     (let (input, w1) = ratingMatches e g w in (engine_Compute (e_libm e) eng input, w1))"

section \<open>Leaderboards\<close>

definition ranking_line :: "nat \<Rightarrow> string \<Rightarrow> Rating \<Rightarrow> string" where
  "ranking_line i display r =
     dec (i + 1) @ ''. '' @ display @ '' '' @ emdash @ '' '' @ fmt_f0 (rt_Rating r)
     @ (if f_lt (Fin 0) (rt_Deviation r) then '' (RD '' @ fmt_f0 (rt_Deviation r) @ '')'' else []) @ nl"

definition player_of_id :: "string \<Rightarrow> i64" where
  "player_of_id s = (case ParseInt 64 s of None \<Rightarrow> 0 | Some v \<Rightarrow> word_of_int v)"

definition rating_at :: "PlayerRatings \<Rightarrow> string \<Rightarrow> Rating" where
  "rating_at pr pid = (case mget pr pid of None \<Rightarrow> zero_Rating | Some r \<Rightarrow> r)"

fun ranking_lines :: "env \<Rightarrow> i64 \<Rightarrow> PlayerRatings \<Rightarrow> nat \<Rightarrow> string list \<Rightarrow> world \<Rightarrow> string \<times> world" where
  "ranking_lines e gid pr i [] w = ([], w)"
| "ranking_lines e gid pr i (pid # ids) w =
     (let (display, w1) = playerLabel e gid (player_of_id pid) w;
          (rest, w2) = ranking_lines e gid pr (i + 1) ids w1
      in (ranking_line i display (rating_at pr pid) @ rest, w2))"

text \<open>\<open>None\<close> where the engine diverges; an engine error is returned.\<close>

definition renderRankings :: "env \<Rightarrow> Group \<Rightarrow> engine \<Rightarrow> string \<Rightarrow> world \<Rightarrow> (herr + string) \<times> world" where
  "renderRankings e g eng label w =
     (let (r, w1) = computeRatingsFor e g eng w in
      case r of
        None \<Rightarrow> (Inl EDiverges, w1)
      | Some (Inl err) \<Rightarrow> (Inl (ERating err), w1)
      | Some (Inr pr) \<Rightarrow>
          if pr = [] then
            (Inr (label @ nl @ nl @ ''No matches counted yet. Once two players with S21 nicknames play and approve a match, this list updates automatically.''), w1)
          else
            let (body, w2) = ranking_lines e (g_GroupID g) pr 0 (take MaxRankings (Sorted pr)) w1
            in (Inr (TrimRightNl (label @ nl @ body)), w2))"

section \<open>Combined statistics\<close>

definition f_of_int :: "int \<Rightarrow> f64" where "f_of_int n = enc (of_int n)"

definition win_rate :: "Rating \<Rightarrow> string" where
  "win_rate r =
     (if 0 < rt_Wins r + rt_Losses r
      then fmt_f0 (f_div (f_mul (lit 100) (f_of_int (rt_Wins r))) (f_of_int (rt_Wins r + rt_Losses r))) @ ''%''
      else emdash)"

definition stats_entry :: "string \<Rightarrow> Rating \<Rightarrow> Rating option \<Rightarrow> string" where
  "stats_entry display r gl =
     nl @ display @ nl
     @ ''Matches: '' @ Itoa (rt_GamesPlayed r) @ '' | Wins: '' @ Itoa (rt_Wins r) @ '' | Losses: ''
     @ Itoa (rt_Losses r) @ '' | Win Rate: '' @ win_rate r @ nl
     @ ''ELO: '' @ fmt_f0 (rt_Rating r)
     @ (case gl of None \<Rightarrow> []
        | Some x \<Rightarrow> nl @ ''Glicko-2: '' @ fmt_f0 (rt_Rating x) @ '' (RD '' @ fmt_f0 (rt_Deviation x) @ '')'')
     @ nl"

fun stats_entries ::
  "env \<Rightarrow> i64 \<Rightarrow> PlayerRatings \<Rightarrow> PlayerRatings \<Rightarrow> string list \<Rightarrow> world \<Rightarrow> string \<times> world" where
  "stats_entries e gid elo gl [] w = ([], w)"
| "stats_entries e gid elo gl (pid # ids) w =
     (let (display, w1) = playerLabel e gid (player_of_id pid) w;
          (rest, w2) = stats_entries e gid elo gl ids w1
      in (stats_entry display (rating_at elo pid) (mget gl pid) @ rest, w2))"

definition renderCombinedStats :: "env \<Rightarrow> Group \<Rightarrow> engine \<Rightarrow> engine \<Rightarrow> world \<Rightarrow> (herr + string) \<times> world" where
  "renderCombinedStats e g eloEng glickoEng w =
     (let (r1, w1) = computeRatingsFor e g eloEng w in
      case r1 of
        None \<Rightarrow> (Inl EDiverges, w1)
      | Some (Inl err) \<Rightarrow> (Inl (ERating err), w1)
      | Some (Inr elo) \<Rightarrow>
          let (r2, w2) = computeRatingsFor e g glickoEng w1 in
          (case r2 of
             None \<Rightarrow> (Inl EDiverges, w2)
           | Some (Inl err) \<Rightarrow> (Inl (ERating err), w2)
           | Some (Inr gl) \<Rightarrow>
               if elo = [] \<and> gl = [] then
                 (Inr (''Stats'' @ nl @ nl @ ''No matches counted yet. Per-player stats will appear here once players with S21 nicknames approve their first match.''), w2)
               else
                 let (body, w3) = stats_entries e (g_GroupID g) elo gl (take MaxRankings (Sorted elo)) w2
                 in (Inr (TrimRightNl (''Stats'' @ nl @ body)), w3)))"

section \<open>The three messages\<close>

text \<open>The id of the message and whether it is a new one; an edit that fails for another reason
  than a missing message counts as done.\<close>

definition upsertMessage ::
  "env \<Rightarrow> i64 \<Rightarrow> i64 \<Rightarrow> i64 \<Rightarrow> string \<Rightarrow> bool \<Rightarrow> world \<Rightarrow> (merr + i64 \<times> bool) \<times> world" where
  "upsertMessage e gid topic stored text pin w =
     (let (kept, w1) =
        (if stored = 0 then (False, w)
         else let (r, w1) = m_act e (EditMessage gid stored text) w in
              (case r of None \<Rightarrow> True | Some (ErrNotFoundM _) \<Rightarrow> False | Some _ \<Rightarrow> True, w1))
      in if kept then (Inr (stored, False), w1)
         else
           let (r, w2) = m_send e (SendMessage gid topic text) w1 in
           (case r of
              Inl err \<Rightarrow> (Inl err, w2)
            | Inr i \<Rightarrow> (Inr (i, True), if pin then snd (m_act e (PinMessage gid i) w2) else w2)))"

text \<open>The ids of three retired messages: each one that is set is deleted and cleared.\<close>

definition dropOrphan :: "env \<Rightarrow> i64 \<Rightarrow> i64 \<Rightarrow> world \<Rightarrow> world" where
  "dropOrphan e gid orphan w = (if orphan \<noteq> 0 then snd (m_act e (DeleteMessage gid orphan) w) else w)"

definition has_orphans :: "Group \<Rightarrow> bool" where
  "has_orphans g \<longleftrightarrow> g_RankingsMessageID g \<noteq> 0 \<or> g_StatsELOMessageID g \<noteq> 0 \<or> g_StatsGlickoMessageID g \<noteq> 0"

definition dropOrphans :: "env \<Rightarrow> Group \<Rightarrow> world \<Rightarrow> Group \<times> world" where
  "dropOrphans e g w =
     (g\<lparr>g_RankingsMessageID := 0, g_StatsELOMessageID := 0, g_StatsGlickoMessageID := 0\<rparr>,
      dropOrphan e (g_GroupID g) (g_StatsGlickoMessageID g)
        (dropOrphan e (g_GroupID g) (g_StatsELOMessageID g)
          (dropOrphan e (g_GroupID g) (g_RankingsMessageID g) w)))"

text \<open>The upkeep once the three texts are there.\<close>

definition upkeep :: "env \<Rightarrow> Group \<Rightarrow> string \<Rightarrow> string \<Rightarrow> string \<Rightarrow> world \<Rightarrow> hres \<times> world" where
  "upkeep e g0 eloR glR statsText w =
     (let (g, w0) = dropOrphans e g0 w; gid = g_GroupID g; topic = g_StatsTopicID g;
          (r1, w1) = upsertMessage e gid topic (g_RankingsELOMessageID g) eloR False w0
      in case r1 of
           Inl err \<Rightarrow> (HErr (EMess err), w1)
         | Inr (i1, c1) \<Rightarrow>
             let (r2, w2) = upsertMessage e gid topic (g_RankingsGlickoMessageID g) glR False w1 in
             (case r2 of
                Inl err \<Rightarrow> (HErr (EMess err), w2)
              | Inr (i2, c2) \<Rightarrow>
                  let (r3, w3) = upsertMessage e gid topic (g_StatsMessageID g) statsText True w2 in
                  (case r3 of
                     Inl err \<Rightarrow> (HErr (EMess err), w3)
                   | Inr (i3, c3) \<Rightarrow>
                       let g1 = (if c1 then g\<lparr>g_RankingsELOMessageID := i1\<rparr> else g);
                           g2 = (if c2 then g1\<lparr>g_RankingsGlickoMessageID := i2\<rparr> else g1);
                           g3 = (if c3 then g2\<lparr>g_StatsMessageID := i3\<rparr> else g2)
                       in (HNil, if has_orphans g0 \<or> c1 \<or> c2 \<or> c3 then upd_st (groupRepo_Upsert g3) w3 else w3))))"

definition refreshStatsTopic :: "env \<Rightarrow> Group \<Rightarrow> world \<Rightarrow> hres \<times> world" where
  "refreshStatsTopic e g w =
     (if \<not> FullyConfigured g then (HNil, w)
      else
        let (eloEng, glickoEng) = buildEngines e w;
            (r1, w1) = renderRankings e g eloEng ''ELO Rankings'' w
        in case r1 of
             Inl err \<Rightarrow> (HErr err, w1)
           | Inr eloR \<Rightarrow>
               let (r2, w2) = renderRankings e g glickoEng ''Glicko-2 Rankings'' w1 in
               (case r2 of
                  Inl err \<Rightarrow> (HErr err, w2)
                | Inr glR \<Rightarrow>
                    let (r3, w3) = renderCombinedStats e g eloEng glickoEng w2 in
                    (case r3 of
                       Inl err \<Rightarrow> (HErr err, w3)
                     | Inr statsText \<Rightarrow> upkeep e g eloR glR statsText w3)))"

text \<open>One of the goroutines spawned before runs to its end.\<close>

definition runDetached :: "env \<Rightarrow> nat \<Rightarrow> world \<Rightarrow> world" where
  "runDetached e i w =
     (if i < length (detached w)
      then snd (refreshStatsTopic e (detached w ! i)
             (w\<lparr>detached := take i (detached w) @ drop (Suc i) (detached w)\<rparr>))
      else w)"

end
