(* ===== verification/GroupConfig.thy ===== *)
theory GroupConfig
  imports Rankings
begin

text \<open>
  Linking and configuring a group, the membership events (\<open>pkg/handlers/group.go\<close>), and the
  refresh of the cached user names (\<open>pkg/handlers/refresh.go\<close>).
\<close>

section \<open>Linking a group\<close>

definition isSupergroup :: "Chat \<Rightarrow> bool" where
  "isSupergroup c \<longleftrightarrow> ch_Type c = ''supergroup'' \<and> ch_IsForum c"

definition configRefusal :: string where
  "configRefusal = ''Only group admins can configure the group.''"

text \<open>The campus of the first stored administrator, empty without one.\<close>

definition campusStamp :: "memstore \<Rightarrow> string \<times> string" where
  "campusStamp s = (case adminRepo_List s of [] \<Rightarrow> ([], []) | a # _ \<Rightarrow> (a_CampusID a, a_CampusName a))"

definition newGroup :: "i64 \<Rightarrow> i64 \<Rightarrow> string \<Rightarrow> string \<Rightarrow> time \<Rightarrow> Group" where
  "newGroup gid admin campusID campusName now = zero_Group\<lparr>g_GroupID := gid, g_CampusID := campusID,
     g_CampusName := campusName, g_AdminTelegramID := admin, g_ConfirmationTimeoutHours := 24,
     g_CreatedAt := now\<rparr>"

definition handleBotRegisterGroup :: "env \<Rightarrow> Message \<Rightarrow> world \<Rightarrow> hres \<times> world" where
  "handleBotRegisterGroup e m w =
     (let chat = ch_ID (msg_Chat m) in
      if \<not> isSupergroup (msg_Chat m) then
        reply e m ''I only work in supergroups with forum topics enabled.'' w
      else
        let (admin, w1) = isChatAdmin e chat (usr_ID (sender m)) w in
        if \<not> admin then reply e m configRefusal w1
        else
          let (campusID, campusName) = campusStamp (st w1) in
          (case groupRepo_Get (st w1) chat of
             Inr existing \<Rightarrow>
               reply e m (''Group is already linked ('' @ (if campusName = [] then ''this group'' else campusName) @ '').'')
                 (upd_st (groupRepo_Upsert (existing\<lparr>g_CampusID := campusID, g_CampusName := campusName\<rparr>)) w1)
           | Inl _ \<Rightarrow>
               reply e m (''Group linked to '' @ (if campusName = [] then ''ttbot'' else campusName)
                   @ ''. Now run /set_matches_topic in the matches topic and /set_stats_topic in the read-only stats topic.'')
                 (upd_st (groupRepo_Upsert (newGroup chat (usr_ID (sender m)) campusID campusName (e_now e))) w1)))"

section \<open>Topics\<close>

text \<open>The group row, or nothing after the refusal has been sent.\<close>

definition assertGroupAdmin :: "env \<Rightarrow> Message \<Rightarrow> world \<Rightarrow> Group option \<times> world" where
  "assertGroupAdmin e m w =
     (case groupRepo_Get (st w) (ch_ID (msg_Chat m)) of
        Inl _ \<Rightarrow> (None, snd (reply e m ''This group isn't linked yet. Admin: run /bot_register_group.'' w))
      | Inr g \<Rightarrow>
          let (admin, w1) = isChatAdmin e (ch_ID (msg_Chat m)) (usr_ID (sender m)) w in
          if \<not> admin then (None, snd (reply e m configRefusal w1)) else (Some g, w1))"

definition handleSetMatchesTopic :: "env \<Rightarrow> Message \<Rightarrow> world \<Rightarrow> hres \<times> world" where
  "handleSetMatchesTopic e m w =
     (case assertGroupAdmin e m w of
        (None, w1) \<Rightarrow> (HNil, w1)
      | (Some g, w1) \<Rightarrow>
          if msg_MessageThreadID m = 0 then
            reply e m ''Run this command inside the topic you want to use as the matches topic.'' w1
          else
            reply e m ''Matches topic set. /match and /undo will be accepted here.''
              (upd_st (groupRepo_Upsert (g\<lparr>g_MatchesTopicID := msg_MessageThreadID m\<rparr>)) w1))"

definition statsTopicSet :: "i64 \<Rightarrow> Group \<Rightarrow> Group" where
  "statsTopicSet topic g = g\<lparr>g_StatsTopicID := topic, g_RankingsELOMessageID := 0,
     g_RankingsGlickoMessageID := 0, g_StatsMessageID := 0\<rparr>"

definition handleSetStatsTopic :: "env \<Rightarrow> Message \<Rightarrow> world \<Rightarrow> hres \<times> world" where
  "handleSetStatsTopic e m w =
     (case assertGroupAdmin e m w of
        (None, w1) \<Rightarrow> (HNil, w1)
      | (Some g0, w1) \<Rightarrow>
          if msg_MessageThreadID m = 0 then
            reply e m ''Run this command inside the topic you want to use as the stats topic.'' w1
          else
            let g = statsTopicSet (msg_MessageThreadID m) g0;
                (r, w2) = refreshStatsTopic e g (upd_st (groupRepo_Upsert g) w1)
            in if r = HErr EDiverges then (r, w2)
               else reply e m (''Stats topic set. I posted rankings and stats messages here '' @ emdash
                 @ '' they update automatically on every match.'' @ nl
                 @ ''Tip: restrict 'Send messages' permission in this topic so only admins/bots can post.'') w2)"

section \<open>Membership events\<close>

definition welcomeText :: string where
  "welcomeText = ''Hi! A group admin can run /bot_register_group here, then /set_matches_topic and /set_stats_topic inside the relevant topics.''"

definition dispatchMyChatMember :: "env \<Rightarrow> ChatMemberUpdate \<Rightarrow> world \<Rightarrow> hres \<times> world" where
  "dispatchMyChatMember e ev w =
     (case mu_NewChatMember ev of
        None \<Rightarrow> (HNil, w)
      | Some n \<Rightarrow>
          let chat = ch_ID (mu_Chat ev) in
          if cm_Status n \<noteq> ''member'' \<and> cm_Status n \<noteq> ''administrator'' then (HNil, w)
          else if \<not> isSupergroup (mu_Chat ev) then
            let (_, w1) = m_send e (SendMessage chat 0 ''I only work in supergroups with forum topics enabled. Please enable Topics in group settings, or move me to a supergroup.'') w
            in act_res e (LeaveChat chat) w1
          else (HNil, snd (m_send e (SendMessage chat 0 welcomeText) w)))"

definition participant_of :: "i64 \<Rightarrow> User \<Rightarrow> time \<Rightarrow> Participant" where
  "participant_of gid u now = \<lparr>p_GroupID = gid, p_TelegramID = usr_ID u, p_TelegramUsername = usr_Username u,
     p_ActivatedAt = now\<rparr>"

definition dispatchChatMember :: "env \<Rightarrow> ChatMemberUpdate \<Rightarrow> world \<Rightarrow> hres \<times> world" where
  "dispatchChatMember e ev w =
     (case mu_NewChatMember ev of
        None \<Rightarrow> (HNil, w)
      | Some n \<Rightarrow>
          (case cm_User n of
             None \<Rightarrow> (HNil, w)
           | Some u \<Rightarrow>
               if cm_Status n \<noteq> ''member'' \<and> cm_Status n \<noteq> ''administrator'' \<and> cm_Status n \<noteq> ''creator''
               then (HNil, w)
               else (case groupRepo_Get (st w) (ch_ID (mu_Chat ev)) of
                       Inl _ \<Rightarrow> (HNil, w)
                     | Inr _ \<Rightarrow>
                         (HNil, upd_st (participantRepo_Upsert (participant_of (ch_ID (mu_Chat ev)) u (e_now e))) w))))"

section \<open>Refreshing user names\<close>

fun refresh_participants :: "env \<Rightarrow> i64 \<Rightarrow> Participant list \<Rightarrow> nat \<Rightarrow> world \<Rightarrow> nat \<times> world" where
  "refresh_participants e gid [] changed w = (changed, w)"
| "refresh_participants e gid (p # ps) changed w =
     (let (r, w1) = m_ResolveChatMemberUsername e gid (p_TelegramID p) w in
      case r of
        Inl _ \<Rightarrow> refresh_participants e gid ps changed w1
      | Inr name \<Rightarrow>
          if name = p_TelegramUsername p then refresh_participants e gid ps changed w1
          else refresh_participants e gid ps (changed + 1)
            (upd_st (participantRepo_Upsert (p\<lparr>p_TelegramUsername := name, p_ActivatedAt := e_now e\<rparr>)) w1))"

definition refreshGroupUsernames :: "env \<Rightarrow> Group \<Rightarrow> world \<Rightarrow> nat \<times> world" where
  "refreshGroupUsernames e g w =
     refresh_participants e (g_GroupID g) (participantRepo_ListByGroup (st w) (g_GroupID g)) 0 w"

fun refresh_groups :: "env \<Rightarrow> Group list \<Rightarrow> world \<Rightarrow> world" where
  "refresh_groups e [] w = w"
| "refresh_groups e (g # gs) w = refresh_groups e gs (snd (refreshGroupUsernames e g w))"

definition refreshAllUsernames :: "env \<Rightarrow> world \<Rightarrow> world" where
  "refreshAllUsernames e w = refresh_groups e (groupRepo_List (st w)) w"

definition handleRefreshUsernames :: "env \<Rightarrow> Message \<Rightarrow> world \<Rightarrow> hres \<times> world" where
  "handleRefreshUsernames e m w =
     (case assertGroupAdmin e m w of
        (None, w1) \<Rightarrow> (HNil, w1)
      | (Some g, w1) \<Rightarrow>
          let (changed, w2) = refreshGroupUsernames e g w1
          in reply e m (''Refresh complete. '' @ dec changed @ '' participants updated.'') w2)"

end
