(* ===== verification/Backfill.thy ===== *)
theory Backfill
  imports GroupConfig
begin

text \<open>
  Adding a participant by forwarding a message to the bot (\<open>pkg/handlers/dm.go\<close>): the groups
  the sender administers, the prompt with one button per group, and the tap that reads the
  user name back out of the prompt.
\<close>

section \<open>Texts and payloads\<close>

definition cbAddParticipantPrefix :: string where "cbAddParticipantPrefix = ''p:a:''"

definition targetLabel :: "i64 \<Rightarrow> string \<Rightarrow> string" where
  "targetLabel tid username =
     (if username = [] then ''(id '' @ fmt_i64 tid @ '')''
      else ''@'' @ username @ '' (id '' @ fmt_i64 tid @ '')'')"

definition groupDisplayName :: "Group \<Rightarrow> string" where
  "groupDisplayName g = (if g_CampusName g \<noteq> [] then g_CampusName g else ''Group '' @ fmt_i64 (g_GroupID g))"

text \<open>\<open>forwardedPromptRegex\<close> at the head of a text: the user name, empty without one. The
  optional group can only match all word characters, since a blank has to follow.\<close>

definition optional_username :: "string \<Rightarrow> string \<times> string" where
  "optional_username s =
     (case lit_at '' @'' s of
        None \<Rightarrow> ([], s)
      | Some r \<Rightarrow> let u = takeWhile is_word_char r in if u = [] then ([], s) else (u, dropWhile is_word_char r))"

definition forwarded_at :: "string \<Rightarrow> string option" where
  "forwarded_at s =
     (case lit_at ''Forwarded user'' s of None \<Rightarrow> None | Some s1 \<Rightarrow>
      (case optional_username s1 of (u, s2) \<Rightarrow>
      (case lit_at '' (id '' s2 of None \<Rightarrow> None | Some s3 \<Rightarrow>
      (case digits_at s3 of None \<Rightarrow> None | Some (_, s4) \<Rightarrow>
       if HasPrefix s4 '')'' then Some u else None))))"

definition forwardedUsername :: "string \<Rightarrow> string" where
  "forwardedUsername text = (case search forwarded_at text of None \<Rightarrow> [] | Some u \<Rightarrow> u)"

definition forwardPrompt :: "User \<Rightarrow> string" where
  "forwardPrompt u = ''Forwarded user '' @ targetLabel (usr_ID u) (usr_Username u) @ nl @ ''Add to which group?''"

definition addPayload :: "i64 \<Rightarrow> i64 \<Rightarrow> string" where
  "addPayload gid tid = fmt_i64 gid @ '':'' @ fmt_i64 tid"

definition parseAddPayload :: "string \<Rightarrow> (i64 \<times> i64) option" where
  "parseAddPayload payload =
     (case SplitN2 CHR '':'' payload of
        None \<Rightarrow> None
      | Some (a, b) \<Rightarrow>
          (case (ParseInt 64 a, ParseInt 64 b) of
             (Some g, Some t) \<Rightarrow> Some (word_of_int g, word_of_int t)
           | _ \<Rightarrow> None))"

section \<open>The forwarded message\<close>

fun admin_groups :: "env \<Rightarrow> i64 \<Rightarrow> Group list \<Rightarrow> world \<Rightarrow> Group list \<times> world" where
  "admin_groups e tid [] w = ([], w)"
| "admin_groups e tid (g # gs) w =
     (let (admin, w1) = isChatAdmin e (g_GroupID g) tid w; (rest, w2) = admin_groups e tid gs w1
      in (if admin then g # rest else rest, w2))"

definition adminGroupsFor :: "env \<Rightarrow> i64 \<Rightarrow> world \<Rightarrow> Group list \<times> world" where
  "adminGroupsFor e tid w = admin_groups e tid (groupRepo_List (st w)) w"

definition upsertBackfillParticipant :: "env \<Rightarrow> i64 \<Rightarrow> User \<Rightarrow> world \<Rightarrow> world" where
  "upsertBackfillParticipant e gid u w = upd_st (participantRepo_Upsert (participant_of gid u (e_now e))) w"

definition add_button :: "i64 \<Rightarrow> Group \<Rightarrow> Button" where
  "add_button tid g = mkButton (groupDisplayName g) (cbAddParticipantPrefix @ addPayload (g_GroupID g) tid)"

definition handleForwardedAdd :: "env \<Rightarrow> Message \<Rightarrow> User \<Rightarrow> world \<Rightarrow> hres \<times> world" where
  "handleForwardedAdd e m target w =
     (if usr_IsBot target then reply e m ''Bots can't be participants.'' w
      else if usr_ID target = usr_ID (sender m) then
        reply e m ''That forward is from you. Forward someone else's message.'' w
      else
        let (candidates, w1) = adminGroupsFor e (usr_ID (sender m)) w in
        (case candidates of
           [] \<Rightarrow> reply e m ''You're not an admin of any registered group.'' w1
         | [g] \<Rightarrow>
             reply e m (''Added '' @ targetLabel (usr_ID target) (usr_Username target) @ '' to '' @ groupDisplayName g @ ''.'')
               (upsertBackfillParticipant e (g_GroupID g) target w1)
         | _ \<Rightarrow>
             send_res e (SendInlineKeyboard (ch_ID (msg_Chat m)) 0 (forwardPrompt target)
               (map (add_button (usr_ID target)) candidates)) w1))"

section \<open>The tap\<close>

text \<open>The guard on \<open>q.Message\<close> covers the look-up of the user name only: without a message the
  edit dereferences nil, after the participant is written.\<close>

definition handleAddParticipantTap :: "env \<Rightarrow> CallbackQuery \<Rightarrow> string \<Rightarrow> world \<Rightarrow> hres \<times> world" where
  "handleAddParticipantTap e q payload w =
     (case parseAddPayload payload of
        None \<Rightarrow> answer_res e q [] w
      | Some (gid, tid) \<Rightarrow>
          let (admin, w1) = isChatAdmin e gid (usr_ID (tapper q)) w in
          if \<not> admin then answer_res e q ''Not authorized.'' w1
          else (case groupRepo_Get (st w1) gid of
                  Inl _ \<Rightarrow> answer_res e q [] w1
                | Inr g \<Rightarrow>
                    let username = (case cq_Message q of None \<Rightarrow> [] | Some msg \<Rightarrow> forwardedUsername (msg_Text msg));
                        w2 = upd_st (participantRepo_Upsert \<lparr>p_GroupID = gid, p_TelegramID = tid,
                              p_TelegramUsername = username, p_ActivatedAt = e_now e\<rparr>) w1
                    in (case cq_Message q of
                          None \<Rightarrow> (HPanic, w2)
                        | Some msg \<Rightarrow>
                            let (_, w3) = m_act e (EditMessage (ch_ID (msg_Chat msg)) (msg_MessageID msg)
                                  (''Added '' @ targetLabel tid username @ '' to '' @ groupDisplayName g @ ''.'')) w2
                            in answer_res e q ''Added'' w3)))"

end
