(* ===== verification/Accounts.thy ===== *)
theory Accounts
  imports Matches
begin

text \<open>
  The private commands about a user's own S21 account: \<open>/start\<close>, \<open>/login\<close>, \<open>/logout\<close> with
  their reply prompts, and \<open>/whoami\<close> (\<open>start.go\<close>, \<open>login.go\<close>, \<open>logout.go\<close>, \<open>whoami.go\<close>), the
  adapter of the platform client (\<open>s21account_adapters.go\<close>), and the bootstrap migration of
  the legacy rows (\<open>migrate.go\<close>).
\<close>

section \<open>Help\<close>

definition help_text :: string where
  "help_text =
     ''ttbot '' @ emdash @ '' table-tennis match tracker.'' @ nl
     @ nl
     @ ''Matches topic:'' @ nl
     @ ''  /match '' @ emdash @ '' open an interactive opponent + score picker (recommended; no args needed)'' @ nl
     @ ''  /match @opponent 3-1 '' @ emdash @ '' you vs opponent (your score first)'' @ nl
     @ ''  /match @p1 @p2 3-1 '' @ emdash @ '' register a match between two named players'' @ nl
     @ ''  /undo #N '' @ emdash @ '' undo or restore match #N (two-step confirm)'' @ nl
     @ ''  /ping '' @ emdash @ '' bot reacts '' @ thumbs_up @ '' to your message and remembers your @username so others can /match @you'' @ nl
     @ nl
     @ ''For the typed forms, each player token can be either @telegram_username or a bare S21 nickname.'' @ nl
     @ ''Live leaderboards and per-player stats are auto-maintained as pinned messages in the stats topic.'' @ nl
     @ nl
     @ ''DM:'' @ nl
     @ ''  /start, /help '' @ emdash @ '' this message'' @ nl
     @ ''  /login '' @ emdash @ '' store S21 creds so ttbot can call the identity service. Two-step'' @ nl
     @ ''           (I prompt for creds in a reply and delete the reply immediately).'' @ nl
     @ ''           Multiple users can /login; ttbot picks healthy stored credentials per call.'' @ nl
     @ ''  /logout '' @ emdash @ '' remove your stored creds. Two-step confirm.'' @ nl
     @ ''  /whoami '' @ emdash @ '' show whether you're logged in, the health of your creds, and'' @ nl
     @ ''            how long until I auto-log-out if S21 stays unhappy.'' @ nl
     @ nl
     @ ''Any topic of a registered group:'' @ nl
     @ ''  /bot_register_group '' @ emdash @ '' link this group to ttbot'' @ nl
     @ ''  /set_matches_topic '' @ emdash @ '' call inside the topic you want to use as the matches topic'' @ nl
     @ ''  /set_stats_topic '' @ emdash @ '' call inside the topic you want to use as the stats topic'' @ nl
     @ ''  /refresh_usernames '' @ emdash @ '' refresh the participants cache against Telegram''"

definition handleStart :: "env \<Rightarrow> Message \<Rightarrow> world \<Rightarrow> hres \<times> world" where
  "handleStart e m w = reply e m help_text w"

section \<open>The platform adapter\<close>

definition s21_error_text :: "s21_error \<Rightarrow> string" where
  "s21_error_text err = (case err of ErrInvalidCredentials \<Rightarrow> ''s21: invalid credentials''
     | ErrNotFoundS21 \<Rightarrow> ''s21: not found'' | ErrUnavailable \<Rightarrow> ''s21: unavailable'' | ErrS21 t \<Rightarrow> t)"

definition s21_adapter_Authenticate :: "env \<Rightarrow> string \<Rightarrow> string \<Rightarrow> account_error + Profile" where
  "s21_adapter_Authenticate e login password =
     (case e_Authenticate e login password of
        Inl ErrInvalidCredentials \<Rightarrow> Inl AccInvalidCredentials
      | Inl err \<Rightarrow> Inl (AccOther (s21_error_text err))
      | Inr p \<Rightarrow> Inr \<lparr>pf_Login = pf_Login p, pf_CampusID = pf_CampusID p, pf_CampusName = pf_CampusName p,
          pf_CoalitionName = []\<rparr>)"

section \<open>Logging in\<close>

definition loginTag :: string where "loginTag = ''[LOGIN_OP=set]''"
definition logoutTag :: string where "logoutTag = ''[LOGIN_OP=logout]''"

definition loginPrompt :: string where
  "loginPrompt = ''Reply with your S21 credentials as `login:password` on a single line. I'll authenticate against S21, encrypt the result, and <b>delete your reply immediately</b> so the creds don't linger in this chat. Anyone can /login ''
     @ emdash @ '' multiple logged-in users let me keep working when one set of creds rotates.''
     @ nl @ nl @ spoilerWrap loginTag"

definition promptSent :: "env \<Rightarrow> Message \<Rightarrow> string \<Rightarrow> string \<Rightarrow> string \<Rightarrow> world \<Rightarrow> hres \<times> world" where
  "promptSent e m prompt placeholder complaint w =
     (let (r, w1) = m_send e (SendMessageWithForceReplyHTML (ch_ID (msg_Chat m)) prompt placeholder) w in
      case r of Inl _ \<Rightarrow> userFacingError e m complaint w1 | Inr _ \<Rightarrow> (HNil, w1))"

definition handleLogin :: "env \<Rightarrow> Message \<Rightarrow> string \<Rightarrow> world \<Rightarrow> hres \<times> world" where
  "handleLogin e m args w =
     (if TrimSpace args \<noteq> [] then
        reply e m ''/login takes no arguments. Run it again with nothing after the slash.'' w
      else promptSent e m loginPrompt ''login:password''
        (''Telegram is unreachable right now '' @ emdash @ '' try /login again shortly.'') w)"

text \<open>A reply to a bot's message that carries the tag.\<close>

definition isReplyTo :: "string \<Rightarrow> Message \<Rightarrow> bool" where
  "isReplyTo tag m =
     (case msg_ReplyTo m of
        None \<Rightarrow> False
      | Some r \<Rightarrow> (case msg_From r of None \<Rightarrow> False | Some u \<Rightarrow> usr_IsBot u \<and> Contains (msg_Text r) tag))"

definition isLoginReply :: "Message \<Rightarrow> bool" where "isLoginReply = isReplyTo loginTag"
definition isLogoutReply :: "Message \<Rightarrow> bool" where "isLogoutReply = isReplyTo logoutTag"

definition greeting :: "S21Account \<Rightarrow> string" where
  "greeting a = ''You're now logged in as '' @ acc_S21Login a
     @ (if acc_CampusName a = [] then [] else '' ('' @ acc_CampusName a @ '')'')
     @ ''. I'll use your creds, alongside other logged-in users, for S21 API calls.''"

definition loginOutcome :: "env \<Rightarrow> Message \<Rightarrow> world \<Rightarrow> hres \<times> world" where
  "loginOutcome e m w =
     (case ParseAdminCredentials (TrimSpace (msg_Text m)) of
        None \<Rightarrow> reply e m (''Couldn't read creds '' @ emdash @ '' expected `login:password` on a single line. Run /login again to start over.'') w
      | Some (login, password) \<Rightarrow>
          let (r, ops) = e_ValidateAndStore e (s21AccountRepo_List (st w)) (s21_adapter_Authenticate e)
                (usr_ID (sender m)) login password (e_now e);
              w1 = upd_st (run_account_ops ops) w
          in (case r of
                Inl AccInvalidCredentials \<Rightarrow> reply e m ''S21 rejected those credentials. Run /login again to retry.'' w1
              | Inl _ \<Rightarrow> userFacingError e m ''S21 is unavailable right now. Try /login again shortly.'' w1
              | Inr a \<Rightarrow> reply e m (greeting a) w1))"

text \<open>The deferred deletion of the credentials runs last, whatever happened before.\<close>

definition handleLoginReply :: "env \<Rightarrow> Message \<Rightarrow> world \<Rightarrow> hres \<times> world" where
  "handleLoginReply e m w =
     (let (r, w1) = loginOutcome e m w;
          (_, w2) = m_act e (DeleteMessage (ch_ID (msg_Chat m)) (msg_MessageID m)) w1
      in (r, w2))"

section \<open>Logging out\<close>

definition logoutPrompt :: string where
  "logoutPrompt = ''You are about to log out (your stored S21 credentials for ttbot will be deleted).'' @ nl @ nl
     @ ''After this:'' @ nl
     @ ''- Other logged-in users continue to back ttbot's S21 calls; only your stored credentials are removed.'' @ nl
     @ ''- Group registration, matches, rankings '' @ emdash
     @ '' all keep working as long as at least one healthy login remains.'' @ nl @ nl
     @ ''Reply with `confirm` to proceed. Any other reply cancels.'' @ nl @ nl @ spoilerWrap logoutTag"

definition handleLogout :: "env \<Rightarrow> Message \<Rightarrow> world \<Rightarrow> hres \<times> world" where
  "handleLogout e m w =
     (case s21AccountRepo_Get (st w) (usr_ID (sender m)) of
        Inl ErrNotFound \<Rightarrow> reply e m (''You're not logged in '' @ emdash @ '' nothing to log out from.'') w
      | _ \<Rightarrow> promptSent e m logoutPrompt ''confirm''
          (''Telegram is unreachable right now '' @ emdash @ '' try /logout again shortly.'') w)"

definition handleLogoutReply :: "env \<Rightarrow> Message \<Rightarrow> world \<Rightarrow> hres \<times> world" where
  "handleLogoutReply e m w =
     (if TrimSpace (ToLower (msg_Text m)) \<noteq> ''confirm'' then
        reply e m (''Cancelled '' @ emdash @ '' you are still logged in.'') w
      else reply e m ''Logged out. Your stored S21 credentials have been removed. /login again whenever you want.''
        (upd_st (s21AccountRepo_Delete (usr_ID (sender m))) w))"

section \<open>Who am I\<close>

definition otherAccountsLine :: "nat \<Rightarrow> string" where
  "otherAccountsLine n =
     (if n = 0 then ''You're the only logged-in account right now.''
      else if n = 1 then ''Together with 1 other logged-in account.''
      else ''Together with '' @ dec n @ '' other logged-in accounts.'')"

definition handleWhoami :: "env \<Rightarrow> Message \<Rightarrow> world \<Rightarrow> hres \<times> world" where
  "handleWhoami e m w =
     (case s21AccountRepo_Get (st w) (usr_ID (sender m)) of
        Inl ErrNotFound \<Rightarrow> reply e m ''You're not logged in. Run /login to register your S21 credentials.'' w
      | Inl _ \<Rightarrow> userFacingError e m (''The database is unreachable right now '' @ emdash @ '' try again shortly.'') w
      | Inr a \<Rightarrow>
          let others = length (filter (\<lambda>r. acc_TelegramID r \<noteq> usr_ID (sender m)) (s21AccountRepo_List (st w)))
          in reply e m (e_RenderWhoami e a (e_now e) @ nl @ nl @ otherAccountsLine others) w)"

section \<open>Migration of the legacy administrators\<close>

definition migratedAccount :: "Admin \<Rightarrow> S21Account" where
  "migratedAccount a = \<lparr>acc_TelegramID = a_TelegramID a, acc_S21Login = a_S21Login a,
     acc_S21CredsEncrypted = a_S21CredentialsEncrypted a, acc_CampusID = a_CampusID a,
     acc_CampusName = a_CampusName a, acc_CreatedAt = a_CreatedAt a, acc_UpdatedAt = a_CreatedAt a,
     acc_LastUsedAt = None, acc_S21CredsFailedAt = None, acc_S21CredsLastWarnedAt = None\<rparr>"

fun migrate_from :: "Admin list \<Rightarrow> memstore \<Rightarrow> store_error option \<times> memstore" where
  "migrate_from [] s = (None, s)"
| "migrate_from (a # as) s =
     (case s21AccountRepo_Get s (a_TelegramID a) of
        Inr _ \<Rightarrow> migrate_from as s
      | Inl ErrNotFound \<Rightarrow> migrate_from as (s21AccountRepo_Upsert (migratedAccount a) s)
      | Inl err \<Rightarrow> (Some err, s))"

definition MigrateAdminsToS21Accounts :: "memstore \<Rightarrow> store_error option \<times> memstore" where
  "MigrateAdminsToS21Accounts s = migrate_from (adminRepo_List s) s"

end
