(* ===== verification/Periodic.thy ===== *)
theory Periodic
  imports Backfill Accounts
begin

text \<open>
  The periodic job (\<open>pkg/handlers/periodic.go\<close>): probing the stored credentials, removing
  expired matches and undo requests with notices in the group, and refreshing user names.
\<close>

section \<open>Accounts\<close>

definition probeOne :: "env \<Rightarrow> S21Account \<Rightarrow> world \<Rightarrow> world" where
  "probeOne e a w =
     (case Decrypt (e_cipher e) (acc_S21CredsEncrypted a) of
        Inl _ \<Rightarrow> snd (m_send e (SendMessage (acc_TelegramID a) 0
          ''Internal: I can't decrypt your stored S21 credentials. Please /logout and /login again.'') w)
      | Inr password \<Rightarrow>
          let authErr = (case s21_adapter_Authenticate e (acc_S21Login a) password of Inl err \<Rightarrow> Some err | Inr _ \<Rightarrow> None);
              d = e_ApplyAuthResult e a authErr (e_now e)
          in if dc_Logout d then
               snd (m_send e (SendMessage (acc_TelegramID a) 0 (dc_LogoutDM d))
                 (upd_st (s21AccountRepo_Delete (acc_TelegramID a)) w))
             else
               let w1 = (if dc_PersistUpdate d then upd_st (s21AccountRepo_Upsert (dc_UpdatedAccount d)) w else w)
               in if dc_WarningDM d \<noteq> [] then snd (m_send e (SendMessage (acc_TelegramID a) 0 (dc_WarningDM d)) w1)
                  else w1)"

definition probeAllAccounts :: "env \<Rightarrow> world \<Rightarrow> world" where
  "probeAllAccounts e w = fold (probeOne e) (s21AccountRepo_List (st w)) w"

section \<open>Expiry\<close>

definition participantUsername :: "memstore \<Rightarrow> i64 \<Rightarrow> i64 \<Rightarrow> string" where
  "participantUsername s gid tid =
     (case participantRepo_Get s (gid, tid) of Inr p \<Rightarrow> p_TelegramUsername p | Inl _ \<Rightarrow> [])"

fun unique_from :: "i64 list \<Rightarrow> i64 list \<Rightarrow> i64 list" where
  "unique_from seen [] = []"
| "unique_from seen (i # is) =
     (if i = 0 \<or> i \<in> set seen then unique_from seen is else i # unique_from (i # seen) is)"

definition uniqueIDs :: "i64 list \<Rightarrow> i64 list" where
  "uniqueIDs ids = unique_from [] ids"

definition notifyIn :: "env \<Rightarrow> Group \<Rightarrow> i64 \<Rightarrow> string \<Rightarrow> i64 \<Rightarrow> world \<Rightarrow> world" where
  "notifyIn e g gid text uid w = snd (SendInGroup (m_send e) g (participantUsername (st w) gid uid) text w)"

definition expireMatch :: "env \<Rightarrow> Match \<Rightarrow> world \<Rightarrow> store_error option \<times> world" where
  "expireMatch e m w =
     (let k = (m_GroupID m, m_MatchID m); (r, st1) = matchRepo_Delete k (st w); w1 = w\<lparr>st := st1\<rparr> in
      case r of
        Some ErrNotFound \<Rightarrow> (None, w1)
      | Some err \<Rightarrow> (Some err, w1)
      | None \<Rightarrow>
          let w2 = upd_st (confirmRepo_DeleteForMatch k) w1 in
          (case groupRepo_Get (st w2) (m_GroupID m) of
             Inl _ \<Rightarrow> (None, w2)
           | Inr g \<Rightarrow>
               (None, fold (notifyIn e g (m_GroupID m)
                   (''Match #'' @ fmt_u64 (m_MatchID m) @ '' expired (no confirmation within timeout).''))
                 (uniqueIDs [m_RegisteredBy m, m_Player1ID m, m_Player2ID m]) w2)))"

fun expire_matches :: "env \<Rightarrow> Match list \<Rightarrow> world \<Rightarrow> store_error option \<times> world" where
  "expire_matches e [] w = (None, w)"
| "expire_matches e (m # ms) w =
     (let (r, w1) = expireMatch e m w in case r of Some err \<Rightarrow> (Some err, w1) | None \<Rightarrow> expire_matches e ms w1)"

definition cleanExpiredMatches :: "env \<Rightarrow> world \<Rightarrow> store_error option \<times> world" where
  "cleanExpiredMatches e w =
     expire_matches e (matchRepo_ListPendingExpired (\<lambda>g. True) (e_wall e) (st w)) w"

definition expireUndo :: "env \<Rightarrow> UndoCommand \<Rightarrow> world \<Rightarrow> store_error option \<times> world" where
  "expireUndo e u w =
     (let (r, st1) = undoRepo_Delete (u_GroupID u, u_MatchID u, u_TelegramID u) (st w); w1 = w\<lparr>st := st1\<rparr> in
      case r of
        Some ErrNotFound \<Rightarrow> (None, w1)
      | Some err \<Rightarrow> (Some err, w1)
      | None \<Rightarrow>
          (case groupRepo_Get (st w1) (u_GroupID u) of
             Inl _ \<Rightarrow> (None, w1)
           | Inr g \<Rightarrow>
               (None, notifyIn e g (u_GroupID u) (''Undo request for Match #'' @ fmt_u64 (u_MatchID u) @ '' expired.'')
                 (u_TelegramID u) w1)))"

fun expire_undos :: "env \<Rightarrow> UndoCommand list \<Rightarrow> world \<Rightarrow> store_error option \<times> world" where
  "expire_undos e [] w = (None, w)"
| "expire_undos e (u # us) w =
     (let (r, w1) = expireUndo e u w in case r of Some err \<Rightarrow> (Some err, w1) | None \<Rightarrow> expire_undos e us w1)"

definition undoCutoff :: "time \<Rightarrow> int" where
  "undoCutoff now = UnixNano (now - 24 * hour)"

definition cleanExpiredUndo :: "env \<Rightarrow> world \<Rightarrow> store_error option \<times> world" where
  "cleanExpiredUndo e w = expire_undos e (undoRepo_ListExpired (st w) (undoCutoff (e_now e))) w"

section \<open>The job\<close>

text \<open>The errors of the four parts are logged only.\<close>

definition PeriodicJob :: "env \<Rightarrow> world \<Rightarrow> hres \<times> world" where
  "PeriodicJob e w =
     (HNil, refreshAllUsernames e (snd (cleanExpiredUndo e (snd (cleanExpiredMatches e (probeAllAccounts e w))))))"

end
