(* ===== verification/Dispatch.thy ===== *)
theory Dispatch
  imports Periodic
begin

text \<open>
  The routing of one Telegram update (\<open>pkg/handlers/handlers.go\<close>, and \<open>dispatchCallback\<close> of
  \<open>match.go\<close>).
\<close>

definition handlePing :: "env \<Rightarrow> Message \<Rightarrow> world \<Rightarrow> hres \<times> world" where
  "handlePing e m w = act_res e (SendReaction (ch_ID (msg_Chat m)) (msg_MessageID m) thumbs_up) w"

definition isPrivate :: "Message \<Rightarrow> bool" where
  "isPrivate m \<longleftrightarrow> ch_Type (msg_Chat m) = ''private''"

definition upsertSenderParticipant :: "env \<Rightarrow> Message \<Rightarrow> world \<Rightarrow> world" where
  "upsertSenderParticipant e m w =
     (if isPrivate m \<or> msg_From m = None \<or> usr_IsBot (sender m) then w
      else case groupRepo_Get (st w) (ch_ID (msg_Chat m)) of
          Inl _ \<Rightarrow> w
        | Inr _ \<Rightarrow> upd_st (participantRepo_Upsert (participant_of (ch_ID (msg_Chat m)) (sender m) (e_now e))) w)"

definition isLitter :: "memstore \<Rightarrow> Message \<Rightarrow> bool" where
  "isLitter s m \<longleftrightarrow> msg_MessageThreadID m \<noteq> 0 \<and>
     (case groupRepo_Get s (ch_ID (msg_Chat m)) of
        Inl _ \<Rightarrow> False
      | Inr g \<Rightarrow> g_StatsTopicID g \<noteq> 0 \<and> msg_MessageThreadID m = g_StatsTopicID g \<and>
          msg_MessageID m \<noteq> g_RankingsELOMessageID g \<and> msg_MessageID m \<noteq> g_RankingsGlickoMessageID g \<and>
          msg_MessageID m \<noteq> g_StatsMessageID g)"

definition deleteStatsTopicLitter :: "env \<Rightarrow> Message \<Rightarrow> world \<Rightarrow> bool \<times> world" where
  "deleteStatsTopicLitter e m w =
     (if isLitter (st w) m
      then (True, snd (m_act e (DeleteMessage (ch_ID (msg_Chat m)) (msg_MessageID m)) w))
      else (False, w))"

definition runCommand :: "env \<Rightarrow> Message \<Rightarrow> string \<Rightarrow> string \<Rightarrow> world \<Rightarrow> hres \<times> world" where
  "runCommand e m cmd args w =
     (if cmd = ''/start'' \<or> cmd = ''/help'' then (if isPrivate m then handleStart e m w else (HNil, w))
      else if cmd = ''/login'' then (if isPrivate m then handleLogin e m args w else (HNil, w))
      else if cmd = ''/logout'' then (if isPrivate m then handleLogout e m w else (HNil, w))
      else if cmd = ''/whoami'' then (if isPrivate m then handleWhoami e m w else (HNil, w))
      else if cmd = ''/bot_register_group'' then handleBotRegisterGroup e m w
      else if cmd = ''/set_matches_topic'' then handleSetMatchesTopic e m w
      else if cmd = ''/set_stats_topic'' then handleSetStatsTopic e m w
      else if cmd = ''/refresh_usernames'' then handleRefreshUsernames e m w
      else if cmd = ''/match'' then handleMatch e m args w
      else if cmd = ''/undo'' then handleUndo e m args w
      else if cmd = ''/ping'' then handlePing e m w
      else (HNil, w))"

text \<open>A message that is neither a forward nor litter.\<close>

definition dispatchText :: "env \<Rightarrow> Message \<Rightarrow> world \<Rightarrow> hres \<times> world" where
  "dispatchText e m w =
     (if isPrivate m \<and> isLoginReply m then handleLoginReply e m w
      else if isPrivate m \<and> isLogoutReply m then handleLogoutReply e m w
      else if msg_Text m = [] then (HNil, w)
      else let (cmd, args) = splitCommand (msg_Text m) in
        if cmd = [] then (HNil, w)
        else runCommand e m cmd args (upsertSenderParticipant e m w))"

definition dispatchMessage :: "env \<Rightarrow> Message \<Rightarrow> world \<Rightarrow> hres \<times> world" where
  "dispatchMessage e m w =
     (if msg_From m = None then (HNil, w)
      else case (if isPrivate m then msg_ForwardFrom m else None) of
          Some target \<Rightarrow> handleForwardedAdd e m target w
        | None \<Rightarrow>
            if isPrivate m \<and> msg_ForwardSenderName m \<noteq> [] then
              reply e m (''This user has hidden their account on forwards '' @ emdash
                @ '' can't read their telegram id this way.'') w
            else
              let (litter, w1) = deleteStatsTopicLitter e m w in
              if litter then (HNil, w1) else dispatchText e m w1)"

definition dispatchCallback :: "env \<Rightarrow> CallbackQuery \<Rightarrow> world \<Rightarrow> hres \<times> world" where
  "dispatchCallback e q w =
     (if cq_From q = None then (HNil, w)
      else if HasPrefix (cq_Data q) miPrefix then
        handleMatchInteractiveCallback e q (TrimPrefix (cq_Data q) miPrefix) w
      else if HasPrefix (cq_Data q) cbConfirmPrefix then
        handleConfirmTap e q (TrimPrefix (cq_Data q) cbConfirmPrefix) w
      else if HasPrefix (cq_Data q) cbCancelPrefix then
        handleCancelTap e q (TrimPrefix (cq_Data q) cbCancelPrefix) w
      else if HasPrefix (cq_Data q) cbAddParticipantPrefix then
        handleAddParticipantTap e q (TrimPrefix (cq_Data q) cbAddParticipantPrefix) w
      else answer_res e q [] w)"

definition Dispatch :: "env \<Rightarrow> Update \<Rightarrow> world \<Rightarrow> hres \<times> world" where
  "Dispatch e u w =
     (case up_Message u of
        Some m \<Rightarrow> dispatchMessage e m w
      | None \<Rightarrow>
          (case up_CallbackQuery u of
             Some q \<Rightarrow> dispatchCallback e q w
           | None \<Rightarrow>
               (case up_MyChatMember u of
                  Some ev \<Rightarrow> dispatchMyChatMember e ev w
                | None \<Rightarrow>
                    (case up_ChatMember u of
                       Some ev \<Rightarrow> dispatchChatMember e ev w
                     | None \<Rightarrow> (HNil, w)))))"

end
