(* ===== verification/Effects.thy ===== *)
theory Effects
  imports Dispatch "HOL-Library.Sublist"
begin

text \<open>
  What the handlers leave alone. \<open>calm\<close> relates two states when no match, confirmation, undo
  command or id counter changed between them; every handler is a sequence of calm steps around
  at most a few changes of match rows, which the theory \<open>Lifecycle\<close> accounts for.
\<close>

section \<open>Drafts in range\<close>

definition draft_ok :: "matchDraft \<Rightarrow> bool" where
  "draft_ok d \<longleftrightarrow> - 1 \<le> d_p1 d \<and> d_p1 d \<le> 9 \<and> - 1 \<le> d_p2 d \<and> d_p2 d \<le> 9"

definition drafts_ok :: "world \<Rightarrow> bool" where
  "drafts_ok w \<longleftrightarrow> wf_map (matchDrafts w) \<and> (\<forall>k d. mget (matchDrafts w) k = Some d \<longrightarrow> draft_ok d)"

lemma draft_ok_update [simp]:
  "draft_ok (d\<lparr>d_touchedAt := t\<rparr>) = draft_ok d" "draft_ok (d\<lparr>d_page := p\<rparr>) = draft_ok d"
  "draft_ok (d\<lparr>d_isScore := b\<rparr>) = draft_ok d" "draft_ok (d\<lparr>d_oppID := i\<rparr>) = draft_ok d"
  "draft_ok (d\<lparr>d_oppLabel := l\<rparr>) = draft_ok d" "draft_ok (d\<lparr>d_ownerLabel := l\<rparr>) = draft_ok d"
  "draft_ok (d\<lparr>d_ownerID := i\<rparr>) = draft_ok d"
  by (simp_all add: draft_ok_def)

lemma drafts_okD: "drafts_ok w \<Longrightarrow> mget (matchDrafts w) k = Some d \<Longrightarrow> draft_ok d"
  by (simp add: drafts_ok_def)

lemma wf_map_filter: "wf_map m \<Longrightarrow> wf_map (filter p m)"
  unfolding wf_map_def by (induction m) (auto simp: image_iff)

lemma mget_filter: "wf_map m \<Longrightarrow> mget (filter p m) k = Some v \<Longrightarrow> mget m k = Some v"
  using wf_map_get_iff [of m k v] wf_map_get_iff [OF wf_map_filter, of m p k v] by simp

lemma gcDrafts_sub:
  assumes "wf_map ds"
  shows "wf_map (gcDrafts now ds)" and "mget (gcDrafts now ds) k = Some d \<Longrightarrow> mget ds k = Some d"
  using assms by (auto simp: gcDrafts_def Let_def wf_map_filter dest!: mget_filter split: if_splits)

lemma drafts_ok_gc: "drafts_ok (w\<lparr>matchDrafts := ds\<rparr>) \<Longrightarrow> drafts_ok (w\<lparr>matchDrafts := gcDrafts now ds\<rparr>)"
  by (auto simp: drafts_ok_def gcDrafts_sub(1) dest: gcDrafts_sub(2))

lemma drafts_ok_put: "drafts_ok w \<Longrightarrow> draft_ok d \<Longrightarrow> drafts_ok (w\<lparr>matchDrafts := mput k d (matchDrafts w)\<rparr>)"
  by (simp add: drafts_ok_def)

lemma drafts_ok_same: "matchDrafts w' = matchDrafts w \<Longrightarrow> drafts_ok w' = drafts_ok w"
  by (simp add: drafts_ok_def)

lemma storeDraft_ok: "drafts_ok w \<Longrightarrow> draft_ok d \<Longrightarrow> drafts_ok (storeDraft e chat i d w)"
  unfolding storeDraft_def by (rule drafts_ok_gc) (simp add: drafts_ok_put)

lemma dropDraft_ok: "drafts_ok w \<Longrightarrow> drafts_ok (dropDraft chat i w)"
  by (simp add: drafts_ok_def dropDraft_def)

lemma saveDraft_ok: "drafts_ok w \<Longrightarrow> draft_ok d \<Longrightarrow> drafts_ok (saveDraft chat i d w)"
  by (simp add: saveDraft_def drafts_ok_put)

lemma Atoi_score: "score_at s = Some (c, r) \<Longrightarrow> - 1 \<le> parseScoreTok [c] \<and> parseScoreTok [c] \<le> 9"
  by (auto simp: score_at_def parseScoreTok_def Atoi_def ParseInt_def dec_val_def is_digit_def Let_def
      split: list.splits if_splits option.splits)

lemma search_Some: "search f s = Some x \<Longrightarrow> \<exists>t. f t = Some x"
  by (induction s) (auto split: option.splits)

lemma case_Some_iff:
  "(case x of None \<Rightarrow> None | Some y \<Rightarrow> f y) = Some z \<longleftrightarrow> (\<exists>y. x = Some y \<and> f y = Some z)"
  by (cases x) simp_all

lemma if_Some_iff: "(if b then Some x else None) = Some y \<longleftrightarrow> b \<and> x = y"
  by simp

lemma score_header_scores:
  assumes "score_header_at s = Some (o1, l1, p, l2, c1, c2)"
  shows "\<exists>t r. score_at t = Some (c1, r)" and "\<exists>t r. score_at t = Some (c2, r)"
  using assms unfolding score_header_at_def
  by (simp only: case_Some_iff if_Some_iff split_paired_Ex prod.case prod.inject; blast)+

lemma parseDraftFromHeader_ok:
  assumes "parseDraftFromHeader text = Some d"
  shows "draft_ok d"
proof (cases "matchOppHeaderRe text")
  case (Some x)
  then have "d_p1 d = -1 \<and> d_p2 d = -1"
    using assms by (cases x) (auto simp: parseDraftFromHeader_def)
  then show ?thesis by (simp add: draft_ok_def)
next
  case None
  show ?thesis
  proof (cases "matchScoreHeaderRe text")
    case None2: None
    then show ?thesis using None assms by (simp add: parseDraftFromHeader_def)
  next
    case (Some x)
    obtain o1 l1 p l2 c1 c2 where x: "x = (o1, l1, p, l2, c1, c2)" by (cases x)
    then have d: "d_p1 d = parseScoreTok [c1]" "d_p2 d = parseScoreTok [c2]"
      using assms [symmetric]
      unfolding parseDraftFromHeader_def None Some x option.case prod.case option.inject by simp_all
    have "search score_header_at text = Some (o1, l1, p, l2, c1, c2)"
      using Some unfolding x matchScoreHeaderRe_def .
    from search_Some [OF this] obtain t where t: "score_header_at t = Some (o1, l1, p, l2, c1, c2)" ..
    obtain t1 r1 t2 r2 where "score_at t1 = Some (c1, r1)" "score_at t2 = Some (c2, r2)"
      using score_header_scores [OF t] by metis
    then show ?thesis using d by (simp add: draft_ok_def Atoi_score)
  qed
qed

lemma loadOrRestoreDraft_ok:
  assumes "drafts_ok w" and "loadOrRestoreDraft e chat i text w = (r, w')"
  shows "drafts_ok w'" and "r = Some d \<Longrightarrow> draft_ok d"
proof -
  have gc: "drafts_ok (w\<lparr>matchDrafts := gcDrafts now (matchDrafts w)\<rparr>)" for now
    using drafts_ok_gc [where w = w and ds = "matchDrafts w"] assms(1) by simp
  have put: "drafts_ok (w\<lparr>matchDrafts := gcDrafts now (mput k d' (matchDrafts w))\<rparr>)" if "draft_ok d'" for k d' now
    using drafts_ok_gc drafts_ok_put [OF assms(1) that] by blast
  show "drafts_ok w'"
    using assms gc put
    by (auto simp: loadOrRestoreDraft_def Let_def parseDraftFromHeader_ok split: option.splits)
  show "r = Some d \<Longrightarrow> draft_ok d"
    using assms
    by (auto simp: loadOrRestoreDraft_def Let_def parseDraftFromHeader_ok dest: drafts_okD split: option.splits)
qed

section \<open>Calm steps\<close>

definition calm :: "world \<Rightarrow> world \<Rightarrow> bool" where
  "calm w w' \<longleftrightarrow>
     matches (st w') = matches (st w) \<and> confirmations (st w') = confirmations (st w) \<and>
     undos (st w') = undos (st w) \<and> matchCounters (st w') = matchCounters (st w) \<and>
     prefix (calls w) (calls w') \<and>
     (wf_store (st w) \<longrightarrow> wf_store (st w')) \<and> (drafts_ok w \<longrightarrow> drafts_ok w')"

lemma calm_refl [simp]: "calm w w"
  by (simp add: calm_def)

lemma calm_trans: "calm w1 w2 \<Longrightarrow> calm w2 w3 \<Longrightarrow> calm w1 w3"
  using prefix_order.trans [of "calls w1" "calls w2" "calls w3"] by (simp add: calm_def)

lemma calmD:
  assumes "calm w w'"
  shows "matches (st w') = matches (st w)" and "confirmations (st w') = confirmations (st w)"
    and "undos (st w') = undos (st w)" and "matchCounters (st w') = matchCounters (st w)"
    and "counter (st w') = counter (st w)" and "prefix (calls w) (calls w')"
  using assms by (simp_all add: calm_def counter_def fun_eq_iff)

lemma quiet_calm: "quiet w w' \<Longrightarrow> calm w w'"
  using drafts_ok_same [of w' w] by (simp add: quiet_def calm_def)

lemma calm_quiet: "calm w w1 \<Longrightarrow> quiet w1 w2 \<Longrightarrow> calm w w2"
  by (rule calm_trans [OF _ quiet_calm])

lemma calm_calls [simp]: "calm w w1 \<Longrightarrow> prefix (calls w1) cs \<Longrightarrow> calm w (w1\<lparr>calls := cs\<rparr>)"
  using prefix_order.trans [of "calls w" "calls w1" cs] by (simp add: calm_def drafts_ok_def)

lemma calm_fields [simp]:
  "calm w (w1\<lparr>nicks := n\<rparr>) = calm w w1"
  "calm w (w1\<lparr>detached := ds\<rparr>) = calm w w1" "calm w (w1\<lparr>rounds := r\<rparr>) = calm w w1"
  by (simp_all add: calm_def drafts_ok_def)

lemma calm_detached [simp]: "calm w (detachedRefreshStatsTopic g w1) = calm w w1"
  by (simp add: detachedRefreshStatsTopic_def)

lemma calm_upd_st:
  assumes "calm w w1" and "matches (f (st w1)) = matches (st w1)"
    and "confirmations (f (st w1)) = confirmations (st w1)" and "undos (f (st w1)) = undos (st w1)"
    and "matchCounters (f (st w1)) = matchCounters (st w1)" and "wf_store (st w1) \<Longrightarrow> wf_store (f (st w1))"
  shows "calm w (upd_st f w1)"
  using assms drafts_ok_same [of "upd_st f w1" w1] by (simp add: calm_def)

lemma calm_repo [simp]:
  assumes "calm w w1"
  shows "calm w (upd_st (participantRepo_Upsert p) w1)" "calm w (upd_st (groupRepo_Upsert g) w1)"
    "calm w (upd_st (s21AccountRepo_Upsert a) w1)" "calm w (upd_st (s21AccountRepo_Delete t) w1)"
    "calm w (upd_st (run_account_ops ops) w1)"
  by (intro calm_upd_st assms wf_intros; simp add: repo_put_defs)+

lemmas calm_lookups [simp] =
  calm_quiet [OF _ withIdentity_quiet] calm_quiet [OF _ lookupS21Nickname_quiet]
  calm_quiet [OF _ hasNickname_quiet] calm_quiet [OF _ displayFor_quiet]
  calm_quiet [OF _ playerLabel_quiet] calm_quiet [OF _ renderMatch_quiet]
  calm_quiet [OF _ resolveMatchToken_quiet]

lemma draft_ops_frame [simp]:
  "st (dropDraft chat i w) = st w" "st (saveDraft chat i d w) = st w" "st (storeDraft e chat i d w) = st w"
  "calls (dropDraft chat i w) = calls w" "calls (saveDraft chat i d w) = calls w"
  "calls (storeDraft e chat i d w) = calls w"
  by (simp_all add: dropDraft_def saveDraft_def storeDraft_def)

lemma loadOrRestoreDraft_frame [simp]:
  "st (snd (loadOrRestoreDraft e chat i t w)) = st w"
  "calls (snd (loadOrRestoreDraft e chat i t w)) = calls w"
  by (simp_all add: loadOrRestoreDraft_def Let_def split: option.split)

lemma calm_same_st:
  "calm w w1 \<Longrightarrow> st w2 = st w1 \<Longrightarrow> calls w2 = calls w1 \<Longrightarrow> (drafts_ok w1 \<Longrightarrow> drafts_ok w2) \<Longrightarrow> calm w w2"
  by (simp add: calm_def)

lemma calm_dropDraft [simp]: "calm w w1 \<Longrightarrow> calm w (dropDraft chat i w1)"
  by (erule calm_same_st) (simp_all add: dropDraft_ok)

lemma calm_saveDraft: "calm w w1 \<Longrightarrow> (drafts_ok w1 \<Longrightarrow> draft_ok d) \<Longrightarrow> calm w (saveDraft chat i d w1)"
  by (erule calm_same_st) (simp_all add: saveDraft_ok)

lemma calm_storeDraft [simp]: "calm w w1 \<Longrightarrow> draft_ok d \<Longrightarrow> calm w (storeDraft e chat i d w1)"
  by (erule calm_same_st) (simp_all add: storeDraft_ok)

lemma calm_load [simp]: "calm w w1 \<Longrightarrow> calm w (snd (loadOrRestoreDraft e chat i t w1))"
  by (erule calm_same_st) (auto intro: loadOrRestoreDraft_ok(1) [OF _ prod.collapse [symmetric]])

section \<open>Calm handlers\<close>

lemma isChatAdmin_calm: "calm w w1 \<Longrightarrow> calm w (snd (isChatAdmin e g u w1))"
  by simp

lemma calm_nicknames_for [simp]: "calm w w1 \<Longrightarrow> calm w (snd (nicknames_for e ps seen w1))"
  by (induction ps arbitrary: seen w1) (simp_all add: case_prod_beta Let_def)

lemma calm_computeRatingsFor [simp]: "calm w w1 \<Longrightarrow> calm w (snd (computeRatingsFor e g eng w1))"
  by (simp add: computeRatingsFor_def ratingMatches_def case_prod_beta Let_def)

lemma calm_ranking_lines [simp]: "calm w w1 \<Longrightarrow> calm w (snd (ranking_lines e gid pr i ids w1))"
  by (induction ids arbitrary: i w1) (simp_all add: case_prod_beta Let_def)

lemma calm_stats_entries [simp]: "calm w w1 \<Longrightarrow> calm w (snd (stats_entries e gid elo gl ids w1))"
  by (induction ids arbitrary: w1) (simp_all add: case_prod_beta Let_def)

lemma calm_renderRankings [simp]: "calm w w1 \<Longrightarrow> calm w (snd (renderRankings e g eng l w1))"
  by (simp add: renderRankings_def case_prod_beta Let_def split: option.split sum.split)

lemma calm_renderCombinedStats [simp]: "calm w w1 \<Longrightarrow> calm w (snd (renderCombinedStats e g e1 e2 w1))"
  by (simp add: renderCombinedStats_def case_prod_beta Let_def split: option.split sum.split)

lemma calm_upsertMessage [simp]: "calm w w1 \<Longrightarrow> calm w (snd (upsertMessage e gid t i text pin w1))"
  by (simp add: upsertMessage_def case_prod_beta Let_def split: sum.split)

lemma calm_dropOrphans [simp]: "calm w w1 \<Longrightarrow> calm w (snd (dropOrphans e g w1))"
  by (simp add: dropOrphans_def dropOrphan_def)

lemma calm_upkeep [simp]: "calm w w1 \<Longrightarrow> calm w (snd (upkeep e g a b c w1))"
  by (simp add: upkeep_def case_prod_beta Let_def split: sum.split)

lemma calm_refreshStatsTopic [simp]: "calm w w1 \<Longrightarrow> calm w (snd (refreshStatsTopic e g w1))"
  by (simp add: refreshStatsTopic_def buildEngines_def case_prod_beta Let_def split: sum.split)

lemma calm_runDetached [simp]: "calm w w1 \<Longrightarrow> calm w (runDetached e i w1)"
  by (simp add: runDetached_def)

lemma calm_assertGroupAdmin [simp]: "calm w w1 \<Longrightarrow> calm w (snd (assertGroupAdmin e m w1))"
  by (simp add: assertGroupAdmin_def case_prod_beta Let_def split: sum.split)

lemma calm_refresh_participants [simp]: "calm w w1 \<Longrightarrow> calm w (snd (refresh_participants e gid ps n w1))"
  by (induction ps arbitrary: n w1) (simp_all add: case_prod_beta Let_def split: sum.split)

lemma calm_refreshGroupUsernames [simp]: "calm w w1 \<Longrightarrow> calm w (snd (refreshGroupUsernames e g w1))"
  by (simp add: refreshGroupUsernames_def)

lemma calm_refreshAllUsernames [simp]: "calm w w1 \<Longrightarrow> calm w (refreshAllUsernames e w1)"
proof -
  have "calm w w1 \<Longrightarrow> calm w (refresh_groups e gs w1)" for gs w1
    by (induction gs arbitrary: w1) simp_all
  then show "calm w w1 \<Longrightarrow> calm w (refreshAllUsernames e w1)" by (simp add: refreshAllUsernames_def)
qed

lemma calm_admin_groups [simp]: "calm w w1 \<Longrightarrow> calm w (snd (admin_groups e tid gs w1))"
  by (induction gs arbitrary: w1) (simp_all add: case_prod_beta Let_def)

lemma calm_group_commands [simp]:
  assumes "calm w w1"
  shows "calm w (snd (handleBotRegisterGroup e m w1))"
    and "calm w (snd (handleSetMatchesTopic e m w1))"
    and "calm w (snd (handleSetStatsTopic e m w1))"
    and "calm w (snd (handleRefreshUsernames e m w1))"
    and "calm w (snd (dispatchMyChatMember e ev w1))"
    and "calm w (snd (dispatchChatMember e ev w1))"
  using assms
  by (simp_all add: handleBotRegisterGroup_def handleSetMatchesTopic_def handleSetStatsTopic_def
      handleRefreshUsernames_def dispatchMyChatMember_def dispatchChatMember_def case_prod_beta Let_def
      split: sum.split option.split)

lemma calm_backfill [simp]:
  assumes "calm w w1"
  shows "calm w (snd (handleForwardedAdd e m u w1))"
    and "calm w (snd (handleAddParticipantTap e q p w1))"
  using assms
  by (simp_all add: handleForwardedAdd_def adminGroupsFor_def upsertBackfillParticipant_def
      handleAddParticipantTap_def answer_res_def case_prod_beta Let_def
      split: sum.split option.split list.split)

lemma calm_account_commands [simp]:
  assumes "calm w w1"
  shows "calm w (snd (handleStart e m w1))" and "calm w (snd (handleLogin e m a w1))"
    and "calm w (snd (handleLoginReply e m w1))" and "calm w (snd (handleLogout e m w1))"
    and "calm w (snd (handleLogoutReply e m w1))" and "calm w (snd (handleWhoami e m w1))"
  using assms
  by (simp_all add: handleStart_def handleLogin_def promptSent_def userFacingError_def handleLoginReply_def
      loginOutcome_def handleLogout_def handleLogoutReply_def handleWhoami_def case_prod_beta Let_def
      split: sum.split option.split store_error.split account_error.split)

lemma calm_probeAllAccounts [simp]: "calm w w1 \<Longrightarrow> calm w (probeAllAccounts e w1)"
proof -
  have one: "calm w w1 \<Longrightarrow> calm w (probeOne e a w1)" for a w1
    by (simp add: probeOne_def Let_def split: sum.split)
  have "calm w w1 \<Longrightarrow> calm w (fold (probeOne e) as w1)" for as w1
    by (induction as arbitrary: w1) (simp_all add: one)
  then show "calm w w1 \<Longrightarrow> calm w (probeAllAccounts e w1)" by (simp add: probeAllAccounts_def)
qed

lemma calm_front [simp]:
  assumes "calm w w1"
  shows "calm w (upsertSenderParticipant e m w1)" and "calm w (snd (deleteStatsTopicLitter e m w1))"
    and "calm w (snd (handlePing e m w1))" and "calm w (snd (answer_res e q t w1))"
  using assms
  by (simp_all add: upsertSenderParticipant_def deleteStatsTopicLitter_def handlePing_def answer_res_def
      split: sum.split)

lemma calm_notifyIn [simp]: "calm w w1 \<Longrightarrow> calm w (notifyIn e g gid t u w1)"
  by (simp add: notifyIn_def SendInGroup_def case_prod_beta Let_def)

lemma calm_fold_notifyIn [simp]: "calm w w1 \<Longrightarrow> calm w (fold (notifyIn e g gid t) us w1)"
  by (induction us arbitrary: w1) simp_all

section \<open>The interactive flow\<close>

lemma renderOpponentPicker_ok [simp]: "draft_ok (snd (renderOpponentPicker s gid d)) = draft_ok d"
  by (simp add: renderOpponentPicker_def Let_def)

lemma calm_startInteractiveMatch [simp]: "calm w w1 \<Longrightarrow> calm w (snd (startInteractiveMatch e m g w1))"
proof -
  let ?d = "zero_draft\<lparr>d_ownerID := usr_ID (sender m), d_page := 1, d_p1 := -1, d_p2 := -1\<rparr>"
  have "draft_ok ?d" by (simp add: draft_ok_def)
  then have "draft_ok (snd (renderOpponentPicker s gid ?d))" for s gid by simp
  then show "calm w w1 \<Longrightarrow> calm w (snd (startInteractiveMatch e m g w1))"
    by (simp add: startInteractiveMatch_def Let_def case_prod_beta split: option.split sum.split)
qed

text \<open>The world and the draft a tap ends with, when the tap is calm.\<close>

definition calm_tap :: "world \<Rightarrow> string option \<times> matchDraft \<times> world \<Rightarrow> bool" where
  "calm_tap w r \<longleftrightarrow> calm w (snd (snd r)) \<and> draft_ok (fst (snd r))"

lemma calm_act_text [simp]: "calm w w1 \<Longrightarrow> calm w (snd (act_text e c w1))"
  by (simp add: act_text_def case_prod_beta)

lemma calm_ack [simp]: "calm w w1 \<Longrightarrow> draft_ok d \<Longrightarrow> calm_tap w (ack e q t d w1)"
  by (simp add: calm_tap_def ack_def case_prod_beta Let_def)

lemma calm_editAndAck [simp]: "calm w w1 \<Longrightarrow> draft_ok d \<Longrightarrow> calm_tap w (editAndAck e q m v t d w1)"
  by (simp add: calm_tap_def editAndAck_def case_prod_beta Let_def)

lemma calm_showOpponents [simp]: "calm w w1 \<Longrightarrow> draft_ok d \<Longrightarrow> calm_tap w (showOpponents e q m d w1)"
  by (simp add: showOpponents_def case_prod_beta split: option.split)

lemma calm_taps:
  assumes "calm w w1" and "draft_ok d"
  shows "calm_tap w (tapCancel e q m d w1)" and "calm_tap w (tapNav e q m a d w1)"
    and "calm_tap w (tapOpp e q m a d w1)" and "calm_tap w (tapBack e q m d w1)"
    and "calm_tap w (tapScore e q m a d w1)"
proof -
  show "calm_tap w (tapCancel e q m d w1)"
    using assms by (simp add: tapCancel_def case_prod_beta Let_def calm_tap_def ack_def split: option.split)
  show "calm_tap w (tapNav e q m a d w1)" using assms by (simp add: tapNav_def split: option.split)
  show "calm_tap w (tapOpp e q m a d w1)"
    using assms by (simp add: tapOpp_def case_prod_beta Let_def draft_ok_def split: option.split)
  show "calm_tap w (tapBack e q m d w1)" using assms by (simp add: tapBack_def)
  show "calm_tap w (tapScore e q m a d w1)"
    using assms by (simp add: tapScore_def case_prod_beta Let_def draft_ok_def scoreMaxVal_def split: option.split)
qed

end
