(* ===== verification/Lifecycle.thy ===== *)
theory Lifecycle
  imports Effects
begin

text \<open>
  The life of a match across all handlers: who may register, approve, undo, restore or remove
  it. \<open>permitted e u w w'\<close> collects what an update of user \<open>u\<close> may have done to the match rows,
  the confirmations and the undo commands between two states; \<open>mild u w w'\<close> is the part of it
  that leaves the match rows alone. Every handler is a \<open>permitted\<close> step.
\<close>

section \<open>Authority\<close>

text \<open>During the update the messenger was asked whether \<open>u\<close> administers chat \<open>g\<close>, and said yes.\<close>

definition vouched :: "env \<Rightarrow> world \<Rightarrow> world \<Rightarrow> i64 \<Rightarrow> i64 \<Rightarrow> bool" where
  "vouched e w w' g u \<longleftrightarrow>
     list_ex (\<lambda>n. calls w' ! n = IsChatAdmin g u \<and> e_admin e (take n (calls w')) g u = Inr True)
       [length (calls w)..<length (calls w')]"

definition plays_in :: "i64 \<Rightarrow> Match \<Rightarrow> bool" where
  "plays_in u m \<longleftrightarrow> u = m_Player1ID m \<or> u = m_Player2ID m"

text \<open>Each player either is the acting user or has a row of the given kind for the match.\<close>

definition agreed :: "(i64 \<times> u64 \<times> i64, 'v) gomap \<Rightarrow> i64 \<Rightarrow> i64 \<Rightarrow> u64 \<Rightarrow> Match \<Rightarrow> bool" where
  "agreed rows u g i m \<longleftrightarrow>
     (m_Player1ID m = u \<or> mget rows (g, i, m_Player1ID m) \<noteq> None) \<and>
     (m_Player2ID m = u \<or> mget rows (g, i, m_Player2ID m) \<noteq> None)"

definition match_ok :: "Match \<Rightarrow> bool" where
  "match_ok m \<longleftrightarrow> m_Player1ID m \<noteq> m_Player2ID m \<and> m_Player1Score m \<noteq> m_Player2Score m \<and>
     m_Player1Score m \<le> 99 \<and> m_Player2Score m \<le> 99"

text \<open>The legal changes of one match row in an update of \<open>u\<close>.\<close>

fun legal :: "env \<Rightarrow> i64 \<Rightarrow> world \<Rightarrow> world \<Rightarrow> i64 \<Rightarrow> u64 \<Rightarrow> Match option \<Rightarrow> Match option \<Rightarrow> bool" where
  "legal e u w w' g i None None = True"
| "legal e u w w' g i None (Some m) \<longleftrightarrow>
     counter (st w) g < i \<and> m_RegisteredBy m = u \<and> match_ok m \<and>
     (m_Status m = MatchStatusPending \<or> m_Status m = MatchStatusApproved \<and> vouched e w w' g u)"
| "legal e u w w' g i (Some m) None \<longleftrightarrow>
     m_Status m = MatchStatusPending \<and> (plays_in u m \<or> vouched e w w' g u)"
| "legal e u w w' g i (Some m) (Some m') \<longleftrightarrow>
     m' = m \<or>
     m' = m\<lparr>m_Status := m_Status m'\<rparr> \<and>
     (m_Status m = MatchStatusPending \<and> m_Status m' = MatchStatusApproved \<and>
        (vouched e w w' g u \<or> agreed (confirmations (st w)) u g i m) \<or>
      m_Status m \<noteq> MatchStatusPending \<and> m_Status m' = toggledStatus (m_Status m) \<and>
        (vouched e w w' g u \<or> agreed (undos (st w)) u g i m))"

text \<open>New rows of a user-keyed table are the acting user's.\<close>

definition own_rows :: "i64 \<Rightarrow> (i64 \<times> u64 \<times> i64, 'v) gomap \<Rightarrow> (i64 \<times> u64 \<times> i64, 'v) gomap \<Rightarrow> bool" where
  "own_rows u old new \<longleftrightarrow> (\<forall>g i p. mget new (g, i, p) \<noteq> None \<longrightarrow> p = u \<or> mget old (g, i, p) \<noteq> None)"

definition world_ok :: "world \<Rightarrow> bool" where
  "world_ok w \<longleftrightarrow> wf_store (st w) \<and> drafts_ok w \<and> (\<forall>k m. mget (matches (st w)) k = Some m \<longrightarrow> match_ok m)"

text \<open>No group has used up its 2^64 - 1 match ids.\<close>

definition room :: "world \<Rightarrow> bool" where
  "room w \<longleftrightarrow> (\<forall>g. counter (st w) g \<noteq> - 1)"

definition permitted :: "env \<Rightarrow> i64 \<Rightarrow> world \<Rightarrow> world \<Rightarrow> bool" where
  "permitted e u w w' \<longleftrightarrow>
     (world_ok w \<longrightarrow> room w \<longrightarrow>
        world_ok w' \<and> prefix (calls w) (calls w') \<and> (\<forall>g. counter (st w) g \<le> counter (st w') g) \<and>
        (\<forall>g i. legal e u w w' g i (mget (matches (st w)) (g, i)) (mget (matches (st w')) (g, i))) \<and>
        own_rows u (confirmations (st w)) (confirmations (st w')) \<and> own_rows u (undos (st w)) (undos (st w')))"

definition mild :: "i64 \<Rightarrow> world \<Rightarrow> world \<Rightarrow> bool" where
  "mild u w w' \<longleftrightarrow>
     matches (st w') = matches (st w) \<and> matchCounters (st w') = matchCounters (st w) \<and>
     own_rows u (confirmations (st w)) (confirmations (st w')) \<and> own_rows u (undos (st w)) (undos (st w')) \<and>
     prefix (calls w) (calls w') \<and> (wf_store (st w) \<longrightarrow> wf_store (st w')) \<and> (drafts_ok w \<longrightarrow> drafts_ok w')"

section \<open>Algebra\<close>

lemma vouched_mono:
  assumes "vouched e w1 w2 g u" and "prefix (calls w0) (calls w1)" and "prefix (calls w2) (calls w3)"
  shows "vouched e w0 w3 g u"
proof -
  obtain n where n: "length (calls w1) \<le> n" "n < length (calls w2)" "calls w2 ! n = IsChatAdmin g u"
      "e_admin e (take n (calls w2)) g u = Inr True"
    using assms(1) by (auto simp: vouched_def list_ex_iff)
  obtain ys zs where "calls w1 = calls w0 @ ys" "calls w3 = calls w2 @ zs"
    using assms(2,3) by (auto simp: prefix_def)
  then have "length (calls w0) \<le> n" "n < length (calls w3)" "calls w3 ! n = calls w2 ! n"
      "take n (calls w3) = take n (calls w2)"
    using n by (auto simp: nth_append)
  then show ?thesis using n unfolding vouched_def list_ex_iff by (intro bexI [of _ n]) simp_all
qed

lemma vouched_isChatAdmin: "fst (isChatAdmin e g u w) \<Longrightarrow> vouched e w (snd (isChatAdmin e g u w)) g u"
  by (auto simp: isChatAdmin_def m_IsChatAdmin_def vouched_def split: sum.splits)

lemma own_rows_refl [simp]: "own_rows u m m"
  by (simp add: own_rows_def)

lemma own_rows_trans: "own_rows u a b \<Longrightarrow> own_rows u b c \<Longrightarrow> own_rows u a c"
  unfolding own_rows_def by blast

lemma agreed_own: "own_rows u old new \<Longrightarrow> agreed new u g i m \<Longrightarrow> agreed old u g i m"
  unfolding own_rows_def agreed_def by metis

lemma calm_mild: "calm w w' \<Longrightarrow> mild u w w'"
  by (simp add: calm_def mild_def)

lemma mild_refl [simp]: "mild u w w"
  by (simp add: mild_def)

lemma mild_trans: "mild u w1 w2 \<Longrightarrow> mild u w2 w3 \<Longrightarrow> mild u w1 w3"
  unfolding mild_def by (metis own_rows_trans prefix_order.trans)

lemma mild_calm: "mild u w w1 \<Longrightarrow> calm w1 w2 \<Longrightarrow> mild u w w2"
  by (rule mild_trans [OF _ calm_mild])

lemma mild_inv: "mild u w w' \<Longrightarrow> world_ok w \<Longrightarrow> world_ok w'"
  by (auto simp: mild_def world_ok_def)

lemma mild_counter: "mild u w w' \<Longrightarrow> counter (st w') = counter (st w)"
  by (simp add: mild_def counter_def fun_eq_iff)

lemma legal_refl [simp]: "legal e u w w' g i x x"
  by (cases x) simp_all

lemma legal_sandwich:
  assumes "legal e u w1 w2 g i x y" and "mild u w w1" and "mild u w2 w3"
  shows "legal e u w w3 g i x y"
proof -
  have v: "vouched e w1 w2 g u \<Longrightarrow> vouched e w w3 g u"
    using assms(2,3) by (auto simp: mild_def intro: vouched_mono)
  have c: "agreed (confirmations (st w1)) u g i m \<Longrightarrow> agreed (confirmations (st w)) u g i m"
    and n: "agreed (undos (st w1)) u g i m \<Longrightarrow> agreed (undos (st w)) u g i m" for m
    using assms(2) by (auto simp: mild_def intro: agreed_own)
  have "counter (st w1) = counter (st w)" using assms(2) by (rule mild_counter)
  then show ?thesis
    using assms(1) v c n by (cases x; cases y) auto
qed

lemma permitted_sandwich:
  assumes "mild u w w1" and "permitted e u w1 w2" and "mild u w2 w3"
  shows "permitted e u w w3"
  unfolding permitted_def
proof (intro impI)
  assume "world_ok w" "room w"
  have "world_ok w1" using assms(1) \<open>world_ok w\<close> by (rule mild_inv)
  moreover have "room w1" using mild_counter [OF assms(1)] \<open>room w\<close> by (simp add: room_def)
  ultimately have p: "world_ok w2" "prefix (calls w1) (calls w2)" "\<forall>g. counter (st w1) g \<le> counter (st w2) g"
      "\<forall>g i. legal e u w1 w2 g i (mget (matches (st w1)) (g, i)) (mget (matches (st w2)) (g, i))"
      "own_rows u (confirmations (st w1)) (confirmations (st w2))" "own_rows u (undos (st w1)) (undos (st w2))"
    using assms(2) unfolding permitted_def by blast+
  have m: "matches (st w1) = matches (st w)" "matches (st w3) = matches (st w2)"
      "own_rows u (confirmations (st w)) (confirmations (st w1))" "own_rows u (undos (st w)) (undos (st w1))"
      "own_rows u (confirmations (st w2)) (confirmations (st w3))" "own_rows u (undos (st w2)) (undos (st w3))"
      "prefix (calls w) (calls w1)" "prefix (calls w2) (calls w3)"
    using assms(1,3) by (simp_all add: mild_def)
  have "world_ok w3" using assms(3) p(1) by (rule mild_inv)
  moreover have "prefix (calls w) (calls w3)" using m(7) p(2) m(8) by (blast intro: prefix_order.trans)
  moreover have "\<forall>g. counter (st w) g \<le> counter (st w3) g"
    using p(3) mild_counter [OF assms(1)] mild_counter [OF assms(3)] by simp
  moreover have "legal e u w w3 g i (mget (matches (st w)) (g, i)) (mget (matches (st w3)) (g, i))" for g i
    using legal_sandwich [OF p(4) [rule_format] assms(1,3)] m(1,2) by simp
  moreover have "own_rows u (confirmations (st w)) (confirmations (st w3))"
    using m(3) p(5) m(5) by (blast intro: own_rows_trans)
  moreover have "own_rows u (undos (st w)) (undos (st w3))"
    using m(4) p(6) m(6) by (blast intro: own_rows_trans)
  ultimately show "world_ok w3 \<and> prefix (calls w) (calls w3) \<and> (\<forall>g. counter (st w) g \<le> counter (st w3) g) \<and>
      (\<forall>g i. legal e u w w3 g i (mget (matches (st w)) (g, i)) (mget (matches (st w3)) (g, i))) \<and>
      own_rows u (confirmations (st w)) (confirmations (st w3)) \<and> own_rows u (undos (st w)) (undos (st w3))"
    by blast
qed

lemma permitted_refl [simp]: "permitted e u w w"
  by (simp add: permitted_def)

lemma mild_permitted: "mild u w w' \<Longrightarrow> permitted e u w w'"
  by (rule permitted_sandwich [OF _ permitted_refl mild_refl])

lemma calm_permitted: "calm w w' \<Longrightarrow> permitted e u w w'"
  by (rule mild_permitted [OF calm_mild])

lemma permitted_calm: "permitted e u w w1 \<Longrightarrow> calm w1 w2 \<Longrightarrow> permitted e u w w2"
  by (rule permitted_sandwich [OF mild_refl _ calm_mild])

lemma permitted_mild: "permitted e u w w1 \<Longrightarrow> mild u w1 w2 \<Longrightarrow> permitted e u w w2"
  by (rule permitted_sandwich [OF mild_refl])

lemma calm_then_permitted: "calm w w1 \<Longrightarrow> permitted e u w1 w2 \<Longrightarrow> permitted e u w w2"
  by (rule permitted_sandwich [OF calm_mild _ mild_refl])

section \<open>Steps on one row\<close>

lemma permittedI: "(world_ok w \<Longrightarrow> permitted e u w w') \<Longrightarrow> permitted e u w w'"
  by (simp add: permitted_def)

lemma legal_calls: "calls w2 = calls w1 \<Longrightarrow> legal e u w w2 g i x y = legal e u w w1 g i x y"
  by (cases x; cases y) (simp_all add: vouched_def)

lemma permitted_key:
  assumes m: "mild u w w1" and c: "calls w2 = calls w1"
    and other: "\<And>k. k \<noteq> (g, i) \<Longrightarrow> mget (matches (st w2)) k = mget (matches (st w1)) k"
    and count: "world_ok w1 \<Longrightarrow> room w1 \<Longrightarrow> (\<forall>h. counter (st w1) h \<le> counter (st w2) h)"
    and inv: "world_ok w1 \<Longrightarrow> room w1 \<Longrightarrow> world_ok w2"
    and rows: "own_rows u (confirmations (st w1)) (confirmations (st w2))"
      "own_rows u (undos (st w1)) (undos (st w2))"
    and legal: "world_ok w1 \<Longrightarrow> room w1 \<Longrightarrow>
      legal e u w w1 g i (mget (matches (st w1)) (g, i)) (mget (matches (st w2)) (g, i))"
  shows "permitted e u w w2"
  unfolding permitted_def
proof (intro impI)
  assume w: "world_ok w" "room w"
  then have w1: "world_ok w1" "room w1"
    using mild_inv [OF m] mild_counter [OF m] by (simp_all add: room_def)
  have ms: "matches (st w1) = matches (st w)" and cs: "counter (st w1) = counter (st w)"
      and p: "prefix (calls w) (calls w1)" and r: "own_rows u (confirmations (st w)) (confirmations (st w1))"
      "own_rows u (undos (st w)) (undos (st w1))"
    using m mild_counter [OF m] by (simp_all add: mild_def)
  have "legal e u w w2 h j (mget (matches (st w)) (h, j)) (mget (matches (st w2)) (h, j))" for h j
    using legal [OF w1] other [of "(h, j)"] ms legal_calls [OF c] by (cases "(h, j) = (g, i)") simp_all
  then show "world_ok w2 \<and> prefix (calls w) (calls w2) \<and> (\<forall>g. counter (st w) g \<le> counter (st w2) g) \<and>
      (\<forall>g i. legal e u w w2 g i (mget (matches (st w)) (g, i)) (mget (matches (st w2)) (g, i))) \<and>
      own_rows u (confirmations (st w)) (confirmations (st w2)) \<and> own_rows u (undos (st w)) (undos (st w2))"
    using inv [OF w1] p c count [OF w1] cs own_rows_trans [OF r(1) rows(1)] own_rows_trans [OF r(2) rows(2)]
    by simp
qed

definition allocated :: "i64 \<Rightarrow> (u64 \<Rightarrow> Match) \<Rightarrow> world \<Rightarrow> world" where
  "allocated gid b w = w\<lparr>st := snd (AllocateAndInsertMatch gid b (st w))\<rparr>"

definition next_id :: "i64 \<Rightarrow> world \<Rightarrow> u64" where
  "next_id gid w = counter (st w) gid + 1"

lemma Allocate_fst: "fst (AllocateAndInsertMatch gid b (st w)) = next_id gid w"
  by (simp add: AllocateAndInsertMatch_def Let_def next_id_def)

lemma allocated_frame [simp]:
  "calls (allocated gid b w) = calls w" "confirmations (st (allocated gid b w)) = confirmations (st w)"
  "undos (st (allocated gid b w)) = undos (st w)" "groups (st (allocated gid b w)) = groups (st w)"
  by (simp_all add: allocated_def AllocateAndInsertMatch_def Let_def)

lemma allocated_matches:
  "(\<And>i. m_GroupID (b i) = gid) \<Longrightarrow>
   matches (st (allocated gid b w)) = mput (gid, next_id gid w) ((b (next_id gid w))\<lparr>m_MatchID := next_id gid w\<rparr>) (matches (st w))"
  by (simp add: allocated_def AllocateAndInsertMatch_def Let_def next_id_def)

lemma allocated_counter: "counter (st (allocated gid b w)) h = (if h = gid then next_id gid w else counter (st w) h)"
  by (simp add: allocated_def AllocateAndInsertMatch_def Let_def next_id_def counter_def)

lemma new_match_sel [simp]:
  "m_GroupID (new_match g a b s1 s2 u adm now i) = g"
  "(new_match g a b s1 s2 u adm now i)\<lparr>m_MatchID := i\<rparr> = new_match g a b s1 s2 u adm now i"
  "m_RegisteredBy (new_match g a b s1 s2 u adm now i) = u"
  "m_Status (new_match g a b s1 s2 u adm now i) = (if adm then MatchStatusApproved else MatchStatusPending)"
  "m_MatchID (new_match g a b s1 s2 u adm now i) = i"
  by (simp_all add: new_match_def)

lemma permitted_alloc:
  assumes "mild u w w1" and "a \<noteq> b" "s1 \<noteq> s2" "s1 \<le> 99" "s2 \<le> 99"
    and "adm \<Longrightarrow> vouched e w w1 gid u"
  shows "permitted e u w (allocated gid (new_match gid a b s1 s2 u adm now) w1)"
proof (rule permitted_key [OF assms(1), where g = gid and i = "next_id gid w1"])
  let ?w2 = "allocated gid (new_match gid a b s1 s2 u adm now) w1"
  let ?m = "new_match gid a b s1 s2 u adm now (next_id gid w1)"
  have ms: "matches (st ?w2) = mput (gid, next_id gid w1) ?m (matches (st w1))"
    by (simp add: allocated_matches)
  have ok: "match_ok ?m" using assms by (simp add: match_ok_def new_match_def)
  show "k \<noteq> (gid, next_id gid w1) \<Longrightarrow> mget (matches (st ?w2)) k = mget (matches (st w1)) k" for k
    using ms by simp
  assume w1: "world_ok w1" "room w1"
  then have lt: "counter (st w1) gid < next_id gid w1" by (simp add: next_id_def room_def)
  then show "\<forall>h. counter (st w1) h \<le> counter (st ?w2) h" by (simp add: allocated_counter)
  have "wf_store (st ?w2)"
    using w1 by (auto simp: world_ok_def room_def allocated_def intro!: wf_AllocateAndInsertMatch)
  moreover have "drafts_ok ?w2" using w1 by (simp add: world_ok_def allocated_def drafts_ok_def)
  ultimately show "world_ok ?w2" using w1 ok ms by (simp add: world_ok_def)
  have none: "mget (matches (st w1)) (gid, next_id gid w1) = None"
  proof (rule ccontr)
    assume "mget (matches (st w1)) (gid, next_id gid w1) \<noteq> None"
    then have "next_id gid w1 \<le> counter (st w1) gid"
      using w1(1) by (auto simp: world_ok_def wf_store_def counter_counter_in dest: ids_boundedD)
    then show False using lt by simp
  qed
  show "legal e u w w1 gid (next_id gid w1) (mget (matches (st w1)) (gid, next_id gid w1))
      (mget (matches (st ?w2)) (gid, next_id gid w1))"
    using none ms ok assms(6) lt mild_counter [OF assms(1)] by simp
qed simp_all

lemma permitted_status:
  assumes "mild u w w1" and "mget (matches (st w1)) (g, i) = Some m"
    and "legal e u w w1 g i (Some m) (Some (m\<lparr>m_Status := s\<rparr>))"
  shows "permitted e u w (upd_st (\<lambda>x. snd (matchRepo_UpdateStatus (g, i) s x)) w1)"
proof (rule permitted_key [OF assms(1), where g = g and i = i])
  let ?w2 = "upd_st (\<lambda>x. snd (matchRepo_UpdateStatus (g, i) s x)) w1"
  have ms: "matches (st ?w2) = mput (g, i) (m\<lparr>m_Status := s\<rparr>) (matches (st w1))"
    using assms(2) by (simp add: matchRepo_UpdateStatus_def)
  show "k \<noteq> (g, i) \<Longrightarrow> mget (matches (st ?w2)) k = mget (matches (st w1)) k" for k
    using ms by simp
  show "\<forall>h. counter (st w1) h \<le> counter (st ?w2) h"
    using assms(2) by (simp add: matchRepo_UpdateStatus_def counter_def)
  show "own_rows u (confirmations (st w1)) (confirmations (st ?w2))" "own_rows u (undos (st w1)) (undos (st ?w2))"
    using assms(2) by (simp_all add: matchRepo_UpdateStatus_def)
  assume w1: "world_ok w1"
  then have "wf_store (st ?w2)" by (simp add: world_ok_def wf_matchRepo_UpdateStatus)
  moreover have "drafts_ok ?w2" using w1 by (simp add: world_ok_def drafts_ok_def)
  moreover have "match_ok (m\<lparr>m_Status := s\<rparr>)" using w1 assms(2) by (auto simp: world_ok_def match_ok_def)
  ultimately show "world_ok ?w2" using w1 ms by (simp add: world_ok_def)
  show "legal e u w w1 g i (mget (matches (st w1)) (g, i)) (mget (matches (st ?w2)) (g, i))"
    using assms(2,3) ms by simp
qed simp_all

definition deleted :: "i64 \<times> u64 \<Rightarrow> world \<Rightarrow> world" where
  "deleted k w = w\<lparr>st := snd (matchRepo_Delete k (st w))\<rparr>"

lemma deleted_frame [simp]:
  "calls (deleted k w) = calls w" "matchCounters (st (deleted k w)) = matchCounters (st w)"
  "groups (st (deleted k w)) = groups (st w)" "participants (st (deleted k w)) = participants (st w)"
  by (simp_all add: deleted_def matchRepo_Delete_def split: option.split)

lemma mget_matches_deleted [simp]:
  "mget (matches (st (deleted k w))) k' = (if k' = k then None else mget (matches (st w)) k')"
  by (auto simp: deleted_def matchRepo_Delete_def split: option.split)

lemma own_rows_mdel_if [simp]: "own_rows u m (mdel_if p m)"
  by (simp add: own_rows_def)

lemma deleted_inv: "world_ok w \<Longrightarrow> world_ok (deleted k w)"
  using wf_matchRepo_Delete [of "st w" k] mget_matches_deleted [of k w]
  by (auto simp: world_ok_def drafts_ok_def deleted_def split: if_splits)

lemma deleted_rows: "own_rows u (confirmations (st w)) (confirmations (st (deleted k w)))"
  "own_rows u (undos (st w)) (undos (st (deleted k w)))"
  by (simp_all add: deleted_def matchRepo_Delete_def split: option.split)

lemma permitted_delete:
  assumes "mild u w w1" and "mget (matches (st w1)) (g, i) = Some m" and "legal e u w w1 g i (Some m) None"
  shows "permitted e u w (deleted (g, i) w1)"
  by (rule permitted_key [OF assms(1), where g = g and i = i])
    (use assms in \<open>simp_all add: deleted_inv deleted_rows counter_def del: split_paired_All\<close>)

lemma mild_confirm:
  assumes "mild u w w1" and "mget (matches (st w1)) (g, i) \<noteq> None"
  shows "mild u w (upd_st (confirmRepo_Insert (own_confirmation g i u now)) w1)"
proof -
  let ?w2 = "upd_st (confirmRepo_Insert (own_confirmation g i u now)) w1"
  have "wf_store (st w1) \<Longrightarrow> wf_store (st ?w2)"
    using assms(2) by (simp add: own_confirmation_def wf_confirmRepo_Insert)
  moreover have "own_rows u (confirmations (st w1)) (confirmations (st ?w2))"
    by (auto simp: own_rows_def repo_put_defs conf_key_def own_confirmation_def)
  ultimately have "mild u w1 ?w2" by (simp add: mild_def repo_put_defs drafts_ok_def)
  then show ?thesis by (rule mild_trans [OF assms(1)])
qed

lemma mild_undo:
  assumes "mild u w w1" and "mget (matches (st w1)) (g, i) \<noteq> None"
  shows "mild u w (upd_st (undoRepo_Insert \<lparr>u_GroupID = g, u_MatchID = i, u_TelegramID = u, u_RequestedAt = now\<rparr>) w1)"
proof -
  let ?w2 = "upd_st (undoRepo_Insert \<lparr>u_GroupID = g, u_MatchID = i, u_TelegramID = u, u_RequestedAt = now\<rparr>) w1"
  have "wf_store (st w1) \<Longrightarrow> wf_store (st ?w2)" using assms(2) by (simp add: wf_undoRepo_Insert)
  moreover have "own_rows u (undos (st w1)) (undos (st ?w2))"
    by (auto simp: own_rows_def repo_put_defs undo_key_def)
  ultimately have "mild u w1 ?w2" by (simp add: mild_def repo_put_defs drafts_ok_def)
  then show ?thesis by (rule mild_trans [OF assms(1)])
qed

lemma own_rows_mdel [simp]: "own_rows u m (mdel k m)"
  by (simp add: own_rows_def)

lemma mild_undo_delete:
  assumes "mild u w w1"
  shows "mild u w (upd_st (\<lambda>s. snd (undoRepo_Delete k s)) w1)" and "mild u w (upd_st (undoRepo_DeleteForMatch k2) w1)"
proof -
  have "mild u w1 (upd_st (\<lambda>s. snd (undoRepo_Delete k s)) w1)"
    using wf_undoRepo_Delete [of "st w1" k]
    by (auto simp: mild_def undoRepo_Delete_def drafts_ok_def split: option.split)
  then show "mild u w (upd_st (\<lambda>s. snd (undoRepo_Delete k s)) w1)" by (rule mild_trans [OF assms])
  have "mild u w1 (upd_st (undoRepo_DeleteForMatch k2) w1)"
    using wf_undoRepo_DeleteForMatch [of "st w1" k2]
    by (simp add: mild_def undoRepo_DeleteForMatch_def drafts_ok_def)
  then show "mild u w (upd_st (undoRepo_DeleteForMatch k2) w1)" by (rule mild_trans [OF assms])
qed

section \<open>Registration\<close>

lemma isChatAdmin_facts:
  assumes "isChatAdmin e g u w = (adm, w1)"
  shows "calm w w1" and "adm \<Longrightarrow> vouched e w w1 g u" and "st w1 = st w"
proof -
  have w1: "w1 = w\<lparr>calls := calls w @ [IsChatAdmin g u]\<rparr>"
    using isChatAdmin_frame [of e g u w] unfolding assms by simp
  show "calm w w1" "st w1 = st w" by (simp_all add: w1)
  show "adm \<Longrightarrow> vouched e w w1 g u" using vouched_isChatAdmin [of e g u w] unfolding assms by simp
qed

text \<open>The world after the row is in: everything that follows is calm, but for the author's
  confirmation of a pending match.\<close>

lemma permitted_registered:
  assumes "isChatAdmin e gid u w = (adm, w1)"
    and "AllocateAndInsertMatch gid (new_match gid a b s1 s2 u adm now) (st w1) = (i, st2)"
    and "a \<noteq> b" "s1 \<noteq> s2" "s1 \<le> 99" "s2 \<le> 99"
    and "calm (w1\<lparr>st := st2\<rparr>) w3"
  shows "permitted e u w w3"
    and "permitted e u w (upd_st (confirmRepo_Insert (own_confirmation gid i u t)) w3)"
proof -
  let ?w2 = "allocated gid (new_match gid a b s1 s2 u adm now) w1"
  have w2: "w1\<lparr>st := st2\<rparr> = ?w2" "i = next_id gid w1"
    using assms(2) Allocate_fst [of gid "new_match gid a b s1 s2 u adm now" w1] by (simp_all add: allocated_def)
  have p: "permitted e u w ?w2"
    using assms(3-6) isChatAdmin_facts [OF assms(1)] by (intro permitted_alloc calm_mild)
  have q: "calm ?w2 w3" using assms(7) w2 by simp
  show "permitted e u w w3" using p q by (rule permitted_calm)
  have "mget (matches (st w3)) (gid, i) \<noteq> None"
    using calmD(1) [OF q] w2 by (simp add: allocated_matches)
  then have "mild u ?w2 (upd_st (confirmRepo_Insert (own_confirmation gid i u t)) w3)"
    by (rule mild_confirm [OF calm_mild [OF q]])
  then show "permitted e u w (upd_st (confirmRepo_Insert (own_confirmation gid i u t)) w3)"
    by (rule permitted_mild [OF p])
qed

lemma register_interactive_permitted:
  assumes "s1 \<noteq> s2" "s1 \<le> 99" "s2 \<le> 99"
  shows "permitted e u w (snd (registerInteractiveMatch e g u opp s1 s2 w))"
proof (cases "u = opp")
  case True
  then show ?thesis by (simp add: registerInteractiveMatch_def)
next
  case False
  obtain adm w1 where a: "isChatAdmin e (g_GroupID g) u w = (adm, w1)" by fastforce
  obtain i st2 where i: "AllocateAndInsertMatch (g_GroupID g)
      (new_match (g_GroupID g) u opp s1 s2 u adm (e_now e)) (st w1) = (i, st2)" by fastforce
  obtain t w3 where r: "renderMatch e (g_GroupID g) (new_match 0 u opp s1 s2 u adm (e_now e) i)
      (if adm then ''registered'' else ''pending'') (w1\<lparr>st := st2\<rparr>) = (t, w3)" by fastforce
  have "calm (w1\<lparr>st := st2\<rparr>) w3" using quiet_calm [OF renderMatch_quiet] r by (metis snd_conv)
  note p = permitted_registered [OF a i False assms this]
  have "permitted e u w (detachedRefreshStatsTopic g w3)" by (rule permitted_calm [OF p(1)]) simp
  then show ?thesis using False p(2) by (simp add: registerInteractiveMatch_def a i r)
qed

lemma missingNickname_calm: "calm w (snd (missingNickname e p w))"
  by (simp add: missingNickname_def case_prod_beta)

lemma register_typed_permitted:
  assumes "mp_TelegramID p \<noteq> mp_TelegramID q" "P1 score \<noteq> P2 score" "P1 score \<le> 99" "P2 score \<le> 99"
    and "g_GroupID g = ch_ID (msg_Chat m)"
  shows "permitted e (usr_ID (sender m)) w (snd (registerMatch e m g p q score w))"
proof -
  let ?u = "usr_ID (sender m)" and ?gid = "ch_ID (msg_Chat m)" and ?a = "mp_TelegramID p" and ?b = "mp_TelegramID q"
  obtain adm w1 where a: "isChatAdmin e ?gid ?u w = (adm, w1)" by fastforce
  obtain i st2 where i: "AllocateAndInsertMatch ?gid
      (new_match ?gid ?a ?b (P1 score) (P2 score) ?u adm (e_now e)) (st w1) = (i, st2)" by fastforce
  obtain t w3 where r: "renderMatch e ?gid (new_match 0 ?a ?b (P1 score) (P2 score) ?u adm (e_now e) i)
      (if adm then ''registered'' else ''pending'') (w1\<lparr>st := st2\<rparr>) = (t, w3)" by fastforce
  obtain m1 w4 where m1: "missingNickname e p w3 = (m1, w4)" by fastforce
  obtain m2 w5 where m2: "missingNickname e q w4 = (m2, w5)" by fastforce
  have "calm (w1\<lparr>st := st2\<rparr>) w3" using quiet_calm [OF renderMatch_quiet] r by (metis snd_conv)
  then have c: "calm (w1\<lparr>st := st2\<rparr>) w5"
    using missingNickname_calm [of w3 e p] missingNickname_calm [of w4 e q] m1 m2 calm_trans by (metis snd_conv)
  note p = permitted_registered [OF a i assms(1-4) c]
  have "permitted e ?u w (w5\<lparr>calls := calls w5 @ cs, detached := ds\<rparr>)" for cs ds
    by (rule permitted_calm [OF p(1)]) simp
  moreover have "permitted e ?u w (w5\<lparr>calls := calls w5 @ cs\<rparr>)" for cs
    by (rule permitted_calm [OF p(1)]) simp
  moreover have "permitted e ?u w ((upd_st (confirmRepo_Insert (own_confirmation ?gid i ?u (e_now e))) w5)\<lparr>calls := calls w5 @ cs\<rparr>)" for cs
    by (rule permitted_calm [OF p(2) [of "e_now e"]]) simp
  ultimately show ?thesis
    using a i r
    by (cases adm)
      (simp_all add: registerMatch_def assms(5) m1 m2 case_prod_beta Let_def detachedRefreshStatsTopic_def
        split: sum.split)
qed

section \<open>Commands\<close>

lemma of_nat_u32 [simp]:
  "a \<le> 99 \<Longrightarrow> (of_nat a :: u32) \<le> 99"
  "a \<le> 99 \<Longrightarrow> b \<le> 99 \<Longrightarrow> (of_nat a :: u32) = of_nat b \<longleftrightarrow> a = b"
  by (simp_all add: word_le_nat_alt unat_of_nat word_unat_eq_iff)

lemma ParseScore_ok:
  "ParseScore t = Inr sc \<Longrightarrow> P1 sc \<noteq> P2 sc \<and> P1 sc \<le> 99 \<and> P2 sc \<le> 99"
  by (auto simp: ParseScore_def ScoreMax_def split: option.splits if_splits prod.splits)

lemma matchPlayers_calm: "calm w (snd (matchPlayers e m ts w))"
  by (simp add: matchPlayers_def case_prod_beta Let_def split: list.split sum.split)

lemma group_id:
  assumes "world_ok w" and "groupRepo_Get (st w) g = Inr row"
  shows "g_GroupID row = g"
  using assms by (auto simp: world_ok_def wf_store_def groupRepo_Get_def dest: keyedD)

lemma handleMatch_permitted: "permitted e (usr_ID (sender m)) w (snd (handleMatch e m args w))"
proof (rule permittedI)
  let ?u = "usr_ID (sender m)"
  assume inv: "world_ok w"
  have typed: "permitted e ?u w (snd (typedMatch e m g args w))" if g: "g_GroupID g = ch_ID (msg_Chat m)" for g
  proof -
    let ?ts = "Fields args"
    obtain r w1 where mp: "matchPlayers e m ?ts w = (r, w1)" by fastforce
    have c: "calm w w1" using matchPlayers_calm [of w e m ?ts] mp by simp
    have err: "permitted e ?u w (snd (reply e m t w1))" for t using c by (intro calm_permitted) simp
    show ?thesis
    proof (cases "ParseScore (last ?ts)")
      case (Inl x)
      then show ?thesis by (simp add: typedMatch_def Let_def calm_permitted)
    next
      case (Inr score)
      have ok: "P1 score \<noteq> P2 score" "P1 score \<le> 99" "P2 score \<le> 99" using ParseScore_ok [OF Inr] by simp_all
      have reg: "permitted e ?u w (snd (registerMatch e m g p q score w1))"
        if "mp_TelegramID p \<noteq> mp_TelegramID q" for p q
        by (rule calm_then_permitted [OF c register_typed_permitted [OF that ok g]])
      show ?thesis using err reg
        by (cases r) (auto simp: typedMatch_def Inr mp case_prod_beta Let_def calm_permitted)
    qed
  qed
  show "permitted e ?u w (snd (handleMatch e m args w))"
    using typed group_id [OF inv]
    by (auto simp: handleMatch_def calm_permitted split: sum.split)
qed

section \<open>Confirm and Cancel\<close>

lemma mayDecide_facts:
  assumes "mayDecide e g m u w = (ok, w1)"
  shows "calm w w1" and "ok \<Longrightarrow> plays_in u m \<or> vouched e w w1 g u" and "st w1 = st w"
proof -
  show "calm w w1" using assms isChatAdmin_facts by (auto simp: mayDecide_def split: if_splits)
  show "st w1 = st w" using assms isChatAdmin_facts by (auto simp: mayDecide_def split: if_splits)
  show "ok \<Longrightarrow> plays_in u m \<or> vouched e w w1 g u"
    using assms isChatAdmin_facts(2) by (auto simp: mayDecide_def plays_in_def split: if_splits)
qed

lemma approveMatch_permitted:
  assumes "mild u w w1" and "mget (matches (st w1)) (g, i) = Some m" and "m_Status m = MatchStatusPending"
    and "vouched e w w1 g u \<or> agreed (confirmations (st w)) u g i m"
  shows "permitted e u w (snd (approveMatch e q gr g i m t w1))"
proof -
  let ?w2 = "upd_st (\<lambda>x. snd (matchRepo_UpdateStatus (g, i) MatchStatusApproved x)) w1"
  have p: "permitted e u w ?w2"
    using assms by (intro permitted_status [where m = m]) simp_all
  have "calm ?w2 (snd (approveMatch e q gr g i m t w1))"
    by (simp add: approveMatch_def case_prod_beta Let_def split: option.split)
  then show ?thesis by (rule permitted_calm [OF p])
qed

lemma confirmations_listed:
  assumes "wf_store s"
  shows "p \<in> set (map c_TelegramID (confirmRepo_ListForMatch s (g, i))) \<longleftrightarrow> mget (confirmations s) (g, i, p) \<noteq> None"
proof -
  have wf: "wf_map (confirmations s)" and k: "keyed conf_key (confirmations s)" using assms by (simp_all add: wf_store_def)
  have "x \<in> set (confirmRepo_ListForMatch s (g, i)) \<longleftrightarrow> (\<exists>u. mget (confirmations s) (g, i, u) = Some x)" for x
    using mvals_if_iff [OF wf] by (auto simp: confirmRepo_ListForMatch_def for_match_def)
  moreover have "mget (confirmations s) (g, i, u) = Some x \<Longrightarrow> c_TelegramID x = u" for u x
    using keyedD [OF k] by (fastforce simp: conf_key_def)
  ultimately show ?thesis by (auto simp: image_iff)
qed

lemma undos_listed:
  assumes "wf_store s"
  shows "p \<in> set (map u_TelegramID (undoRepo_ListForMatch s (g, i))) \<longleftrightarrow> mget (undos s) (g, i, p) \<noteq> None"
proof -
  have wf: "wf_map (undos s)" and k: "keyed undo_key (undos s)" using assms by (simp_all add: wf_store_def)
  have "x \<in> set (undoRepo_ListForMatch s (g, i)) \<longleftrightarrow> (\<exists>u. mget (undos s) (g, i, u) = Some x)" for x
    using mvals_if_iff [OF wf] by (auto simp: undoRepo_ListForMatch_def for_match_def)
  moreover have "mget (undos s) (g, i, u) = Some x \<Longrightarrow> u_TelegramID x = u" for u x
    using keyedD [OF k] by (fastforce simp: undo_key_def)
  ultimately show ?thesis by (auto simp: image_iff)
qed

lemma agreed_iff_listed:
  assumes "wf_store (st w2)" and "own_rows u (confirmations (st w)) (confirmations (st w2))"
    and "m_Player1ID m \<in> set (map c_TelegramID (confirmRepo_ListForMatch (st w2) (g, i)))"
    and "m_Player2ID m \<in> set (map c_TelegramID (confirmRepo_ListForMatch (st w2) (g, i)))"
  shows "agreed (confirmations (st w)) u g i m"
  using assms unfolding confirmations_listed [OF assms(1)] own_rows_def agreed_def by metis

lemma agreed_undo_listed:
  assumes "wf_store (st w2)" and "own_rows u (undos (st w)) (undos (st w2))"
    and "m_Player1ID m \<in> set (map u_TelegramID (undoRepo_ListForMatch (st w2) (g, i)))"
    and "m_Player2ID m \<in> set (map u_TelegramID (undoRepo_ListForMatch (st w2) (g, i)))"
  shows "agreed (undos (st w)) u g i m"
  using assms unfolding undos_listed [OF assms(1)] own_rows_def agreed_def by metis

lemma handleConfirmTap_permitted: "permitted e (usr_ID (tapper q)) w (snd (handleConfirmTap e q payload w))"
proof (rule permittedI)
  let ?u = "usr_ID (tapper q)"
  assume inv: "world_ok w"
  have ack: "permitted e ?u w (snd (answer_res e q t w1))" if "calm w w1" for t w1
    using that by (intro calm_permitted) simp
  show "permitted e ?u w (snd (handleConfirmTap e q payload w))"
  proof (cases "parseGroupMatchPayload payload")
    case None
    then show ?thesis by (simp add: handleConfirmTap_def ack)
  next
    case (Some gi)
    obtain g i where gi: "gi = (g, i)" by (cases gi)
    show ?thesis
    proof (cases "matchRepo_Get (st w) (g, i)")
      case (Inl x)
      then show ?thesis by (simp add: handleConfirmTap_def Some gi ack)
    next
      case (Inr m)
      then have m: "mget (matches (st w)) (g, i) = Some m" by (simp add: matchRepo_Get_def)
      obtain ok w1 where d: "mayDecide e g m ?u w = (ok, w1)" by fastforce
      note w1 = mayDecide_facts [OF d]
      let ?w2 = "upd_st (confirmRepo_Insert (own_confirmation g i ?u (e_now e))) w1"
      obtain adm w3 where a: "isChatAdmin e g ?u ?w2 = (adm, w3)" by fastforce
      note w3 = isChatAdmin_facts [OF a]
      have m2: "mild ?u w ?w2" using w1 m by (intro mild_confirm calm_mild) simp_all
      then have m3: "mild ?u w w3" using w3(1) by (rule mild_calm)
      have m3': "mget (matches (st w3)) (g, i) = Some m" using m3 m by (simp add: mild_def)
      have v: "adm \<Longrightarrow> vouched e w w3 g ?u"
        by (rule vouched_mono [OF w3(2)]) (use m2 in \<open>simp_all add: mild_def\<close>)
      have wf3: "wf_store (st w3)" using m3 inv by (simp add: mild_def world_ok_def)
      have ag: "m_Player1ID m \<in> set (map c_TelegramID (confirmRepo_ListForMatch (st w3) (g, i))) \<Longrightarrow>
          m_Player2ID m \<in> set (map c_TelegramID (confirmRepo_ListForMatch (st w3) (g, i))) \<Longrightarrow>
          agreed (confirmations (st w)) ?u g i m"
        using m3 by (intro agreed_iff_listed [OF wf3]) (simp_all add: mild_def)
      have app: "permitted e ?u w (snd (approveMatch e q gr g i m t w3))"
        if "m_Status m = MatchStatusPending" "vouched e w w3 g ?u \<or> agreed (confirmations (st w)) ?u g i m" for gr t
        using m3 m3' that by (rule approveMatch_permitted)
      have appA: "permitted e ?u w (snd (approveMatch e q gr g i m t w3))"
        if "adm" "m_Status m = MatchStatusPending" for gr t
        using app v that by blast
      have appB: "permitted e ?u w (snd (approveMatch e q gr g i m t w3))"
        if "m_Player1ID m \<in> set (map c_TelegramID (confirmRepo_ListForMatch (st w3) (g, i)))"
          "m_Player2ID m \<in> set (map c_TelegramID (confirmRepo_ListForMatch (st w3) (g, i)))"
          "m_Status m = MatchStatusPending" for gr t
        using app ag that by blast
      have last: "permitted e ?u w (snd (answer_res e q t (snd (m_act e c w3))))" "permitted e ?u w w3" for t c
        using mild_permitted [OF mild_calm [OF m3]] by simp_all
      show ?thesis
        unfolding handleConfirmTap_def Some gi option.case case_prod_beta Let_def fst_conv snd_conv Inr sum.case d a
        using ack [OF w1(1)] appA appB last by (auto simp del: m_snd set_map split: option.split)
    qed
  qed
qed

lemma handleCancelTap_permitted: "permitted e (usr_ID (tapper q)) w (snd (handleCancelTap e q payload w))"
proof -
  let ?u = "usr_ID (tapper q)"
  have ack: "permitted e ?u w (snd (answer_res e q t w1))" if "calm w w1" for t w1
    using that by (intro calm_permitted) simp
  show ?thesis
  proof (cases "parseGroupMatchPayload payload")
    case None
    then show ?thesis by (simp add: handleCancelTap_def ack)
  next
    case (Some gi)
    obtain g i where gi: "gi = (g, i)" by (cases gi)
    show ?thesis
    proof (cases "matchRepo_Get (st w) (g, i)")
      case (Inl x)
      then show ?thesis by (simp add: handleCancelTap_def Some gi ack)
    next
      case (Inr m)
      then have m: "mget (matches (st w)) (g, i) = Some m" by (simp add: matchRepo_Get_def)
      obtain ok w1 where d: "mayDecide e g m ?u w = (ok, w1)" by fastforce
      note w1 = mayDecide_facts [OF d]
      have r: "matchRepo_Delete (g, i) (st w1) = (None, st (deleted (g, i) w1))"
        using m w1(3) by (simp add: matchRepo_Delete_def deleted_def)
      have p: "permitted e ?u w (deleted (g, i) w1)" if "ok" "m_Status m = MatchStatusPending"
        using w1 m that by (intro permitted_delete [where m = m] calm_mild) auto
      have "w1\<lparr>st := st (deleted (g, i) w1)\<rparr> = deleted (g, i) w1" by (simp add: deleted_def)
      then show ?thesis
        using ack [OF w1(1)] p permitted_calm [OF p]
        by (auto simp: handleCancelTap_def Some gi Inr d r Let_def case_prod_beta split: option.split)
    qed
  qed
qed

section \<open>Undo\<close>

lemma toggle_permitted:
  assumes "mild u w w1" and "mget (matches (st w1)) (g_GroupID g, m_MatchID m) = Some m"
    and "m_Status m \<noteq> MatchStatusPending"
    and "vouched e w w1 (g_GroupID g) u \<or> agreed (undos (st w)) u (g_GroupID g) (m_MatchID m) m"
  shows "permitted e u w (snd (toggleMatchAndAnnounce e msg g m w1))"
proof -
  let ?k = "(g_GroupID g, m_MatchID m)" and ?s = "toggledStatus (m_Status m)"
  let ?w2 = "upd_st (\<lambda>x. snd (matchRepo_UpdateStatus ?k ?s x)) w1"
  have p: "permitted e u w ?w2"
    using assms by (intro permitted_status [where m = m]) simp_all
  have w2: "matchRepo_UpdateStatus ?k ?s (st w1) = (None, st ?w2)"
    using assms(2) by (simp add: matchRepo_UpdateStatus_def)
  have eq: "w1\<lparr>st := st ?w2\<rparr> = ?w2" by (simp add: upd_st_def)
  have d: "mild u ?w2 (upd_st (undoRepo_DeleteForMatch ?k) ?w2)" by (rule mild_undo_delete(2)) simp
  have "mild u ?w2 (snd (toggleMatchAndAnnounce e msg g m w1))"
    by (rule mild_calm [OF d])
      (simp add: toggleMatchAndAnnounce_def w2 eq Let_def case_prod_beta del: upd_st_sel)
  then show ?thesis by (rule permitted_mild [OF p])
qed

lemma requestUndo_permitted:
  assumes inv: "world_ok w" and m: "matchRepo_Get (st w) (g_GroupID g, i) = Inr m"
    and g: "g_GroupID g = ch_ID (msg_Chat msg)"
  shows "permitted e (usr_ID (sender msg)) w (snd (requestUndo e msg g i m w))"
proof -
  let ?u = "usr_ID (sender msg)" and ?g = "ch_ID (msg_Chat msg)"
  have m': "mget (matches (st w)) (?g, i) = Some m" using m g by (simp add: matchRepo_Get_def)
  have mid: "m_MatchID m = i"
    using inv m' by (auto simp: world_ok_def wf_store_def match_key_def dest: keyedD)
  obtain adm w1 where a: "isChatAdmin e ?g ?u w = (adm, w1)" by fastforce
  note w1 = isChatAdmin_facts [OF a]
  define w2 where "w2 = upd_st (undoRepo_Insert \<lparr>u_GroupID = ?g, u_MatchID = i, u_TelegramID = ?u,
    u_RequestedAt = e_now e\<rparr>) w1"
  have m2: "mild ?u w w2" unfolding w2_def using w1 m' by (intro mild_undo calm_mild) simp_all
  have wf2: "wf_store (st w2)" using m2 inv by (simp add: mild_def world_ok_def)
  have calls2: "calls w2 = calls w1" by (simp add: w2_def)
  have m2': "mget (matches (st w2)) (g_GroupID g, m_MatchID m) = Some m"
    using m2 m' by (simp add: mild_def g mid)
  note tog = toggle_permitted [OF m2 m2', of e msg, unfolded g mid]
  have togA: "permitted e ?u w (snd (toggleMatchAndAnnounce e msg g m w2))"
    if "adm" "m_Status m \<noteq> MatchStatusPending"
    using tog w1(2) that by (simp add: vouched_def calls2)
  have togB: "permitted e ?u w (snd (toggleMatchAndAnnounce e msg g m w2))"
    if "m_Player1ID m \<in> set (map u_TelegramID (undoRepo_ListForMatch (st w2) (?g, i)))"
      "m_Player2ID m \<in> set (map u_TelegramID (undoRepo_ListForMatch (st w2) (?g, i)))"
      "m_Status m \<noteq> MatchStatusPending"
  proof -
    have "agreed (undos (st w)) ?u ?g i m"
      using m2 that by (intro agreed_undo_listed [OF wf2]) (simp_all add: mild_def)
    then show ?thesis using tog that(3) by blast
  qed
  have rep: "permitted e ?u w (snd (reply e msg t w1))" for t
    using w1(1) by (intro calm_permitted) simp
  have rep2: "permitted e ?u w (snd (reply e msg t (snd (m_act e c w2))))" for t c
    by (rule mild_permitted [OF mild_calm [OF m2]]) simp
  have rep3: "permitted e ?u w (snd (reply e msg t (upd_st (\<lambda>s. snd (undoRepo_Delete (?g, i, ?u) s)) w1)))" for t
    by (rule mild_permitted [OF mild_calm [OF mild_undo_delete(1) [OF calm_mild [OF w1(1)], where k = "(?g, i, ?u)"]]]) simp
  have st: "m_Status m = MatchStatusApproved \<or> m_Status m = MatchStatusUndone \<longleftrightarrow> m_Status m \<noteq> MatchStatusPending"
    by (cases "m_Status m") simp_all
  show ?thesis
    unfolding requestUndo_def Let_def g a case_prod_beta fst_conv snd_conv w2_def [symmetric]
    using togA togB rep rep2 rep3 st by (auto simp del: reply_frame m_snd set_map)
qed

lemma handleUndo_permitted: "permitted e (usr_ID (sender m)) w (snd (handleUndo e m args w))"
proof (rule permittedI)
  assume inv: "world_ok w"
  have rep: "permitted e (usr_ID (sender m)) w (w\<lparr>calls := calls w @ cs\<rparr>)" for cs
    by (intro calm_permitted) simp
  show "permitted e (usr_ID (sender m)) w (snd (handleUndo e m args w))"
    using requestUndo_permitted [OF inv] group_id [OF inv] rep
    by (auto simp: handleUndo_def split: sum.split option.split)
qed

section \<open>Interactive taps\<close>

lemma word_of_int_u32 [simp]:
  "0 \<le> a \<Longrightarrow> a \<le> 9 \<Longrightarrow> (word_of_int a :: u32) \<le> 99"
  "0 \<le> a \<Longrightarrow> a \<le> 9 \<Longrightarrow> 0 \<le> b \<Longrightarrow> b \<le> 9 \<Longrightarrow> (word_of_int a :: u32) = word_of_int b \<longleftrightarrow> a = b"
proof -
  assume a: "0 \<le> a" "a \<le> 9"
  then show "(word_of_int a :: u32) \<le> 99" using of_nat_u32(1) [of "nat a"] by simp
  assume b: "0 \<le> b" "b \<le> 9"
  show "(word_of_int a :: u32) = word_of_int b \<longleftrightarrow> a = b"
    using of_nat_u32(2) [of "nat a" "nat b"] a b by (simp add: eq_nat_nat_iff)
qed

lemma ack_world: "snd (snd (ack e q t d w)) = w\<lparr>calls := calls w @ [AnswerCallback (cq_ID q) t]\<rparr>"
  "fst (snd (ack e q t d w)) = d"
  by (simp_all add: ack_def act_text_def case_prod_beta Let_def)

lemma tapConfirm_draft [simp]: "fst (snd (tapConfirm e q m d w)) = d"
  by (simp add: tapConfirm_def ack_world case_prod_beta Let_def split: sum.split)

lemma tapConfirm_permitted:
  assumes "draft_ok d"
  shows "permitted e (d_ownerID d) w (snd (snd (tapConfirm e q m d w)))"
proof -
  let ?u = "d_ownerID d" and ?s1 = "word_of_int (d_p1 d)" and ?s2 = "word_of_int (d_p2 d)"
  have ack: "permitted e ?u w (snd (snd (ack e q t d w)))" for t
    by (intro calm_permitted) (simp add: ack_world)
  show ?thesis
  proof (cases "d_isScore d \<and> 0 \<le> d_p1 d \<and> 0 \<le> d_p2 d \<and> d_p1 d \<noteq> d_p2 d")
    case False
    then show ?thesis using ack by (auto simp: tapConfirm_def Let_def)
  next
    case True
    then have sc: "(?s1 :: u32) \<noteq> ?s2" "(?s1 :: u32) \<le> 99" "(?s2 :: u32) \<le> 99"
      using assms by (simp_all add: draft_ok_def)
    show ?thesis
    proof (cases "groupRepo_Get (st w) (ch_ID (msg_Chat m))")
      case (Inl x)
      then show ?thesis using True by (simp add: tapConfirm_def Let_def)
    next
      case (Inr g)
      obtain r w1 where r: "registerInteractiveMatch e g ?u (d_oppID d) ?s1 ?s2 w = (r, w1)" by fastforce
      have p: "permitted e ?u w w1" using register_interactive_permitted [OF sc, of e ?u w g "d_oppID d"] r by simp
      have "calm w1 (snd (snd (tapConfirm e q m d w)))"
        using True Inr r by (simp add: tapConfirm_def case_prod_beta Let_def ack_world split: sum.split)
      then show ?thesis by (rule permitted_calm [OF p])
    qed
  qed
qed

lemma dispatchTap_cases:
  assumes "draft_ok d"
  shows "calm_tap w (dispatchTap e q m d payload w) \<or>
    dispatchTap e q m d payload w = tapConfirm e q m (d\<lparr>d_touchedAt := e_now e\<rparr>) w"
proof -
  have "draft_ok (d\<lparr>d_touchedAt := e_now e\<rparr>)" using assms by simp
  note taps = calm_taps [OF calm_refl this] calm_ack [OF calm_refl this]
  show ?thesis unfolding dispatchTap_def Let_def by (simp add: taps)
qed

lemma dispatchTap_permitted:
  assumes "draft_ok d" and "dispatchTap e q m d payload w = (r, d', w')"
  shows "permitted e (d_ownerID d) w w'" and "draft_ok d'"
proof -
  let ?d = "d\<lparr>d_touchedAt := e_now e\<rparr>"
  have d: "draft_ok ?d" using assms(1) by simp
  have "permitted e (d_ownerID d) w w' \<and> draft_ok d'"
    using dispatchTap_cases [OF assms(1), of w e q m payload]
  proof
    assume "calm_tap w (dispatchTap e q m d payload w)"
    then show ?thesis using assms(2) by (simp add: calm_tap_def calm_permitted)
  next
    assume "dispatchTap e q m d payload w = tapConfirm e q m ?d w"
    then have "tapConfirm e q m ?d w = (r, d', w')" using assms(2) by simp
    then show ?thesis
      using tapConfirm_permitted [OF d, of e w q m] tapConfirm_draft [of e q m ?d w] d by simp
  qed
  then show "permitted e (d_ownerID d) w w'" "draft_ok d'" by simp_all
qed

lemma failTapGracefully_calm: "calm w (failTapGracefully e q m c w)"
  by (simp add: failTapGracefully_def case_prod_beta Let_def)

lemma handleMatchInteractiveCallback_permitted:
  "permitted e (usr_ID (tapper q)) w (snd (handleMatchInteractiveCallback e q payload w))"
proof (rule permittedI)
  let ?u = "usr_ID (tapper q)"
  assume inv: "world_ok w"
  show "permitted e ?u w (snd (handleMatchInteractiveCallback e q payload w))"
  proof (cases "cq_Message q")
    case None
    then show ?thesis by (simp add: handleMatchInteractiveCallback_def calm_permitted)
  next
    case (Some m)
    let ?c = "ch_ID (msg_Chat m)" and ?i = "msg_MessageID m"
    obtain found w1 where l: "loadOrRestoreDraft e ?c ?i (msg_Text m) w = (found, w1)" by fastforce
    have c1: "calm w w1" using calm_load [of w w e ?c ?i "msg_Text m"] l by simp
    have answer: "permitted e ?u w (snd (act_res e c w1))" for c
      using c1 by (intro calm_permitted) simp
    show ?thesis
    proof (cases found)
      case None
      then show ?thesis using answer by (simp add: handleMatchInteractiveCallback_def Some l del: res_snd)
    next
      case d: (Some d)
      have ok: "draft_ok d" using loadOrRestoreDraft_ok(2) [OF _ l d] inv by (simp add: world_ok_def)
      obtain r d' w2 where t: "dispatchTap e q m d payload w1 = (r, d', w2)" by (metis prod_cases3)
      show ?thesis
      proof (cases "cq_From q = None \<or> ?u \<noteq> d_ownerID d")
        case True
        then show ?thesis
          using answer by (simp add: handleMatchInteractiveCallback_def Some l d del: res_snd)
      next
        case False
        have "permitted e ?u w1 w2" using dispatchTap_permitted(1) [OF ok t] False by simp
        then have p: "permitted e ?u w w2" by (rule calm_then_permitted [OF c1])
        let ?w3 = "saveDraft ?c ?i d' w2"
        have "calm w2 ?w3" using dispatchTap_permitted(2) [OF ok t] by (intro calm_saveDraft) simp_all
        then have p3: "permitted e ?u w ?w3" "permitted e ?u w (failTapGracefully e q m x ?w3)" for x
          using permitted_calm [OF p] calm_trans [OF _ failTapGracefully_calm] by blast+
        then show ?thesis
          using False by (auto simp: handleMatchInteractiveCallback_def Some l d t Let_def split: option.split)
      qed
    qed
  qed
qed

section \<open>Every update\<close>

text \<open>The user an update comes from; membership events count as nobody's.\<close>

definition actor :: "Update \<Rightarrow> i64" where
  "actor u = (case up_Message u of Some m \<Rightarrow> usr_ID (sender m)
     | None \<Rightarrow> (case up_CallbackQuery u of Some q \<Rightarrow> usr_ID (tapper q) | None \<Rightarrow> 0))"

lemma runCommand_permitted: "permitted e (usr_ID (sender m)) w (snd (runCommand e m cmd args w))"
  using handleMatch_permitted handleUndo_permitted
  by (simp add: runCommand_def calm_permitted)

lemma dispatchMessage_permitted: "permitted e (usr_ID (sender m)) w (snd (dispatchMessage e m w))"
proof -
  have rest: "permitted e (usr_ID (sender m)) w (snd (dispatchText e m w1))" if "calm w w1" for w1
  proof -
    have "permitted e (usr_ID (sender m)) w (snd (runCommand e m c a (upsertSenderParticipant e m w1)))" for c a
      by (rule calm_then_permitted [OF _ runCommand_permitted]) (simp add: that)
    then show ?thesis using that by (simp add: dispatchText_def case_prod_beta calm_permitted)
  qed
  obtain litter w1 where l: "deleteStatsTopicLitter e m w = (litter, w1)" by fastforce
  have "calm w w1" using calm_front(2) [OF calm_refl, of w e m] l by simp
  then show ?thesis
    using rest by (simp add: dispatchMessage_def l calm_permitted split: option.split)
qed

lemma Dispatch_permitted: "permitted e (actor u) w (snd (Dispatch e u w))"
proof -
  have "permitted e (usr_ID (tapper q)) w (snd (dispatchCallback e q w))" for q
    using handleConfirmTap_permitted handleCancelTap_permitted handleMatchInteractiveCallback_permitted
    by (simp add: dispatchCallback_def calm_permitted)
  then show ?thesis
    using dispatchMessage_permitted by (simp add: Dispatch_def actor_def calm_permitted split: option.split)
qed

end
