(* ===== verification/Scenario.thy ===== *)
theory Scenario
  imports Lifecycle
begin

text \<open>
  A concrete bot for the examples: user 1 administers every chat, the messenger numbers its
  messages, no identity service is configured. Group 7 has matches topic 5 and stats topic 6.
\<close>

definition example_user :: "i64 \<Rightarrow> User" where
  "example_user i = \<lparr>usr_ID = i, usr_IsBot = False, usr_Username = ''u'' @ fmt_i64 i, usr_FirstName = [], usr_LastName = []\<rparr>"

definition example_chat :: Chat where
  "example_chat = \<lparr>ch_ID = 7, ch_Type = ''supergroup'', ch_Title = [], ch_IsForum = True, ch_Username = []\<rparr>"

definition example_message :: "i64 \<Rightarrow> string \<Rightarrow> Message" where
  "example_message i t = Message 900 example_chat (Some (example_user i)) t 5 None None []"

definition example_private :: "i64 \<Rightarrow> string \<Rightarrow> Message" where
  "example_private i t = Message 900 (example_chat\<lparr>ch_ID := i, ch_Type := ''private''\<rparr>) (Some (example_user i)) t 0 None None []"

definition no_update :: Update where
  "no_update = \<lparr>up_UpdateID = 1, up_Message = None, up_CallbackQuery = None, up_MyChatMember = None, up_ChatMember = None\<rparr>"

definition says :: "i64 \<Rightarrow> string \<Rightarrow> Update" where
  "says i t = no_update\<lparr>up_Message := Some (example_message i t)\<rparr>"

definition prompt :: "i64 \<Rightarrow> string \<Rightarrow> Message" where
  "prompt mid t = Message mid example_chat None t 5 None None []"

definition query :: "i64 \<Rightarrow> i64 \<Rightarrow> string \<Rightarrow> string \<Rightarrow> CallbackQuery" where
  "query i mid t d = \<lparr>cq_ID = ''q'', cq_From = Some (example_user i), cq_Message = Some (prompt mid t), cq_Data = d\<rparr>"

definition taps :: "i64 \<Rightarrow> i64 \<Rightarrow> string \<Rightarrow> Update" where
  "taps i mid d = no_update\<lparr>up_CallbackQuery := Some (query i mid [] d)\<rparr>"

definition example_env :: env where
  "example_env = \<lparr>e_now = 1000 * hour, e_wall = 1000 * hour, e_IdentityBaseURL = [],
     e_RatingPeriodDaysDefault = 1,
     e_send = (\<lambda>cs _. Inr (of_nat (length cs) + 100)), e_act = (\<lambda>_ _. None),
     e_admin = (\<lambda>_ _ u. Inr (u = 1)), e_username = (\<lambda>_ _ _. Inr []),
     e_client = (\<lambda>_ _ _. \<lparr>ic_GetUserByTelegram = (\<lambda>_. Inl IdNotFound), ic_GetUsersByNickname = (\<lambda>_. Inr [])\<rparr>),
     e_Authenticate = (\<lambda>_ _. Inl ErrUnavailable), e_cipher = example_aead, e_libm = example_libm,
     e_ackFirst = False, e_PickHealthy = (\<lambda>_ _ _. (Inl AccNoHealthy, [])),
     e_ValidateAndStore = (\<lambda>_ _ _ _ _ _. (Inl AccInvalidCredentials, [])),
     e_ApplyAuthResult = (\<lambda>a _ _. \<lparr>dc_Logout = False, dc_LogoutDM = [], dc_PersistUpdate = False,
       dc_UpdatedAccount = a, dc_WarningDM = []\<rparr>),
     e_RenderWhoami = (\<lambda>_ _. []), e_account_error_text = (\<lambda>_. [])\<rparr>"

text \<open>The group with three members who have sent \<open>/ping\<close>.\<close>

definition example_members :: memstore where
  "example_members = fold participantRepo_Upsert
     [participant_of 7 (example_user 1) 0, participant_of 7 (example_user 2) 0, participant_of 7 (example_user 3) 0]
     (groupRepo_Upsert example_group memstore_New)"

definition example_world :: world where
  "example_world = handlers_New example_members"

text \<open>The same with a PENDING match of users 1 and 2, registered by user 2 (\<open>example_match\<close> renumbered).\<close>

definition pending_match :: Match where
  "pending_match = new_match 7 2 3 3 1 2 False 0 1"

definition pending_world :: world where
  "pending_world = handlers_New (confirmRepo_Insert (own_confirmation 7 1 2 0)
     (snd (AllocateAndInsertMatch 7 (\<lambda>_. pending_match) example_members)))"

text \<open>The same with a request of user 3 to undo the match.\<close>

definition undo_world :: world where
  "undo_world = upd_st (undoRepo_Insert \<lparr>u_GroupID = 7, u_MatchID = 1, u_TelegramID = 3, u_RequestedAt = 0\<rparr>) pending_world"

text \<open>The match after its approval.\<close>

definition approved_world :: world where
  "approved_world = upd_st (\<lambda>s. snd (matchRepo_UpdateStatus (7, 1) MatchStatusApproved s)) pending_world"

section \<open>The scenario states\<close>

lemma example_env_times [simp]: "e_now example_env = 1000 * hour" "e_wall example_env = 1000 * hour"
  by (simp_all add: example_env_def)

lemma example_members_rows:
  "matches example_members = []" "confirmations example_members = []" "undos example_members = []"
  "groups example_members = [(7, example_group)]" "matchCounters example_members = []"
  by (simp_all add: example_members_def repo_put_defs memstore_New_def example_group_def)

lemma example_members_wf [simp]: "wf_store example_members"
  by (simp add: example_members_def wf_participantRepo_Upsert wf_groupRepo_Upsert wf_store_New)

lemma pending_world_rows:
  "matches (st pending_world) = [((7, 1), pending_match)]"
  "confirmations (st pending_world) = [((7, 1, 2), own_confirmation 7 1 2 0)]"
  "undos (st pending_world) = []" "groups (st pending_world) = [(7, example_group)]"
  "matchCounters (st pending_world) = [(7, 1)]" "calls pending_world = []" "matchDrafts pending_world = []"
  by (simp_all add: pending_world_def handlers_New_def example_members_rows AllocateAndInsertMatch_def Let_def
      repo_put_defs pending_match_def new_match_def own_confirmation_def counter_def conf_key_def)

lemma pending_match_sel [simp]:
  "m_GroupID pending_match = 7" "m_MatchID pending_match = 1" "m_Player1ID pending_match = 2"
  "m_Player2ID pending_match = 3" "m_Status pending_match = MatchStatusPending" "m_CreatedAt pending_match = 0"
  by (simp_all add: pending_match_def new_match_def)

lemma example_world_ok [simp]: "world_ok example_world"
  by (simp add: example_world_def world_ok_def handlers_New_def drafts_ok_def example_members_rows)

lemma pending_world_ok [simp]: "world_ok pending_world"
proof -
  have "wf_store (snd (AllocateAndInsertMatch 7 (\<lambda>_. pending_match) example_members))"
    by (rule wf_AllocateAndInsertMatch) (simp_all add: example_members_rows counter_def)
  moreover have "mget (matches (snd (AllocateAndInsertMatch 7 (\<lambda>_. pending_match) example_members))) (7, 1) \<noteq> None"
    by (simp add: AllocateAndInsertMatch_def Let_def example_members_rows counter_def)
  ultimately have "wf_store (st pending_world)"
    unfolding pending_world_def handlers_New_def world.simps
    by (rule wf_confirmRepo_Insert [where c = "own_confirmation 7 1 2 0", unfolded own_confirmation_def MatchConfirmation.simps, folded own_confirmation_def])
  then show ?thesis
    by (auto simp: world_ok_def drafts_ok_def pending_world_rows match_ok_def pending_match_def new_match_def split: if_splits)
qed

lemma undo_world_rows:
  "undos (st undo_world) = [((7, 1, 3), \<lparr>u_GroupID = 7, u_MatchID = 1, u_TelegramID = 3, u_RequestedAt = 0\<rparr>)]"
  "matches (st undo_world) = [((7, 1), pending_match)]"
  by (simp_all add: undo_world_def pending_world_rows undoRepo_Insert_def undo_key_def)

lemma undo_world_ok [simp]: "world_ok undo_world"
proof -
  have "wf_store (st undo_world)"
    using pending_world_ok unfolding undo_world_def world_ok_def
    by (auto simp: pending_world_rows intro!: wf_undoRepo_Insert)
  then show ?thesis
    using pending_world_ok unfolding world_ok_def drafts_ok_def undo_world_rows pending_world_rows
    by (simp add: undo_world_def pending_world_rows)
qed

lemma approved_world_rows:
  "matches (st approved_world) = [((7, 1), pending_match\<lparr>m_Status := MatchStatusApproved\<rparr>)]"
  "confirmations (st approved_world) = [((7, 1, 2), own_confirmation 7 1 2 0)]"
  "undos (st approved_world) = []" "groups (st approved_world) = [(7, example_group)]" "calls approved_world = []"
  "matchCounters (st approved_world) = [(7, 1)]"
  by (simp_all add: approved_world_def pending_world_rows matchRepo_UpdateStatus_def)

lemma approved_world_ok [simp]: "world_ok approved_world"
proof -
  have "wf_store (st approved_world)"
    using pending_world_ok by (simp add: approved_world_def world_ok_def wf_matchRepo_UpdateStatus)
  moreover have "match_ok (pending_match\<lparr>m_Status := MatchStatusApproved\<rparr>)"
    by (simp add: match_ok_def pending_match_def new_match_def)
  moreover have "drafts_ok approved_world" using pending_world_ok by (simp add: world_ok_def drafts_ok_def approved_world_def)
  ultimately show ?thesis by (simp add: world_ok_def approved_world_rows)
qed

lemma scenario_room [simp]: "room example_world" "room pending_world" "room approved_world"
  by (simp_all add: room_def counter_def pending_world_rows approved_world_rows example_world_def handlers_New_def example_members_rows)

end
