(* ===== verification/Expiry.thy ===== *)
theory Expiry
  imports Scenario
begin

text \<open>
  What the periodic job (\<open>pkg/handlers/periodic.go\<close>) removes: exactly the pending matches past
  their group's timeout, with their confirmations and undo commands, and exactly the undo
  commands older than a day.
\<close>

section \<open>Removal of matches\<close>

text \<open>What stays of a user-keyed table when the matches of some keys go.\<close>

definition rows_without :: "(i64 \<times> u64) set \<Rightarrow> (i64 \<times> u64 \<times> i64, 'v) gomap \<Rightarrow> (i64 \<times> u64 \<times> i64, 'v) gomap \<Rightarrow> bool" where
  "rows_without ks old new \<longleftrightarrow>
     (\<forall>g i u. mget new (g, i, u) = (if (g, i) \<in> ks then None else mget old (g, i, u)))"

definition removed :: "(i64 \<times> u64) set \<Rightarrow> world \<Rightarrow> world \<Rightarrow> bool" where
  "removed ks w w' \<longleftrightarrow>
     (\<forall>k. mget (matches (st w')) k = (if k \<in> ks then None else mget (matches (st w)) k)) \<and>
     rows_without ks (confirmations (st w)) (confirmations (st w')) \<and>
     rows_without ks (undos (st w)) (undos (st w')) \<and>
     groups (st w') = groups (st w) \<and> participants (st w') = participants (st w) \<and>
     s21Accounts (st w') = s21Accounts (st w) \<and> matchCounters (st w') = matchCounters (st w) \<and> prefix (calls w) (calls w') \<and> (world_ok w \<longrightarrow> world_ok w')"

lemma removed_refl [simp]: "removed {} w w"
  by (simp add: removed_def rows_without_def)

lemma removed_trans:
  assumes "removed A w1 w2" and "removed B w2 w3"
  shows "removed (A \<union> B) w1 w3"
  using assms prefix_order.trans [of "calls w1" "calls w2" "calls w3"]
  by (auto simp: removed_def rows_without_def)

lemma notifyIn_frame [simp]:
  "st (notifyIn e g gid t u w) = st w" "matchDrafts (notifyIn e g gid t u w) = matchDrafts w"
  "prefix (calls w) (calls (notifyIn e g gid t u w))"
  by (simp_all add: notifyIn_def SendInGroup_def case_prod_beta Let_def)

lemma fold_notifyIn_frame [simp]:
  "st (fold (notifyIn e g gid t) us w) = st w" "matchDrafts (fold (notifyIn e g gid t) us w) = matchDrafts w"
  "prefix (calls w) (calls (fold (notifyIn e g gid t) us w))"
proof -
  show "st (fold (notifyIn e g gid t) us w) = st w" by (induction us arbitrary: w) simp_all
  show "matchDrafts (fold (notifyIn e g gid t) us w) = matchDrafts w" by (induction us arbitrary: w) simp_all
  show "prefix (calls w) (calls (fold (notifyIn e g gid t) us w))"
  proof (induction us arbitrary: w)
    case (Cons u us)
    show ?case using prefix_order.trans [OF notifyIn_frame(3) Cons.IH] by simp
  qed simp
qed

lemma inv_same_store: "st w' = st w \<Longrightarrow> matchDrafts w' = matchDrafts w \<Longrightarrow> world_ok w' = world_ok w"
  by (simp add: world_ok_def drafts_ok_def)

lemma removed_deleted:
  assumes "world_ok w"
  shows "removed {k} w (deleted k w)"
proof (cases "mget (matches (st w)) k")
  case None
  obtain g i where k: "k = (g, i)" by (cases k)
  have r: "refers (confirmations (st w)) (matches (st w))" "refers (undos (st w)) (matches (st w))"
    using assms by (simp_all add: world_ok_def wf_store_def)
  have "mget (confirmations (st w)) (g, i, u) = None" "mget (undos (st w)) (g, i, u) = None" for u
    using None k r by (simp_all add: refers_def) (metis option.distinct(1) option.exhaust)+
  then show ?thesis
    using None assms deleted_inv [OF assms, of k]
    by (simp add: removed_def rows_without_def deleted_def matchRepo_Delete_def k)
next
  case (Some m)
  then show ?thesis
    using deleted_inv [OF assms, of k]
    by (auto simp: removed_def rows_without_def deleted_def matchRepo_Delete_def for_match_def)
qed

lemma rows_without_mdel_if:
  "rows_without A old new \<Longrightarrow> k \<in> A \<Longrightarrow> rows_without A old (mdel_if (for_match k) new)"
  by (auto simp: rows_without_def for_match_def)

lemma removed_confirmations:
  assumes "removed A w w'" and "k \<in> A"
  shows "removed A w (upd_st (confirmRepo_DeleteForMatch k) w')"
proof -
  let ?w2 = "upd_st (confirmRepo_DeleteForMatch k) w'"
  have st: "st ?w2 = (st w')\<lparr>confirmations := mdel_if (for_match k) (confirmations (st w'))\<rparr>"
    by (simp add: confirmRepo_DeleteForMatch_def)
  have ok: "world_ok w' \<Longrightarrow> world_ok ?w2"
    using wf_confirmRepo_DeleteForMatch [of "st w'" k] st by (simp add: world_ok_def drafts_ok_def)
  have rows: "rows_without A (confirmations (st w)) (mdel_if (for_match k) (confirmations (st w')))"
    using assms by (intro rows_without_mdel_if) (simp_all only: removed_def)
  have other: "matches (st ?w2) = matches (st w')" "undos (st ?w2) = undos (st w')" "groups (st ?w2) = groups (st w')"
    "participants (st ?w2) = participants (st w')" "s21Accounts (st ?w2) = s21Accounts (st w')" "matchCounters (st ?w2) = matchCounters (st w')"
    "confirmations (st ?w2) = mdel_if (for_match k) (confirmations (st w'))" "calls ?w2 = calls w'"
    by (simp_all add: confirmRepo_DeleteForMatch_def)
  show ?thesis
    using assms(1) ok rows unfolding removed_def other by (elim conjE, intro conjI) (assumption | blast)+
qed

lemma removed_same_store:
  assumes "removed A w w1" and "st w2 = st w1" and "matchDrafts w2 = matchDrafts w1"
    and "prefix (calls w1) (calls w2)"
  shows "removed A w w2"
proof -
  have ok: "world_ok w2 = world_ok w1" by (rule inv_same_store [OF assms(2,3)])
  have "prefix (calls w) (calls w1)" using assms(1) by (simp only: removed_def)
  from prefix_order.trans [OF this assms(4)] show ?thesis
    using assms(1) unfolding removed_def assms(2) ok by (elim conjE, intro conjI) assumption+
qed

lemma expireMatch_removed:
  assumes "world_ok w"
  shows "fst (expireMatch e m w) = None" and "removed {match_key m} w (snd (expireMatch e m w))"
proof -
  let ?k = "(m_GroupID m, m_MatchID m)"
  have d: "removed {?k} w (deleted ?k w)" by (rule removed_deleted [OF assms])
  have eq: "w\<lparr>st := snd (matchRepo_Delete ?k (st w))\<rparr> = deleted ?k w" by (simp add: deleted_def)
  have c: "removed {?k} w (upd_st (confirmRepo_DeleteForMatch ?k) (deleted ?k w))"
    using d by (rule removed_confirmations) simp
  have n: "removed {?k} w (fold (notifyIn e g gid t) us (upd_st (confirmRepo_DeleteForMatch ?k) (deleted ?k w)))" for g gid t us
    by (rule removed_same_store [OF c]) (simp_all only: fold_notifyIn_frame)
  have r: "fst (matchRepo_Delete ?k (st w)) = None \<or> fst (matchRepo_Delete ?k (st w)) = Some ErrNotFound"
    by (simp add: matchRepo_Delete_def split: option.split)
  show "fst (expireMatch e m w) = None"
    using r by (auto simp: expireMatch_def case_prod_beta Let_def split: sum.split)
  show "removed {match_key m} w (snd (expireMatch e m w))"
    using r d c n
    by (auto simp: expireMatch_def case_prod_beta Let_def eq match_key_def simp del: fold_simps split: sum.split)
qed

lemma expire_matches_removed:
  assumes "world_ok w"
  shows "fst (expire_matches e ms w) = None \<and> removed (match_key ` set ms) w (snd (expire_matches e ms w))"
  using assms
proof (induction ms arbitrary: w)
  case (Cons m ms)
  let ?w1 = "snd (expireMatch e m w)"
  have r: "removed {match_key m} w ?w1" by (rule expireMatch_removed(2) [OF Cons.prems])
  then have "world_ok ?w1" using Cons.prems by (simp add: removed_def)
  from Cons.IH [OF this] removed_trans [OF r] expireMatch_removed(1) [OF Cons.prems, of e m]
  show ?case by (simp add: case_prod_beta)
qed simp

section \<open>Removal of undo commands\<close>

definition undone :: "(i64 \<times> u64 \<times> i64) set \<Rightarrow> world \<Rightarrow> world \<Rightarrow> bool" where
  "undone ks w w' \<longleftrightarrow>
     (\<forall>k. mget (undos (st w')) k = (if k \<in> ks then None else mget (undos (st w)) k)) \<and>
     matches (st w') = matches (st w) \<and> confirmations (st w') = confirmations (st w) \<and>
     groups (st w') = groups (st w) \<and> participants (st w') = participants (st w) \<and>
     s21Accounts (st w') = s21Accounts (st w) \<and> matchCounters (st w') = matchCounters (st w) \<and> prefix (calls w) (calls w') \<and> (world_ok w \<longrightarrow> world_ok w')"

lemma undone_trans: "undone A w1 w2 \<Longrightarrow> undone B w2 w3 \<Longrightarrow> undone (A \<union> B) w1 w3"
  using prefix_order.trans [of "calls w1" "calls w2" "calls w3"] by (auto simp: undone_def)

lemma expireUndo_undone:
  "fst (expireUndo e u w) = None \<and> undone {undo_key u} w (snd (expireUndo e u w))"
proof -
  let ?k = "undo_key u"
  let ?w1 = "w\<lparr>st := snd (undoRepo_Delete ?k (st w))\<rparr>"
  have r: "fst (undoRepo_Delete ?k (st w)) = None \<or> fst (undoRepo_Delete ?k (st w)) = Some ErrNotFound"
    by (simp add: undoRepo_Delete_def split: option.split)
  have "world_ok w \<Longrightarrow> world_ok ?w1"
    using wf_undoRepo_Delete [of "st w" ?k]
    by (simp add: world_ok_def drafts_ok_def undoRepo_Delete_def split: option.split)
  then have d: "undone {?k} w ?w1"
    by (auto simp: undone_def undoRepo_Delete_def split: option.split)
  have n: "undone {?k} w (notifyIn e g gid t v ?w1)" for g gid t v
    using d notifyIn_frame(3) [of ?w1 e g gid t v]
      inv_same_store [of "notifyIn e g gid t v ?w1" ?w1]
    by (simp add: undone_def)
  have k: "(u_GroupID u, u_MatchID u, u_TelegramID u) = ?k" by (simp add: undo_key_def)
  show ?thesis
    using r d n unfolding expireUndo_def k case_prod_beta Let_def
    by (auto simp del: split_paired_All split: sum.split)
qed

lemma expire_undos_undone:
  "fst (expire_undos e us w) = None \<and> undone (undo_key ` set us) w (snd (expire_undos e us w))"
proof (induction us arbitrary: w)
  case Nil
  then show ?case by (simp add: undone_def)
next
  case (Cons u us)
  let ?w1 = "snd (expireUndo e u w)"
  from Cons.IH [of ?w1] undone_trans [of "{undo_key u}" w ?w1] expireUndo_undone [of e u w]
  show ?case by (simp add: case_prod_beta)
qed

section \<open>The job\<close>

lemma pending_expired_iff:
  assumes "\<bar>wall - m_CreatedAt m\<bar> < 2 ^ 63 - 1"
  shows "pending_expired (\<lambda>g. True) wall s m \<longleftrightarrow> m_Status m = MatchStatusPending \<and>
    (\<exists>g. mget (groups s) (m_GroupID m) = Some g \<and> m_CreatedAt m + ConfirmationTimeout g < wall)"
  using assms ConfirmationTimeout_range
  by (auto simp: pending_expired_def time_Sub_def split: option.splits)

lemma listed_keys:
  assumes "wf_map t" and "keyed key t"
  shows "k \<in> key ` set (filter P (map snd t)) \<longleftrightarrow> (\<exists>v. mget t k = Some v \<and> P v)"
proof
  assume "k \<in> key ` set (filter P (map snd t))"
  then obtain v where v: "v \<in> snd ` set t" "P v" "k = key v" by auto
  then have "mget t (key v) = Some v" by (simp add: stored_value_iff [OF assms])
  then show "\<exists>v. mget t k = Some v \<and> P v" using v by blast
next
  assume "\<exists>v. mget t k = Some v \<and> P v"
  then obtain v where v: "mget t k = Some v" "P v" by blast
  then have "k = key v" using keyedD [OF assms(2)] by fastforce
  then show "k \<in> key ` set (filter P (map snd t))"
    using v stored_value_iff [OF assms, of v] by auto
qed

text \<open>The clean-up of matches removes exactly the PENDING matches of registered groups that are
  older than the group's confirmation timeout, with their confirmations and undo commands. Every
  other match, confirmation and undo command, the groups, the participants and the id counters
  stay as they are, and the clean-up reports no error.\<close>

theorem cleanExpiredMatches_exact:
  assumes "world_ok w"
    and "\<And>k m. mget (matches (st w)) k = Some m \<Longrightarrow> \<bar>e_wall e - m_CreatedAt m\<bar> < 2 ^ 63 - 1"
  shows "fst (cleanExpiredMatches e w) = None \<and>
    (\<exists>expired. removed expired w (snd (cleanExpiredMatches e w)) \<and>
      (\<forall>k. k \<in> expired \<longleftrightarrow> (\<exists>m g. mget (matches (st w)) k = Some m \<and> m_Status m = MatchStatusPending \<and>
        mget (groups (st w)) (m_GroupID m) = Some g \<and> m_CreatedAt m + ConfirmationTimeout g < e_wall e)))"
proof -
  let ?ms = "matchRepo_ListPendingExpired (\<lambda>g. True) (e_wall e) (st w)"
  have listed: "k \<in> match_key ` set ?ms \<longleftrightarrow>
      (\<exists>m. mget (matches (st w)) k = Some m \<and> pending_expired (\<lambda>g. True) (e_wall e) (st w) m)" for k
    unfolding matchRepo_ListPendingExpired_def
    using assms(1) by (intro listed_keys) (simp_all add: world_ok_def wf_store_def)
  have "k \<in> match_key ` set ?ms \<longleftrightarrow> (\<exists>m g. mget (matches (st w)) k = Some m \<and> m_Status m = MatchStatusPending \<and>
        mget (groups (st w)) (m_GroupID m) = Some g \<and> m_CreatedAt m + ConfirmationTimeout g < e_wall e)" for k
    using pending_expired_iff [OF assms(2)] unfolding listed by blast
  then show ?thesis
    using expire_matches_removed [OF assms(1), of e ?ms] unfolding cleanExpiredMatches_def by blast
qed

theorem cleanExpiredMatches_exact_witness:
  "mget (matches (st (snd (cleanExpiredMatches example_env pending_world)))) (7, 1) = None \<and>
   groups (st (snd (cleanExpiredMatches example_env pending_world))) = [(7, example_group)]"
proof -
  have t: "\<bar>e_wall example_env - m_CreatedAt m\<bar> < 2 ^ 63 - 1" if "mget (matches (st pending_world)) k = Some m" for k m
    using that by (cases k) (auto simp: pending_world_rows hour_def split: if_splits)
  obtain expired where r: "removed expired pending_world (snd (cleanExpiredMatches example_env pending_world))"
    and x: "\<forall>k. k \<in> expired \<longleftrightarrow> (\<exists>m g. mget (matches (st pending_world)) k = Some m \<and> m_Status m = MatchStatusPending \<and>
        mget (groups (st pending_world)) (m_GroupID m) = Some g \<and> m_CreatedAt m + ConfirmationTimeout g < e_wall example_env)"
    using cleanExpiredMatches_exact [of pending_world example_env, OF pending_world_ok] t by blast
  have "(7, 1) \<in> expired"
    unfolding spec [OF x]
    by (intro exI [of _ pending_match] exI [of _ example_group]) (simp add: pending_world_rows example_group_def ConfirmationTimeout_def zero_Group_def hour_def wrap64_id)
  then show ?thesis using r by (simp add: removed_def pending_world_rows)
qed

text \<open>The clean-up of undo commands removes exactly the ones requested more than 24 hours ago and
  nothing else of the store, as long as the clock and the requests lie in the range of a
  64-bit nanosecond count (the years 1678 to 2262).\<close>

theorem cleanExpiredUndo_exact:
  assumes "world_ok w" and "\<bar>e_now e - 24 * hour\<bar> < 2 ^ 63"
    and "\<And>k u. mget (undos (st w)) k = Some u \<Longrightarrow> \<bar>u_RequestedAt u\<bar> < 2 ^ 63"
  shows "fst (cleanExpiredUndo e w) = None \<and>
    (\<exists>expired. undone expired w (snd (cleanExpiredUndo e w)) \<and>
      (\<forall>k. k \<in> expired \<longleftrightarrow> (\<exists>u. mget (undos (st w)) k = Some u \<and> u_RequestedAt u < e_now e - 24 * hour)))"
proof -
  let ?us = "undoRepo_ListExpired (st w) (undoCutoff (e_now e))"
  have c: "undoCutoff (e_now e) = e_now e - 24 * hour"
    using assms(2) by (simp add: undoCutoff_def UnixNano_def wrap64_id)
  have u: "mget (undos (st w)) k = Some u \<Longrightarrow> UnixNano (u_RequestedAt u) = u_RequestedAt u" for k u
    using assms(3) [of k u] by (simp add: UnixNano_def wrap64_id)
  have listed: "k \<in> undo_key ` set ?us \<longleftrightarrow>
      (\<exists>u. mget (undos (st w)) k = Some u \<and> UnixNano (u_RequestedAt u) < undoCutoff (e_now e))" for k
    unfolding undoRepo_ListExpired_def
    using assms(1) by (intro listed_keys) (simp_all add: world_ok_def wf_store_def)
  have "k \<in> undo_key ` set ?us \<longleftrightarrow> (\<exists>u. mget (undos (st w)) k = Some u \<and> u_RequestedAt u < e_now e - 24 * hour)" for k
    unfolding listed unfolding c using u by (metis (no_types, lifting))
  then show ?thesis
    using expire_undos_undone [of e ?us w] unfolding cleanExpiredUndo_def by blast
qed

theorem cleanExpiredUndo_exact_witness:
  "undos (st undo_world) = [((7, 1, 3), \<lparr>u_GroupID = 7, u_MatchID = 1, u_TelegramID = 3, u_RequestedAt = 0\<rparr>)] \<and>
   mget (undos (st (snd (cleanExpiredUndo example_env undo_world)))) (7, 1, 3) = None"
proof -
  have t: "\<bar>u_RequestedAt u\<bar> < 2 ^ 63" if "mget (undos (st undo_world)) k = Some u" for k u
    using that by (cases k) (auto simp: undo_world_rows split: if_splits)
  have n: "\<bar>e_now example_env - 24 * hour\<bar> < 2 ^ 63" by (simp add: hour_def)
  obtain expired where r: "undone expired undo_world (snd (cleanExpiredUndo example_env undo_world))"
    and x: "\<forall>k. k \<in> expired \<longleftrightarrow> (\<exists>u. mget (undos (st undo_world)) k = Some u \<and>
        u_RequestedAt u < e_now example_env - 24 * hour)"
    using cleanExpiredUndo_exact [of undo_world example_env, OF undo_world_ok n] t by blast
  have "(7, 1, 3) \<in> expired"
    using x by (simp add: undo_world_rows hour_def)
  then show ?thesis using r by (simp add: undone_def undo_world_rows)
qed

end
