(* ===== verification/Runs.thy ===== *)
theory Runs
  imports Expiry
begin

text \<open>
  Whole histories of the bot: updates, runs of the periodic job, detached refreshes that come
  to their end, the bootstrap migration and restarts of the container, in any order. The
  invariant \<open>world_ok\<close> holds in every reachable state, and a match row keeps its facts and
  moves only forward in its life.
\<close>

section \<open>Events and runs\<close>

datatype event =
    EvUpdate env Update
  | EvPeriodic env
  | EvDetached env nat
  | EvMigrate
  | EvRestart

text \<open>A restart loses what is kept in memory, pending goroutines included, but not the store.\<close>

definition restart :: "world \<Rightarrow> world" where
  "restart w = w\<lparr>matchDrafts := [], detached := [], nicks := NewS21NickCache s21NickCacheTTL\<rparr>"

fun apply_event :: "event \<Rightarrow> world \<Rightarrow> world" where
  "apply_event (EvUpdate e u) w = snd (Dispatch e u w)"
| "apply_event (EvPeriodic e) w = snd (PeriodicJob e w)"
| "apply_event (EvDetached e i) w = runDetached e i w"
| "apply_event EvMigrate w = upd_st (\<lambda>s. snd (MigrateAdminsToS21Accounts s)) w"
| "apply_event EvRestart w = restart w"

text \<open>\<open>room\<close> before every event: no group is out of match ids.\<close>

inductive run :: "world \<Rightarrow> event list \<Rightarrow> world \<Rightarrow> bool" where
  run_start: "run w [] w"
| run_event: "run w evs w1 \<Longrightarrow> room w1 \<Longrightarrow> run w (evs @ [ev]) (apply_event ev w1)"

inductive_cases run_eventE: "run w (evs @ [ev]) w'"

inductive_simps run_Nil: "run w [] w'"

section \<open>Evolution of the match rows\<close>

text \<open>What may become of one row, \<open>n\<close> being the group's id counter before.\<close>

fun follows :: "u64 \<Rightarrow> u64 \<Rightarrow> Match option \<Rightarrow> Match option \<Rightarrow> bool" where
  "follows n i None None = True"
| "follows n i None (Some m) \<longleftrightarrow> n < i"
| "follows n i (Some m) None \<longleftrightarrow> m_Status m = MatchStatusPending"
| "follows n i (Some m) (Some m') \<longleftrightarrow>
     m' = m\<lparr>m_Status := m_Status m'\<rparr> \<and> (m_Status m' = MatchStatusPending \<longrightarrow> m_Status m = MatchStatusPending)"

definition evolves :: "world \<Rightarrow> world \<Rightarrow> bool" where
  "evolves w w' \<longleftrightarrow>
     world_ok w' \<and> (\<forall>g. counter (st w) g \<le> counter (st w') g) \<and>
     (\<forall>g i. follows (counter (st w) g) i (mget (matches (st w)) (g, i)) (mget (matches (st w')) (g, i)))"

lemma follows_refl [simp]: "follows n i x x"
  by (cases x) simp_all

lemma status_trans: "(b :: Match) = a\<lparr>m_Status := t\<rparr> \<Longrightarrow> a = m\<lparr>m_Status := s\<rparr> \<Longrightarrow> b = m\<lparr>m_Status := t\<rparr>"
  by simp

lemma follows_trans:
  assumes "follows n i x y" and "follows n' i y z" and "n \<le> n'" and "x \<noteq> None \<Longrightarrow> i \<le> n"
  shows "follows n i x z"
proof (cases x)
  case None
  then show ?thesis using assms by (cases y; cases z) (auto dest: order.strict_trans1)
next
  case (Some m)
  then have "\<not> n' < i" using assms(3,4) by auto
  then show ?thesis using assms(1,2) Some by (cases y; cases z) (auto intro: status_trans)
qed

lemma evolves_trans:
  assumes "world_ok w1" and "evolves w1 w2" and "evolves w2 w3"
  shows "evolves w1 w3"
proof -
  have "i \<le> counter (st w1) g" if "mget (matches (st w1)) (g, i) \<noteq> None" for g i
    using assms(1) that by (auto simp: world_ok_def wf_store_def counter_counter_in dest: ids_boundedD)
  then show ?thesis
    using assms(2,3) unfolding evolves_def by (blast intro: follows_trans order.trans)
qed

lemma evolves_same:
  assumes "world_ok w" "world_ok w'" "matches (st w') = matches (st w)" "matchCounters (st w') = matchCounters (st w)"
  shows "evolves w w'"
  using assms by (simp add: evolves_def counter_def)

lemma calm_evolves: "world_ok w \<Longrightarrow> calm w w' \<Longrightarrow> evolves w w'"
  by (rule evolves_same) (auto simp: calm_def world_ok_def)

lemma legal_follows: "legal e u w w' g i x y \<Longrightarrow> follows (counter (st w) g) i x y"
  by (cases x; cases y) (auto simp: toggledStatus_def split: if_splits)

lemma permitted_evolves: "world_ok w \<Longrightarrow> room w \<Longrightarrow> permitted e u w w' \<Longrightarrow> evolves w w'"
  unfolding permitted_def evolves_def using legal_follows by blast

lemma removed_evolves:
  assumes "world_ok w" and "removed ks w w'"
    and "\<And>k m. k \<in> ks \<Longrightarrow> mget (matches (st w)) k = Some m \<Longrightarrow> m_Status m = MatchStatusPending"
  shows "evolves w w'"
proof -
  have m: "mget (matches (st w')) k = (if k \<in> ks then None else mget (matches (st w)) k)" for k
    using assms(2) unfolding removed_def by blast
  have "follows n i (mget (matches (st w)) (g, i)) (mget (matches (st w')) (g, i))" for n g i
    using m [of "(g, i)"] assms(3) [of "(g, i)"] by (cases "mget (matches (st w)) (g, i)") auto
  moreover have "world_ok w'" "counter (st w') = counter (st w)"
    using assms(1,2) by (auto simp: removed_def counter_def fun_eq_iff)
  ultimately show ?thesis by (simp add: evolves_def)
qed

lemma PeriodicJob_evolves:
  assumes "world_ok w"
  shows "evolves w (snd (PeriodicJob e w))"
proof -
  let ?w1 = "probeAllAccounts e w"
  let ?w2 = "snd (cleanExpiredMatches e ?w1)"
  let ?w3 = "snd (cleanExpiredUndo e ?w2)"
  let ?ms = "matchRepo_ListPendingExpired (\<lambda>g. True) (e_wall e) (st ?w1)"
  have 1: "evolves w ?w1" using assms by (intro calm_evolves) simp_all
  then have ok1: "world_ok ?w1" by (simp add: evolves_def)
  have r: "removed (match_key ` set ?ms) ?w1 ?w2"
    using expire_matches_removed [OF ok1] by (simp add: cleanExpiredMatches_def)
  have wf: "wf_map (matches (st ?w1))" "keyed match_key (matches (st ?w1))"
    using ok1 by (simp_all add: world_ok_def wf_store_def)
  have 2: "evolves ?w1 ?w2"
  proof (rule removed_evolves [OF ok1 r])
    fix k m assume "k \<in> match_key ` set ?ms" and m: "mget (matches (st ?w1)) k = Some m"
    then show "m_Status m = MatchStatusPending"
      using listed_keys [OF wf] by (auto simp: matchRepo_ListPendingExpired_def pending_expired_def)
  qed
  have ok2: "world_ok ?w2" using 2 by (simp add: evolves_def)
  have "undone (undo_key ` set (undoRepo_ListExpired (st ?w2) (undoCutoff (e_now e)))) ?w2 ?w3"
    using expire_undos_undone by (simp add: cleanExpiredUndo_def)
  then have 3: "evolves ?w2 ?w3" using ok2 by (intro evolves_same) (simp_all add: undone_def)
  have "world_ok ?w3" using 3 by (simp add: evolves_def)
  then have 4: "evolves ?w3 (refreshAllUsernames e ?w3)" by (intro calm_evolves) simp_all
  show ?thesis
    unfolding PeriodicJob_def snd_conv
    by (intro evolves_trans [OF assms 1] evolves_trans [OF ok1 2] evolves_trans [OF ok2 3] 4)
qed

lemma migrate_calm: "calm w (upd_st (\<lambda>s. snd (MigrateAdminsToS21Accounts s)) w)"
proof -
  have f: "matches (snd (migrate_from as s)) = matches s \<and> confirmations (snd (migrate_from as s)) = confirmations s
    \<and> undos (snd (migrate_from as s)) = undos s \<and> matchCounters (snd (migrate_from as s)) = matchCounters s
    \<and> (wf_store s \<longrightarrow> wf_store (snd (migrate_from as s)))" for as s
    by (induction as arbitrary: s)
      (auto simp: s21AccountRepo_Upsert_def wf_s21AccountRepo_Upsert [unfolded s21AccountRepo_Upsert_def]
        split: sum.split store_error.split)
  show ?thesis
    using f by (intro calm_upd_st) (simp_all add: MigrateAdminsToS21Accounts_def)
qed

lemma apply_event_evolves:
  assumes "world_ok w" and "room w"
  shows "evolves w (apply_event ev w)"
proof (cases ev)
  case (EvUpdate e u)
  then show ?thesis using permitted_evolves [OF assms Dispatch_permitted] by simp
next
  case (EvPeriodic e)
  then show ?thesis using PeriodicJob_evolves [OF assms(1)] by simp
next
  case (EvDetached e i)
  then show ?thesis using assms by (simp add: calm_evolves)
next
  case EvMigrate
  then show ?thesis using assms migrate_calm by (simp add: calm_evolves)
next
  case EvRestart
  have "evolves w (restart w)"
    using assms(1) by (intro evolves_same) (auto simp: restart_def world_ok_def drafts_ok_def)
  then show ?thesis using EvRestart by simp
qed

lemma run_evolves: "run w evs w' \<Longrightarrow> world_ok w \<Longrightarrow> evolves w w'"
proof (induction rule: run.induct)
  case (run_start w)
  then show ?case by (simp add: evolves_same)
next
  case (run_event w evs w1 ev)
  then have 1: "evolves w w1" by simp
  then have "world_ok w1" by (simp add: evolves_def)
  then show ?case using evolves_trans [OF run_event.prems 1] apply_event_evolves run_event.hyps(2) by blast
qed

lemma world_ok_New: "wf_store s \<Longrightarrow> matches s = [] \<Longrightarrow> world_ok (handlers_New s)"
  by (simp add: world_ok_def handlers_New_def drafts_ok_def)

lemma room_New [simp]: "matchCounters s = [] \<Longrightarrow> room (handlers_New s)"
  by (simp add: room_def handlers_New_def counter_def)

section \<open>Properties\<close>

text \<open>C1. Whatever an update says and whatever the messenger, the platform and the identity service
  answer, every match row changes only as its life allows: a new row has a fresh id, is
  registered by the sender, is between two different players with two different scores up to
  99, and is APPROVED at once only if the messenger has vouched for the sender as an
  administrator of the group during this very update; a row disappears only while it is PENDING
  and only for one of its players or such an administrator; a PENDING row becomes APPROVED only for
  such an administrator or when both players have confirmed; an APPROVED row becomes UNDONE and
  an UNDONE one APPROVED only for such an administrator or when both players have asked. Players, scores,
  registrar and times of a row never change.\<close>

theorem Dispatch_lifecycle:
  assumes "world_ok w" and "room w"
  shows "legal e (actor u) w (snd (Dispatch e u w)) g i
    (mget (matches (st w)) (g, i)) (mget (matches (st (snd (Dispatch e u w)))) (g, i))"
  using Dispatch_permitted [of e u w] assms unfolding permitted_def by blast

theorem Dispatch_lifecycle_witness:
  "legal example_env 3 pending_world (snd (Dispatch example_env (taps 3 200 ''m:c:7:1'') pending_world)) 7 1
    (Some pending_match) (mget (matches (st (snd (Dispatch example_env (taps 3 200 ''m:c:7:1'') pending_world)))) (7, 1))"
  using Dispatch_lifecycle [of pending_world example_env "taps 3 200 ''m:c:7:1''" 7 1]
  by (simp add: pending_world_rows actor_def taps_def no_update_def query_def tapper_def example_user_def)

text \<open>C4. Nobody confirms a match or asks for its undoing on behalf of somebody else: every
  confirmation and every undo command that is in the store after an update is the
  sender's own or was there before.\<close>

theorem Dispatch_own_rows:
  assumes "world_ok w" and "room w"
  shows "own_rows (actor u) (confirmations (st w)) (confirmations (st (snd (Dispatch e u w)))) \<and>
    own_rows (actor u) (undos (st w)) (undos (st (snd (Dispatch e u w))))"
  using Dispatch_permitted [of e u w] assms unfolding permitted_def by blast

theorem Dispatch_own_rows_witness:
  "own_rows 3 [((7, 1, 2), own_confirmation 7 1 2 0)]
    (confirmations (st (snd (Dispatch example_env (taps 3 200 ''m:c:7:1'') pending_world))))"
  using Dispatch_own_rows [of pending_world "taps 3 200 ''m:c:7:1''" example_env]
  by (simp add: pending_world_rows actor_def taps_def no_update_def query_def tapper_def example_user_def)

text \<open>C2. The invariant holds in every state the bot can reach from a store without matches,
  through any sequence of updates, periodic jobs, detached refreshes, migrations and restarts: the
  maps have one row per key, rows lie under their own keys, match ids do not exceed the group's
  counter, confirmations and undo commands refer to existing matches, drafts hold scores the
  picker can show, and every match is between two players with two different scores up to 99.\<close>

theorem run_world_ok:
  assumes "run (handlers_New s) evs w" and "wf_store s" and "matches s = []"
  shows "world_ok w"
  using run_evolves [OF assms(1) world_ok_New [OF assms(2,3)]] by (simp add: evolves_def)

theorem run_world_ok_witness:
  "world_ok (snd (Dispatch example_env (says 2 ''/match @u3 3-1'') example_world))"
proof -
  have "run example_world ([] @ [EvUpdate example_env (says 2 ''/match @u3 3-1'')])
      (apply_event (EvUpdate example_env (says 2 ''/match @u3 3-1'')) example_world)"
    by (rule run_event [OF run_start]) simp
  from run_world_ok [OF this [unfolded example_world_def]] show ?thesis
    by (simp add: example_world_def example_members_rows)
qed

text \<open>C3. Over any history, restarts included, a match row keeps its group, id, players, scores,
  registrar and times, is removed only while it is PENDING and never becomes PENDING again; ids are never reused: a
  row that appears has an id above the group's counter at the start.\<close>

theorem run_history:
  assumes "run w evs w'" and "world_ok w"
  shows "follows (counter (st w) g) i (mget (matches (st w)) (g, i)) (mget (matches (st w')) (g, i))"
  using run_evolves [OF assms] by (simp add: evolves_def)

theorem run_history_witness:
  "follows 1 1 (Some pending_match) (mget (matches (st (snd (PeriodicJob example_env pending_world)))) (7, 1))"
proof -
  have "run pending_world ([] @ [EvPeriodic example_env]) (apply_event (EvPeriodic example_env) pending_world)"
    by (rule run_event [OF run_start]) simp
  from run_history [OF this, of 7 1] show ?thesis
    by (simp add: pending_world_rows counter_def)
qed

end
