(* ===== verification/Consensus.thy ===== *)
theory Consensus
  imports Runs
begin

text \<open>
  What a tap on Confirm and an \<open>/undo\<close> do to the store, on every branch a player can take:
  the match is approved, undone or restored exactly when the second player (or an
  administrator) has spoken, and nothing else of the store changes.
\<close>

lemma world_ok_wf: "world_ok w \<Longrightarrow> wf_store (st w)"
  by (simp add: world_ok_def)

lemma world_ok_players: "world_ok w \<Longrightarrow> mget (matches (st w)) k = Some m \<Longrightarrow> m_Player1ID m \<noteq> m_Player2ID m"
  unfolding world_ok_def match_ok_def by blast

section \<open>Updates that players send\<close>

definition tap_update :: "CallbackQuery \<Rightarrow> Update" where
  "tap_update q = no_update\<lparr>up_CallbackQuery := Some q\<rparr>"

definition message_update :: "Message \<Rightarrow> Update" where
  "message_update m = no_update\<lparr>up_Message := Some m\<rparr>"

lemma Dispatch_tap [simp]: "Dispatch e (tap_update q) w = dispatchCallback e q w"
  by (simp add: Dispatch_def tap_update_def no_update_def)

lemma Dispatch_message [simp]: "Dispatch e (message_update m) w = dispatchMessage e m w"
  by (simp add: Dispatch_def message_update_def no_update_def)

lemma prefixes_apart [simp]:
  "HasPrefix (cbConfirmPrefix @ s) miPrefix = False"
  "HasPrefix (cbCancelPrefix @ s) miPrefix = False"
  "HasPrefix (cbCancelPrefix @ s) cbConfirmPrefix = False"
  by (simp_all add: HasPrefix_def cbConfirmPrefix_def cbCancelPrefix_def miPrefix_def)

lemma dispatch_confirm:
  "cq_From q \<noteq> None \<Longrightarrow> cq_Data q = cbConfirmPrefix @ payload \<Longrightarrow>
   dispatchCallback e q w = handleConfirmTap e q payload w"
  by (auto simp: dispatchCallback_def)

lemma dispatch_cancel:
  "cq_From q \<noteq> None \<Longrightarrow> cq_Data q = cbCancelPrefix @ payload \<Longrightarrow>
   dispatchCallback e q w = handleCancelTap e q payload w"
  by (auto simp: dispatchCallback_def)

section \<open>Confirmation\<close>

text \<open>The messenger's answer when it is asked about the user now.\<close>

definition admin_now :: "env \<Rightarrow> i64 \<Rightarrow> i64 \<Rightarrow> world \<Rightarrow> bool" where
  "admin_now e g u w \<longleftrightarrow> e_admin e (calls w) g u = Inr True"

lemma isChatAdmin_now: "isChatAdmin e g u w = (admin_now e g u w, w\<lparr>calls := calls w @ [IsChatAdmin g u]\<rparr>)"
  by (simp add: isChatAdmin_def m_IsChatAdmin_def admin_now_def split: sum.split)

text \<open>What a decided tap leaves behind: the store and the queue of refreshes.\<close>

lemma approveMatch_effect:
  assumes "cq_Message q \<noteq> None"
  shows "matches (st (snd (approveMatch e q gr g i m t w))) = matches (snd (matchRepo_UpdateStatus (g, i) MatchStatusApproved (st w)))"
    and "confirmations (st (snd (approveMatch e q gr g i m t w))) = confirmations (snd (matchRepo_UpdateStatus (g, i) MatchStatusApproved (st w)))"
    and "undos (st (snd (approveMatch e q gr g i m t w))) = undos (snd (matchRepo_UpdateStatus (g, i) MatchStatusApproved (st w)))"
    and "groups (st (snd (approveMatch e q gr g i m t w))) = groups (snd (matchRepo_UpdateStatus (g, i) MatchStatusApproved (st w)))"
    and "detached (snd (approveMatch e q gr g i m t w)) = detached w @ [gr]"
  using assms
  by (auto simp: approveMatch_def case_prod_beta Let_def detachedRefreshStatsTopic_def answer_res_def)

text \<open>A player's tap on the Confirm button of a PENDING match.\<close>

lemma player_confirms:
  fixes e q w g i m payload
  assumes wf: "wf_store (st w)" and m: "mget (matches (st w)) (g, i) = Some m" and pending: "m_Status m = MatchStatusPending"
    and q: "cq_Message q \<noteq> None" and u: "plays_in (usr_ID (tapper q)) m"
    and payload: "payload = groupMatchPayload g i"
  defines "u \<equiv> usr_ID (tapper q)" and "w' \<equiv> snd (handleConfirmTap e q payload w)"
  defines "rows \<equiv> mput (g, i, u) (own_confirmation g i u (e_now e)) (confirmations (st w))"
  defines "decided \<equiv> admin_now e g u w \<or> (mget rows (g, i, m_Player1ID m) \<noteq> None \<and> mget rows (g, i, m_Player2ID m) \<noteq> None)"
  shows "matches (st w') = (if decided then mput (g, i) (m\<lparr>m_Status := MatchStatusApproved\<rparr>) (matches (st w)) else matches (st w))"
    and "confirmations (st w') = rows" and "undos (st w') = undos (st w)" and "groups (st w') = groups (st w)"
proof -
  let ?w2 = "upd_st (confirmRepo_Insert (own_confirmation g i u (e_now e))) w"
  let ?w3 = "?w2\<lparr>calls := calls w @ [IsChatAdmin g u]\<rparr>"
  have p: "parseGroupMatchPayload payload = Some (g, i)" by (simp add: payload)
  have get: "matchRepo_Get (st w) (g, i) = Inr m" by (simp add: matchRepo_Get_def m)
  have may: "mayDecide e g m u w = (True, w)" using u by (auto simp: mayDecide_def plays_in_def u_def)
  have c3: "confirmations (st ?w3) = rows" by (simp add: confirmRepo_Insert_def rows_def conf_key_def own_confirmation_def)
  have o3: "matches (st ?w3) = matches (st w)" "undos (st ?w3) = undos (st w)" "groups (st ?w3) = groups (st w)"
    by (simp_all add: confirmRepo_Insert_def)
  have "wf_store (st ?w3)"
    using wf m by (auto intro!: wf_confirmRepo_Insert simp: own_confirmation_def)
  note listed = confirmations_listed [OF this, of _ g i, unfolded c3]
  have adm: "isChatAdmin e g u ?w2 = (admin_now e g u w, ?w3)"
    by (simp add: isChatAdmin_now admin_now_def)
  have up: "snd (matchRepo_UpdateStatus (g, i) s (st ?w3)) = (st ?w3)\<lparr>matches := mput (g, i) (m\<lparr>m_Status := s\<rparr>) (matches (st w))\<rparr>" for s
    unfolding matchRepo_UpdateStatus_def o3 m by simp
  note eff = approveMatch_effect [OF q, of e _ g i m _ ?w3, unfolded up]
  obtain msg where msg: "cq_Message q = Some msg" using q by blast
  have w': "\<exists>gr t c. w' = (if decided then snd (approveMatch e q gr g i m t ?w3)
      else snd (answer_res e q t (snd (m_act e c ?w3))))"
    unfolding w'_def handleConfirmTap_def p get u_def [symmetric] may decided_def listed [symmetric] option.case case_prod_beta
      Let_def fst_conv snd_conv sum.case adm msg
    using pending by (auto simp del: m_snd set_map)
  show "matches (st w') = (if decided then mput (g, i) (m\<lparr>m_Status := MatchStatusApproved\<rparr>) (matches (st w)) else matches (st w))"
    "confirmations (st w') = rows" "undos (st w') = undos (st w)" "groups (st w') = groups (st w)"
    using w' eff c3 o3 by (auto simp: answer_res_def)
qed

lemma decided_tap_idle:
  assumes "matchRepo_Get (st w) (g, i) = Inr m" and "m_Status m \<noteq> MatchStatusPending" and "plays_in (usr_ID (tapper q)) m"
  shows "snd (handleConfirmTap e q (groupMatchPayload g i) w) = snd (answer_res e q [] w)"
  using assms by (auto simp: handleConfirmTap_def mayDecide_def plays_in_def)

section \<open>Undo and restore\<close>

text \<open>An \<open>/undo\<close> that is accepted: sent in the matches topic of a configured group, for match \<open>i\<close>.\<close>

definition asks_undo :: "world \<Rightarrow> Message \<Rightarrow> string \<Rightarrow> u64 \<Rightarrow> Match \<Rightarrow> bool" where
  "asks_undo w m args i mt \<longleftrightarrow>
     (case groupRepo_Get (st w) (ch_ID (msg_Chat m)) of
        Inl _ \<Rightarrow> False
      | Inr gr \<Rightarrow> FullyConfigured gr \<and> msg_MessageThreadID m = g_MatchesTopicID gr) \<and>
     undoTarget m args = Some i \<and> matchRepo_Get (st w) (ch_ID (msg_Chat m), i) = Inr mt"

lemma toggle_effect:
  assumes "mget (matches (st w)) (g_GroupID gr, m_MatchID mt) = Some mt"
  shows "matches (st (snd (toggleMatchAndAnnounce e m gr mt w))) =
      mput (g_GroupID gr, m_MatchID mt) (mt\<lparr>m_Status := toggledStatus (m_Status mt)\<rparr>) (matches (st w))"
    and "undos (st (snd (toggleMatchAndAnnounce e m gr mt w))) = mdel_if (for_match (g_GroupID gr, m_MatchID mt)) (undos (st w))"
    and "confirmations (st (snd (toggleMatchAndAnnounce e m gr mt w))) = confirmations (st w)"
    and "groups (st (snd (toggleMatchAndAnnounce e m gr mt w))) = groups (st w)"
  using assms
  by (simp_all add: toggleMatchAndAnnounce_def matchRepo_UpdateStatus_def undoRepo_DeleteForMatch_def Let_def case_prod_beta
      detachedRefreshStatsTopic_def)

text \<open>The undo rows once a player or administrator has asked, and whether that decides.\<close>

definition undo_rows :: "env \<Rightarrow> i64 \<Rightarrow> u64 \<Rightarrow> i64 \<Rightarrow> world \<Rightarrow> (i64 \<times> u64 \<times> i64, UndoCommand) gomap" where
  "undo_rows e g i u w =
     mput (g, i, u) \<lparr>u_GroupID = g, u_MatchID = i, u_TelegramID = u, u_RequestedAt = e_now e\<rparr> (undos (st w))"

definition undo_decided :: "env \<Rightarrow> i64 \<Rightarrow> u64 \<Rightarrow> i64 \<Rightarrow> Match \<Rightarrow> world \<Rightarrow> bool" where
  "undo_decided e g i u mt w \<longleftrightarrow> admin_now e g u w \<or>
     (\<forall>p \<in> {m_Player1ID mt, m_Player2ID mt}. p = u \<or> mget (undos (st w)) (g, i, p) \<noteq> None)"

lemma asked_undo:
  fixes e m args w i mt
  assumes ok: "world_ok w" and a: "asks_undo w m args i mt" and fin: "m_Status mt \<noteq> MatchStatusPending"
  defines "u \<equiv> usr_ID (sender m)" and "g \<equiv> ch_ID (msg_Chat m)" and "w' \<equiv> snd (handleUndo e m args w)"
  assumes may: "plays_in u mt \<or> admin_now e g u w"
  shows "matches (st w') = (if undo_decided e g i u mt w \<and> (admin_now e g u w \<or> mget (undos (st w)) (g, i, u) = None)
      then mput (g, i) (mt\<lparr>m_Status := toggledStatus (m_Status mt)\<rparr>) (matches (st w)) else matches (st w))"
    and "undos (st w') = (if \<not> admin_now e g u w \<and> mget (undos (st w)) (g, i, u) \<noteq> None then mdel (g, i, u) (undos (st w))
      else if undo_decided e g i u mt w then mdel_if (for_match (g, i)) (undo_rows e g i u w) else undo_rows e g i u w)"
    and "confirmations (st w') = confirmations (st w)" and "groups (st w') = groups (st w)"
proof -
  obtain gr where gr: "groupRepo_Get (st w) g = Inr gr" "FullyConfigured gr" "msg_MessageThreadID m = g_MatchesTopicID gr"
    and t: "undoTarget m args = Some i" and get: "matchRepo_Get (st w) (g, i) = Inr mt"
    using a unfolding asks_undo_def g_def by (auto split: sum.splits)
  have gid: "g_GroupID gr = g" by (rule group_id [OF ok gr(1)])
  have m: "mget (matches (st w)) (g, i) = Some mt" using get by (auto simp: matchRepo_Get_def split: option.splits)
  have wf: "wf_store (st w)" using ok by (simp add: world_ok_def)
  have mid: "m_MatchID mt = i" using wf m by (auto simp: wf_store_def match_key_def dest: keyedD)
  define w1 where "w1 = w\<lparr>calls := calls w @ [IsChatAdmin g u]\<rparr>"
  define w2 where "w2 = upd_st (undoRepo_Insert \<lparr>u_GroupID = g, u_MatchID = i, u_TelegramID = u, u_RequestedAt = e_now e\<rparr>) w1"
  have adm: "isChatAdmin e g u w = (admin_now e g u w, w1)" by (simp add: isChatAdmin_now w1_def)
  have st1: "st w1 = st w" by (simp add: w1_def)
  have rows2: "undos (st w2) = undo_rows e g i u w" by (simp add: w2_def w1_def undoRepo_Insert_def undo_rows_def undo_key_def)
  have other2: "matches (st w2) = matches (st w)" "confirmations (st w2) = confirmations (st w)" "groups (st w2) = groups (st w)"
    by (simp_all add: w2_def w1_def undoRepo_Insert_def)
  have "wf_store (st w2)" using wf m by (auto simp: w2_def w1_def intro!: wf_undoRepo_Insert)
  note listed2 = undos_listed [OF this, of _ g i, unfolded rows2]
  have own: "list_ex (\<lambda>x. u_TelegramID x = u \<and> \<not> admin_now e g u w) (undoRepo_ListForMatch (st w1) (g, i)) \<longleftrightarrow>
      \<not> admin_now e g u w \<and> mget (undos (st w)) (g, i, u) \<noteq> None"
    using undos_listed [OF wf, of u g i] by (auto simp: list_ex_iff st1)
  define D where "D \<longleftrightarrow> (\<forall>p \<in> {m_Player1ID mt, m_Player2ID mt}. p = u \<or> mget (undos (st w)) (g, i, p) \<noteq> None)"
  have decided: "undo_decided e g i u mt w \<longleftrightarrow> admin_now e g u w \<or> D" by (simp add: undo_decided_def D_def)
  have both: "m_Player1ID mt \<in> set (map u_TelegramID (undoRepo_ListForMatch (st w2) (g, i))) \<and>
      m_Player2ID mt \<in> set (map u_TelegramID (undoRepo_ListForMatch (st w2) (g, i))) \<longleftrightarrow> D"
    unfolding listed2 D_def by (auto simp: undo_rows_def)
  have tog: "matches (st (snd (toggleMatchAndAnnounce e m gr mt w2))) = mput (g, i) (mt\<lparr>m_Status := toggledStatus (m_Status mt)\<rparr>) (matches (st w))"
    "undos (st (snd (toggleMatchAndAnnounce e m gr mt w2))) = mdel_if (for_match (g, i)) (undo_rows e g i u w)"
    "confirmations (st (snd (toggleMatchAndAnnounce e m gr mt w2))) = confirmations (st w)"
    "groups (st (snd (toggleMatchAndAnnounce e m gr mt w2))) = groups (st w)"
    using toggle_effect [of w2 gr mt e m] m by (simp_all only: gid mid other2 rows2)
  have del: "undos (snd (undoRepo_Delete (g, i, u) (st w1))) = mdel (g, i, u) (undos (st w))"
      "matches (snd (undoRepo_Delete (g, i, u) (st w1))) = matches (st w)"
      "confirmations (snd (undoRepo_Delete (g, i, u) (st w1))) = confirmations (st w)"
      "groups (snd (undoRepo_Delete (g, i, u) (st w1))) = groups (st w)"
    if "mget (undos (st w)) (g, i, u) \<noteq> None"
    using that by (auto simp: undoRepo_Delete_def st1)
  have w': "w' = snd (requestUndo e m gr i mt w)"
    unfolding w'_def handleUndo_def g_def [symmetric] using gr t get gid by simp
  have may': "(\<not> (m_Player1ID mt = u \<or> m_Player2ID mt = u) \<and> \<not> admin_now e g u w) = False"
    using may by (auto simp: plays_in_def)
  have st: "(m_Status mt \<noteq> MatchStatusApproved \<and> m_Status mt \<noteq> MatchStatusUndone) = False"
    using fin by (cases "m_Status mt") simp_all
  have cases: "w' = (if \<not> admin_now e g u w \<and> mget (undos (st w)) (g, i, u) \<noteq> None
      then snd (reply e m (''Undo request for Match #'' @ fmt_u64 i @ '' cancelled.'') (upd_st (\<lambda>s. snd (undoRepo_Delete (g, i, u) s)) w1))
      else if undo_decided e g i u mt w then snd (toggleMatchAndAnnounce e m gr mt w2)
      else snd (reply e m (''Undo requested for Match #'' @ fmt_u64 i @ ''. Waiting for other player.'')
        (snd (m_act e (SendReaction g (msg_MessageID m) thumbs_up) w2))))"
    unfolding w' requestUndo_def Let_def g_def [symmetric] u_def [symmetric] gid adm case_prod_beta fst_conv snd_conv
      w2_def [symmetric] own both decided may' st if_False
    by (cases "admin_now e g u w"; cases "mget (undos (st w)) (g, i, u) = None"; cases D) simp_all
  show "matches (st w') = (if undo_decided e g i u mt w \<and> (admin_now e g u w \<or> mget (undos (st w)) (g, i, u) = None)
      then mput (g, i) (mt\<lparr>m_Status := toggledStatus (m_Status mt)\<rparr>) (matches (st w)) else matches (st w))"
    unfolding cases using tog(1) del(2) other2(1) st1 by auto
  show "undos (st w') = (if \<not> admin_now e g u w \<and> mget (undos (st w)) (g, i, u) \<noteq> None then mdel (g, i, u) (undos (st w))
      else if undo_decided e g i u mt w then mdel_if (for_match (g, i)) (undo_rows e g i u w) else undo_rows e g i u w)"
    unfolding cases using tog(2) del(1) rows2 st1 by auto
  show "confirmations (st w') = confirmations (st w)" "groups (st w') = groups (st w)"
    unfolding cases using tog(3,4) del(3,4) other2(2,3) st1 by auto
qed

lemma handleUndo_ok: "world_ok w \<Longrightarrow> room w \<Longrightarrow> world_ok (snd (handleUndo e m args w))"
  using handleUndo_permitted [of e m w args] unfolding permitted_def by blast

lemma asks_undo_next:
  assumes "asks_undo w m args i mt" and "groups (st w1) = groups (st w)"
    and "mget (matches (st w1)) (ch_ID (msg_Chat m), i) = Some mt'"
  shows "asks_undo w1 m args i mt'"
  using assms by (auto simp: asks_undo_def groupRepo_Get_def matchRepo_Get_def)

section \<open>Properties\<close>

text \<open>C8. A player's tap on the Confirm button of a PENDING match records his confirmation, and makes the
  match APPROVED exactly when the other player has confirmed before or the messenger says that
  the tapping player administers the group. No other row of the matches, confirmations,
  undo commands and groups changes.\<close>

theorem player_tap_confirms:
  assumes "world_ok w" and "mget (matches (st w)) (g, i) = Some m" and "m_Status m = MatchStatusPending"
    and "cq_From q = Some v" and "cq_Message q \<noteq> None" and "cq_Data q = cbConfirmPrefix @ groupMatchPayload g i"
    and "plays_in (usr_ID v) m"
  shows "let s' = st (snd (Dispatch e (tap_update q) w));
      other = (if usr_ID v = m_Player1ID m then m_Player2ID m else m_Player1ID m)
    in matches s' = (if admin_now e g (usr_ID v) w \<or> mget (confirmations (st w)) (g, i, other) \<noteq> None
          then mput (g, i) (m\<lparr>m_Status := MatchStatusApproved\<rparr>) (matches (st w)) else matches (st w))
      \<and> confirmations s' = mput (g, i, usr_ID v) (own_confirmation g i (usr_ID v) (e_now e)) (confirmations (st w))
      \<and> undos s' = undos (st w) \<and> groups s' = groups (st w)"
proof -
  have v: "usr_ID (tapper q) = usr_ID v" by (simp add: tapper_def assms(4))
  note wf = world_ok_wf [OF assms(1)] and ne = world_ok_players [OF assms(1,2)]
  note eff = player_confirms [OF wf assms(2,3,5) assms(7) [folded v] refl, of e, unfolded v]
  have who: "m_Player2ID m = usr_ID v \<longleftrightarrow> usr_ID v \<noteq> m_Player1ID m" using assms(7) ne unfolding plays_in_def by metis
  have tap: "Dispatch e (tap_update q) w = handleConfirmTap e q (groupMatchPayload g i) w"
    using assms(4) dispatch_confirm [OF _ assms(6)] by simp
  show ?thesis
    unfolding Let_def tap eff using who by (cases "usr_ID v = m_Player1ID m") simp_all
qed

theorem player_tap_confirms_witness:
  "matches (st (snd (Dispatch example_env (tap_update (query 3 200 [] (cbConfirmPrefix @ groupMatchPayload 7 1))) pending_world))) =
     [((7, 1), pending_match\<lparr>m_Status := MatchStatusApproved\<rparr>)]"
proof -
  let ?q = "query 3 200 [] (cbConfirmPrefix @ groupMatchPayload 7 1)"
  have "cq_From ?q = Some (example_user 3)" "cq_Message ?q \<noteq> None" "cq_Data ?q = cbConfirmPrefix @ groupMatchPayload 7 1"
    by (simp_all add: query_def)
  from player_tap_confirms [OF pending_world_ok _ _ this, of pending_match example_env]
  show ?thesis
    unfolding Let_def by (simp add: pending_world_rows example_user_def plays_in_def del: Dispatch_tap)
qed

text \<open>C6. A PENDING match is APPROVED as soon as both of its players have tapped Confirm, in whichever
  order and whatever the messenger answers; the other matches stay as they are.\<close>

theorem both_taps_approve:
  assumes "world_ok w" and "room w" and "mget (matches (st w)) (g, i) = Some m" and "m_Status m = MatchStatusPending"
    and "cq_From q1 = Some v1" and "cq_Message q1 \<noteq> None" and "cq_Data q1 = cbConfirmPrefix @ groupMatchPayload g i"
    and "cq_From q2 = Some v2" and "cq_Message q2 \<noteq> None" and "cq_Data q2 = cbConfirmPrefix @ groupMatchPayload g i"
    and "{usr_ID v1, usr_ID v2} = {m_Player1ID m, m_Player2ID m}"
  shows "matches (st (snd (Dispatch e2 (tap_update q2) (snd (Dispatch e1 (tap_update q1) w))))) =
    mput (g, i) (m\<lparr>m_Status := MatchStatusApproved\<rparr>) (matches (st w))"
proof -
  let ?w1 = "snd (handleConfirmTap e1 q1 (groupMatchPayload g i) w)"
  have v: "usr_ID (tapper q1) = usr_ID v1" "usr_ID (tapper q2) = usr_ID v2"
    by (simp_all add: tapper_def assms(5,8))
  have p: "plays_in (usr_ID v1) m" "plays_in (usr_ID v2) m" "usr_ID v1 \<noteq> usr_ID v2"
    and who: "m_Player1ID m = usr_ID v1 \<and> m_Player2ID m = usr_ID v2 \<or> m_Player1ID m = usr_ID v2 \<and> m_Player2ID m = usr_ID v1"
    using assms(11) world_ok_players [OF assms(1,3)] by (auto simp: plays_in_def doubleton_eq_iff)
  note wf = world_ok_wf [OF assms(1)]
  note first = player_confirms [OF wf assms(3,4,6) p(1) [folded v(1)] refl, of e1, unfolded v]
  have ok1: "world_ok ?w1"
    using handleConfirmTap_permitted [of e1 q1 w "groupMatchPayload g i"] assms(1,2) unfolding permitted_def by blast
  have "matches (st (snd (handleConfirmTap e2 q2 (groupMatchPayload g i) ?w1))) =
      mput (g, i) (m\<lparr>m_Status := MatchStatusApproved\<rparr>) (matches (st w))"
  proof (cases "matches (st ?w1) = matches (st w)")
    case True
    from player_confirms(1) [OF world_ok_wf [OF ok1] _ assms(4,9) p(2) [folded v(2)] refl, of g i e2, unfolded v True, OF assms(3)]
    show ?thesis using first(2) who by auto
  next
    case False
    then have m1: "matches (st ?w1) = mput (g, i) (m\<lparr>m_Status := MatchStatusApproved\<rparr>) (matches (st w))"
      using first(1) by argo
    then have get: "matchRepo_Get (st ?w1) (g, i) = Inr (m\<lparr>m_Status := MatchStatusApproved\<rparr>)"
      by (simp add: matchRepo_Get_def)
    then have "snd (handleConfirmTap e2 q2 (groupMatchPayload g i) ?w1) = snd (answer_res e2 q2 [] ?w1)"
      by (rule decided_tap_idle) (use p(2) in \<open>simp_all add: v plays_in_def\<close>)
    then show ?thesis using m1 by (simp add: answer_res_def)
  qed
  then show ?thesis using assms(5,8) by (simp add: dispatch_confirm [OF _ assms(7)] dispatch_confirm [OF _ assms(10)])
qed

theorem both_taps_approve_witness:
  "matches (st (snd (Dispatch example_env (tap_update (query 3 200 [] (cbConfirmPrefix @ groupMatchPayload 7 1)))
      (snd (Dispatch example_env (tap_update (query 2 200 [] (cbConfirmPrefix @ groupMatchPayload 7 1))) pending_world))))) =
     [((7, 1), pending_match\<lparr>m_Status := MatchStatusApproved\<rparr>)]"
proof -
  let ?q = "\<lambda>u. query u 200 [] (cbConfirmPrefix @ groupMatchPayload 7 1)"
  have q: "cq_From (?q u) = Some (example_user u)" "cq_Message (?q u) \<noteq> None" "cq_Data (?q u) = cbConfirmPrefix @ groupMatchPayload 7 1" for u
    by (simp_all add: query_def)
  from both_taps_approve [OF pending_world_ok scenario_room(2) _ _ q q, of pending_match 2 3 example_env example_env]
  show ?thesis by (simp add: pending_world_rows example_user_def del: Dispatch_tap)
qed

text \<open>C9. An \<open>/undo\<close> for a decided match by one of its players or an administrator, in the matches topic of
  a configured group: an administrator, or the player whose partner has asked before, toggles
  the match between APPROVED and UNDONE and clears the requests; the first player's request
  is recorded; a player's repeated request is withdrawn. Nothing else of matches,
  confirmations and groups changes.\<close>

theorem undo_request_effect:
  assumes "world_ok w" and "asks_undo w m args i mt" and "m_Status mt \<noteq> MatchStatusPending"
    and "plays_in (usr_ID (sender m)) mt \<or> admin_now e (ch_ID (msg_Chat m)) (usr_ID (sender m)) w"
  shows "let u = usr_ID (sender m); g = ch_ID (msg_Chat m); s' = st (snd (handleUndo e m args w));
      admin = admin_now e g u w; asked = (\<lambda>p. mget (undos (st w)) (g, i, p) \<noteq> None);
      second = (\<forall>p \<in> {m_Player1ID mt, m_Player2ID mt}. p = u \<or> asked p);
      toggled = (admin \<or> \<not> asked u \<and> second)
    in matches s' = (if toggled then mput (g, i) (mt\<lparr>m_Status := toggledStatus (m_Status mt)\<rparr>) (matches (st w))
          else matches (st w))
      \<and> (\<forall>p. mget (undos s') (g, i, p) =
          (if toggled then None
           else if p = u then (if asked u then None else Some \<lparr>u_GroupID = g, u_MatchID = i, u_TelegramID = u, u_RequestedAt = e_now e\<rparr>)
           else mget (undos (st w)) (g, i, p)))
      \<and> confirmations s' = confirmations (st w) \<and> groups s' = groups (st w)"
proof -
  let ?u = "usr_ID (sender m)" and ?g = "ch_ID (msg_Chat m)"
  note eff = asked_undo [OF assms]
  define S where "S \<longleftrightarrow> (\<forall>p \<in> {m_Player1ID mt, m_Player2ID mt}. p = ?u \<or> mget (undos (st w)) (?g, i, p) \<noteq> None)"
  define A where "A \<longleftrightarrow> admin_now e ?g ?u w"
  define own where "own \<longleftrightarrow> mget (undos (st w)) (?g, i, ?u) \<noteq> None"
  have d: "undo_decided e ?g i ?u mt w \<longleftrightarrow> A \<or> S" by (simp only: undo_decided_def S_def A_def)
  have own': "mget (undos (st w)) (?g, i, ?u) = None \<longleftrightarrow> \<not> own" by (simp add: own_def)
  have rows: "mget (undo_rows e ?g i ?u w) (?g, i, p) = (if p = ?u
      then Some \<lparr>u_GroupID = ?g, u_MatchID = i, u_TelegramID = ?u, u_RequestedAt = e_now e\<rparr> else mget (undos (st w)) (?g, i, p))" for p
    by (simp add: undo_rows_def)
  have gone: "mget (mdel_if (for_match (?g, i)) t) (?g, i, p) = None" for t :: "(i64 \<times> u64 \<times> i64, UndoCommand) gomap" and p
    by (simp add: for_match_def)
  have mine: "mget (mdel (?g, i, ?u) t) (?g, i, p) = (if p = ?u then None else mget t (?g, i, p))" for t :: "(i64 \<times> u64 \<times> i64, UndoCommand) gomap" and p
    by simp
  show ?thesis
    unfolding Let_def eff d S_def [symmetric] A_def [symmetric] own' own_def [symmetric]
    by (cases A; cases S; cases own; intro conjI allI) (simp_all only: rows gone mine if_True if_False simp_thms)
qed

lemma approved_world_asks:
  "asks_undo approved_world (example_message u ''/undo #1'') ''#1'' 1 (pending_match\<lparr>m_Status := MatchStatusApproved\<rparr>)"
proof -
  have "fmt_u64 1 = ''1''" by (simp add: fmt_u64_def dec.simps digit_def char_of_def bit_0)
  then have "ExtractMatchID ''#1'' = Some 1" using ExtractMatchID_at [of "[]" "[]" 1] by simp
  then show ?thesis
    unfolding asks_undo_def groupRepo_Get_def matchRepo_Get_def approved_world_rows example_message_def example_chat_def
    by (simp add: example_group_def FullyConfigured_def undoTarget_def get_or_def)
qed

theorem undo_request_effect_witness:
  "matches (st (snd (handleUndo example_env (example_message 1 ''/undo #1'') ''#1'' approved_world))) =
     [((7, 1), pending_match\<lparr>m_Status := MatchStatusUndone\<rparr>)]"
proof -
  have "asks_undo approved_world (example_message 1 ''/undo #1'') ''#1'' 1 (pending_match\<lparr>m_Status := MatchStatusApproved\<rparr>)"
    by (simp add: approved_world_asks)
  from undo_request_effect [OF approved_world_ok this, of example_env]
  show ?thesis
    by (simp add: Let_def approved_world_rows toggledStatus_def admin_now_def example_env_def example_message_def sender_def
        example_chat_def example_user_def)
qed

text \<open>A player who is not an administrator takes his request back by repeating it: after the second \<open>/undo\<close>
  the matches, the requests for the match and the confirmations are what they were before the
  first.\<close>

theorem undo_withdrawn:
  assumes "world_ok w" and "room w" and "asks_undo w m1 args1 i mt" and "asks_undo w m2 args2 i mt"
    and "ch_ID (msg_Chat m1) = g" and "ch_ID (msg_Chat m2) = g" and "usr_ID (sender m1) = u" and "usr_ID (sender m2) = u"
    and "m_Status mt \<noteq> MatchStatusPending" and "plays_in u mt"
    and "mget (undos (st w)) (g, i, u) = None" and "mget (undos (st w)) (g, i, p) = None" and "plays_in p mt" and "p \<noteq> u"
    and "\<not> admin_now e1 g u w" and "\<not> admin_now e2 g u (snd (handleUndo e1 m1 args1 w))"
  shows "let s' = st (snd (handleUndo e2 m2 args2 (snd (handleUndo e1 m1 args1 w))))
    in matches s' = matches (st w) \<and> confirmations s' = confirmations (st w)
      \<and> (\<forall>k. mget (undos s') k = mget (undos (st w)) k)"
proof -
  let ?w1 = "snd (handleUndo e1 m1 args1 w)"
  have nd: "\<not> undo_decided e1 g i u mt w"
    using assms(12,13,14,15) by (auto simp: undo_decided_def plays_in_def)
  have may: "plays_in (usr_ID (sender m1)) mt \<or> admin_now e1 (ch_ID (msg_Chat m1)) (usr_ID (sender m1)) w"
    using assms(7,10) by simp
  note first = asked_undo [OF assms(1,3,9) may, unfolded assms(5,7)]
  have m1: "matches (st ?w1) = matches (st w)" using first(1) nd by simp
  have u1: "undos (st ?w1) = undo_rows e1 g i u w" using first(2) nd assms(11) by simp
  have "mget (matches (st ?w1)) (ch_ID (msg_Chat m2), i) = Some mt"
    using assms(4,6) m1 by (auto simp: asks_undo_def matchRepo_Get_def split: option.splits)
  then have a2: "asks_undo ?w1 m2 args2 i mt" by (rule asks_undo_next [OF assms(4) first(4)])
  have may2: "plays_in (usr_ID (sender m2)) mt \<or> admin_now e2 (ch_ID (msg_Chat m2)) (usr_ID (sender m2)) ?w1"
    using assms(8,10) by simp
  note second = asked_undo [OF handleUndo_ok [OF assms(1,2)] a2 assms(9) may2, unfolded assms(6,8)]
  have own: "mget (undos (st ?w1)) (g, i, u) \<noteq> None" by (simp add: u1 undo_rows_def)
  show ?thesis
    unfolding Let_def second using own assms(11,16) m1 u1 first(3) by (auto simp: undo_rows_def)
qed

theorem undo_withdrawn_witness:
  "mget (undos (st (snd (handleUndo example_env (example_message 2 ''/undo #1'') ''#1''
      (snd (handleUndo example_env (example_message 2 ''/undo #1'') ''#1'' approved_world)))))) (7, 1, 2) = None"
proof -
  let ?m = "example_message 2 ''/undo #1''" and ?mt = "pending_match\<lparr>m_Status := MatchStatusApproved\<rparr>"
  have s: "ch_ID (msg_Chat ?m) = 7" "usr_ID (sender ?m) = 2"
    by (simp_all add: example_message_def example_chat_def sender_def example_user_def)
  have n: "\<not> admin_now example_env 7 2 v" for v by (simp add: admin_now_def example_env_def)
  have mt: "m_Status ?mt \<noteq> MatchStatusPending" "plays_in 2 ?mt" "plays_in 3 ?mt" by (simp_all add: plays_in_def)
  have u: "mget (undos (st approved_world)) k = None" for k by (simp add: approved_world_rows)
  note x = undo_withdrawn [OF approved_world_ok scenario_room(3) approved_world_asks approved_world_asks s(1) s(1) s(2) s(2)
    mt(1,2) u u mt(3) _ n n]
  have "(3 :: i64) \<noteq> 2" by simp
  from x [OF this] show ?thesis unfolding Let_def u by blast
qed

text \<open>C10. Undoing is reversible: when an administrator sends \<open>/undo\<close> for a decided match twice, the match
  rows and the confirmations are what they were, and no request is left.\<close>

theorem undo_restores:
  assumes "world_ok w" and "room w" and "asks_undo w m1 args1 i mt" and "asks_undo w m2 args2 i mt"
    and "ch_ID (msg_Chat m1) = g" and "ch_ID (msg_Chat m2) = g" and "usr_ID (sender m1) = u1" and "usr_ID (sender m2) = u2"
    and "m_Status mt \<noteq> MatchStatusPending"
    and "admin_now e1 g u1 w" and "admin_now e2 g u2 (snd (handleUndo e1 m1 args1 w))"
  shows "let s1 = st (snd (handleUndo e1 m1 args1 w)); s' = st (snd (handleUndo e2 m2 args2 (snd (handleUndo e1 m1 args1 w))))
    in mget (matches s1) (g, i) = Some (mt\<lparr>m_Status := toggledStatus (m_Status mt)\<rparr>)
      \<and> (\<forall>k. mget (matches s') k = mget (matches (st w)) k) \<and> confirmations s' = confirmations (st w)
      \<and> (\<forall>p. mget (undos s') (g, i, p) = None)"
proof -
  let ?w1 = "snd (handleUndo e1 m1 args1 w)" and ?mt = "mt\<lparr>m_Status := toggledStatus (m_Status mt)\<rparr>"
  have d1: "undo_decided e1 g i u1 mt w" using assms(10) by (simp add: undo_decided_def)
  have d2: "undo_decided e2 g i u2 ?mt ?w1" using assms(11) by (simp add: undo_decided_def)
  have may1: "plays_in (usr_ID (sender m1)) mt \<or> admin_now e1 (ch_ID (msg_Chat m1)) (usr_ID (sender m1)) w"
    using assms(5,7,10) by simp
  note first = asked_undo [OF assms(1,3,9) may1, unfolded assms(5,7)]
  have row: "mget (matches (st w)) (g, i) = Some mt"
    using assms(3,5) by (auto simp: asks_undo_def matchRepo_Get_def split: option.splits)
  have m1: "matches (st ?w1) = mput (g, i) ?mt (matches (st w))" using first(1) d1 assms(10) by simp
  have "mget (matches (st ?w1)) (ch_ID (msg_Chat m2), i) = Some ?mt" by (simp add: m1 assms(6))
  then have a2: "asks_undo ?w1 m2 args2 i ?mt" by (rule asks_undo_next [OF assms(4) first(4)])
  have may2: "plays_in (usr_ID (sender m2)) ?mt \<or> admin_now e2 (ch_ID (msg_Chat m2)) (usr_ID (sender m2)) ?w1"
    using assms(6,8,11) by simp
  have fin: "m_Status ?mt \<noteq> MatchStatusPending" by (simp add: toggledStatus_def)
  note second = asked_undo [OF handleUndo_ok [OF assms(1,2)] a2 fin may2, unfolded assms(6,8)]
  have "toggledStatus (toggledStatus (m_Status mt)) = m_Status mt"
    using assms(9) by (cases "m_Status mt") (simp_all add: toggledStatus_def)
  then have t: "mt\<lparr>m_Status := toggledStatus (toggledStatus (m_Status mt))\<rparr> = mt" by simp
  have m2: "matches (st (snd (handleUndo e2 m2 args2 ?w1))) = mput (g, i) mt (matches (st ?w1))"
    using second(1) d2 assms(11) by (simp add: t)
  have u2: "undos (st (snd (handleUndo e2 m2 args2 ?w1))) = mdel_if (for_match (g, i)) (undo_rows e2 g i u2 ?w1)"
    using second(2) d2 assms(11) by simp
  show ?thesis
    unfolding Let_def m2 u2 m1 second(3) first(3) using row by (auto simp: for_match_def)
qed

theorem undo_restores_witness:
  "mget (matches (st (snd (handleUndo example_env (example_message 1 ''/undo #1'') ''#1''
      (snd (handleUndo example_env (example_message 1 ''/undo #1'') ''#1'' approved_world)))))) (7, 1) =
     Some (pending_match\<lparr>m_Status := MatchStatusApproved\<rparr>)"
proof -
  let ?m = "example_message 1 ''/undo #1''" and ?mt = "pending_match\<lparr>m_Status := MatchStatusApproved\<rparr>"
  have s: "ch_ID (msg_Chat ?m) = 7" "usr_ID (sender ?m) = 1"
    by (simp_all add: example_message_def example_chat_def sender_def example_user_def)
  have n: "admin_now example_env 7 1 v" for v by (simp add: admin_now_def example_env_def)
  have mt: "m_Status ?mt \<noteq> MatchStatusPending" by simp
  from undo_restores [OF approved_world_ok scenario_room(3) approved_world_asks approved_world_asks s(1) s(1) s(2) s(2) mt n n]
  show ?thesis unfolding Let_def by (simp add: approved_world_rows)
qed

end
