(* ===== verification/Mirror.thy ===== *)
theory Mirror
  imports Runs
begin

text \<open>
  The draft of an interactive \<open>/match\<close> is mirrored in the text of its message; after a
  restart the first tap restores it from there. The texts of both pickers are parsed back to
  the draft they were rendered from.
\<close>

section \<open>Characters of the state tags\<close>

lemma non_space_escape: "c \<in> set (QueryEscape s) \<Longrightarrow> non_space c \<and> c \<noteq> CHR ''[''"
proof (induction s)
  case (Cons d s)
  have hex: "non_space (hex_digit n) \<and> hex_digit n \<noteq> CHR ''[''" if "n < 16" for n
  proof -
    have "list_all (\<lambda>n. non_space (hex_digit n) \<and> hex_digit n \<noteq> CHR ''['') [0..<16]" by code_simp
    then show ?thesis using that by (simp only: list_all_iff) simp
  qed
  have "byte d div 16 < 16" "byte d mod 16 < 16" using byte_less [of d] by (simp_all add: less_mult_imp_div_less)
  moreover have "unreserved x \<Longrightarrow> non_space x \<and> x \<noteq> CHR ''[''" for x
    by (auto simp: unreserved_def non_space_def is_alnum_def is_alpha_def is_upper_def is_lower_def is_digit_def byte_def)
  moreover have "non_space (CHR ''+'')" "non_space (CHR ''%'')" by (simp_all add: non_space_def byte_def)
  ultimately show ?case using Cons hex by (auto split: if_splits)
qed simp

lemma word_at_escape: "word_at (QueryEscape s @ CHR '' '' # r) = (QueryEscape s, CHR '' '' # r)"
proof -
  have "\<not> non_space CHR '' ''" by (simp add: non_space_def byte_def)
  then show ?thesis
    using non_space_escape [of _ s] by (simp add: word_at_def takeWhile_append dropWhile_append)
qed

lemma digits_at_dec: "\<not> is_digit c \<Longrightarrow> digits_at (dec n @ c # r) = Some (dec n, c # r)"
  using dec_digits [of n] by (simp add: digits_at_def takeWhile_append dropWhile_append Let_def)

lemma lit_at_append [simp]: "lit_at p (p @ s) = Some s"
  by (simp add: lit_at_def)

lemma score_at_tok: "- 1 \<le> v \<Longrightarrow> v \<le> 9 \<Longrightarrow> score_at (scoreTok v @ s) = Some (hd (scoreTok v), s)"
  and parse_scoreTok: "- 1 \<le> v \<Longrightarrow> v \<le> 9 \<Longrightarrow> parseScoreTok [hd (scoreTok v)] = v"
proof -
  assume v: "- 1 \<le> v" "v \<le> 9"
  have "nat v < 10" using v by linarith
  then have tok: "scoreTok v = (if v < 0 then ''-'' else [digit (nat v)])"
    by (simp add: scoreTok_def Itoa_def dec.simps)
  show "score_at (scoreTok v @ s) = Some (hd (scoreTok v), s)"
    using v unfolding tok by (simp add: score_at_def)
  have "parseScoreTok [digit n] = int n" if "n < 10" for n
  proof -
    have "dec n = [digit n]" using that by (simp add: dec.simps)
    then have "Atoi [digit n] = Some (int n)" using ParseInt_dec [of n 64] that by (simp add: Atoi_def)
    moreover have "[digit n] \<noteq> ''-''" using is_digit_not_sign [OF is_digit_digit [OF that]] by simp
    ultimately show ?thesis by (simp add: parseScoreTok_def)
  qed
  from this [OF \<open>nat v < 10\<close>] show "parseScoreTok [hd (scoreTok v)] = v"
    using v unfolding tok by (cases "v < 0") (simp_all add: parseScoreTok_def)
qed

lemma fmt_i64_nat: "0 \<le> sint w \<Longrightarrow> fmt_i64 w = dec (nat (sint w))"
  by (simp add: fmt_i64_def Itoa_def)

lemma digits_int_i64: "0 \<le> sint (w :: i64) \<Longrightarrow> word_of_int (digits_int (dec (nat (sint w)))) = w"
  using sint_less [of w] by (simp add: digits_int_def)

section \<open>Headers at the head of a text\<close>

lemma opp_header_parses:
  assumes "0 \<le> sint (d_ownerID d)" and "0 \<le> d_page d"
  shows "opp_header_at (renderOppHeader d @ post) =
    Some (dec (nat (sint (d_ownerID d))), QueryEscape (d_ownerLabel d), dec (nat (d_page d)))"
proof -
  have nd: "\<not> is_digit CHR '' ''" "\<not> is_digit CHR '']''" by (simp_all add: is_digit_def byte_def)
  have t: "renderOppHeader d @ post = ''[MATCH_OP=opp owner='' @ (dec (nat (sint (d_ownerID d))) @ CHR '' '' # ''owner_label=''
      @ (QueryEscape (d_ownerLabel d) @ CHR '' '' # ''page='' @ (dec (nat (d_page d)) @ CHR '']'' # post)))"
    using assms by (simp add: renderOppHeader_def fmt_i64_nat Itoa_def)
  have l: "lit_at '' owner_label='' (CHR '' '' # ''owner_label='' @ s) = Some s"
    "lit_at '' page='' (CHR '' '' # ''page='' @ s) = Some s" for s
    using lit_at_append [of "'' owner_label=''" s] lit_at_append [of "'' page=''" s] by simp_all
  show ?thesis
    unfolding t opp_header_at_def lit_at_append option.case digits_at_dec [OF nd(1)] prod.case l word_at_escape fst_conv snd_conv
      digits_at_dec [OF nd(2)]
    by (simp add: HasPrefix_def)
qed

lemma score_header_parses:
  assumes "0 \<le> sint (d_ownerID d)" and "0 \<le> sint (d_oppID d)" and "draft_ok d"
  shows "score_header_at (renderScoreHeader d @ post) =
    Some (dec (nat (sint (d_ownerID d))), QueryEscape (d_ownerLabel d), dec (nat (sint (d_oppID d))),
      QueryEscape (d_oppLabel d), hd (scoreTok (d_p1 d)), hd (scoreTok (d_p2 d)))"
proof -
  have nd: "\<not> is_digit CHR '' ''" by (simp add: is_digit_def byte_def)
  have t: "renderScoreHeader d @ post = ''[MATCH_OP=score owner='' @ (dec (nat (sint (d_ownerID d))) @ CHR '' '' # ''owner_label=''
      @ (QueryEscape (d_ownerLabel d) @ CHR '' '' # ''opp='' @ (dec (nat (sint (d_oppID d))) @ CHR '' '' # ''opp_label=''
      @ (QueryEscape (d_oppLabel d) @ CHR '' '' # ''p1='' @ (scoreTok (d_p1 d) @ '' p2='' @ (scoreTok (d_p2 d) @ CHR '']'' # post))))))"
    using assms by (simp add: renderScoreHeader_def fmt_i64_nat)
  have l: "lit_at '' owner_label='' (CHR '' '' # ''owner_label='' @ s) = Some s"
    "lit_at '' opp='' (CHR '' '' # ''opp='' @ s) = Some s"
    "lit_at '' opp_label='' (CHR '' '' # ''opp_label='' @ s) = Some s"
    "lit_at '' p1='' (CHR '' '' # ''p1='' @ s) = Some s" for s
    using lit_at_append [of "'' owner_label=''" s] lit_at_append [of "'' opp=''" s] lit_at_append [of "'' opp_label=''" s]
      lit_at_append [of "'' p1=''" s] by simp_all
  have s: "score_at (scoreTok (d_p1 d) @ r) = Some (hd (scoreTok (d_p1 d)), r)"
    "score_at (scoreTok (d_p2 d) @ r) = Some (hd (scoreTok (d_p2 d)), r)" for r
    using assms(3) by (simp_all add: draft_ok_def score_at_tok)
  show ?thesis
    unfolding t score_header_at_def lit_at_append option.case digits_at_dec [OF nd] prod.case l word_at_escape fst_conv snd_conv s
    by (simp add: HasPrefix_def)
qed

section \<open>Headers inside a text\<close>

text \<open>Both expressions start with a bracket.\<close>

definition bracketed :: "(string \<Rightarrow> 'a option) \<Rightarrow> bool" where
  "bracketed f \<longleftrightarrow> f [] = None \<and> (\<forall>c s. c \<noteq> CHR ''['' \<longrightarrow> f (c # s) = None)"

lemma bracketed_headers: "bracketed opp_header_at" "bracketed score_header_at"
  by (simp_all add: bracketed_def opp_header_at_def score_header_at_def lit_at_def HasPrefix_def)

lemma bracketedD: "bracketed f \<Longrightarrow> c \<noteq> CHR ''['' \<Longrightarrow> f (c # s) = None"
  unfolding bracketed_def by blast

lemma search_skip:
  assumes "bracketed f" and "CHR ''['' \<notin> set pre"
  shows "search f (pre @ s) = search f s"
  using assms(2)
proof (induction pre)
  case (Cons c pre)
  then have "c \<noteq> CHR ''[''" by (metis list.set_intros(1))
  from bracketedD [OF assms(1) this, of "pre @ s"] show ?case using Cons by simp
qed simp

lemma search_nowhere: "bracketed f \<Longrightarrow> CHR ''['' \<notin> set s \<Longrightarrow> search f s = None"
  using search_skip [of f s "[]"] by (simp add: bracketed_def)

lemma search_here: "f s = Some x \<Longrightarrow> search f s = Some x"
  by (cases s) simp_all

lemma header_brackets:
  "\<exists>r. renderScoreHeader d = CHR ''['' # r \<and> CHR ''['' \<notin> set r"
proof -
  have i: "CHR ''['' \<notin> set (fmt_i64 w)" for w
    using fmt_i64_chars [of "CHR ''[''" w] by (auto simp: is_digit_def byte_def)
  have s: "CHR ''['' \<notin> set (scoreTok v)" for v
    using Itoa_chars [of "CHR ''[''" v] by (auto simp: scoreTok_def is_digit_def byte_def)
  have e: "CHR ''['' \<notin> set (QueryEscape l)" for l using non_space_escape [of _ l] by blast
  show ?thesis by (simp add: renderScoreHeader_def i s e)
qed

text \<open>The text of a message as the user's client shows it: some text, the state tag, some text.\<close>

definition draft_text :: "string \<Rightarrow> matchDraft \<Rightarrow> string \<Rightarrow> string" where
  "draft_text pre d post = pre @ (if d_isScore d then renderScoreHeader d else renderOppHeader d) @ post"

text \<open>What of a draft its header keeps: while no opponent is chosen, owner and page.\<close>

definition mirrored :: "matchDraft \<Rightarrow> matchDraft" where
  "mirrored d = (if d_isScore d then d\<lparr>d_page := 0, d_touchedAt := zero_time\<rparr>
     else zero_draft\<lparr>d_ownerID := d_ownerID d, d_ownerLabel := d_ownerLabel d, d_page := d_page d, d_p1 := -1, d_p2 := -1\<rparr>)"

definition mirrorable :: "matchDraft \<Rightarrow> bool" where
  "mirrorable d \<longleftrightarrow> 0 \<le> sint (d_ownerID d) \<and> 0 \<le> sint (d_oppID d) \<and> 0 \<le> d_page d \<and> d_page d < 2 ^ 63 \<and> draft_ok d"

lemma parse_draft_text:
  assumes "mirrorable d" and "CHR ''['' \<notin> set pre" and "CHR ''['' \<notin> set post"
  shows "parseDraftFromHeader (draft_text pre d post) = Some (mirrored d)"
proof -
  have d: "0 \<le> sint (d_ownerID d)" "0 \<le> sint (d_oppID d)" "0 \<le> d_page d" "d_page d < 2 ^ 63" "draft_ok d"
    using assms(1) by (simp_all add: mirrorable_def)
  have un: "unescape_or_empty (QueryEscape l) = l" for l by (simp add: unescape_or_empty_def)
  show ?thesis
  proof (cases "d_isScore d")
    case False
    have "matchOppHeaderRe (draft_text pre d post) =
        Some (dec (nat (sint (d_ownerID d))), QueryEscape (d_ownerLabel d), dec (nat (d_page d)))"
      using False opp_header_parses [OF d(1,3)]
      by (simp add: matchOppHeaderRe_def draft_text_def search_skip [OF bracketed_headers(1) assms(2)] search_here)
    moreover have "digits_int (dec (nat (d_page d))) = d_page d" using d(3,4) by (simp add: digits_int_def)
    ultimately show ?thesis
      using False d by (simp add: parseDraftFromHeader_def mirrored_def un digits_int_i64)
  next
    case True
    obtain r where r: "renderScoreHeader d = CHR ''['' # r" "CHR ''['' \<notin> set r" using header_brackets by blast
    have "opp_header_at (renderScoreHeader d @ post) = None"
      by (simp add: opp_header_at_def lit_at_def HasPrefix_def renderScoreHeader_def)
    then have "matchOppHeaderRe (draft_text pre d post) = None"
      using True r assms(3) search_nowhere [OF bracketed_headers(1), of "r @ post"]
      by (simp add: matchOppHeaderRe_def draft_text_def search_skip [OF bracketed_headers(1) assms(2)])
    moreover have "matchScoreHeaderRe (draft_text pre d post) =
       Some (dec (nat (sint (d_ownerID d))), QueryEscape (d_ownerLabel d), dec (nat (sint (d_oppID d))),
      QueryEscape (d_oppLabel d), hd (scoreTok (d_p1 d)), hd (scoreTok (d_p2 d)))"
      using True score_header_parses [OF d(1,2,5)]
      by (simp add: matchScoreHeaderRe_def draft_text_def search_skip [OF bracketed_headers(2) assms(2)] search_here)
    moreover have "parseScoreTok [hd (scoreTok (d_p1 d))] = d_p1 d" "parseScoreTok [hd (scoreTok (d_p2 d))] = d_p2 d"
      using d(5) by (simp_all add: draft_ok_def parse_scoreTok)
    ultimately show ?thesis
      using True d(1,2) by (simp add: parseDraftFromHeader_def mirrored_def un digits_int_i64 zero_draft_def)
  qed
qed

section \<open>Properties\<close>

text \<open>A draft survives a restart of the bot: the first tap after it restores from the text of the
  message the owner, his label and, on the score board, the opponent and the scores picked so
  far (on the opponent list: the page), for the labels and pages the pickers render, whatever
  surrounds the state tag, as long as no other bracket does.\<close>

theorem restart_restores_draft:
  assumes "mirrorable d" and "CHR ''['' \<notin> set pre" and "CHR ''['' \<notin> set post"
  shows "fst (loadOrRestoreDraft e chat i (draft_text pre d post) (restart w)) =
    Some (mirrored d\<lparr>d_touchedAt := e_now e\<rparr>)"
  using parse_draft_text [OF assms] by (simp add: loadOrRestoreDraft_def restart_def Let_def)

theorem restart_restores_draft_witness:
  "fst (loadOrRestoreDraft example_env 7 100 (draft_text ''u2 vs u 3: ''
      (zero_draft\<lparr>d_ownerID := 2, d_ownerLabel := ''u2'', d_isScore := True, d_oppID := 3, d_oppLabel := ''u 3'', d_p1 := 3, d_p2 := -1\<rparr>) [])
      (restart example_world)) =
   Some (zero_draft\<lparr>d_ownerID := 2, d_ownerLabel := ''u2'', d_isScore := True, d_oppID := 3, d_oppLabel := ''u 3'',
      d_p1 := 3, d_p2 := -1, d_touchedAt := 1000 * hour\<rparr>)"
proof -
  let ?d = "zero_draft\<lparr>d_ownerID := 2, d_ownerLabel := ''u2'', d_isScore := True, d_oppID := 3, d_oppLabel := ''u 3'', d_p1 := 3, d_p2 := -1\<rparr>"
  have "mirrorable ?d" by (simp add: mirrorable_def zero_draft_def draft_ok_def)
  from restart_restores_draft [OF this, of "''u2 vs u 3: ''" "[]" example_env 7 100 example_world]
  show ?thesis by (simp add: mirrored_def zero_draft_def)
qed

end
