(* ===== verification/Flow.thy ===== *)
theory Flow
  imports Consensus
begin

text \<open>
  The interactive flow as a machine of two boards, opponent list and score board, and the
  proof that \<open>dispatchTap\<close> with its string payloads implements it.
\<close>

section \<open>The machine\<close>

datatype board = Choosing int | Scoring i64 int int

datatype tap = TCancel | TNoop | TNav int | TOpp i64 | TBack | TLeft nat | TRight nat | TConfirm

text \<open>\<open>clamp\<close> is what the opponent list makes of a page number.\<close>

fun board_step :: "(int \<Rightarrow> int) \<Rightarrow> i64 \<Rightarrow> tap \<Rightarrow> board \<Rightarrow> board" where
  "board_step clamp owner (TNav p) b = Choosing (clamp p)"
| "board_step clamp owner (TOpp i) b = (if i = owner then b else Scoring i (-1) (-1))"
| "board_step clamp owner TBack (Scoring opp x y) = Choosing (clamp 1)"
| "board_step clamp owner (TLeft v) (Scoring opp x y) = (if v \<le> scoreMaxVal then Scoring opp (int v) y else Scoring opp x y)"
| "board_step clamp owner (TRight v) (Scoring opp x y) = (if v \<le> scoreMaxVal then Scoring opp x (int v) else Scoring opp x y)"
| "board_step clamp owner t b = b"

text \<open>A score board that Confirm accepts.\<close>

fun complete :: "i64 \<Rightarrow> board \<Rightarrow> bool" where
  "complete owner (Choosing p) \<longleftrightarrow> False"
| "complete owner (Scoring opp x y) \<longleftrightarrow> 0 \<le> x \<and> 0 \<le> y \<and> x \<noteq> y \<and> opp \<noteq> owner"

text \<open>The payloads as the buttons carry them, and the board of a draft.\<close>

fun tap_payload :: "tap \<Rightarrow> string" where
  "tap_payload TCancel = ''cancel''"
| "tap_payload TNoop = ''noop''"
| "tap_payload (TNav p) = ''nav:'' @ Itoa p"
| "tap_payload (TOpp i) = ''opp:'' @ fmt_i64 i"
| "tap_payload TBack = ''back''"
| "tap_payload (TLeft v) = ''s:'' @ ''1:'' @ dec v"
| "tap_payload (TRight v) = ''s:'' @ ''2:'' @ dec v"
| "tap_payload TConfirm = ''confirm''"

fun tap_ok :: "tap \<Rightarrow> bool" where
  "tap_ok (TNav p) \<longleftrightarrow> - (2 ^ 63) \<le> p \<and> p < 2 ^ 63"
| "tap_ok (TLeft v) \<longleftrightarrow> v < 2 ^ 63"
| "tap_ok (TRight v) \<longleftrightarrow> v < 2 ^ 63"
| "tap_ok t \<longleftrightarrow> True"

definition abs_draft :: "matchDraft \<Rightarrow> board" where
  "abs_draft d = (if d_isScore d then Scoring (d_oppID d) (d_p1 d) (d_p2 d) else Choosing (d_page d))"

definition shown_page :: "memstore \<Rightarrow> i64 \<Rightarrow> i64 \<Rightarrow> int \<Rightarrow> int" where
  "shown_page s chat owner p =
     (let cs = opponentCandidates s chat owner in if cs = [] then p else clampPage (totalPages cs) p)"

section \<open>The handlers on boards\<close>

lemma showOpponents_draft:
  "fst (snd (showOpponents e q m d w)) = d\<lparr>d_page := shown_page (st w) (ch_ID (msg_Chat m)) (d_ownerID d) (d_page d)\<rparr>"
  by (simp add: showOpponents_def renderOpponentPicker_def shown_page_def Let_def ack_def editAndAck_def case_prod_beta)

lemma ack_draft [simp]: "fst (snd (ack e q t d w)) = d"
  by (simp add: ack_def case_prod_beta)

lemma editAndAck_draft [simp]: "fst (snd (editAndAck e q m v t d w)) = d"
  by (simp add: editAndAck_def case_prod_beta Let_def)

lemma dispatch_payloads:
  fixes e w q m d0
  defines "d \<equiv> d0\<lparr>d_touchedAt := e_now e\<rparr>"
  shows "dispatchTap e q m d0 (tap_payload TCancel) w = tapCancel e q m d w"
    and "dispatchTap e q m d0 (tap_payload TNoop) w = ack e q [] d w"
    and "dispatchTap e q m d0 (tap_payload (TNav p)) w = tapNav e q m (Itoa p) d w"
    and "dispatchTap e q m d0 (tap_payload (TOpp i)) w = tapOpp e q m (fmt_i64 i) d w"
    and "dispatchTap e q m d0 (tap_payload TBack) w = tapBack e q m d w"
    and "dispatchTap e q m d0 (tap_payload (TLeft v)) w = tapScore e q m (''1:'' @ dec v) d w"
    and "dispatchTap e q m d0 (tap_payload (TRight v)) w = tapScore e q m (''2:'' @ dec v) d w"
    and "dispatchTap e q m d0 (tap_payload TConfirm) w = tapConfirm e q m d w"
  by (simp_all add: dispatchTap_def Let_def HasPrefix_def TrimPrefix_def d_def)

lemma tapScore_parses:
  assumes "v < 2 ^ 63"
  shows "SplitN2 CHR '':'' (''1:'' @ dec v) = Some (''1'', dec v)" "SplitN2 CHR '':'' (''2:'' @ dec v) = Some (''2'', dec v)"
    "Atoi ''1'' = Some 1" "Atoi ''2'' = Some 2" "Atoi (dec v) = Some (int v)"
proof -
  show "SplitN2 CHR '':'' (''1:'' @ dec v) = Some (''1'', dec v)" using SplitN2_append [of "CHR '':''" "''1''" "dec v"] by simp
  show "SplitN2 CHR '':'' (''2:'' @ dec v) = Some (''2'', dec v)" using SplitN2_append [of "CHR '':''" "''2''" "dec v"] by simp
  show "Atoi ''1'' = Some 1" "Atoi ''2'' = Some 2"
    by (simp_all add: Atoi_def ParseInt_def Let_def is_digit_def byte_def dec_val_def)
  show "Atoi (dec v) = Some (int v)" using ParseInt_dec [of v 64] assms by (simp add: Atoi_def)
qed

lemma tap_refines:
  assumes "tap_ok t"
  shows "abs_draft (fst (snd (dispatchTap e q m d (tap_payload t) w))) =
      board_step (shown_page (st w) (ch_ID (msg_Chat m)) (d_ownerID d)) (d_ownerID d) t (abs_draft d)"
    and "d_ownerID (fst (snd (dispatchTap e q m d (tap_payload t) w))) = d_ownerID d"
proof -
  let ?b = "\<lambda>r. abs_draft (fst (snd r)) =
      board_step (shown_page (st w) (ch_ID (msg_Chat m)) (d_ownerID d)) (d_ownerID d) t (abs_draft d) \<and>
    d_ownerID (fst (snd r)) = d_ownerID d"
  have "?b (dispatchTap e q m d (tap_payload t) w)"
  proof (cases t)
    case TCancel
    then show ?thesis unfolding TCancel dispatch_payloads
      by (simp add: tapCancel_def case_prod_beta Let_def abs_draft_def split: option.split)
  next
    case TNoop
    then show ?thesis unfolding TNoop dispatch_payloads by (simp add: abs_draft_def)
  next
    case (TNav p)
    have "Atoi (Itoa p) = Some p" using assms TNav ParseInt_Itoa [of 64 p] by (simp add: Atoi_def)
    then show ?thesis unfolding TNav dispatch_payloads
      by (simp add: tapNav_def showOpponents_draft abs_draft_def)
  next
    case (TOpp i)
    obtain x where x: "ParseInt 64 (fmt_i64 i) = Some x" "word_of_int x = i" using ParseInt_fmt_i64 [of i] by auto
    then show ?thesis unfolding TOpp dispatch_payloads
      by (simp add: tapOpp_def case_prod_beta Let_def abs_draft_def)
  next
    case TBack
    then show ?thesis unfolding TBack dispatch_payloads
      by (simp add: tapBack_def showOpponents_draft abs_draft_def)
  next
    case (TLeft v)
    have v: "v < 2 ^ 63" using assms TLeft by simp
    show ?thesis unfolding TLeft dispatch_payloads
      by (simp add: tapScore_def tapScore_parses [OF v, simplified] case_prod_beta Let_def abs_draft_def)
  next
    case (TRight v)
    have v: "v < 2 ^ 63" using assms TRight by simp
    show ?thesis unfolding TRight dispatch_payloads
      by (simp add: tapScore_def tapScore_parses [OF v, simplified] case_prod_beta Let_def abs_draft_def)
  next
    case TConfirm
    then show ?thesis unfolding TConfirm dispatch_payloads by (simp add: abs_draft_def)
  qed
  then show "abs_draft (fst (snd (dispatchTap e q m d (tap_payload t) w))) =
      board_step (shown_page (st w) (ch_ID (msg_Chat m)) (d_ownerID d)) (d_ownerID d) t (abs_draft d)"
    "d_ownerID (fst (snd (dispatchTap e q m d (tap_payload t) w))) = d_ownerID d" by blast+
qed

section \<open>Registration\<close>

text \<open>The store after a new match of the owner against \<open>opp\<close> was inserted.\<close>

definition inserted :: "env \<Rightarrow> i64 \<Rightarrow> i64 \<Rightarrow> i64 \<Rightarrow> int \<Rightarrow> int \<Rightarrow> world \<Rightarrow> memstore" where
  "inserted e g owner opp x y w =
     snd (AllocateAndInsertMatch g
       (new_match g owner opp (word_of_int x) (word_of_int y) owner (admin_now e g owner w) (e_now e)) (st w))"

lemma registerInteractive_effect:
  assumes "owner \<noteq> opp"
  shows "\<exists>text rows. fst (registerInteractiveMatch e g owner opp (word_of_int x) (word_of_int y) w) = Inr (text, rows)"
    and "matches (st (snd (registerInteractiveMatch e g owner opp (word_of_int x) (word_of_int y) w))) =
      matches (inserted e (g_GroupID g) owner opp x y w)"
  using assms unfolding registerInteractiveMatch_def Let_def case_prod_beta isChatAdmin_now inserted_def
  by (simp_all add: detachedRefreshStatsTopic_def confirmRepo_Insert_def)

lemma tapConfirm_effect:
  assumes "draft_ok d"
  shows "matches (st (snd (snd (tapConfirm e q m d w)))) =
    (case groupRepo_Get (st w) (ch_ID (msg_Chat m)) of
       Inl _ \<Rightarrow> matches (st w)
     | Inr g \<Rightarrow> if complete (d_ownerID d) (abs_draft d)
         then matches (inserted e (g_GroupID g) (d_ownerID d) (d_oppID d) (d_p1 d) (d_p2 d) w) else matches (st w))"
proof (cases "d_isScore d \<and> 0 \<le> d_p1 d \<and> 0 \<le> d_p2 d \<and> d_p1 d \<noteq> d_p2 d")
  case False
  then show ?thesis by (auto simp: tapConfirm_def abs_draft_def ack_world Let_def split: sum.split)
next
  case board: True
  show ?thesis
  proof (cases "groupRepo_Get (st w) (ch_ID (msg_Chat m))")
    case (Inl x)
    then show ?thesis using board by (simp add: tapConfirm_def)
  next
    case (Inr g)
    show ?thesis
    proof (cases "d_ownerID d = d_oppID d")
      case True
      then show ?thesis using board Inr by (simp add: tapConfirm_def registerInteractiveMatch_def abs_draft_def)
    next
      case False
      note reg = registerInteractive_effect [OF False, of e g "d_p1 d" "d_p2 d" w]
      obtain summary rows where r: "fst (registerInteractiveMatch e g (d_ownerID d) (d_oppID d) (word_of_int (d_p1 d)) (word_of_int (d_p2 d)) w) = Inr (summary, rows)"
        using reg(1) by blast
      have "complete (d_ownerID d) (abs_draft d)" using board False by (simp add: abs_draft_def)
      then show ?thesis
        using board False reg(2) unfolding tapConfirm_def Let_def case_prod_beta Inr sum.case r
        by (simp add: ack_world dropDraft_def)
    qed
  qed
qed

lemma other_taps_register_nothing:
  assumes "t \<noteq> TConfirm" and "draft_ok d"
  shows "matches (st (snd (snd (dispatchTap e q m d (tap_payload t) w)))) = matches (st w)"
proof -
  have ok: "draft_ok (d\<lparr>d_touchedAt := e_now e\<rparr>)" using assms(2) by simp
  have "calm_tap w (dispatchTap e q m d (tap_payload t) w)"
    using assms(1) by (cases t) (simp_all only: dispatch_payloads calm_taps [OF calm_refl ok] calm_ack [OF calm_refl ok] simp_thms)
  then show ?thesis by (simp add: calm_tap_def calm_def)
qed

section \<open>Properties\<close>

text \<open>C11. The interactive flow refines a machine of two boards: whatever the messenger and the
  look-ups answer, a tap moves the draft's board as the machine says (clamping pages,
  ignoring self-play, foreign stages and scores above 7), keeps its owner, and inserts a match
  exactly on Confirm over a complete score board of a known group: the owner against the
  chosen opponent with the chosen scores.\<close>

theorem dispatchTap_refines:
  assumes "tap_ok t" and "draft_ok d"
  shows "let (r, d', w') = dispatchTap e q m d (tap_payload t) w; chat = ch_ID (msg_Chat m); owner = d_ownerID d in
    abs_draft d' = board_step (shown_page (st w) chat owner) owner t (abs_draft d) \<and> d_ownerID d' = owner \<and>
    matches (st w') = (case groupRepo_Get (st w) chat of
       Inl _ \<Rightarrow> matches (st w)
     | Inr g \<Rightarrow> if t = TConfirm \<and> complete owner (abs_draft d)
         then matches (inserted e (g_GroupID g) owner (d_oppID d) (d_p1 d) (d_p2 d) w) else matches (st w))"
proof -
  have ok: "draft_ok (d\<lparr>d_touchedAt := e_now e\<rparr>)" using assms(2) by simp
  have "matches (st (snd (snd (dispatchTap e q m d (tap_payload t) w)))) = (case groupRepo_Get (st w) (ch_ID (msg_Chat m)) of
       Inl _ \<Rightarrow> matches (st w)
     | Inr g \<Rightarrow> if t = TConfirm \<and> complete (d_ownerID d) (abs_draft d)
         then matches (inserted e (g_GroupID g) (d_ownerID d) (d_oppID d) (d_p1 d) (d_p2 d) w) else matches (st w))"
  proof (cases "t = TConfirm")
    case True
    have "abs_draft (d\<lparr>d_touchedAt := e_now e\<rparr>) = abs_draft d" by (simp add: abs_draft_def)
    then show ?thesis using tapConfirm_effect [OF ok, of e q m w] unfolding True dispatch_payloads
      by (cases "groupRepo_Get (st w) (ch_ID (msg_Chat m))") simp_all
  next
    case False
    then show ?thesis using other_taps_register_nothing [OF _ assms(2)] by (simp split: sum.split)
  qed
  then show ?thesis using tap_refines [OF assms(1), of e q m d w] by (simp add: case_prod_beta Let_def)
qed

definition example_board :: matchDraft where
  "example_board = zero_draft\<lparr>d_ownerID := 2, d_isScore := True, d_oppID := 3, d_p1 := 3, d_p2 := 1\<rparr>"

theorem dispatchTap_refines_witness:
  "matches (st (snd (snd (dispatchTap example_env (query 2 100 [] ''m:i:confirm'') (prompt 100 []) example_board ''confirm'' example_world)))) =
     matches (inserted example_env 7 2 3 3 1 example_world) \<and>
   abs_draft (fst (snd (dispatchTap example_env (query 2 100 [] ''m:i:s:2:5'') (prompt 100 []) example_board (tap_payload (TRight 5)) example_world))) =
     Scoring 3 3 5"
proof -
  have d: "draft_ok example_board" "abs_draft example_board = Scoring 3 3 1" "d_ownerID example_board = 2"
      "d_oppID example_board = 3" "d_p1 example_board = 3" "d_p2 example_board = 1"
    by (simp_all add: example_board_def draft_ok_def abs_draft_def zero_draft_def)
  have g: "groupRepo_Get (st example_world) 7 = Inr example_group" "g_GroupID example_group = 7" "ch_ID (msg_Chat (prompt 100 [])) = 7"
    by (simp_all add: groupRepo_Get_def example_world_def handlers_New_def example_members_rows get_or_def example_group_def
        prompt_def example_chat_def)
  show ?thesis
    using dispatchTap_refines [OF _ d(1), of TConfirm example_env "query 2 100 [] ''m:i:confirm''" "prompt 100 []" example_world]
      dispatchTap_refines [OF _ d(1), of "TRight 5" example_env "query 2 100 [] ''m:i:s:2:5''" "prompt 100 []" example_world]
    unfolding Let_def case_prod_beta g d by (simp add: g scoreMaxVal_def)
qed

end
