(* ===== verification/Pages.thy ===== *)
theory Pages
  imports Flow
begin

text \<open>
  What the opponent list shows: every other member of the group once, most-played first, cut
  into pages; and what the collection of stale drafts keeps.
\<close>

section \<open>Pages and rows\<close>

lemma concat_grid [simp]: "concat (grid xs) = xs"
proof (induction xs rule: grid.induct)
  case (1 xs)
  then show ?case by (subst grid.simps) simp
qed

lemma grid_rows: "row \<in> set (grid xs) \<Longrightarrow> 1 \<le> length row \<and> length row \<le> oppGridCols"
proof (induction xs rule: grid.induct)
  case (1 xs)
  show ?case
  proof (cases "xs = []")
    case True
    then show ?thesis using 1(2) by (simp add: grid.simps)
  next
    case False
    then have "row = take oppGridCols xs \<or> row \<in> set (grid (drop oppGridCols xs))"
      using 1(2) by (subst (asm) grid.simps) simp
    then show ?thesis using 1(1) False by (auto simp: oppGridCols_def Suc_le_eq)
  qed
qed

lemma concat_slices: "concat (map (\<lambda>k. take n (drop (k * n) xs)) [0..<m]) = take (m * n) xs"
proof (induction m)
  case (Suc m)
  have "take (m * n) xs @ take n (drop (m * n) xs) = take (Suc m * n) xs"
    by (simp add: take_add [symmetric] add.commute)
  then show ?case using Suc by simp
qed simp

text \<open>The number of pages, and the pages one after the other.\<close>

definition all_pages :: "'a list \<Rightarrow> 'a list list" where
  "all_pages xs = map (\<lambda>k. page_of (int k + 1) xs) [0..<(length xs + oppPerPage - 1) div oppPerPage]"

lemma concat_all_pages: "concat (all_pages xs) = xs"
proof -
  let ?n = "(length xs + oppPerPage - 1) div oppPerPage"
  have "length xs \<le> ?n * oppPerPage" by (simp add: oppPerPage_def)
  then show ?thesis
    using concat_slices [of oppPerPage xs ?n] by (simp add: all_pages_def page_of_def)
qed

lemma all_pages_sizes: "p \<in> set (all_pages xs) \<Longrightarrow> 1 \<le> length p \<and> length p \<le> oppPerPage"
  by (auto simp: all_pages_def page_of_def oppPerPage_def)

section \<open>The candidates\<close>

interpretation candidates: sort_less candidate_less
proof -
  have "candidate_less = lex_less (\<lambda>a b. oc_matchCount b < oc_matchCount a) (\<lambda>a b. sint (oc_telegramID a) < sint (oc_telegramID b))"
    by (intro ext) (auto simp: candidate_less_def lex_less_def)
  then show "sort_less candidate_less"
    using sort_less_lexI [OF sort_less_key_down sort_less_key_up] by metis
qed

lemma listed_participants:
  assumes "wf_store s"
  shows "set (map p_TelegramID (participantRepo_ListByGroup s g)) = {u. mget (participants s) (g, u) \<noteq> None}"
    and "distinct (map p_TelegramID (participantRepo_ListByGroup s g))"
proof -
  have wf: "wf_map (participants s)" and k: "keyed part_key (participants s)" using assms by (simp_all add: wf_store_def)
  have "p \<in> set (participantRepo_ListByGroup s g) \<longleftrightarrow> (\<exists>u. mget (participants s) (g, u) = Some p)" for p
    using mvals_if_iff [OF wf] by (auto simp: participantRepo_ListByGroup_def)
  moreover have tid: "mget (participants s) (g, u) = Some p \<Longrightarrow> p_TelegramID p = u" for p u
    using keyedD [OF k] by (fastforce simp: part_key_def)
  ultimately show "set (map p_TelegramID (participantRepo_ListByGroup s g)) = {u. mget (participants s) (g, u) \<noteq> None}"
    by (auto simp: image_iff)
  let ?rows = "filter (\<lambda>(k, v). fst k = g) (participants s)"
  have in_rows: "fst k = g" "p_TelegramID p = snd k" if "(k, p) \<in> set ?rows" for k p
  proof -
    show "fst k = g" using that by simp
    moreover have "mget (participants s) k = Some p" using that wf_map_get_iff [OF wf] by simp
    ultimately show "p_TelegramID p = snd k" using tid by (metis prod.collapse)
  qed
  have "map (p_TelegramID \<circ> snd) ?rows = map (snd \<circ> fst) ?rows"
    using in_rows(2) by (intro map_cong refl) (simp only: comp_apply prod.collapse)
  moreover have "distinct (map (snd \<circ> fst) ?rows)"
  proof -
    have d: "distinct (map fst ?rows)" using wf_map_filter [OF wf] by (simp add: wf_map_def)
    have "inj_on snd (set (map fst ?rows))"
    proof (rule inj_onI)
      fix x y assume "x \<in> set (map fst ?rows)" "y \<in> set (map fst ?rows)" "snd x = snd y"
      moreover have "fst z = g" if z: "z \<in> set (map fst ?rows)" for z
      proof -
        obtain r where "r \<in> set ?rows" "z = fst r" using z unfolding set_map by (rule imageE)
        then have "(z, snd r) \<in> set ?rows" by (simp only: prod.collapse)
        then show ?thesis by (rule in_rows(1))
      qed
      ultimately show "x = y" by (metis prod.expand)
    qed
    then have "distinct (map snd (map fst ?rows))" using d by (simp only: distinct_map [of snd "map fst ?rows"] simp_thms)
    then show ?thesis by simp
  qed
  ultimately have "distinct (map (p_TelegramID \<circ> snd) ?rows)" by (simp only:)
  then show "distinct (map p_TelegramID (participantRepo_ListByGroup s g))"
    by (simp only: participantRepo_ListByGroup_def mvals_if_def map_map)
qed

lemma candidates_of:
  assumes "wf_store s"
  shows "oc_telegramID ` set (opponentCandidates s g caller) = {u. mget (participants s) (g, u) \<noteq> None \<and> u \<noteq> caller}"
    and "distinct (map oc_telegramID (opponentCandidates s g caller))"
proof -
  let ?ps = "filter (\<lambda>p. p_TelegramID p \<noteq> caller) (participantRepo_ListByGroup s g)"
  have m: "mset (map oc_telegramID (opponentCandidates s g caller)) = mset (map p_TelegramID ?ps)"
    by (simp add: opponentCandidates_def candidate_def image_mset.compositionality comp_def)
  then have "set (map oc_telegramID (opponentCandidates s g caller)) = set (map p_TelegramID ?ps)"
    by (metis set_mset_mset)
  then show "oc_telegramID ` set (opponentCandidates s g caller) = {u. mget (participants s) (g, u) \<noteq> None \<and> u \<noteq> caller}"
    using listed_participants(1) [OF assms, of g] by auto
  have "distinct (map p_TelegramID ?ps)"
    using listed_participants(2) [OF assms, of g] by (rule distinct_map_filter)
  then show "distinct (map oc_telegramID (opponentCandidates s g caller))"
    using m by (metis mset_eq_imp_distinct_iff)
qed

section \<open>Garbage collection of drafts\<close>

lemma filter_keys_apart:
  assumes "set xs = A \<union> B" and "fst ` A \<inter> fst ` B = {}"
  shows "set (filter (\<lambda>(k, d). k \<notin> fst ` A) xs) = B"
proof -
  have "set (filter (\<lambda>(k, d). k \<notin> fst ` A) xs) = {x \<in> A \<union> B. fst x \<notin> fst ` A}"
    unfolding set_filter assms(1) by (simp only: case_prod_beta)
  then show ?thesis using assms(2) by blast
qed

lemma gcDrafts_cases:
  fixes now ds
  assumes "wf_map ds"
  defines "live \<equiv> filter (\<lambda>(k, d). \<not> stale now d) ds"
  defines "n \<equiv> length live - matchDraftMaxEntries"
  shows "set (gcDrafts now ds) = set (drop n (oldest_first live))" and "set live = set (oldest_first live)"
    and "distinct (map fst (oldest_first live))"
proof -
  have o: "mset (oldest_first live) = mset live" by (simp add: oldest_first_def)
  show set_o: "set live = set (oldest_first live)" using o by (metis set_mset_mset)
  have "distinct (map fst live)" using wf_map_filter [OF assms(1)] by (simp add: wf_map_def live_def)
  then show od: "distinct (map fst (oldest_first live))" using o by (metis mset_map mset_eq_imp_distinct_iff)
  show "set (gcDrafts now ds) = set (drop n (oldest_first live))"
  proof (cases "length live \<le> matchDraftMaxEntries")
    case True
    then show ?thesis using set_o by (simp add: gcDrafts_def live_def n_def Let_def)
  next
    case False
    let ?t = "take n (oldest_first live)" and ?d = "drop n (oldest_first live)"
    have s: "set live = set ?t \<union> set ?d" using set_o by (metis append_take_drop_id set_append)
    have "distinct (map fst ?t @ map fst ?d)" using od by (metis append_take_drop_id map_append)
    then have disj: "fst ` set ?t \<inter> fst ` set ?d = {}" by simp
    have "gcDrafts now ds = filter (\<lambda>(k, d). k \<notin> fst ` set ?t) live"
      using False by (simp add: gcDrafts_def live_def n_def Let_def)
    then show ?thesis using filter_keys_apart [OF s disj] by simp
  qed
qed

lemma gcDrafts_kept:
  assumes "wf_map ds" and "(k, d) \<in> set (gcDrafts now ds)"
  shows "(k, d) \<in> set ds" and "\<not> stale now d"
  using assms(2) gcDrafts_cases(1,2) [OF assms(1), of now] by (auto dest!: in_set_dropD)

lemma gcDrafts_dropped:
  assumes "wf_map ds" and "(k, d) \<in> set ds" and "\<not> stale now d" and "(k, d) \<notin> set (gcDrafts now ds)"
    and "(k', d') \<in> set (gcDrafts now ds)"
  shows "d_touchedAt d \<le> d_touchedAt d'"
proof -
  define live where "live = filter (\<lambda>(k, d). \<not> stale now d) ds"
  define n where "n = length live - matchDraftMaxEntries"
  note c = gcDrafts_cases [OF assms(1), of now, folded live_def, folded n_def]
  have "(k, d) \<in> set live" using assms(2,3) by (simp add: live_def)
  then have "(k, d) \<in> set (oldest_first live)" using c(2) by simp
  then have t: "(k, d) \<in> set (take n (oldest_first live))"
    using assms(4) c(1) by (metis Un_iff append_take_drop_id set_append)
  have dr: "(k', d') \<in> set (drop n (oldest_first live))" using assms(5) c(1) by simp
  have "sorted_wrt (\<lambda>a b. \<not> d_touchedAt (snd b) < d_touchedAt (snd a)) (oldest_first live)"
    unfolding oldest_first_def by (rule by_touched.sorted_sort_by)
  then have "sorted_wrt (\<lambda>a b. \<not> d_touchedAt (snd b) < d_touchedAt (snd a))
      (take n (oldest_first live) @ drop n (oldest_first live))" by simp
  then show ?thesis using t dr unfolding sorted_wrt_append by fastforce
qed

section \<open>Properties\<close>



text \<open>C19. The garbage collection of drafts leaves at most 5000 drafts, none of them stale and all of them
  unchanged; a fresh draft it drops is no younger than any that stays, so that the order in which the
  Go map is iterated can only decide between drafts of the same age.\<close>

theorem gcDrafts_exact:
  assumes "wf_map ds"
  shows "length (gcDrafts now ds) \<le> matchDraftMaxEntries
    \<and> (\<forall>(k, d) \<in> set (gcDrafts now ds). (k, d) \<in> set ds \<and> \<not> stale now d)
    \<and> (\<forall>(k, d) \<in> set ds. (k, d) \<notin> set (gcDrafts now ds) \<longrightarrow>
        stale now d \<or> (\<forall>(k', d') \<in> set (gcDrafts now ds). d_touchedAt d \<le> d_touchedAt d'))
    \<and> (length ds \<le> matchDraftMaxEntries \<longrightarrow> gcDrafts now ds = filter (\<lambda>(k, d). \<not> stale now d) ds)"
proof -
  have "gcDrafts now ds = filter (\<lambda>(k, d). \<not> stale now d) ds" if "length ds \<le> matchDraftMaxEntries"
    using that le_trans [OF length_filter_le that] by (simp add: gcDrafts_def Let_def)
  then show ?thesis
    using length_gcDrafts [OF assms, of now] gcDrafts_kept [OF assms] gcDrafts_dropped [OF assms] by blast
qed

theorem gcDrafts_exact_witness:
  "gcDrafts (1000 * hour) [(''a'', zero_draft\<lparr>d_touchedAt := 999 * hour\<rparr>), (''b'', zero_draft\<lparr>d_touchedAt := 1000 * hour\<rparr>)] =
     [(''b'', zero_draft\<lparr>d_touchedAt := 1000 * hour\<rparr>)]"
proof -
  let ?ds = "[(''a'', zero_draft\<lparr>d_touchedAt := 999 * hour\<rparr>), (''b'', zero_draft\<lparr>d_touchedAt := 1000 * hour\<rparr>)]"
  have wf: "wf_map ?ds" by (simp add: wf_map_def)
  have "stale (1000 * hour) (zero_draft\<lparr>d_touchedAt := 999 * hour\<rparr>)" "\<not> stale (1000 * hour) (zero_draft\<lparr>d_touchedAt := 1000 * hour\<rparr>)"
    by (simp_all add: stale_def IsZero_def zero_time_def hour_def minute_def matchDraftStaleAfter_def time_Sub_def zero_draft_def)
  then show ?thesis using gcDrafts_exact [OF wf, of "1000 * hour"] by (simp add: matchDraftMaxEntries_def)
qed

end
