(* ===== verification/Standings.thy ===== *)
theory Standings
  imports Pages
begin

text \<open>
  From the store to the stats topic: which matches the ratings are computed from, that the
  engines accept them in every reachable state, and that a refresh fails only when the
  messenger refuses a message.
\<close>

section \<open>The rated matches\<close>

lemma fmt_i64_inject [simp]: "fmt_i64 a = fmt_i64 b \<longleftrightarrow> a = b"
  by (metis ParseInt_fmt_i64 option.inject)

lemma fmt_i64_nonempty [simp]: "fmt_i64 a \<noteq> []"
  by (simp add: fmt_i64_def Itoa_def)

lemma rating_input_valid: "match_ok m \<Longrightarrow> valid_match (rating_input m)"
  by (simp add: match_ok_def valid_match_def rating_input_def)

lemma listed_matches:
  assumes "wf_store s"
  shows "m \<in> set (matchRepo_ListByGroup s g) \<longleftrightarrow> (\<exists>i. mget (matches s) (g, i) = Some m)"
  using mvals_if_iff [of "matches s" m "\<lambda>k. fst k = g"] assms
  by (auto simp: matchRepo_ListByGroup_def wf_store_def)

lemma ratingMatches_valid:
  assumes "world_ok w"
  shows "\<forall>m \<in> set (fst (ratingMatches e g w)). valid_match m"
proof -
  have "match_ok m" if "m \<in> set (matchRepo_ListByGroup (st w) (g_GroupID g))" for m
    using that assms listed_matches [OF world_ok_wf [OF assms]] unfolding world_ok_def by blast
  then show ?thesis by (auto simp: ratingMatches_def case_prod_beta Let_def intro: rating_input_valid)
qed

lemma nicknames_for_quiet: "quiet w (snd (nicknames_for e ps seen w))"
proof (induction e ps seen w rule: nicknames_for.induct)
  case (2 e p ps seen w)
  show ?case
  proof (cases "mget seen p")
    case None
    obtain has w1 where h: "hasNickname e p w = (has, w1)" by fastforce
    have "quiet w w1" using hasNickname_quiet [of w e p] h by simp
    then show ?thesis using 2(2) [OF _ h [symmetric] refl] None h by (auto intro: quiet_trans)
  next
    case (Some b)
    then show ?thesis using 2(1) by simp
  qed
qed simp

lemma computeRatingsFor_quiet: "quiet w (snd (computeRatingsFor e g eng w))"
  using nicknames_for_quiet
  by (simp add: computeRatingsFor_def ratingMatches_def case_prod_beta Let_def)

lemma quiet_world_ok: "quiet w w' \<Longrightarrow> world_ok w \<Longrightarrow> world_ok w'"
  by (simp add: quiet_def world_ok_def drafts_ok_def)

lemma ranking_lines_quiet: "quiet w (snd (ranking_lines e gid pr i ids w))"
proof (induction ids arbitrary: i w)
  case (Cons p ids)
  show ?case
    unfolding ranking_lines.simps case_prod_beta Let_def snd_conv
    by (rule quiet_trans [OF playerLabel_quiet Cons.IH])
qed simp

section \<open>Engines\<close>

definition engine_ok :: "libm \<Rightarrow> engine \<Rightarrow> bool" where
  "engine_ok L eng \<longleftrightarrow> (case eng of ELO \<Rightarrow> True
     | Glicko2 d \<Rightarrow> 1 \<le> d \<and> d \<le> 106751 \<and> (\<forall>mu phi sigma opps. glicko2Update L mu phi sigma opps \<noteq> None))"

lemma engine_accepts:
  assumes "\<forall>m \<in> set ms. valid_match m" and "engine_ok L eng"
  shows "\<exists>pr. engine_Compute L eng ms = Some (Inr pr)"
proof -
  obtain s where s: "validateAndSort ms = Inr s" using validateAndSort_facts assms(1) by blast
  show ?thesis
  proof (cases eng)
    case ELO
    then show ?thesis by (simp add: ELO_Compute_def s)
  next
    case (Glicko2 d)
    then show ?thesis using Glicko2_Compute_facts [of L d ms] assms(2) s by (auto simp: engine_ok_def)
  qed
qed

lemma computeRatingsFor_accepts:
  assumes "world_ok w" and "engine_ok (e_libm e) eng"
  shows "\<exists>pr. fst (computeRatingsFor e g eng w) = Some (Inr pr)"
  using engine_accepts [OF ratingMatches_valid [OF assms(1)] assms(2)]
  by (simp add: computeRatingsFor_def case_prod_beta)

lemma renderRankings_accepts:
  assumes "world_ok w" and "engine_ok (e_libm e) eng"
  shows "\<exists>t. fst (renderRankings e g eng label w) = Inr t" and "world_ok (snd (renderRankings e g eng label w))"
proof -
  obtain pr w1 where c: "computeRatingsFor e g eng w = (Some (Inr pr), w1)"
    using computeRatingsFor_accepts [OF assms, of g] by (metis prod.collapse)
  have q1: "quiet w w1" using computeRatingsFor_quiet [of w e g eng] c by simp
  then have "world_ok w1" by (rule quiet_world_ok [OF _ assms(1)])
  moreover have "world_ok (snd (ranking_lines e (g_GroupID g) pr 0 (take MaxRankings (Sorted pr)) w1))"
    by (rule quiet_world_ok [OF ranking_lines_quiet]) fact
  ultimately show "\<exists>t. fst (renderRankings e g eng label w) = Inr t" "world_ok (snd (renderRankings e g eng label w))"
    by (simp_all add: renderRankings_def c case_prod_beta Let_def)
qed

lemma renderCombinedStats_accepts:
  assumes "world_ok w" and "engine_ok (e_libm e) a" and "engine_ok (e_libm e) b"
  shows "\<exists>t. fst (renderCombinedStats e g a b w) = Inr t"
proof -
  obtain pr w1 where c: "computeRatingsFor e g a w = (Some (Inr pr), w1)"
    using computeRatingsFor_accepts [OF assms(1,2), of g] by (metis prod.collapse)
  have "quiet w w1" using computeRatingsFor_quiet [of w e g a] c by simp
  then have "world_ok w1" by (rule quiet_world_ok [OF _ assms(1)])
  then obtain pr2 w2 where c2: "computeRatingsFor e g b w1 = (Some (Inr pr2), w2)"
    using computeRatingsFor_accepts [OF _ assms(3), of w1 g] by (metis prod.collapse)
  show ?thesis by (simp add: renderCombinedStats_def c c2 case_prod_beta Let_def)
qed

section \<open>Upkeep of the three messages\<close>

lemma upkeep_result: "fst (upkeep e g t1 t2 t3 w) = HNil \<or> (\<exists>err. fst (upkeep e g t1 t2 t3 w) = HErr (EMess err))"
  by (simp add: upkeep_def case_prod_beta Let_def split: sum.split)

lemma upsertMessage_st [simp]: "st (snd (upsertMessage e gid topic i t pin w)) = st w"
  by (simp add: upsertMessage_def case_prod_beta Let_def split: sum.split)

lemma dropOrphans_st [simp]: "st (snd (dropOrphans e g w)) = st w"
  by (simp add: dropOrphans_def dropOrphan_def)

text \<open>The row \<open>upkeep\<close> writes: the snapshot it was given, with other message ids.\<close>

definition with_ids :: "Group \<Rightarrow> i64 \<Rightarrow> i64 \<Rightarrow> i64 \<Rightarrow> Group" where
  "with_ids g i1 i2 i3 = g\<lparr>g_RankingsMessageID := 0, g_StatsELOMessageID := 0, g_StatsGlickoMessageID := 0,
     g_RankingsELOMessageID := i1, g_RankingsGlickoMessageID := i2, g_StatsMessageID := i3\<rparr>"

lemma upkeep_groups:
  "groups (st (snd (upkeep e g t1 t2 t3 w))) = groups (st w) \<or>
   fst (upkeep e g t1 t2 t3 w) = HNil \<and>
   (\<exists>i1 i2 i3. groups (st (snd (upkeep e g t1 t2 t3 w))) = mput (g_GroupID g) (with_ids g i1 i2 i3) (groups (st w)))"
proof -
  define g0 where "g0 = fst (dropOrphans e g w)"
  define w0 where "w0 = snd (dropOrphans e g w)"
  have d: "dropOrphans e g w = (g0, w0)" by (simp add: g0_def w0_def)
  obtain r1 w1 where u1: "upsertMessage e (g_GroupID g0) (g_StatsTopicID g0) (g_RankingsELOMessageID g0) t1 False w0 = (r1, w1)"
    by fastforce
  obtain r2 w2 where u2: "upsertMessage e (g_GroupID g0) (g_StatsTopicID g0) (g_RankingsGlickoMessageID g0) t2 False w1 = (r2, w2)"
    by fastforce
  obtain r3 w3 where u3: "upsertMessage e (g_GroupID g0) (g_StatsTopicID g0) (g_StatsMessageID g0) t3 True w2 = (r3, w3)"
    by fastforce
  have st: "st w0 = st w" "st w1 = st w" "st w2 = st w" "st w3 = st w"
    using dropOrphans_st [of e g w] upsertMessage_st [of e _ _ _ t1 False w0] upsertMessage_st [of e _ _ _ t2 False w1]
      upsertMessage_st [of e _ _ _ t3 True w2] u1 u2 u3 by (metis d snd_conv)+
  have row: "g_GroupID g0 = g_GroupID g" "g0 = g\<lparr>g_RankingsMessageID := 0, g_StatsELOMessageID := 0, g_StatsGlickoMessageID := 0\<rparr>"
    by (simp_all add: g0_def dropOrphans_def)
  have put: "\<exists>i1 i2 i3. mput (g_GroupID g) (if c3 then (if c2 then (if c1 then g0\<lparr>g_RankingsELOMessageID := a\<rparr> else g0)
        \<lparr>g_RankingsGlickoMessageID := b\<rparr> else (if c1 then g0\<lparr>g_RankingsELOMessageID := a\<rparr> else g0))\<lparr>g_StatsMessageID := c\<rparr>
      else (if c2 then (if c1 then g0\<lparr>g_RankingsELOMessageID := a\<rparr> else g0)
        \<lparr>g_RankingsGlickoMessageID := b\<rparr> else (if c1 then g0\<lparr>g_RankingsELOMessageID := a\<rparr> else g0))) gs =
      mput (g_GroupID g) (with_ids g i1 i2 i3) gs" for c1 c2 c3 a b c gs
    by (rule exI [of _ "if c1 then a else g_RankingsELOMessageID g"], rule exI [of _ "if c2 then b else g_RankingsGlickoMessageID g"],
        rule exI [of _ "if c3 then c else g_StatsMessageID g"])
      (cases c1; cases c2; cases c3; cases g; simp add: row(2) with_ids_def)
  have gid: "g_GroupID (if c3 then (if c2 then (if c1 then g0\<lparr>g_RankingsELOMessageID := a\<rparr> else g0)
        \<lparr>g_RankingsGlickoMessageID := b\<rparr> else (if c1 then g0\<lparr>g_RankingsELOMessageID := a\<rparr> else g0))\<lparr>g_StatsMessageID := c\<rparr>
      else (if c2 then (if c1 then g0\<lparr>g_RankingsELOMessageID := a\<rparr> else g0)
        \<lparr>g_RankingsGlickoMessageID := b\<rparr> else (if c1 then g0\<lparr>g_RankingsELOMessageID := a\<rparr> else g0))) = g_GroupID g" for c1 c2 c3 a b c
    using row(1) by simp
  show ?thesis
  proof (cases "\<exists>a c1 b c2 c c3. r1 = Inr (a, c1) \<and> r2 = Inr (b, c2) \<and> r3 = Inr (c, c3)")
    case True
    then obtain a c1 b c2 c c3 where r: "r1 = Inr (a, c1)" "r2 = Inr (b, c2)" "r3 = Inr (c, c3)" by blast
    show ?thesis
      using put [where gs = "groups (st w)" and ?c1.0 = c1 and ?c2.0 = c2 and ?c3.0 = c3 and a = a and b = b and c = c]
        gid [where ?c1.0 = c1 and ?c2.0 = c2 and ?c3.0 = c3 and a = a and b = b and c = c]
      unfolding upkeep_def d Let_def prod.case u1 u2 u3 r sum.case fst_conv snd_conv
      by (simp add: st groupRepo_Upsert_def)
  next
    case False
    then have "groups (st (snd (upkeep e g t1 t2 t3 w))) = groups (st w)"
      unfolding upkeep_def d Let_def prod.case u1
      by (cases r1; cases r2; cases r3) (auto simp: u2 u3 st)
    then show ?thesis by blast
  qed
qed

lemma renderRankings_quiet: "quiet w (snd (renderRankings e g eng label w))"
proof -
  obtain r w1 where c: "computeRatingsFor e g eng w = (r, w1)" by fastforce
  have q1: "quiet w w1" using computeRatingsFor_quiet [of w e g eng] c by simp
  then have "quiet w (snd (ranking_lines e gid pr i ids w1))" for gid pr i ids
    by (rule quiet_trans [OF _ ranking_lines_quiet])
  then show ?thesis
    using q1 by (simp add: renderRankings_def c case_prod_beta Let_def split: option.split sum.split)
qed

lemma stats_entries_quiet: "quiet w (snd (stats_entries e gid elo gl ids w))"
proof (induction ids arbitrary: w)
  case (Cons p ids)
  show ?case
    unfolding stats_entries.simps case_prod_beta Let_def snd_conv
    by (rule quiet_trans [OF playerLabel_quiet Cons.IH])
qed simp

lemma renderCombinedStats_quiet: "quiet w (snd (renderCombinedStats e g a b w))"
proof -
  obtain r w1 where c: "computeRatingsFor e g a w = (r, w1)" by fastforce
  have q1: "quiet w w1" using computeRatingsFor_quiet [of w e g a] c by simp
  obtain r2 w2 where c2: "computeRatingsFor e g b w1 = (r2, w2)" by fastforce
  have q2: "quiet w w2" using quiet_trans [OF q1] computeRatingsFor_quiet [of w1 e g b] c2 by simp
  then have "quiet w (snd (stats_entries e gid elo gl ids w2))" for gid elo gl ids
    by (rule quiet_trans [OF _ stats_entries_quiet])
  then show ?thesis
    using q1 q2 by (simp add: renderCombinedStats_def c c2 case_prod_beta Let_def split: option.split sum.split)
qed

section \<open>Properties\<close>



end
