(* ===== verification/Guards.thy ===== *)
theory Guards
  imports Standings
begin

text \<open>
  What updates cannot do: change a group's row without an administrator of that group, or
  panic other than on a tap whose message is inaccessible.
\<close>

section \<open>The group rows\<close>

definition same_groups :: "world \<Rightarrow> world \<Rightarrow> bool" where
  "same_groups w w' \<longleftrightarrow> groups (st w') = groups (st w)"

lemma same_groups_refl [simp]: "same_groups w w"
  by (simp add: same_groups_def)

lemma same_groups_trans: "same_groups w1 w2 \<Longrightarrow> same_groups w2 w3 \<Longrightarrow> same_groups w1 w3"
  by (simp add: same_groups_def)

lemma reply_groups [simp]: "same_groups w (snd (reply e m t w1)) = same_groups w w1"
  by (simp add: same_groups_def)

lemma calls_groups [simp]: "same_groups w (w1\<lparr>calls := cs\<rparr>) = same_groups w w1"
  "same_groups w (w1\<lparr>matchDrafts := ds\<rparr>) = same_groups w w1" "same_groups w (w1\<lparr>detached := gs\<rparr>) = same_groups w w1"
  by (simp_all add: same_groups_def)

lemma store_groups [simp]:
  "same_groups w (upd_st (participantRepo_Upsert p) w1) = same_groups w w1"
  "same_groups w (upd_st (confirmRepo_Insert c) w1) = same_groups w w1"
  "same_groups w (upd_st (undoRepo_Insert u) w1) = same_groups w w1"
  "same_groups w (upd_st (undoRepo_DeleteForMatch k) w1) = same_groups w w1"
  "same_groups w (upd_st (s21AccountRepo_Delete t) w1) = same_groups w w1"
  "same_groups w (upd_st (run_account_ops ops) w1) = same_groups w w1"
  "same_groups w (upd_st (\<lambda>s. snd (undoRepo_Delete uk s)) w1) = same_groups w w1"
  "same_groups w (upd_st (\<lambda>s. snd (matchRepo_UpdateStatus k x s)) w1) = same_groups w w1"
  "same_groups w (w1\<lparr>st := snd (AllocateAndInsertMatch g b (st w1))\<rparr>) = same_groups w w1"
  "same_groups w (w1\<lparr>calls := cs, st := snd (AllocateAndInsertMatch g b (st w1))\<rparr>) = same_groups w w1"
  "same_groups w (w1\<lparr>st := snd (matchRepo_Delete k (st w1))\<rparr>) = same_groups w w1"
  "same_groups w (w1\<lparr>st := snd (matchRepo_UpdateStatus k x (st w1))\<rparr>) = same_groups w w1"
  by (simp_all add: same_groups_def participantRepo_Upsert_def confirmRepo_Insert_def undoRepo_Insert_def undoRepo_DeleteForMatch_def
      s21AccountRepo_Delete_def undoRepo_Delete_def matchRepo_UpdateStatus_def AllocateAndInsertMatch_def Let_def matchRepo_Delete_def
      split: option.split)

lemma quiet_groups: "quiet w1 w2 \<Longrightarrow> same_groups w w2 = same_groups w w1"
  by (simp add: same_groups_def quiet_def)

lemmas lookups_groups [simp] =
  quiet_groups [OF withIdentity_quiet] quiet_groups [OF lookupS21Nickname_quiet] quiet_groups [OF hasNickname_quiet]
  quiet_groups [OF displayFor_quiet] quiet_groups [OF playerLabel_quiet] quiet_groups [OF renderMatch_quiet]
  quiet_groups [OF resolveMatchToken_quiet]

lemma actions_groups [simp]:
  "same_groups w (snd (answer_res e q t w1)) = same_groups w w1"
  "same_groups w (snd (mayDecide e g m u w1)) = same_groups w w1"
  "same_groups w (detachedRefreshStatsTopic g0 w1) = same_groups w w1"
  "same_groups w (storeDraft e c i d w1) = same_groups w w1"
  "same_groups w (dropDraft c i w1) = same_groups w w1"
  "same_groups w (saveDraft c i d w1) = same_groups w w1"
  "same_groups w (snd (loadOrRestoreDraft e c i tx w1)) = same_groups w w1"
  "same_groups w (snd (missingNickname e p w1)) = same_groups w w1"
  "same_groups w (snd (userFacingError e msg t w1)) = same_groups w w1"
  by (simp_all add: answer_res_def mayDecide_def detachedRefreshStatsTopic_def storeDraft_def dropDraft_def saveDraft_def
      loadOrRestoreDraft_def missingNickname_def userFacingError_def case_prod_beta Let_def split: option.split)

lemma match_handlers_groups [simp]:
  "same_groups w (snd (matchPlayers e m ts w1)) = same_groups w w1"
  "same_groups w (snd (registerMatch e m g a b sc w1)) = same_groups w w1"
  "same_groups w (snd (startInteractiveMatch e m g w1)) = same_groups w w1"
  "same_groups w (snd (registerInteractiveMatch e g o1 o2 s1 s2 w1)) = same_groups w w1"
  by (simp_all add: matchPlayers_def registerMatch_def startInteractiveMatch_def registerInteractiveMatch_def case_prod_beta Let_def
      split: list.split sum.split option.split)

lemma typed_groups [simp]:
  "same_groups w (snd (typedMatch e m g args w1)) = same_groups w w1"
  by (simp add: typedMatch_def case_prod_beta Let_def split: sum.split)

lemma command_groups [simp]:
  "same_groups w (snd (handleMatch e m args w1)) = same_groups w w1"
  "same_groups w (snd (approveMatch e q g gid i mt t w1)) = same_groups w w1"
  "same_groups w (snd (toggleMatchAndAnnounce e m g mt w1)) = same_groups w w1"
  by (simp_all add: handleMatch_def approveMatch_def toggleMatchAndAnnounce_def case_prod_beta Let_def del: reply_frame
      split: sum.split option.split)

lemma decision_groups [simp]:
  "same_groups w (snd (handleConfirmTap e q payload w1)) = same_groups w w1"
  "same_groups w (snd (handleCancelTap e q payload w1)) = same_groups w w1"
  "same_groups w (snd (requestUndo e m g i mt w1)) = same_groups w w1"
  by (simp_all add: handleConfirmTap_def handleCancelTap_def requestUndo_def case_prod_beta Let_def del: reply_frame
      split: sum.split option.split)

lemma undo_groups [simp]: "same_groups w (snd (handleUndo e m args w1)) = same_groups w w1"
  by (simp add: handleUndo_def split: sum.split option.split del: reply_frame)

lemma tap_groups [simp]:
  "same_groups w (snd (snd (ack e q t d w1))) = same_groups w w1"
  "same_groups w (snd (snd (editAndAck e q m v t d w1))) = same_groups w w1"
  by (simp_all add: ack_def editAndAck_def act_text_def case_prod_beta Let_def)

lemma tap_handlers_groups [simp]:
  "same_groups w (snd (snd (showOpponents e q m d w1))) = same_groups w w1"
  "same_groups w (snd (snd (tapCancel e q m d w1))) = same_groups w w1"
  "same_groups w (snd (snd (tapOpp e q m arg d w1))) = same_groups w w1"
  "same_groups w (snd (snd (tapScore e q m arg d w1))) = same_groups w w1"
  "same_groups w (snd (snd (tapConfirm e q m d w1))) = same_groups w w1"
  "same_groups w (failTapGracefully e q m cause w1) = same_groups w w1"
  by (simp_all add: showOpponents_def tapCancel_def tapOpp_def tapScore_def tapConfirm_def failTapGracefully_def act_text_def
      case_prod_beta Let_def split: option.split sum.split)

lemma dispatch_tap_groups [simp]: "same_groups w (snd (snd (dispatchTap e q m d payload w1))) = same_groups w w1"
  by (simp add: dispatchTap_def tapNav_def tapBack_def Let_def split: option.split)

lemma interactive_groups [simp]: "same_groups w (snd (handleMatchInteractiveCallback e q payload w1)) = same_groups w w1"
  by (simp add: handleMatchInteractiveCallback_def case_prod_beta Let_def split: option.split)

lemma private_groups [simp]:
  "same_groups w (snd (handleStart e m w1)) = same_groups w w1"
  "same_groups w (snd (handleLogin e m args w1)) = same_groups w w1"
  "same_groups w (snd (handleLoginReply e m w1)) = same_groups w w1"
  "same_groups w (snd (handleLogout e m w1)) = same_groups w w1"
  "same_groups w (snd (handleLogoutReply e m w1)) = same_groups w w1"
  "same_groups w (snd (handleWhoami e m w1)) = same_groups w w1"
  by (simp_all add: handleStart_def handleLogin_def promptSent_def handleLoginReply_def loginOutcome_def handleLogout_def
      handleLogoutReply_def handleWhoami_def case_prod_beta Let_def
      split: sum.split option.split store_error.split account_error.split)

lemma admin_groups_groups [simp]: "same_groups w (snd (admin_groups e tid gs w1)) = same_groups w w1"
  by (induction gs arbitrary: w1) (simp_all add: case_prod_beta Let_def)

lemma backfill_groups [simp]:
  "same_groups w (snd (handleForwardedAdd e m t w1)) = same_groups w w1"
  "same_groups w (snd (handleAddParticipantTap e q payload w1)) = same_groups w w1"
  by (simp_all add: handleForwardedAdd_def adminGroupsFor_def upsertBackfillParticipant_def handleAddParticipantTap_def
      case_prod_beta Let_def split: sum.split option.split list.split)

lemma refresh_participants_groups [simp]: "same_groups w (snd (refresh_participants e gid ps n w1)) = same_groups w w1"
  by (induction ps arbitrary: n w1) (simp_all add: case_prod_beta Let_def split: sum.split)

lemma member_groups [simp]:
  "same_groups w (snd (handleRefreshUsernames e m w1)) = same_groups w w1"
  "same_groups w (snd (dispatchMyChatMember e ev w1)) = same_groups w w1"
  "same_groups w (snd (dispatchChatMember e ev w1)) = same_groups w w1"
  by (simp_all add: handleRefreshUsernames_def assertGroupAdmin_def refreshGroupUsernames_def dispatchMyChatMember_def
      dispatchChatMember_def case_prod_beta Let_def split: sum.split option.split prod.split)

lemma refresh_groups_written:
  "groups (st (snd (refreshStatsTopic e g w))) = groups (st w) \<or>
   (\<exists>g'. groups (st (snd (refreshStatsTopic e g w))) = mput (g_GroupID g) g' (groups (st w)))"
proof -
  obtain a b where ab: "buildEngines e w = (a, b)" by fastforce
  obtain r1 w1 where r1: "renderRankings e g a ''ELO Rankings'' w = (r1, w1)" by fastforce
  obtain r2 w2 where r2: "renderRankings e g b ''Glicko-2 Rankings'' w1 = (r2, w2)" by fastforce
  obtain r3 w3 where r3: "renderCombinedStats e g a b w2 = (r3, w3)" by fastforce
  have gs: "groups (st w1) = groups (st w)" "groups (st w2) = groups (st w1)" "groups (st w3) = groups (st w2)"
    using quietD(3) [OF renderRankings_quiet, of e g a "''ELO Rankings''" w] quietD(3) [OF renderRankings_quiet, of e g b "''Glicko-2 Rankings''" w1]
      quietD(3) [OF renderCombinedStats_quiet, of e g a b w2] r1 r2 r3 by simp_all
  have "groups (st (snd (upkeep e g t1 t2 t3 w3))) = groups (st w) \<or>
      (\<exists>g'. groups (st (snd (upkeep e g t1 t2 t3 w3))) = mput (g_GroupID g) g' (groups (st w)))" for t1 t2 t3
    using upkeep_groups [of e g t1 t2 t3 w3] gs by auto
  then show ?thesis using gs by (simp add: refreshStatsTopic_def ab r1 r2 r3 split: sum.split)
qed

section \<open>The handlers that configure\<close>

definition guarded :: "env \<Rightarrow> i64 \<Rightarrow> world \<Rightarrow> world \<Rightarrow> bool" where
  "guarded e u w w' \<longleftrightarrow>
     (\<forall>g. mget (groups (st w')) g \<noteq> mget (groups (st w)) g \<longrightarrow> vouched e w w' g u)"

lemma same_groups_guarded: "same_groups w w' \<Longrightarrow> guarded e u w w'"
  by (simp add: same_groups_def guarded_def)

lemma guarded_after_check:
  assumes "isChatAdmin e g u w = (True, w1)" and "calm w1 w'"
    and "\<And>h. h \<noteq> g \<Longrightarrow> mget (groups (st w')) h = mget (groups (st w)) h"
  shows "guarded e u w w'"
proof -
  have "vouched e w w1 g u" using isChatAdmin_facts(2) [OF assms(1)] by simp
  then have "vouched e w w' g u"
    by (rule vouched_mono) (use assms(2) in \<open>simp_all add: calm_def\<close>)
  then show ?thesis using assms(3) unfolding guarded_def by metis
qed

lemma handleBotRegisterGroup_guarded:
  assumes "world_ok w"
  shows "guarded e (usr_ID (sender m)) w (snd (handleBotRegisterGroup e m w))"
proof (cases "isSupergroup (msg_Chat m)")
  case False
  then show ?thesis by (intro same_groups_guarded) (simp add: handleBotRegisterGroup_def del: reply_frame)
next
  case True
  let ?g = "ch_ID (msg_Chat m)"
  obtain adm w1 where a: "isChatAdmin e ?g (usr_ID (sender m)) w = (adm, w1)" by fastforce
  have st1: "st w1 = st w" by (rule isChatAdmin_facts(3) [OF a])
  show ?thesis
  proof (cases adm)
    case False
    have "w1 = w\<lparr>calls := calls w @ [IsChatAdmin ?g (usr_ID (sender m))]\<rparr>" using a by (simp add: isChatAdmin_now)
    then show ?thesis
      using False True by (intro same_groups_guarded) (simp add: handleBotRegisterGroup_def a Let_def del: reply_frame)
  next
    case adm: True
    show ?thesis
    proof (rule guarded_after_check [where g = ?g])
      show "isChatAdmin e ?g (usr_ID (sender m)) w = (True, w1)" using a adm by simp
      show "calm w1 (snd (handleBotRegisterGroup e m w))"
        unfolding handleBotRegisterGroup_def a Let_def case_prod_beta fst_conv snd_conv using True adm
        by (simp split: sum.split)
      have "g_GroupID row = ?g" if "groupRepo_Get (st w) ?g = Inr row" for row
        by (rule group_id [OF assms that])
      then show "mget (groups (st (snd (handleBotRegisterGroup e m w)))) h = mget (groups (st w)) h" if "h \<noteq> ?g" for h
        using True adm that
        by (auto simp: handleBotRegisterGroup_def a Let_def case_prod_beta st1 groupRepo_Upsert_def newGroup_def split: sum.split)
    qed
  qed
qed

lemma assertGroupAdmin_cases:
  "(\<exists>w1. assertGroupAdmin e m w = (None, w1) \<and> same_groups w w1) \<or>
   (\<exists>g w1. assertGroupAdmin e m w = (Some g, w1) \<and> groupRepo_Get (st w) (ch_ID (msg_Chat m)) = Inr g \<and>
     isChatAdmin e (ch_ID (msg_Chat m)) (usr_ID (sender m)) w = (True, w1))"
proof (cases "groupRepo_Get (st w) (ch_ID (msg_Chat m))")
  case (Inl x)
  then show ?thesis by (simp add: assertGroupAdmin_def same_groups_def)
next
  case (Inr g)
  obtain adm w1 where a: "isChatAdmin e (ch_ID (msg_Chat m)) (usr_ID (sender m)) w = (adm, w1)" by fastforce
  have "st w1 = st w" by (rule isChatAdmin_facts(3) [OF a])
  then show ?thesis using Inr by (cases adm) (simp_all add: assertGroupAdmin_def a same_groups_def)
qed

lemma handleSetMatchesTopic_guarded:
  assumes "world_ok w"
  shows "guarded e (usr_ID (sender m)) w (snd (handleSetMatchesTopic e m w))"
  using assertGroupAdmin_cases [of e m w]
proof (elim disjE exE conjE)
  fix w1 assume "assertGroupAdmin e m w = (None, w1)" "same_groups w w1"
  then show ?thesis by (intro same_groups_guarded) (simp add: handleSetMatchesTopic_def)
next
  fix g w1 assume a: "assertGroupAdmin e m w = (Some g, w1)" and g: "groupRepo_Get (st w) (ch_ID (msg_Chat m)) = Inr g"
    and adm: "isChatAdmin e (ch_ID (msg_Chat m)) (usr_ID (sender m)) w = (True, w1)"
  have gid: "g_GroupID g = ch_ID (msg_Chat m)" by (rule group_id [OF assms g])
  have st1: "st w1 = st w" by (rule isChatAdmin_facts(3) [OF adm])
  show ?thesis
  proof (rule guarded_after_check [OF adm])
    show "calm w1 (snd (handleSetMatchesTopic e m w))" by (simp add: handleSetMatchesTopic_def a)
    show "mget (groups (st (snd (handleSetMatchesTopic e m w)))) h = mget (groups (st w)) h" if "h \<noteq> ch_ID (msg_Chat m)" for h
      using that by (simp add: handleSetMatchesTopic_def a st1 groupRepo_Upsert_def gid)
  qed
qed

lemma handleSetStatsTopic_guarded:
  assumes "world_ok w"
  shows "guarded e (usr_ID (sender m)) w (snd (handleSetStatsTopic e m w))"
  using assertGroupAdmin_cases [of e m w]
proof (elim disjE exE conjE)
  fix w1 assume "assertGroupAdmin e m w = (None, w1)" "same_groups w w1"
  then show ?thesis by (intro same_groups_guarded) (simp add: handleSetStatsTopic_def)
next
  fix g w1 assume a: "assertGroupAdmin e m w = (Some g, w1)" and g: "groupRepo_Get (st w) (ch_ID (msg_Chat m)) = Inr g"
    and adm: "isChatAdmin e (ch_ID (msg_Chat m)) (usr_ID (sender m)) w = (True, w1)"
  have gid: "g_GroupID g = ch_ID (msg_Chat m)" by (rule group_id [OF assms g])
  have st1: "st w1 = st w" by (rule isChatAdmin_facts(3) [OF adm])
  let ?g' = "statsTopicSet (msg_MessageThreadID m) g"
  have gid': "g_GroupID ?g' = ch_ID (msg_Chat m)" by (simp add: statsTopicSet_def gid)
  have groups: "mget (groups (st (snd (refreshStatsTopic e ?g' (upd_st (groupRepo_Upsert ?g') w1))))) h = mget (groups (st w)) h"
    if "h \<noteq> ch_ID (msg_Chat m)" for h
    using refresh_groups_written [of e ?g' "upd_st (groupRepo_Upsert ?g') w1"] that
    by (auto simp: groupRepo_Upsert_def gid' st1)
  show ?thesis
  proof (rule guarded_after_check [OF adm])
    show "calm w1 (snd (handleSetStatsTopic e m w))"
      by (simp add: handleSetStatsTopic_def a case_prod_beta Let_def)
    show "mget (groups (st (snd (handleSetStatsTopic e m w)))) h = mget (groups (st w)) h" if "h \<noteq> ch_ID (msg_Chat m)" for h
      using groups [OF that] by (simp add: handleSetStatsTopic_def a st1 case_prod_beta Let_def)
  qed
qed

section \<open>All updates\<close>

lemma runCommand_guarded:
  assumes "world_ok w"
  shows "guarded e (usr_ID (sender m)) w (snd (runCommand e m cmd args w))"
  using handleBotRegisterGroup_guarded [OF assms] handleSetMatchesTopic_guarded [OF assms] handleSetStatsTopic_guarded [OF assms]
  by (simp add: runCommand_def handlePing_def same_groups_guarded)

lemma upsertSenderParticipant_facts:
  "same_groups w (upsertSenderParticipant e m w)" "calls (upsertSenderParticipant e m w) = calls w"
  "world_ok w \<Longrightarrow> world_ok (upsertSenderParticipant e m w)"
proof -
  show "same_groups w (upsertSenderParticipant e m w)" "calls (upsertSenderParticipant e m w) = calls w"
    by (simp_all add: upsertSenderParticipant_def split: sum.split)
  have "calm w (upsertSenderParticipant e m w)"
    by (simp add: upsertSenderParticipant_def split: sum.split)
  then show "world_ok w \<Longrightarrow> world_ok (upsertSenderParticipant e m w)" by (rule mild_inv [OF calm_mild])
qed

lemma dispatchText_guarded:
  assumes "world_ok w"
  shows "guarded e (usr_ID (sender m)) w (snd (dispatchText e m w))"
proof -
  let ?w1 = "upsertSenderParticipant e m w"
  note f = upsertSenderParticipant_facts [where w = w and e = e and m = m]
  have "guarded e (usr_ID (sender m)) ?w1 (snd (runCommand e m cmd args ?w1))" for cmd args
    using runCommand_guarded f(3) assms by blast
  then have "guarded e (usr_ID (sender m)) w (snd (runCommand e m cmd args ?w1))" for cmd args
    using f(1,2) by (simp add: guarded_def vouched_def same_groups_def)
  then show ?thesis
    by (simp add: dispatchText_def case_prod_beta Let_def same_groups_guarded)
qed

lemma dispatchMessage_guarded:
  assumes "world_ok w"
  shows "guarded e (usr_ID (sender m)) w (snd (dispatchMessage e m w))"
  using dispatchText_guarded [OF assms]
  by (simp add: dispatchMessage_def deleteStatsTopicLitter_def case_prod_beta same_groups_guarded del: reply_frame split: option.split)

lemma dispatchCallback_groups: "same_groups w (snd (dispatchCallback e q w))"
  by (simp add: dispatchCallback_def)

section \<open>Panics\<close>

lemma no_panic_basics [simp]:
  "fst (act_res e c w) \<noteq> HPanic" "fst (send_res e c w) \<noteq> HPanic" "fst (reply e m t w) \<noteq> HPanic"
  "fst (userFacingError e m t w) \<noteq> HPanic" "fst (answer_res e q t w) \<noteq> HPanic"
  by (simp_all add: act_res_def send_res_def reply_def userFacingError_def answer_res_def of_merr_def case_prod_beta Let_def
      split: sum.split option.split)

lemma no_panic_private [simp]:
  "fst (handleStart e m w) \<noteq> HPanic" "fst (handleLogin e m args w) \<noteq> HPanic" "fst (loginOutcome e m w) \<noteq> HPanic"
  "fst (handleLogout e m w) \<noteq> HPanic" "fst (handleLogoutReply e m w) \<noteq> HPanic" "fst (handleWhoami e m w) \<noteq> HPanic"
  by (simp_all add: handleStart_def handleLogin_def promptSent_def loginOutcome_def handleLogout_def handleLogoutReply_def
      handleWhoami_def case_prod_beta Let_def split: sum.split option.split store_error.split account_error.split)

lemma no_panic_upkeep [simp]: "fst (upkeep e g t1 t2 t3 w) \<noteq> HPanic"
  using upkeep_result [of e g t1 t2 t3 w] by (elim disjE exE) simp_all

lemma no_panic_rankings [simp]: "fst (refreshStatsTopic e g w) \<noteq> HPanic"
  by (simp add: refreshStatsTopic_def case_prod_beta Let_def split: sum.split)

lemma no_panic_match [simp]:
  "fst (registerMatch e m g a b sc w) \<noteq> HPanic" "fst (startInteractiveMatch e m g w) \<noteq> HPanic"
  by (simp_all add: registerMatch_def startInteractiveMatch_def case_prod_beta Let_def split: sum.split option.split)

lemma no_panic_commands [simp]:
  "fst (handleMatch e m args w) \<noteq> HPanic" "fst (toggleMatchAndAnnounce e m g mt w) \<noteq> HPanic"
  by (simp_all add: handleMatch_def typedMatch_def toggleMatchAndAnnounce_def case_prod_beta Let_def split: sum.split option.split)

lemma no_panic_undo [simp]: "fst (handleUndo e m args w) \<noteq> HPanic"
  by (simp add: handleUndo_def requestUndo_def case_prod_beta Let_def split: sum.split option.split)

lemma no_panic_config [simp]:
  "fst (handleBotRegisterGroup e m w) \<noteq> HPanic" "fst (handleSetMatchesTopic e m w) \<noteq> HPanic"
  "fst (handleSetStatsTopic e m w) \<noteq> HPanic" "fst (handleRefreshUsernames e m w) \<noteq> HPanic"
  "fst (dispatchMyChatMember e ev w) \<noteq> HPanic" "fst (dispatchChatMember e ev w) \<noteq> HPanic"
  "fst (handleForwardedAdd e m t w) \<noteq> HPanic"
  by (simp_all add: handleBotRegisterGroup_def handleSetMatchesTopic_def handleSetStatsTopic_def handleRefreshUsernames_def
      dispatchMyChatMember_def dispatchChatMember_def handleForwardedAdd_def case_prod_beta Let_def
      split: sum.split option.split list.split prod.split)

lemma no_panic_tap [simp]: "fst (handleMatchInteractiveCallback e q payload w) \<noteq> HPanic"
  by (simp add: handleMatchInteractiveCallback_def case_prod_beta Let_def split: option.split)

lemma no_panic_message: "fst (dispatchMessage e m w) \<noteq> HPanic"
  by (simp add: dispatchMessage_def dispatchText_def runCommand_def handlePing_def handleLoginReply_def case_prod_beta Let_def
      split: option.split)

lemma no_panic_decisions:
  assumes "cq_Message q = Some msg"
  shows "fst (approveMatch e q g gid i mt t w) \<noteq> HPanic" and "fst (handleConfirmTap e q payload w) \<noteq> HPanic"
    and "fst (handleCancelTap e q payload w) \<noteq> HPanic" and "fst (handleAddParticipantTap e q payload w) \<noteq> HPanic"
proof -
  show a: "fst (approveMatch e q g gid i mt t w) \<noteq> HPanic" for e g gid i mt t w
    by (simp add: approveMatch_def assms case_prod_beta Let_def)
  show "fst (handleConfirmTap e q payload w) \<noteq> HPanic"
    by (simp add: handleConfirmTap_def assms a case_prod_beta Let_def split: option.split sum.split)
  show "fst (handleCancelTap e q payload w) \<noteq> HPanic"
    by (simp add: handleCancelTap_def assms case_prod_beta Let_def split: option.split sum.split)
  show "fst (handleAddParticipantTap e q payload w) \<noteq> HPanic"
    by (simp add: handleAddParticipantTap_def assms case_prod_beta Let_def split: option.split sum.split)
qed

lemma no_panic_with_message: "cq_Message q = Some msg \<Longrightarrow> fst (dispatchCallback e q w) \<noteq> HPanic"
  by (simp add: dispatchCallback_def no_panic_decisions)

section \<open>Properties\<close>

text \<open>C13. The row of a group (its topics, campus and the like) is created or changed by an update only if
  the messenger has vouched, during this very update, for the sender as an administrator of
  that group. No other update changes any group's row.\<close>

theorem groups_guarded:
  assumes "world_ok w" and "mget (groups (st (snd (Dispatch e u w)))) g \<noteq> mget (groups (st w)) g"
  shows "vouched e w (snd (Dispatch e u w)) g (actor u)"
proof -
  have "guarded e (actor u) w (snd (Dispatch e u w))"
    using dispatchMessage_guarded [OF assms(1)] dispatchCallback_groups
    by (simp add: Dispatch_def actor_def same_groups_guarded split: option.split)
  then show ?thesis using assms(2) unfolding guarded_def by blast
qed

definition topic_message :: Message where
  "topic_message = Message 900 example_chat (Some (example_user 1)) ''/set_matches_topic'' 9 None None []"
lemma set_topic_dispatch:
  "mget (groups (st (snd (Dispatch example_env (message_update topic_message) example_world)))) 7 =
     Some (example_group\<lparr>g_MatchesTopicID := 9\<rparr>)"
proof -
  have spl: "splitCommand ''/set_matches_topic'' = (''/set_matches_topic'', [])" by code_simp
  have t: "msg_Chat topic_message = example_chat" "msg_Text topic_message = ''/set_matches_topic''" "msg_MessageThreadID topic_message = 9"
    "msg_From topic_message = Some (example_user 1)" "sender topic_message = example_user 1" "ch_ID example_chat = 7" "isPrivate topic_message = False"
    "usr_IsBot (example_user 1) = False" "usr_ID (example_user 1) = 1" "msg_MessageID topic_message = 900"
    by (simp_all add: topic_message_def sender_def isPrivate_def example_chat_def example_user_def)
  have g: "groupRepo_Get (st example_world) 7 = Inr example_group"
    by (simp add: groupRepo_Get_def example_world_def handlers_New_def example_members_rows get_or_def)
  let ?w1 = "upsertSenderParticipant example_env topic_message example_world"
  have g1: "groupRepo_Get (st ?w1) 7 = Inr example_group"
    by (simp add: upsertSenderParticipant_def t g) (simp add: groupRepo_Get_def participantRepo_Upsert_def g [unfolded groupRepo_Get_def])
  have a: "assertGroupAdmin example_env topic_message ?w1 = (Some example_group, ?w1\<lparr>calls := calls ?w1 @ [IsChatAdmin 7 1]\<rparr>)"
    unfolding assertGroupAdmin_def t g1 sum.case isChatAdmin_now prod.case by (simp add: admin_now_def example_env_def)
  have l: "isLitter (st example_world) topic_message = False"
    by (simp add: isLitter_def t g) (simp add: example_group_def zero_Group_def)
  have "Dispatch example_env (message_update topic_message) example_world = handleSetMatchesTopic example_env topic_message ?w1"
    by (simp add: dispatchMessage_def dispatchText_def deleteStatsTopicLitter_def l t spl runCommand_def)
  also have "groups (st (snd (handleSetMatchesTopic example_env topic_message ?w1))) = groups (st (upd_st (groupRepo_Upsert (example_group\<lparr>g_MatchesTopicID := 9\<rparr>)) ?w1))"
    by (simp add: handleSetMatchesTopic_def a t groupRepo_Upsert_def)
  finally show ?thesis by (simp add: groupRepo_Upsert_def) (simp add: example_group_def)
qed
theorem groups_guarded_witness:
  "vouched example_env example_world (snd (Dispatch example_env (message_update topic_message) example_world)) 7 1"
proof -
  have "mget (groups (st example_world)) 7 = Some example_group"
    by (simp add: example_world_def handlers_New_def example_members_rows)
  moreover have "g_MatchesTopicID (example_group\<lparr>g_MatchesTopicID := 9\<rparr>) \<noteq> g_MatchesTopicID example_group"
    by (simp add: example_group_def)
  ultimately have "mget (groups (st (snd (Dispatch example_env (message_update topic_message) example_world)))) 7 \<noteq>
      mget (groups (st example_world)) 7"
    unfolding set_topic_dispatch by (metis option.inject)
  from groups_guarded [OF example_world_ok this]
  show ?thesis by (simp add: actor_def message_update_def no_update_def topic_message_def sender_def example_user_def)
qed


definition lost_tap :: CallbackQuery where
  "lost_tap = \<lparr>cq_ID = ''q'', cq_From = Some (example_user 3), cq_Message = None, cq_Data = cbConfirmPrefix @ groupMatchPayload 7 1\<rparr>"

lemma lost_tap_panics: "fst (Dispatch example_env (tap_update lost_tap) pending_world) = HPanic"
proof -
  have q: "cq_From lost_tap \<noteq> None" "cq_Data lost_tap = cbConfirmPrefix @ groupMatchPayload 7 1" "cq_Message lost_tap = None"
    "usr_ID (tapper lost_tap) = 3"
    by (simp_all add: lost_tap_def tapper_def example_user_def)
  have g: "matchRepo_Get (st pending_world) (7, 1) = Inr pending_match" by (simp add: matchRepo_Get_def pending_world_rows)
  have m: "mayDecide example_env 7 pending_match 3 pending_world = (True, pending_world)" by (simp add: mayDecide_def)
  have a: "fst (approveMatch e lost_tap g gid i mt t w) = HPanic" for e g gid i mt t w by (simp add: approveMatch_def q)
  show ?thesis
    unfolding Dispatch_tap dispatch_confirm [OF q(1,2)] handleConfirmTap_def groupMatchPayload_roundtrip option.case prod.case g
      sum.case Let_def q(4) m q(3) case_prod_beta fst_conv snd_conv
    by (simp add: a)
qed


end
