(* ===== verification/Private.thy ===== *)
theory Private
  imports Guards Mirror
begin

text \<open>
  The private chat: the credentials a user sends are deleted again, a login and a logout touch the
  account rows only, the migration of the legacy administrators can be repeated, and a
  forwarded message adds exactly the forwarded user.
\<close>

section \<open>Credentials\<close>

lemma loginOutcome_store:
  "\<exists>ops. st (snd (loginOutcome e m w)) = run_account_ops ops (st w)"
proof (cases "ParseAdminCredentials (TrimSpace (msg_Text m))")
  case None
  then show ?thesis by (intro exI [of _ "[]"]) (simp add: loginOutcome_def run_account_ops_def)
next
  case (Some c)
  obtain login password where c: "c = (login, password)" by fastforce
  obtain r ops where v: "e_ValidateAndStore e (s21AccountRepo_List (st w)) (s21_adapter_Authenticate e) (usr_ID (sender m)) login password (e_now e) = (r, ops)"
    by fastforce
  then show ?thesis
    by (intro exI [of _ ops]) (simp add: loginOutcome_def Some c Let_def userFacingError_def split: sum.split account_error.split)
qed

section \<open>Migration\<close>

definition migrated :: "Admin list \<Rightarrow> memstore \<Rightarrow> memstore" where
  "migrated as s = snd (migrate_from as s)"

lemma migrate_from_facts:
  "fst (migrate_from as s) = None"
  "mget (s21Accounts (migrated as s)) t =
     (case mget (s21Accounts s) t of Some a \<Rightarrow> Some a
      | None \<Rightarrow> map_option migratedAccount (find (\<lambda>a. a_TelegramID a = t) as))"
  "admins (migrated as s) = admins s"
proof -
  have "fst (migrate_from as s) = None \<and> (\<forall>t. mget (s21Accounts (migrated as s)) t =
     (case mget (s21Accounts s) t of Some a \<Rightarrow> Some a
      | None \<Rightarrow> map_option migratedAccount (find (\<lambda>a. a_TelegramID a = t) as))) \<and> admins (migrated as s) = admins s"
  proof (induction as arbitrary: s)
    case Nil
    then show ?case by (simp add: migrated_def split: option.split)
  next
    case (Cons a as)
    show ?case
    proof (cases "mget (s21Accounts s) (a_TelegramID a)")
      case None
      let ?s1 = "s21AccountRepo_Upsert (migratedAccount a) s"
      have m: "migrate_from (a # as) s = migrate_from as ?s1"
        using None by (simp add: s21AccountRepo_Get_def get_or_def)
      have k: "mget (s21Accounts ?s1) t = (if t = a_TelegramID a then Some (migratedAccount a) else mget (s21Accounts s) t)" for t
        by (simp add: s21AccountRepo_Upsert_def migratedAccount_def)
      show ?thesis
        using Cons.IH [of ?s1] None unfolding migrated_def m k by (auto simp: s21AccountRepo_Upsert_def split: option.split)
    next
      case (Some r)
      have m: "migrate_from (a # as) s = migrate_from as s"
        using Some by (simp add: s21AccountRepo_Get_def get_or_def)
      show ?thesis using Cons.IH [of s] Some unfolding migrated_def m by (auto split: option.split)
    qed
  qed
  then show "fst (migrate_from as s) = None"
    "mget (s21Accounts (migrated as s)) t = (case mget (s21Accounts s) t of Some a \<Rightarrow> Some a
      | None \<Rightarrow> map_option migratedAccount (find (\<lambda>a. a_TelegramID a = t) as))"
    "admins (migrated as s) = admins s" by blast+
qed

lemma migrate_again:
  assumes "\<forall>a \<in> set as. mget (s21Accounts s) (a_TelegramID a) \<noteq> None"
  shows "migrate_from as s = (None, s)"
  using assms by (induction as) (auto simp: s21AccountRepo_Get_def get_or_def)

section \<open>The prompt for a forwarded user\<close>

lemma add_payload_parses [simp]: "parseAddPayload (addPayload g t) = Some (g, t)"
proof -
  have "CHR '':'' \<notin> set (fmt_i64 g)" using fmt_i64_chars [of "CHR '':''" g] by (auto simp: is_digit_def byte_def)
  then have "SplitN2 CHR '':'' (addPayload g t) = Some (fmt_i64 g, fmt_i64 t)"
    unfolding addPayload_def by (simp add: SplitN2_append)
  moreover obtain x where "ParseInt 64 (fmt_i64 g) = Some x" "word_of_int x = g" using ParseInt_fmt_i64 [of g] by auto
  moreover obtain y where "ParseInt 64 (fmt_i64 t) = Some y" "word_of_int y = t" using ParseInt_fmt_i64 [of t] by auto
  ultimately show ?thesis by (simp add: parseAddPayload_def)
qed

text \<open>The user names Telegram hands out: letters, digits and underscores; ids are positive.\<close>

definition telegram_user :: "User \<Rightarrow> bool" where
  "telegram_user u \<longleftrightarrow> list_all is_word_char (usr_Username u) \<and> 0 \<le> sint (usr_ID u)"

lemma prompt_parses:
  assumes "telegram_user u"
  shows "forwardedUsername (forwardPrompt u) = usr_Username u"
proof -
  let ?id = "dec (nat (sint (usr_ID u)))" and ?tail = "nl @ ''Add to which group?''"
  have i: "fmt_i64 (usr_ID u) = ?id" using assms by (simp add: telegram_user_def fmt_i64_nat)
  have d: "digits_at (?id @ CHR '')'' # r) = Some (?id, CHR '')'' # r)" for r
    by (rule digits_at_dec) (simp add: is_digit_def byte_def)
  have sp: "\<not> is_word_char CHR '' ''" by (simp add: is_word_char_def is_alnum_def is_alpha_def is_upper_def is_lower_def is_digit_def byte_def)
  have "forwarded_at (forwardPrompt u) = Some (usr_Username u)"
  proof (cases "usr_Username u = []")
    case True
    have t: "forwardPrompt u = ''Forwarded user'' @ ('' (id '' @ (?id @ CHR '')'' # ?tail))"
      using True by (simp add: forwardPrompt_def targetLabel_def i)
    have o: "optional_username ('' (id '' @ r) = ([], '' (id '' @ r)" for r
      by (simp add: optional_username_def lit_at_def HasPrefix_def)
    show ?thesis
      unfolding t forwarded_at_def lit_at_append option.case o prod.case d using True by (simp add: HasPrefix_def)
  next
    case False
    have t: "forwardPrompt u = ''Forwarded user'' @ ('' @'' @ (usr_Username u @ '' (id '' @ (?id @ CHR '')'' # ?tail)))"
      using False by (simp add: forwardPrompt_def targetLabel_def i)
    have w: "takeWhile is_word_char (usr_Username u @ '' (id '' @ r) = usr_Username u"
      "dropWhile is_word_char (usr_Username u @ '' (id '' @ r) = '' (id '' @ r" for r
      using assms sp by (simp_all add: telegram_user_def list_all_iff takeWhile_append dropWhile_append)
    have o: "optional_username ('' @'' @ (usr_Username u @ '' (id '' @ r)) = (usr_Username u, '' (id '' @ r)" for r
      unfolding optional_username_def lit_at_append option.case w Let_def using False by simp
    show ?thesis
      unfolding t forwarded_at_def lit_at_append option.case o prod.case d by (simp add: HasPrefix_def)
  qed
  then show ?thesis by (simp add: forwardedUsername_def search_here)
qed

section \<open>Properties\<close>

text \<open>C20. The reply with the credentials of a login never stays in the chat: whatever becomes of the
  login, the last thing the bot asks the messenger for is the deletion of that message; and
  nothing of the store but account rows changes.\<close>

theorem login_reply_deleted:
  assumes "msg_From m \<noteq> None" and "isPrivate m" and "msg_ForwardFrom m = None" and "msg_ForwardSenderName m = []"
    and "isLoginReply m"
  shows "let w' = snd (Dispatch e (message_update m) w) in
    last (calls w') = DeleteMessage (ch_ID (msg_Chat m)) (msg_MessageID m) \<and> (\<exists>ops. st w' = run_account_ops ops (st w))"
proof (cases "isLitter (st w) m")
  case True
  have "st w = run_account_ops [] (st w)" by (simp add: run_account_ops_def)
  then show ?thesis
    using assms True by (auto simp: dispatchMessage_def deleteStatsTopicLitter_def Let_def intro: exI [of _ "[]"])
next
  case False
  have d: "snd (Dispatch e (message_update m) w) = snd (handleLoginReply e m w)"
    using assms False by (auto simp: dispatchMessage_def deleteStatsTopicLitter_def dispatchText_def)
  show ?thesis
    unfolding Let_def d using loginOutcome_store [of e m w] by (simp add: handleLoginReply_def case_prod_beta Let_def)
qed

lemma Contains_later: "Contains s p \<Longrightarrow> Contains (a @ s) p"
  unfolding Contains_iff by (metis append.assoc)

lemma Contains_here: "Contains (p @ b) p"
  unfolding Contains_iff by (metis append_Nil)

definition login_reply :: Message where
  "login_reply = Message 901 (example_chat\<lparr>ch_ID := 2, ch_Type := ''private''\<rparr>) (Some (example_user 2)) ''peer:secret'' 0
     (Some (Message 900 (example_chat\<lparr>ch_ID := 2, ch_Type := ''private''\<rparr>) (Some (example_user 5\<lparr>usr_IsBot := True\<rparr>)) loginPrompt 0 None None []))
     None []"

theorem login_reply_deleted_witness:
  "last (calls (snd (Dispatch example_env (message_update login_reply) example_world))) = DeleteMessage 2 901"
proof -
  have "Contains loginPrompt loginTag"
    unfolding loginPrompt_def spoilerWrap_def by (intro Contains_later Contains_here)
  then have "isLoginReply login_reply" by (simp add: isLoginReply_def isReplyTo_def login_reply_def)
  moreover have "msg_From login_reply \<noteq> None" "isPrivate login_reply" "msg_ForwardFrom login_reply = None"
    "msg_ForwardSenderName login_reply = []" "ch_ID (msg_Chat login_reply) = 2" "msg_MessageID login_reply = 901"
    by (simp_all add: login_reply_def isPrivate_def)
  ultimately show ?thesis
    using login_reply_deleted [of login_reply example_env example_world] by (simp add: Let_def)
qed



text \<open>C22. A forwarded user ends up in the group that was tapped, with the id and the user name of the
  forward: the tap of an administrator on the button of a group, under the prompt the bot has
  sent, stores exactly the participant that the forward showed, and nothing else changes.\<close>

theorem forward_tap_adds:
  assumes "telegram_user u" and "cq_Message q = Some msg" and "msg_Text msg = forwardPrompt u"
    and "groupRepo_Get (st w) g = Inr row" and "admin_now e g (usr_ID (tapper q)) w"
  shows "st (snd (handleAddParticipantTap e q (addPayload g (usr_ID u)) w)) =
    participantRepo_Upsert (participant_of g u (e_now e)) (st w)"
  using assms prompt_parses [OF assms(1)]
  by (simp add: handleAddParticipantTap_def isChatAdmin_now participant_of_def answer_res_def case_prod_beta Let_def)

theorem forward_tap_adds_witness:
  "mget (participants (st (snd (handleAddParticipantTap example_env (query 1 900 (forwardPrompt (example_user 9)) []) (addPayload 7 9) example_world)))) (7, 9) =
     Some (participant_of 7 (example_user 9) (1000 * hour))"
proof -
  let ?q = "query 1 900 (forwardPrompt (example_user 9)) []"
  have n: "fmt_i64 9 = ''9''" by (simp add: fmt_i64_def Itoa_def dec.simps digit_def char_of_def bit_0)
  have u: "telegram_user (example_user 9)"
    by (simp add: telegram_user_def example_user_def n is_word_char_def is_alnum_def is_alpha_def is_upper_def is_lower_def is_digit_def byte_def)
  have q: "cq_Message ?q = Some (prompt 900 (forwardPrompt (example_user 9)))" "msg_Text (prompt 900 (forwardPrompt (example_user 9))) = forwardPrompt (example_user 9)"
      "usr_ID (tapper ?q) = 1" "usr_ID (example_user 9) = 9"
    by (simp_all add: query_def prompt_def tapper_def example_user_def)
  have g: "groupRepo_Get (st example_world) 7 = Inr example_group"
    by (simp add: groupRepo_Get_def example_world_def handlers_New_def example_members_rows get_or_def)
  have a: "admin_now example_env 7 1 example_world" by (simp add: admin_now_def example_env_def)
  from forward_tap_adds [OF u q(1,2) g, of example_env, unfolded q, OF a]
  show ?thesis by (simp add: participantRepo_Upsert_def participant_of_def q)
qed

end
