(* ===== verification/Typed.thy ===== *)
theory Typed
  imports Consensus
begin

text \<open>
  The typed \<open>/match\<close> command (\<open>handleMatch\<close> of \<open>match.go\<close>) against a specification over the rows
  of the store: which requests are accepted, exactly which rows an accepted one adds and
  which messages it sends, and that a rejected one changes no match and answers with one message.
\<close>

section \<open>The specification\<close>

text \<open>The member of the group a user-name token stands for.\<close>

definition member_named :: "memstore \<Rightarrow> i64 \<Rightarrow> string \<Rightarrow> i64 option" where
  "member_named s g t =
     (case ParseIdentifier t of
        Inl _ \<Rightarrow> None
      | Inr i \<Rightarrow>
          (case participantRepo_GetByUsername s g (Value i) of Inl _ \<Rightarrow> None | Inr p \<Rightarrow> Some (p_TelegramID p)))"

text \<open>\<open>/match @opponent s1-s2\<close> and \<open>/match @player1 @player2 s1-s2\<close>: two members and a score.\<close>

fun requested :: "memstore \<Rightarrow> i64 \<Rightarrow> i64 \<Rightarrow> string list \<Rightarrow> (i64 \<times> i64 \<times> Score) option" where
  "requested s g u [a, sc] =
     (case (member_named s g a, ParseScore sc) of
        (Some x, Inr k) \<Rightarrow> if x = u then None else Some (u, x, k) | _ \<Rightarrow> None)"
| "requested s g u [a, b, sc] =
     (case (member_named s g a, member_named s g b, ParseScore sc) of
        (Some x, Some y, Inr k) \<Rightarrow> if x = y then None else Some (x, y, k) | _ \<Rightarrow> None)"
| "requested s g u _ = None"

text \<open>No token in a player's place is a School 21 nickname, which only the identity service knows.\<close>

definition by_username :: "string list \<Rightarrow> bool" where
  "by_username ts \<longleftrightarrow> (\<forall>t \<in> set (butlast ts). \<forall>i. ParseIdentifier t = Inr i \<longrightarrow> IsTelegram i)"

section \<open>The steps of the handler\<close>

lemma member_named_quiet: "quiet w w1 \<Longrightarrow> member_named (st w1) g t = member_named (st w) g t"
  by (simp add: member_named_def participantRepo_GetByUsername_def quietD(1) cong: sum.case_cong)

lemma resolve_member:
  assumes "\<And>i. ParseIdentifier t = Inr i \<Longrightarrow> IsTelegram i"
  shows "case member_named (st w) g t of
      None \<Rightarrow> \<exists>msg. fst (resolveMatchToken e g t w) = Inl msg
    | Some x \<Rightarrow> \<exists>p. fst (resolveMatchToken e g t w) = Inr p \<and> mp_TelegramID p = x"
  using assms
  by (auto simp: resolveMatchToken_def member_named_def case_prod_beta Let_def split: sum.splits)

text \<open>What the two players of the command are, and that finding them out is quiet.\<close>

lemma matchPlayers_quiet: "quiet w (snd (matchPlayers e m ts w))"
proof -
  have "quiet w (snd (resolveMatchToken e g t w1))" if "quiet w w1" for g t w1
    using quiet_trans [OF that resolveMatchToken_quiet] .
  then show ?thesis
    using resolveMatchToken_quiet displayFor_quiet
    by (simp add: matchPlayers_def case_prod_beta Let_def split: list.split sum.split)
qed

lemma matchPlayers_members:
  fixes e m w
  assumes "by_username ts" and "length ts = 2 \<or> length ts = 3" and "ParseScore (last ts) = Inr k"
  defines "u \<equiv> usr_ID (sender m)" and "g \<equiv> ch_ID (msg_Chat m)"
  shows "case requested (st w) g u ts of
      Some (x, y, k') \<Rightarrow> k' = k \<and> (\<exists>p q. fst (matchPlayers e m ts w) = Inr (p, q) \<and>
        mp_TelegramID p = x \<and> mp_TelegramID q = y \<and> x \<noteq> y)
    | None \<Rightarrow> (\<exists>t. fst (matchPlayers e m ts w) = Inl t) \<or>
        (\<exists>p q. fst (matchPlayers e m ts w) = Inr (p, q) \<and> mp_TelegramID p = mp_TelegramID q)"
proof -
  consider a sc where "ts = [a, sc]" | a b sc where "ts = [a, b, sc]"
    using assms(2) by (auto simp: length_Suc_conv numeral_2_eq_2 numeral_3_eq_3)
  then show ?thesis
  proof cases
    case 1
    let ?w1 = "snd (displayFor e g u (usr_Username (sender m)) w)"
    have t: "\<And>i. ParseIdentifier a = Inr i \<Longrightarrow> IsTelegram i" using assms(1) 1 by (simp add: by_username_def)
    have "member_named (st ?w1) g a = member_named (st w) g a" by (rule member_named_quiet [OF displayFor_quiet])
    moreover have "case member_named (st ?w1) g a of None \<Rightarrow> \<exists>msg. fst (resolveMatchToken e g a ?w1) = Inl msg
        | Some x \<Rightarrow> \<exists>p. fst (resolveMatchToken e g a ?w1) = Inr p \<and> mp_TelegramID p = x"
      using t by (rule resolve_member)
    ultimately show ?thesis
      using assms(3) 1
      by (auto simp: matchPlayers_def case_prod_beta Let_def u_def [symmetric] g_def [symmetric] split: option.splits)
  next
    case 2
    let ?w1 = "snd (resolveMatchToken e g a w)"
    have t: "\<And>i. ParseIdentifier a = Inr i \<Longrightarrow> IsTelegram i" "\<And>i. ParseIdentifier b = Inr i \<Longrightarrow> IsTelegram i"
      using assms(1) 2 by (simp_all add: by_username_def)
    have "member_named (st ?w1) g b = member_named (st w) g b" by (rule member_named_quiet [OF resolveMatchToken_quiet])
    moreover have "case member_named (st w) g a of None \<Rightarrow> \<exists>msg. fst (resolveMatchToken e g a w) = Inl msg
        | Some x \<Rightarrow> \<exists>p. fst (resolveMatchToken e g a w) = Inr p \<and> mp_TelegramID p = x"
      using t(1) by (rule resolve_member)
    moreover have "case member_named (st ?w1) g b of None \<Rightarrow> \<exists>msg. fst (resolveMatchToken e g b ?w1) = Inl msg
        | Some x \<Rightarrow> \<exists>p. fst (resolveMatchToken e g b ?w1) = Inr p \<and> mp_TelegramID p = x"
      using t(2) by (rule resolve_member)
    ultimately show ?thesis
      using assms(3) 2
      by (auto simp: matchPlayers_def case_prod_beta Let_def u_def [symmetric] g_def [symmetric] split: option.splits)
  qed
qed

text \<open>What registering adds: one row, the registrar's confirmation unless decided, two calls.\<close>

definition announcement :: "env \<Rightarrow> Group \<Rightarrow> i64 \<Rightarrow> bool \<Rightarrow> u64 \<Rightarrow> string \<Rightarrow> mcall" where
  "announcement e g gid adm i body =
     (if adm then SendMessage gid (g_MatchesTopicID g) body
      else SendKeyboard gid (g_MatchesTopicID g) body ''Confirm'' (cbConfirmPrefix @ groupMatchPayload gid i)
        ''Cancel'' (cbCancelPrefix @ groupMatchPayload gid i))"

definition rows_added :: "env \<Rightarrow> i64 \<Rightarrow> i64 \<Rightarrow> bool \<Rightarrow> u64 \<Rightarrow> Match \<Rightarrow> world \<Rightarrow> world \<Rightarrow> bool" where
  "rows_added e gid u adm i row w w' \<longleftrightarrow>
     matches (st w') = mput (gid, i) row (matches (st w)) \<and>
     confirmations (st w') = (if adm then confirmations (st w)
       else mput (gid, i, u) (own_confirmation gid i u (e_now e)) (confirmations (st w))) \<and>
     undos (st w') = undos (st w) \<and> participants (st w') = participants (st w) \<and>
     groups (st w') = groups (st w) \<and> counter (st w') = (counter (st w))(gid := i)"

lemma missingNickname_quiet: "quiet w (snd (missingNickname e p w))"
  by (simp add: missingNickname_def case_prod_beta hasNickname_quiet)

lemma counter_quiet: "quiet w w1 \<Longrightarrow> counter (st w1) = counter (st w)"
  by (simp add: counter_def quietD(8) fun_eq_iff)

lemma registerMatch_effect:
  fixes e m p q k w
  assumes "g_GroupID g = gid" and "ch_ID (msg_Chat m) = gid"
  defines "u \<equiv> usr_ID (sender m)"
  defines "adm \<equiv> admin_now e gid u w" and "i \<equiv> next_id gid w"
  defines "row \<equiv> new_match gid (mp_TelegramID p) (mp_TelegramID q) (P1 k) (P2 k) u adm (e_now e) i"
  shows "\<exists>body. calls (snd (registerMatch e m g p q k w)) = calls w @ [IsChatAdmin gid u, announcement e g gid adm i body] \<and>
     rows_added e gid u adm i row w (snd (registerMatch e m g p q k w)) \<and>
     fst (registerMatch e m g p q k w) = (case e_send e (calls w @ [IsChatAdmin gid u]) (announcement e g gid adm i body) of
       Inl x \<Rightarrow> HErr (EMess x) | Inr _ \<Rightarrow> HNil)"
proof -
  let ?w1 = "w\<lparr>calls := calls w @ [IsChatAdmin gid u]\<rparr>"
  let ?w2 = "allocated gid (new_match gid (mp_TelegramID p) (mp_TelegramID q) (P1 k) (P2 k) u adm (e_now e)) ?w1"
  have a: "isChatAdmin e gid u w = (adm, ?w1)" by (simp add: isChatAdmin_now adm_def)
  have i: "AllocateAndInsertMatch gid (new_match gid (mp_TelegramID p) (mp_TelegramID q) (P1 k) (P2 k) u adm (e_now e)) (st ?w1)
      = (i, st ?w2)"
    using Allocate_fst [of gid _ ?w1] by (simp add: allocated_def prod_eq_iff i_def next_id_def)
  have w2: "?w1\<lparr>st := st ?w2\<rparr> = ?w2" by (simp add: allocated_def)
  obtain t w3 where t: "renderMatch e gid (new_match 0 (mp_TelegramID p) (mp_TelegramID q) (P1 k) (P2 k) u adm (e_now e) i)
      (if adm then ''registered'' else ''pending'') ?w2 = (t, w3)" by fastforce
  obtain m1 w4 where m1: "missingNickname e p w3 = (m1, w4)" by fastforce
  obtain m2 w5 where m2: "missingNickname e q w4 = (m2, w5)" by fastforce
  define body where "body = (t @ playerNote p @ playerNote q) @ ratingsNote adm (m1 @ m2)"
  have "quiet ?w2 w3" using renderMatch_quiet [where w = ?w2] t by (metis snd_conv)
  moreover have "quiet w3 w4" "quiet w4 w5"
    using missingNickname_quiet [of w3 e p] missingNickname_quiet [of w4 e q] by (simp_all add: m1 m2)
  ultimately have q: "quiet ?w2 w5" by (blast intro: quiet_trans)
  have eq: "registerMatch e m g p q k w = (if adm
      then (let (r, w6) = m_send e (SendMessage gid (g_MatchesTopicID g) body) w5 in
        case r of Inl err \<Rightarrow> (HErr (EMess err), w6) | Inr _ \<Rightarrow> (HNil, detachedRefreshStatsTopic g w6))
      else send_res e (SendKeyboard gid (g_MatchesTopicID g) body ''Confirm'' (cbConfirmPrefix @ groupMatchPayload gid i)
          ''Cancel'' (cbCancelPrefix @ groupMatchPayload gid i)) (upd_st (confirmRepo_Insert (own_confirmation gid i u (e_now e))) w5))"
    unfolding registerMatch_def assms(1,2) u_def [symmetric] a Let_def prod.case i w2 t m1 m2 body_def by (rule refl)
  have "rows_added e gid u adm i row w (upd_st (if adm then id else confirmRepo_Insert (own_confirmation gid i u (e_now e))) w5)"
    using quietD [OF q] counter_quiet [OF q]
    by (auto simp: rows_added_def row_def allocated_matches allocated_counter i_def next_id_def counter_def fun_eq_iff
        confirmRepo_Insert_def own_confirmation_def conf_key_def allocated_def AllocateAndInsertMatch_def Let_def)
  then show ?thesis
    using quietD(9) [OF q] unfolding eq
    by (intro exI [of _ body])
      (auto simp: body_def announcement_def rows_added_def send_res_def m_send_def detachedRefreshStatsTopic_def
        allocated_def split: sum.splits)
qed

text \<open>A rejected command: one answer in the topic, no row of a match touched.\<close>

definition only_answered :: "Message \<Rightarrow> world \<Rightarrow> world \<Rightarrow> bool" where
  "only_answered m w w' \<longleftrightarrow>
     (\<exists>t. calls w' = calls w @ [SendMessage (ch_ID (msg_Chat m)) (msg_MessageThreadID m) t]) \<and>
     matches (st w') = matches (st w) \<and> confirmations (st w') = confirmations (st w) \<and>
     undos (st w') = undos (st w) \<and> counter (st w') = counter (st w) \<and>
     participants (st w') = participants (st w) \<and> groups (st w') = groups (st w) \<and> detached w' = detached w"

lemma reply_only_answered: "quiet w w1 \<Longrightarrow> only_answered m w (snd (reply e m t w1))"
  by (simp add: only_answered_def quietD counter_quiet)

lemma requested_Some:
  "requested s g u ts = Some r \<Longrightarrow> (length ts = 2 \<or> length ts = 3) \<and> (\<exists>k. ParseScore (last ts) = Inr k)"
  by (induction s g u ts rule: requested.induct) (auto split: option.splits sum.splits)

text \<open>The handler meets the specification, on every branch.\<close>

lemma typed_match_spec:
  fixes e m args w
  defines "gid \<equiv> ch_ID (msg_Chat m)" and "u \<equiv> usr_ID (sender m)" and "w' \<equiv> snd (handleMatch e m args w)"
  defines "adm \<equiv> admin_now e gid u w" and "i \<equiv> next_id gid w"
  assumes "world_ok w" and "groupRepo_Get (st w) gid = Inr g" and "FullyConfigured g"
    and "msg_MessageThreadID m = g_MatchesTopicID g" and "TrimSpace args \<noteq> []" and "by_username (Fields args)"
  shows "case requested (st w) gid u (Fields args) of
      None \<Rightarrow> only_answered m w w'
    | Some (x, y, k) \<Rightarrow>
        rows_added e gid u adm i (new_match gid x y (P1 k) (P2 k) u adm (e_now e) i) w w' \<and>
        (\<exists>body. calls w' = calls w @ [IsChatAdmin gid u, announcement e g gid adm i body] \<and>
          fst (handleMatch e m args w) = (case e_send e (calls w @ [IsChatAdmin gid u]) (announcement e g gid adm i body) of
            Inl x \<Rightarrow> HErr (EMess x) | Inr _ \<Rightarrow> HNil))"
proof -
  let ?ts = "Fields args"
  have gid: "g_GroupID g = gid" using assms(6,7) by (rule group_id)
  have chat: "ch_ID (msg_Chat m) = gid" by (simp add: gid_def)
  have h: "handleMatch e m args w = typedMatch e m g args w"
    using assms(7-10) by (simp add: handleMatch_def gid_def)
  obtain r w1 where mp: "matchPlayers e m ?ts w = (r, w1)" by fastforce
  have q: "quiet w w1" using matchPlayers_quiet [of w e m ?ts] mp by simp
  show ?thesis
  proof (cases "(length ?ts = 2 \<or> length ?ts = 3) \<and> (\<exists>k. ParseScore (last ?ts) = Inr k)")
    case False
    then have none: "requested (st w) gid u ?ts = None" using requested_Some by (metis not_None_eq)
    have "\<exists>t. typedMatch e m g args w = reply e m t w"
      using False by (cases "ParseScore (last ?ts)") (auto simp: typedMatch_def Let_def)
    then show ?thesis using reply_only_answered [OF quiet_refl] by (auto simp: w'_def h none)
  next
    case True
    then obtain k where k: "ParseScore (last ?ts) = Inr k" by blast
    have t: "typedMatch e m g args w = (case r of Inl t \<Rightarrow> reply e m t w1
        | Inr (p, q) \<Rightarrow> if mp_TelegramID p = mp_TelegramID q then reply e m ''A player cannot play themselves.'' w1
            else registerMatch e m g p q k w1)"
      using True k mp by (auto simp: typedMatch_def Let_def split: sum.split)
    note members = matchPlayers_members [OF assms(11) conjunct1 [OF True] k, where w = w and m = m and e = e, unfolded mp fst_conv,
        folded gid_def u_def]
    show ?thesis
    proof (cases "requested (st w) gid u ?ts")
      case None
      then have "\<exists>t. typedMatch e m g args w = reply e m t w1" using members t by auto
      then show ?thesis using reply_only_answered [OF q] None by (auto simp: w'_def h)
    next
      case (Some a)
      then obtain x y p p' where a: "a = (x, y, k)" and r: "r = Inr (p, p')" "mp_TelegramID p = x" "mp_TelegramID p' = y" "x \<noteq> y"
        using members by (cases a) auto
      have same: "calls w1 = calls w" "admin_now e gid u w1 = adm" "next_id gid w1 = i"
        using quietD(9) [OF q] counter_quiet [OF q] by (simp_all add: admin_now_def adm_def next_id_def i_def)
      have rows: "rows_added e gid u adm i row w1 = rows_added e gid u adm i row w" for row
        using quietD [OF q] counter_quiet [OF q] by (simp add: rows_added_def fun_eq_iff)
      have "typedMatch e m g args w = registerMatch e m g p p' k w1" using t r by simp
      then show ?thesis
        using registerMatch_effect [OF gid chat, where e = e and p = p and q = p' and k = k and w = w1]
        unfolding w'_def h Some a u_def [symmetric] same rows r(2,3) option.case prod.case by fastforce
    qed
  qed
qed

section \<open>Properties\<close>


text \<open>C7. From the command to the approved match: after a player who is no administrator has typed
  \<open>/match\<close> against another member, the last message the bot sent carries a Confirm button, and when
  the opponent taps the button with exactly that data, the match is stored as APPROVED under the id that was
  announced, with its players and score, and every other match is as it was before.\<close>

theorem typed_match_approved:
  fixes e m args w
  defines "gid \<equiv> ch_ID (msg_Chat m)" and "u \<equiv> usr_ID (sender m)" and "w' \<equiv> snd (handleMatch e m args w)"
  defines "i \<equiv> next_id gid w"
  assumes "world_ok w" and "groupRepo_Get (st w) gid = Inr g" and "FullyConfigured g"
    and "msg_MessageThreadID m = g_MatchesTopicID g" and "TrimSpace args \<noteq> []" and "by_username (Fields args)"
    and "room w" and "requested (st w) gid u (Fields args) = Some (u, y, k)" and "\<not> admin_now e gid u w"
    and "cq_From q = Some v" and "usr_ID v = y" and "cq_Message q \<noteq> None"
  shows "\<exists>topic body data cancel. last (calls w') = SendKeyboard gid topic body ''Confirm'' data ''Cancel'' cancel \<and>
    (cq_Data q = data \<longrightarrow> mget (matches (st (snd (Dispatch e2 (tap_update q) w')))) =
      (mget (matches (st w)))((gid, i) \<mapsto> new_match gid u y (P1 k) (P2 k) u True (e_now e) i))"
proof -
  let ?row = "new_match gid u y (P1 k) (P2 k) u False (e_now e) i"
  note spec = typed_match_spec [where e = e, OF assms(5-10) [unfolded gid_def], folded gid_def u_def w'_def, folded i_def,
      unfolded assms(12) option.case prod.case]
  have rows: "rows_added e gid u False i ?row w w'"
    and "\<exists>body. calls w' = calls w @ [IsChatAdmin gid u, announcement e g gid False i body]"
    using spec assms(13) by auto
  then obtain body where sent: "last (calls w') = announcement e g gid False i body" by auto
  have ok: "world_ok w'"
    using handleMatch_permitted [of e m w args] assms(5,11) by (simp add: permitted_def w'_def)
  have m: "mget (matches (st w')) (gid, i) = Some ?row"
    and c: "mget (confirmations (st w')) (gid, i, u) \<noteq> None" using rows by (simp_all add: rows_added_def)
  have p: "m_Player1ID ?row = u" "m_Player2ID ?row = y" "m_Status ?row = MatchStatusPending"
    by (simp_all add: new_match_def)
  have v: "usr_ID (tapper q) = y" using assms(14,15) by (simp add: tapper_def)
  have plays: "plays_in (usr_ID (tapper q)) ?row" by (simp add: plays_in_def p v)
  have both: "mget (mput (gid, i, y) x (confirmations (st w'))) (gid, i, u) \<noteq> None"
    "mget (mput (gid, i, y) x (confirmations (st w'))) (gid, i, y) \<noteq> None" for x
    using c by simp_all
  have "matches (st (snd (handleConfirmTap e2 q (groupMatchPayload gid i) w'))) =
      mput (gid, i) (?row\<lparr>m_Status := MatchStatusApproved\<rparr>) (matches (st w'))"
    by (simp only: player_confirms(1) [OF world_ok_wf [OF ok] m p(3) assms(16) plays refl] p v both simp_thms if_True)
  moreover have "?row\<lparr>m_Status := MatchStatusApproved\<rparr> = new_match gid u y (P1 k) (P2 k) u True (e_now e) i"
    by (simp add: new_match_def)
  ultimately have "mget (matches (st (snd (handleConfirmTap e2 q (groupMatchPayload gid i) w')))) =
      (mget (matches (st w)))((gid, i) \<mapsto> new_match gid u y (P1 k) (P2 k) u True (e_now e) i)"
    using rows by (simp add: rows_added_def fun_eq_iff)
  then show ?thesis
    using assms(14) sent by (simp add: announcement_def dispatch_confirm)
qed

definition typed_world :: world where
  "typed_world = handlers_New (fold participantRepo_Upsert
     [participant_of 7 (example_user 2\<lparr>usr_Username := ''alice1''\<rparr>) 0,
      participant_of 7 (example_user 3\<lparr>usr_Username := ''bobby1''\<rparr>) 0]
     (groupRepo_Upsert example_group memstore_New))"

lemma typed_world_rows:
  "groups (st typed_world) = [(7, example_group)]" "matches (st typed_world) = []" "calls typed_world = []"
  "participants (st typed_world) = [((7, 2), participant_of 7 (example_user 2\<lparr>usr_Username := ''alice1''\<rparr>) 0),
    ((7, 3), participant_of 7 (example_user 3\<lparr>usr_Username := ''bobby1''\<rparr>) 0)]"
  "matchCounters (st typed_world) = []"
  by (simp_all add: typed_world_def handlers_New_def repo_put_defs memstore_New_def example_group_def
      participant_of_def example_user_def)

lemma typed_world_ok: "world_ok typed_world"
  unfolding typed_world_def
  by (rule world_ok_New)
    (simp_all add: wf_participantRepo_Upsert wf_groupRepo_Upsert wf_store_New, simp add: repo_put_defs memstore_New_def)

lemma typed_example:
  "by_username (Fields ''@Bobby1 3-1'')" "TrimSpace ''@Bobby1 3-1'' \<noteq> []"
  "requested (st typed_world) 7 2 (Fields ''@Bobby1 3-1'') = Some (2, 3, \<lparr>P1 = 3, P2 = 1\<rparr>)"
proof -
  have ts: "Fields ''@Bobby1 3-1'' = [''@Bobby1'', ''3-1'']" by code_simp
  have i: "ParseIdentifier ''@Bobby1'' = Inr \<lparr>IsTelegram = True, Value = ''Bobby1''\<rparr>" by code_simp
  have k: "ParseScore ''3-1'' = Inr \<lparr>P1 = 3, P2 = 1\<rparr>"
  proof -
    have "ScoreRegex ''3-1'' = Some (dec 3, dec 1)" by code_simp
    then show ?thesis by (simp add: ParseScore_def ParseUint_dec ScoreMax_def del: dec.simps)
  qed
  have f: "EqualFold ''bobby1'' ''Bobby1''" "\<not> EqualFold ''alice1'' ''Bobby1''" by code_simp+
  have "member_named (st typed_world) 7 ''@Bobby1'' = Some 3"
    by (simp add: member_named_def i f participantRepo_GetByUsername_def typed_world_rows participant_of_def example_user_def)
  then show "requested (st typed_world) 7 2 (Fields ''@Bobby1 3-1'') = Some (2, 3, \<lparr>P1 = 3, P2 = 1\<rparr>)"
    by (simp add: ts k)
  show "by_username (Fields ''@Bobby1 3-1'')" by (simp add: by_username_def ts i)
  show "TrimSpace ''@Bobby1 3-1'' \<noteq> []" by code_simp
qed

lemma typed_example_group:
  "groupRepo_Get (st typed_world) 7 = Inr example_group" "FullyConfigured example_group"
  "msg_MessageThreadID (example_message 2 []) = g_MatchesTopicID example_group"
  by (simp_all add: groupRepo_Get_def get_or_def typed_world_rows FullyConfigured_def example_group_def example_message_def)

lemma typed_example_sel:
  "ch_ID (msg_Chat (example_message 2 [])) = 7" "usr_ID (sender (example_message 2 [])) = 2"
  "next_id 7 typed_world = 1" "\<not> admin_now example_env 7 2 typed_world" "e_now example_env = 1000 * hour"
  by (simp_all add: example_message_def example_chat_def sender_def example_user_def next_id_def counter_def
      typed_world_rows admin_now_def example_env_def)


theorem typed_match_approved_witness:
  "\<exists>data. mget (matches (st (snd (Dispatch example_env (tap_update (query 3 200 [] data))
       (snd (handleMatch example_env (example_message 2 []) ''@Bobby1 3-1'' typed_world)))))) (7, 1) =
     Some (new_match 7 2 3 3 1 2 True (1000 * hour) 1)"
proof -
  let ?w = "snd (handleMatch example_env (example_message 2 []) ''@Bobby1 3-1'' typed_world)"
  have r: "room typed_world" by (simp add: room_def counter_def typed_world_rows)
  have q: "cq_From (query 3 200 [] d) = Some (example_user 3)" "usr_ID (example_user 3) = 3"
    "cq_Message (query 3 200 [] d) \<noteq> None" for d
    by (simp_all add: query_def example_user_def)
  have "\<exists>topic body data cancel. last (calls ?w) = SendKeyboard 7 topic body ''Confirm'' data ''Cancel'' cancel \<and>
    (cq_Data (query 3 200 [] d) = data \<longrightarrow> mget (matches (st (snd (Dispatch example_env (tap_update (query 3 200 [] d)) ?w)))) =
      (mget (matches (st typed_world)))((7, 1) \<mapsto> new_match 7 2 3 3 1 2 True (1000 * hour) 1))" for d
    using typed_match_approved [OF typed_world_ok, of "example_message 2 []" example_group "''@Bobby1 3-1''",
        unfolded typed_example_sel, OF typed_example_group typed_example(2,1) r typed_example(3) typed_example_sel(4) q,
        of d example_env]
    by (simp del: Dispatch_tap)
  moreover obtain data topic body cancel where "last (calls ?w) = SendKeyboard 7 topic body ''Confirm'' data ''Cancel'' cancel"
    using calculation by blast
  ultimately have "mget (matches (st (snd (Dispatch example_env (tap_update (query 3 200 [] data)) ?w)))) =
      (mget (matches (st typed_world)))((7, 1) \<mapsto> new_match 7 2 3 3 1 2 True (1000 * hour) 1)"
    by (simp add: query_def del: Dispatch_tap)
  then show ?thesis by (intro exI [of _ data]) (simp del: Dispatch_tap)
qed

end
