(* ===== verification/Testkit.thy ===== *)
theory Testkit
  imports Runs MessengerMock
begin

text \<open>
  The scenario kit (\<open>pkg/testkit/testkit.go\<close>): fixtures, inbound updates and assertions over
  the real handlers, the in-memory store, the recording messenger, the platform mock and a fake
  identity server. \<open>T.Fatal\<close> ends a scenario: an operation that may fail the test
  returns an option. The handlers are run with the environment the kit wires up (\<open>kit_env\<close>);
  the calls they make are then replayed on the messenger mock, whose answers they were given
  (\<open>Transcripts\<close> shows that these agree). The platform mock is consulted as it is when an update
  comes in: the kit injects no failure, and then \<open>Authenticate\<close> leaves it alone. The counts of
  the fake server's endpoints are those of the requests made to it directly. Left to parameters
  are the identity SDK that speaks to the fake server, AES-GCM and the account package.
\<close>

section \<open>The fake identity server\<close>

record fakeIdentity =
  fi_byTID :: "(i64, IdentityUser) gomap"
  fi_hits :: "(string, int) gomap"

record fakeUserDTO =
  dto_TelegramID :: i64
  dto_Nickname :: string
  dto_CampusID :: string
  dto_CampusName :: string
  dto_CoalitionName :: string
  dto_CreatedAt :: time
  dto_UpdatedAt :: time

text \<open>A response: the status and the value that is encoded into the body, if any.\<close>

datatype fake_body = NoBody | NotFoundBody | UserBody fakeUserDTO | UsersBody "fakeUserDTO list"

record fake_response =
  rs_status :: nat
  rs_json :: bool
  rs_body :: fake_body

definition newFakeIdentity :: fakeIdentity where
  "newFakeIdentity = \<lparr>fi_byTID = [], fi_hits = []\<rparr>"

definition fake_Put :: "IdentityUser \<Rightarrow> fakeIdentity \<Rightarrow> fakeIdentity" where
  "fake_Put u f = f\<lparr>fi_byTID := mput (iu_TelegramID u) u (fi_byTID f)\<rparr>"

definition fake_Hits :: "fakeIdentity \<Rightarrow> (string, int) gomap" where
  "fake_Hits f = fold (\<lambda>(k, v) out. mput k v out) (fi_hits f) []"

definition fake_bump :: "string \<Rightarrow> fakeIdentity \<Rightarrow> fakeIdentity" where
  "fake_bump path f =
     f\<lparr>fi_hits := mput path ((case mget (fi_hits f) path of None \<Rightarrow> 0 | Some n \<Rightarrow> n) + 1) (fi_hits f)\<rparr>"

definition writeHeader :: "nat \<Rightarrow> fake_response" where
  "writeHeader code = \<lparr>rs_status = code, rs_json = False, rs_body = NoBody\<rparr>"

definition writeJSON :: "nat \<Rightarrow> fake_body \<Rightarrow> fake_response" where
  "writeJSON code body = \<lparr>rs_status = code, rs_json = True, rs_body = body\<rparr>"

definition dto_of :: "IdentityUser \<Rightarrow> fakeUserDTO" where
  "dto_of u = \<lparr>dto_TelegramID = iu_TelegramID u, dto_Nickname = iu_Nickname u, dto_CampusID = iu_CampusID u,
     dto_CampusName = iu_CampusName u, dto_CoalitionName = iu_CoalitionName u,
     dto_CreatedAt = zero_time, dto_UpdatedAt = zero_time\<rparr>"

text \<open>\<open>url.PathUnescape\<close>: as \<open>QueryUnescape\<close>, but a plus stays.\<close>

fun PathUnescape :: "string \<Rightarrow> string option" where
  "PathUnescape [] = Some []"
| "PathUnescape (c # s) =
     (if c = CHR ''%'' then
        (case s of
           h # l # r \<Rightarrow>
             (case (hex_value h, hex_value l, PathUnescape r) of
                (Some a, Some b, Some t) \<Rightarrow> Some (char_of (a * 16 + b) # t)
              | _ \<Rightarrow> None)
         | _ \<Rightarrow> None)
      else map_option (Cons c) (PathUnescape s))"

definition by_telegram :: string where "by_telegram = ''/users/by_telegram/''"
definition by_nickname :: string where "by_nickname = ''/users/by_nickname/''"

text \<open>\<open>r.URL.Path\<close> is the path as \<open>net/http\<close> has already decoded it.\<close>

definition handleByTelegram :: "string \<Rightarrow> string \<Rightarrow> fakeIdentity \<Rightarrow> fake_response \<times> fakeIdentity" where
  "handleByTelegram method path f0 =
     (let f = fake_bump ''by_telegram'' f0 in
      (if method \<noteq> ''GET'' then writeHeader 405
       else case ParseInt 64 (TrimPrefix path by_telegram) of
           None \<Rightarrow> writeHeader 400
         | Some tid \<Rightarrow>
             (case mget (fi_byTID f) (word_of_int tid) of
                None \<Rightarrow> \<lparr>rs_status = 404, rs_json = False, rs_body = NotFoundBody\<rparr>
              | Some u \<Rightarrow> writeJSON 200 (UserBody (dto_of u))), f))"

definition dto_less :: "fakeUserDTO \<Rightarrow> fakeUserDTO \<Rightarrow> bool" where
  "dto_less a b \<longleftrightarrow> sint (dto_TelegramID a) < sint (dto_TelegramID b)"

definition handleByNickname :: "string \<Rightarrow> string \<Rightarrow> fakeIdentity \<Rightarrow> fake_response \<times> fakeIdentity" where
  "handleByNickname method path f0 =
     (let f = fake_bump ''by_nickname'' f0 in
      (if method \<noteq> ''GET'' then writeHeader 405
       else case PathUnescape (TrimPrefix path by_nickname) of
           None \<Rightarrow> writeHeader 400
         | Some nick \<Rightarrow>
             (let dtos = map (dto_of \<circ> snd) (filter (\<lambda>(_, u). EqualFold (iu_Nickname u) nick) (fi_byTID f)) in
              writeJSON 200 (UsersBody (sort_by dto_less dtos))), f))"

text \<open>The two routes of the server; \<open>ServeMux\<close> answers anything else itself.\<close>

definition fake_serve :: "string \<Rightarrow> string \<Rightarrow> fakeIdentity \<Rightarrow> fake_response \<times> fakeIdentity" where
  "fake_serve method path f =
     (if HasPrefix path by_telegram then handleByTelegram method path f
      else if HasPrefix path by_nickname then handleByNickname method path f
      else (writeHeader 404, f))"

section \<open>The fixture\<close>

text \<open>What the kit does not define: the surroundings it leaves alone (wall clock, \<open>libm\<close>, the
  account package), AES-GCM, and the identity SDK over an HTTP server at \<open>out_URL\<close>.\<close>

record outside =
  out_env :: env
  out_newGCM :: "string \<Rightarrow> AEAD option"
  out_sdk :: "(string \<Rightarrow> string \<Rightarrow> fake_response) \<Rightarrow> string \<Rightarrow> string \<Rightarrow> identity_client"
  out_URL :: string

text \<open>\<open>World\<close>; the store and the state of the handlers are \<open>tw_bot\<close>.\<close>

record TestWorld =
  tw_bot :: world
  tw_Messen :: Mock
  tw_S21 :: S21Mock
  tw_Cipher :: AEAD
  tw_Fake :: fakeIdentity
  tw_clock :: time
  tw_nextMessageID :: i64
  tw_usernames :: "(i64, string) gomap"

definition upd_store :: "(memstore \<Rightarrow> memstore) \<Rightarrow> TestWorld \<Rightarrow> TestWorld" where
  "upd_store f w = w\<lparr>tw_bot := upd_st f (tw_bot w)\<rparr>"

definition baselineLoginTelegramID :: i64 where "baselineLoginTelegramID = 99999999"

definition make32ByteKey :: string where
  "make32ByteKey = map char_of [0..<32::nat]"

text \<open>January 1, 2026, 12:00 UTC.\<close>

definition startClock :: time where
  "startClock = 1767268800 * 10 ^ 9"

text \<open>\<open>secret, _ := c.Encrypt(password)\<close>; \<open>rnd\<close> is the nonce read, if it could be.\<close>

definition encrypt_or_empty :: "AEAD \<Rightarrow> string option \<Rightarrow> string \<Rightarrow> string" where
  "encrypt_or_empty c rnd p = (case Encrypt c rnd p of Inl _ \<Rightarrow> [] | Inr x \<Rightarrow> x)"

definition fresh_account :: "i64 \<Rightarrow> string \<Rightarrow> string \<Rightarrow> string \<Rightarrow> string \<Rightarrow> time \<Rightarrow> S21Account" where
  "fresh_account tid login secret campusID campusName now =
     \<lparr>acc_TelegramID = tid, acc_S21Login = login, acc_S21CredsEncrypted = secret, acc_CampusID = campusID,
      acc_CampusName = campusName, acc_CreatedAt = now, acc_UpdatedAt = now, acc_LastUsedAt = None,
      acc_S21CredsFailedAt = None, acc_S21CredsLastWarnedAt = None\<rparr>"

definition profile_of :: "string \<Rightarrow> string \<Rightarrow> string \<Rightarrow> Profile" where
  "profile_of login campusID campusName =
     \<lparr>pf_Login = login, pf_CampusID = campusID, pf_CampusName = campusName, pf_CoalitionName = []\<rparr>"

definition testkit_New :: "outside \<Rightarrow> string option \<Rightarrow> TestWorld option" where
  "testkit_New out rnd =
     (case NewFromKey (out_newGCM out) make32ByteKey of
        Inl _ \<Rightarrow> None
      | Inr c \<Rightarrow>
          (let w = \<lparr>tw_bot = handlers_New memstore_New, tw_Messen = NewMock, tw_S21 = s21_NewMock,
                 tw_Cipher = c, tw_Fake = newFakeIdentity, tw_clock = startClock, tw_nextMessageID = 0,
                 tw_usernames = []\<rparr>;
               sm = SetAdminPassword ''tk-login'' ''tk-password''
                 (SetUser ''tk-login'' ''tk-password'' (profile_of ''tk-login'' ''tk'' ''TK Campus'') (tw_S21 w));
               secret = encrypt_or_empty c rnd ''tk-password''
           in Some (upd_store (s21AccountRepo_Upsert (fresh_account baselineLoginTelegramID ''tk-login'' secret
                ''tk'' ''TK Campus'' (tw_clock w))) (w\<lparr>tw_S21 := sm\<rparr>))))"

definition Advance :: "duration \<Rightarrow> TestWorld \<Rightarrow> TestWorld" where
  "Advance d w = w\<lparr>tw_clock := tw_clock w + d\<rparr>"

definition SetClock :: "time \<Rightarrow> TestWorld \<Rightarrow> TestWorld" where
  "SetClock t w = w\<lparr>tw_clock := t\<rparr>"

definition IdentityFlushCache :: "TestWorld \<Rightarrow> TestWorld" where
  "IdentityFlushCache w = w"

definition allocMessageID :: "TestWorld \<Rightarrow> i64 \<times> TestWorld" where
  "allocMessageID w = (tw_nextMessageID w + 1, w\<lparr>tw_nextMessageID := tw_nextMessageID w + 1\<rparr>)"

definition usernameFor :: "TestWorld \<Rightarrow> i64 \<Rightarrow> string" where
  "usernameFor w tid = (case mget (tw_usernames w) tid of None \<Rightarrow> [] | Some n \<Rightarrow> n)"

section \<open>Users and groups\<close>

record TestUser =
  tu_TelegramID :: i64
  tu_Username :: string
  tu_IsBot :: bool

record TestGroup =
  tgr_GroupID :: i64
  tgr_CampusID :: string
  tgr_MatchesTopicID :: i64
  tgr_StatsTopicID :: i64

definition AddUser :: "i64 \<Rightarrow> string \<Rightarrow> TestWorld \<Rightarrow> TestUser \<times> TestWorld" where
  "AddUser tid name w =
     (\<lparr>tu_TelegramID = tid, tu_Username = name, tu_IsBot = False\<rparr>,
      w\<lparr>tw_usernames := mput tid name (tw_usernames w)\<rparr>)"

definition SetNickname :: "TestUser \<Rightarrow> string \<Rightarrow> string \<Rightarrow> string \<Rightarrow> TestWorld \<Rightarrow> TestWorld" where
  "SetNickname u nick campusID campusName w = IdentityFlushCache
     (w\<lparr>tw_Fake := fake_Put \<lparr>iu_TelegramID = tu_TelegramID u, iu_Nickname = nick, iu_CampusID = campusID,
        iu_CampusName = campusName, iu_CoalitionName = [], iu_Found = True\<rparr> (tw_Fake w)\<rparr>)"

definition MakeAdmin ::
  "string option \<Rightarrow> TestUser \<Rightarrow> string \<Rightarrow> string \<Rightarrow> string \<Rightarrow> string \<Rightarrow> TestWorld \<Rightarrow> TestWorld" where
  "MakeAdmin rnd u login password campusID campusName w =
     (let w1 = w\<lparr>tw_S21 := SetAdminPassword login password
            (SetUser login password (profile_of login campusID campusName) (tw_S21 w))\<rparr>;
          secret = encrypt_or_empty (tw_Cipher w) rnd password;
          w2 = upd_store (s21AccountRepo_Upsert
            (fresh_account (tu_TelegramID u) login secret campusID campusName (tw_clock w))) w1
      in upd_store (adminRepo_Upsert \<lparr>a_TelegramID = tu_TelegramID u, a_CampusID = campusID,
           a_CampusName = campusName, a_S21Login = login, a_S21CredentialsEncrypted = secret,
           a_CreatedAt = tw_clock w\<rparr>) w2)"

definition AddConfiguredGroup ::
  "i64 \<Rightarrow> string \<Rightarrow> string \<Rightarrow> i64 \<Rightarrow> i64 \<Rightarrow> i64 \<Rightarrow> TestWorld \<Rightarrow> TestGroup \<times> TestWorld" where
  "AddConfiguredGroup gid campusID campusName admin mtopic stopic w =
     (let g = zero_Group\<lparr>g_GroupID := gid, g_CampusID := campusID, g_CampusName := campusName,
            g_AdminTelegramID := admin, g_MatchesTopicID := mtopic, g_StatsTopicID := stopic,
            g_ConfirmationTimeoutHours := 24, g_CreatedAt := tw_clock w\<rparr>;
          w1 = upd_store (groupRepo_Upsert g) w
      in (\<lparr>tgr_GroupID = gid, tgr_CampusID = campusID, tgr_MatchesTopicID = mtopic, tgr_StatsTopicID = stopic\<rparr>,
          w1\<lparr>tw_Messen := SetChatAdmin gid admin True (tw_Messen w1)\<rparr>))"

definition SetGroupAdmin :: "TestGroup \<Rightarrow> TestUser \<Rightarrow> bool \<Rightarrow> TestWorld \<Rightarrow> TestWorld" where
  "SetGroupAdmin g u b w = w\<lparr>tw_Messen := SetChatAdmin (tgr_GroupID g) (tu_TelegramID u) b (tw_Messen w)\<rparr>"

definition AddPlayer :: "TestGroup \<Rightarrow> i64 \<Rightarrow> TestWorld \<Rightarrow> TestWorld" where
  "AddPlayer g tid w = upd_store (participantRepo_Upsert \<lparr>p_GroupID = tgr_GroupID g, p_TelegramID = tid,
     p_TelegramUsername = usernameFor w tid, p_ActivatedAt = tw_clock w\<rparr>) w"

section \<open>Inbound updates\<close>

text \<open>The messenger mock after a sequence of calls.\<close>

definition replay :: "mcall list \<Rightarrow> Mock \<Rightarrow> Mock" where
  "replay cs k = fold (\<lambda>c k. snd (Mock_do c k)) cs k"

text \<open>What the handlers meet: the answers of the mocks, as they are after the calls logged.\<close>

definition answer_id :: "mresp \<Rightarrow> merr + i64" where
  "answer_id r = (case r of RId x \<Rightarrow> x | _ \<Rightarrow> Inr 0)"

definition answer_done :: "mresp \<Rightarrow> merr option" where
  "answer_done r = (case r of RDone x \<Rightarrow> x | _ \<Rightarrow> None)"

definition answer_bool :: "mresp \<Rightarrow> merr + bool" where
  "answer_bool r = (case r of RBool x \<Rightarrow> x | _ \<Rightarrow> Inr False)"

definition answer_name :: "mresp \<Rightarrow> merr + string" where
  "answer_name r = (case r of RName x \<Rightarrow> x | _ \<Rightarrow> Inr [])"

definition kit_env :: "outside \<Rightarrow> TestWorld \<Rightarrow> env" where
  "kit_env out w =
     (let k = tw_Messen w; says = (\<lambda>cs c. fst (Mock_do c (replay cs k))) in
      (out_env out)\<lparr>e_now := tw_clock w, e_IdentityBaseURL := out_URL out, e_RatingPeriodDaysDefault := 1,
        e_send := (\<lambda>cs c. answer_id (says cs c)), e_act := (\<lambda>cs c. answer_done (says cs c)),
        e_admin := (\<lambda>cs a u. answer_bool (says cs (IsChatAdmin a u))),
        e_username := (\<lambda>cs a u. answer_name (says cs (ResolveChatMemberUsername a u))),
        e_client := (\<lambda>_. out_sdk out (\<lambda>method path. fst (fake_serve method path (tw_Fake w)))),
        e_Authenticate := (\<lambda>login password. fst (mock_Authenticate login password (tw_S21 w))),
        e_cipher := tw_Cipher w\<rparr>)"

text \<open>\<open>WaitForDetachedRefreshes\<close>: the refreshes started come to their end, here in the order
  they were started.\<close>

fun wait_refreshes :: "env \<Rightarrow> nat \<Rightarrow> world \<Rightarrow> world" where
  "wait_refreshes e 0 w = w"
| "wait_refreshes e (Suc n) w = wait_refreshes e n (runDetached e 0 w)"

definition WaitForDetachedRefreshes :: "env \<Rightarrow> world \<Rightarrow> world" where
  "WaitForDetachedRefreshes e w = wait_refreshes e (length (detached w)) w"

text \<open>The handlers run on an empty log, which the messenger mock then records; \<open>None\<close> is
  \<open>T.Fatalf\<close> (or a panic).\<close>

definition settle :: "TestWorld \<Rightarrow> hres \<times> world \<Rightarrow> TestWorld option" where
  "settle w r =
     (case r of
        (HNil, b) \<Rightarrow> Some (w\<lparr>tw_bot := b, tw_Messen := replay (calls b) (tw_Messen w)\<rparr>)
      | _ \<Rightarrow> None)"

definition fresh_log :: "TestWorld \<Rightarrow> world" where
  "fresh_log w = (tw_bot w)\<lparr>calls := []\<rparr>"

definition dispatchUpdate :: "outside \<Rightarrow> Update \<Rightarrow> TestWorld \<Rightarrow> TestWorld option" where
  "dispatchUpdate out u w =
     (let e = kit_env out w; (r, b) = Dispatch e u (fresh_log w) in
      settle w (r, if r = HNil then WaitForDetachedRefreshes e b else b))"

definition empty_update :: Update where
  "empty_update = \<lparr>up_UpdateID = 0, up_Message = None, up_CallbackQuery = None, up_MyChatMember = None,
     up_ChatMember = None\<rparr>"

definition sender_of :: "TestUser \<Rightarrow> User" where
  "sender_of u = \<lparr>usr_ID = tu_TelegramID u, usr_IsBot = False, usr_Username = tu_Username u,
     usr_FirstName = [], usr_LastName = []\<rparr>"

definition chat_of :: "i64 \<Rightarrow> string \<Rightarrow> bool \<Rightarrow> Chat" where
  "chat_of i kind forum = \<lparr>ch_ID = i, ch_Type = kind, ch_Title = [], ch_IsForum = forum, ch_Username = []\<rparr>"

definition testkit_dispatchMessage ::
  "outside \<Rightarrow> Chat \<Rightarrow> TestUser \<Rightarrow> i64 \<Rightarrow> string \<Rightarrow> Message option \<Rightarrow> TestWorld \<Rightarrow> TestWorld option" where
  "testkit_dispatchMessage out chat from topic txt replyTo w =
     (let (mid, w1) = allocMessageID w in
      dispatchUpdate out (empty_update\<lparr>up_Message :=
        Some (Message mid chat (Some (sender_of from)) txt topic replyTo None [])\<rparr>) w1)"

definition ResetMessenger :: "TestWorld \<Rightarrow> TestWorld" where
  "ResetMessenger w = w\<lparr>tw_Messen := Mock_Reset (tw_Messen w)\<rparr>"

definition SendDM :: "outside \<Rightarrow> TestUser \<Rightarrow> string \<Rightarrow> TestWorld \<Rightarrow> TestWorld option" where
  "SendDM out from txt w = testkit_dispatchMessage out (chat_of (tu_TelegramID from) ''private'' False) from 0 txt None
     (w\<lparr>tw_Messen := Mock_Reset (tw_Messen w)\<rparr>)"

definition testkit_SendInGroup :: "outside \<Rightarrow> TestGroup \<Rightarrow> TestUser \<Rightarrow> i64 \<Rightarrow> string \<Rightarrow> TestWorld \<Rightarrow> TestWorld option" where
  "testkit_SendInGroup out g from topic txt =
     testkit_dispatchMessage out (chat_of (tgr_GroupID g) ''supergroup'' True) from topic txt None"

text \<open>The zero chat of a message that is only replied to.\<close>

definition bot_message :: "string \<Rightarrow> User option \<Rightarrow> Message" where
  "bot_message txt from = Message 999 (chat_of 0 [] False) from txt 0 None None []"

definition SendReply ::
  "outside \<Rightarrow> TestGroup \<Rightarrow> TestUser \<Rightarrow> i64 \<Rightarrow> string \<Rightarrow> string \<Rightarrow> TestWorld \<Rightarrow> TestWorld option" where
  "SendReply out g from topic txt replyToText =
     testkit_dispatchMessage out (chat_of (tgr_GroupID g) ''supergroup'' True) from topic txt
       (Some (bot_message replyToText None))"

definition SendDMReply :: "outside \<Rightarrow> TestUser \<Rightarrow> string \<Rightarrow> string \<Rightarrow> TestWorld \<Rightarrow> TestWorld option" where
  "SendDMReply out from txt replyToText w =
     testkit_dispatchMessage out (chat_of (tu_TelegramID from) ''private'' False) from 0 txt
       (Some (bot_message replyToText (Some \<lparr>usr_ID = 0, usr_IsBot = True, usr_Username = [],
          usr_FirstName = [], usr_LastName = []\<rparr>)))
       (w\<lparr>tw_Messen := Mock_Reset (tw_Messen w)\<rparr>)"

text \<open>\<open>nanos\<close> is the wall clock that names the callback.\<close>

definition TapButtonOnMessage ::
  "outside \<Rightarrow> int \<Rightarrow> TestGroup \<Rightarrow> TestUser \<Rightarrow> string \<Rightarrow> i64 \<Rightarrow> string \<Rightarrow> TestWorld \<Rightarrow> TestWorld option" where
  "TapButtonOnMessage out nanos g from data mid txt =
     dispatchUpdate out (empty_update\<lparr>up_CallbackQuery := Some \<lparr>cq_ID = ''cb-'' @ Itoa nanos,
       cq_From = Some (sender_of from),
       cq_Message = Some (Message mid (chat_of (tgr_GroupID g) ''supergroup'' True) None txt 0 None None []),
       cq_Data = data\<rparr>\<rparr>)"

definition TapButton ::
  "outside \<Rightarrow> int \<Rightarrow> TestGroup \<Rightarrow> TestUser \<Rightarrow> string \<Rightarrow> i64 \<Rightarrow> TestWorld \<Rightarrow> TestWorld option" where
  "TapButton out nanos g from data mid = TapButtonOnMessage out nanos g from data mid []"

definition JoinGroup :: "outside \<Rightarrow> TestGroup \<Rightarrow> TestUser \<Rightarrow> TestWorld \<Rightarrow> TestWorld option" where
  "JoinGroup out g joiner =
     dispatchUpdate out (empty_update\<lparr>up_ChatMember := Some
       \<lparr>mu_Chat = chat_of (tgr_GroupID g) ''supergroup'' True, mu_From = Some (sender_of joiner),
        mu_NewChatMember = Some \<lparr>cm_User = Some (sender_of joiner), cm_Status = ''member''\<rparr>,
        mu_OldChatMember = None\<rparr>\<rparr>)"

definition RunPeriodic :: "outside \<Rightarrow> TestWorld \<Rightarrow> TestWorld option" where
  "RunPeriodic out w = settle w (PeriodicJob (kit_env out w) (fresh_log w))"

section \<open>Assertions\<close>

text \<open>An assertion holds or fails the test; \<open>LastReply\<close> has no value without a reply.\<close>

definition LastReply :: "TestWorld \<Rightarrow> Call option" where
  "LastReply w = (let cs = CallsByMethod ''SendMessage'' (tw_Messen w) in if cs = [] then None else Some (last cs))"

definition AssertReplyContains :: "string \<Rightarrow> TestWorld \<Rightarrow> bool" where
  "AssertReplyContains substr w \<longleftrightarrow>
     list_ex (\<lambda>method. list_ex (\<lambda>c. Contains (cl_Text c) substr) (CallsByMethod method (tw_Messen w)))
       [''SendMessage'', ''SendMessageWithForceReply'']"

definition AssertLastReplyContains :: "string \<Rightarrow> TestWorld \<Rightarrow> bool" where
  "AssertLastReplyContains substr w \<longleftrightarrow>
     (case LastReply w of None \<Rightarrow> False | Some got \<Rightarrow> Contains (cl_Text got) substr)"

definition AssertReplyEquals :: "string \<Rightarrow> TestWorld \<Rightarrow> bool" where
  "AssertReplyEquals txt w \<longleftrightarrow> (case LastReply w of None \<Rightarrow> False | Some got \<Rightarrow> cl_Text got = txt)"

definition AssertNoReplies :: "TestWorld \<Rightarrow> bool" where
  "AssertNoReplies w \<longleftrightarrow> CallsByMethod ''SendMessage'' (tw_Messen w) = []"

end
