(* ===== verification/Transcripts.thy ===== *)
theory Transcripts
  imports Testkit
begin

text \<open>
  What the scenario kit guarantees: the handlers are answered exactly as the messenger mock
  answers when it is called in the same order, and its record of calls is the handlers' log;
  every scenario stays within the invariant of the bot and within the life of a match; and
  the fake identity server answers what was put into it, in an order that does not depend on
  the map.
\<close>

section \<open>The handlers and the mock\<close>

lemma replay_Nil [simp]: "replay [] k = k"
  by (simp add: replay_def)

lemma replay_snoc [simp]: "replay (cs @ [c]) k = snd (Mock_do c (replay cs k))"
  by (simp add: replay_def)

lemma replay_calls: "mk_calls (replay cs k) = mk_calls k @ map call_of cs"
  by (induction cs rule: rev_induct) (simp_all add: Mock_do_calls)

lemma replay_in_step: "ids_in_step k \<Longrightarrow> ids_in_step (replay cs k)"
  by (induction cs rule: rev_induct) (simp_all add: ids_in_step_do)

lemma kit_env_invoke:
  "m_invoke (kit_env out w) c b = (fst (Mock_do c (replay (calls b) (tw_Messen w))), b\<lparr>calls := calls b @ [c]\<rparr>)"
  by (cases c)
    (simp_all add: kit_env_def Let_def m_send_def m_act_def m_IsChatAdmin_def m_ResolveChatMemberUsername_def
      answer_id_def answer_done_def answer_bool_def answer_name_def)

text \<open>A messenger of the handlers and the mock it stands for, call by call.\<close>

definition in_step :: "TestWorld \<Rightarrow> world \<Rightarrow> Mock \<Rightarrow> bool" where
  "in_step w b k \<longleftrightarrow> k = replay (calls b) (tw_Messen w)"

lemma in_step_invoke:
  assumes "in_step w b k"
  shows "fst (m_invoke (kit_env out w) c b) = fst (Mock_do c k)"
    and "in_step w (snd (m_invoke (kit_env out w) c b)) (snd (Mock_do c k))"
  using assms by (simp_all add: in_step_def kit_env_invoke)

lemma in_step_invoke_all:
  assumes "in_step w b k"
  shows "fst (world.invoke_all (kit_env out w) cs b) = fst (mock.invoke_all cs k) \<and>
    in_step w (snd (world.invoke_all (kit_env out w) cs b)) (snd (mock.invoke_all cs k))"
  using assms by (induction cs arbitrary: b k) (simp_all add: in_step_invoke)

lemma runDetached_calls: "prefix (calls w) (calls (runDetached e i w))"
  using calm_runDetached [OF calm_refl, of w e i] by (simp add: calm_def)

text \<open>The texts \<open>AssertReplyContains\<close> looks at.\<close>

fun reply_text :: "mcall \<Rightarrow> string option" where
  "reply_text (SendMessage _ _ t) = Some t"
| "reply_text (SendMessageWithForceReply _ t _) = Some t"
| "reply_text (SendMessageWithForceReplyHTML _ t _) = Some t"
| "reply_text _ = None"

lemma replies_recorded:
  "cl_Method (call_of c) = ''SendMessage'' \<or> cl_Method (call_of c) = ''SendMessageWithForceReply'' \<longleftrightarrow>
     reply_text c \<noteq> None"
  "reply_text c = Some t \<Longrightarrow> cl_Text (call_of c) = t"
  by (cases c; simp add: call_of_def mock_methods NewMock_def zero_Call_def send_as_facts(1) act_as_facts(1)
      case_prod_beta Let_def)+

lemma AssertReplyContains_log:
  assumes "mk_calls (tw_Messen w) = map call_of cs"
  shows "AssertReplyContains s w \<longleftrightarrow> (\<exists>c \<in> set cs. \<exists>t. reply_text c = Some t \<and> Contains t s)"
proof -
  have "AssertReplyContains s w \<longleftrightarrow> (\<exists>c \<in> set cs. (cl_Method (call_of c) = ''SendMessage'' \<or>
      cl_Method (call_of c) = ''SendMessageWithForceReply'') \<and> Contains (cl_Text (call_of c)) s)"
    unfolding AssertReplyContains_def CallsByMethod_def assms by (auto simp: list_ex_iff)
  also have "\<dots> \<longleftrightarrow> (\<exists>c \<in> set cs. \<exists>t. reply_text c = Some t \<and> Contains t s)"
    unfolding replies_recorded(1) using replies_recorded(2) by fastforce
  finally show ?thesis .
qed

lemma dispatchUpdate_settles:
  assumes "dispatchUpdate out u w = Some w'"
  defines "b \<equiv> Dispatch (kit_env out w) u (fresh_log w)"
  shows "fst b = HNil" and "tw_bot w' = WaitForDetachedRefreshes (kit_env out w) (snd b)"
    and "tw_Messen w' = replay (calls (tw_bot w')) (tw_Messen w)"
    and "tw_S21 w' = tw_S21 w" and "tw_Fake w' = tw_Fake w" and "tw_clock w' = tw_clock w"
  using assms by (auto simp: dispatchUpdate_def settle_def Let_def split: prod.splits if_splits hres.splits)

section \<open>Scenarios\<close>

text \<open>The operations a scenario is made of; tests also inject failures into the messenger mock.\<close>

datatype kit_op =
    KAddUser i64 string
  | KSetNickname TestUser string string string
  | KMakeAdmin "string option" TestUser string string string string
  | KAddConfiguredGroup i64 string string i64 i64 i64
  | KSetGroupAdmin TestGroup TestUser bool
  | KAddPlayer TestGroup i64
  | KAdvance duration
  | KSetClock time
  | KResetMessenger
  | KFailNext string "merr option"
  | KSendDM TestUser string
  | KSendInGroup TestGroup TestUser i64 string
  | KSendReply TestGroup TestUser i64 string string
  | KSendDMReply TestUser string string
  | KTapButton int TestGroup TestUser string i64 string
  | KJoinGroup TestGroup TestUser
  | KRunPeriodic

fun kit_step :: "outside \<Rightarrow> kit_op \<Rightarrow> TestWorld \<Rightarrow> TestWorld option" where
  "kit_step out (KAddUser tid name) w = Some (snd (AddUser tid name w))"
| "kit_step out (KSetNickname u nick c cn) w = Some (SetNickname u nick c cn w)"
| "kit_step out (KMakeAdmin rnd u login pw c cn) w = Some (MakeAdmin rnd u login pw c cn w)"
| "kit_step out (KAddConfiguredGroup g c cn a mt s) w = Some (snd (AddConfiguredGroup g c cn a mt s w))"
| "kit_step out (KSetGroupAdmin g u b) w = Some (SetGroupAdmin g u b w)"
| "kit_step out (KAddPlayer g tid) w = Some (AddPlayer g tid w)"
| "kit_step out (KAdvance d) w = Some (Advance d w)"
| "kit_step out (KSetClock t) w = Some (SetClock t w)"
| "kit_step out KResetMessenger w = Some (ResetMessenger w)"
| "kit_step out (KFailNext m e) w = Some (w\<lparr>tw_Messen := FailNext m e (tw_Messen w)\<rparr>)"
| "kit_step out (KSendDM u t) w = SendDM out u t w"
| "kit_step out (KSendInGroup g u topic t) w = testkit_SendInGroup out g u topic t w"
| "kit_step out (KSendReply g u topic t r) w = SendReply out g u topic t r w"
| "kit_step out (KSendDMReply u t r) w = SendDMReply out u t r w"
| "kit_step out (KTapButton n g u d mid t) w = TapButtonOnMessage out n g u d mid t w"
| "kit_step out (KJoinGroup g u) w = JoinGroup out g u w"
| "kit_step out KRunPeriodic w = RunPeriodic out w"

text \<open>A scenario no step of which fails the test; no group is out of match ids.\<close>

inductive scenario :: "outside \<Rightarrow> TestWorld \<Rightarrow> kit_op list \<Rightarrow> TestWorld \<Rightarrow> bool" for out where
  scenario_Nil: "scenario out w [] w"
| scenario_step: "scenario out w ops w1 \<Longrightarrow> room (tw_bot w1) \<Longrightarrow> kit_step out op w1 = Some w2 \<Longrightarrow>
    scenario out w (ops @ [op]) w2"

inductive_cases scenario_stepE: "scenario out w (ops @ [op]) w'"

definition kit_ok :: "TestWorld \<Rightarrow> bool" where
  "kit_ok w \<longleftrightarrow> world_ok (tw_bot w) \<and> ids_in_step (tw_Messen w) \<and> sm_Failures (tw_S21 w) = [] \<and>
     wf_map (fi_byTID (tw_Fake w)) \<and> keyed iu_TelegramID (fi_byTID (tw_Fake w))"

text \<open>Without injected failures the platform mock answers the same again.\<close>

lemma mock_Authenticate_keeps: "sm_Failures m = [] \<Longrightarrow> snd (mock_Authenticate l p m) = m"
  by (simp add: mock_Authenticate_def tryFail_def)

definition kit_follows :: "TestWorld \<Rightarrow> TestWorld \<Rightarrow> bool" where
  "kit_follows w w' \<longleftrightarrow> evolves (tw_bot w) (tw_bot w') \<and> kit_ok w'"

lemma evolves_calls [simp]: "evolves (w\<lparr>calls := cs\<rparr>) w' = evolves w w'"
  by (simp add: evolves_def)

lemma wait_refreshes_calm: "calm w w1 \<Longrightarrow> calm w (wait_refreshes e n w1)"
  by (induction n arbitrary: w1) simp_all

lemma dispatchUpdate_follows:
  assumes "kit_ok w" and "room (tw_bot w)" and "dispatchUpdate out u w = Some w'"
  shows "kit_follows w w'"
proof -
  let ?e = "kit_env out w" and ?f = "fresh_log w"
  note s = dispatchUpdate_settles [OF assms(3)]
  have f: "world_ok ?f" "room ?f"
    using assms(1,2) by (simp_all add: kit_ok_def fresh_log_def world_ok_def drafts_ok_def room_def)
  have 1: "evolves ?f (snd (Dispatch ?e u ?f))"
    using apply_event_evolves [OF f, of "EvUpdate ?e u"] by simp
  then have "evolves (snd (Dispatch ?e u ?f)) (tw_bot w')"
    unfolding s(2) WaitForDetachedRefreshes_def
    by (intro calm_evolves wait_refreshes_calm) (simp_all add: evolves_def)
  then have "evolves (tw_bot w) (tw_bot w')"
    using evolves_trans [OF f(1) 1] by (simp add: fresh_log_def)
  moreover have "ids_in_step (tw_Messen w')"
    using assms(1) unfolding s(3) kit_ok_def by (simp add: replay_in_step)
  ultimately show ?thesis
    using assms(1) by (simp add: kit_follows_def kit_ok_def s(4,5) evolves_def)
qed

lemma kit_ok_store:
  assumes "kit_ok w" and "\<And>b. calm b (upd_st f b)"
  shows "kit_follows w (upd_store f w)"
  using assms calm_evolves [of "tw_bot w" "upd_st f (tw_bot w)"]
  by (simp add: kit_follows_def kit_ok_def upd_store_def evolves_def)

lemma calm_adminRepo [simp]: "calm w (upd_st (adminRepo_Upsert a) w)"
  by (intro calm_upd_st) (simp_all add: wf_adminRepo_Upsert, simp_all add: repo_put_defs)

lemma kit_follows_refl: "kit_ok w \<Longrightarrow> kit_follows w w"
  by (simp add: kit_follows_def kit_ok_def evolves_same)

lemma kit_follows_trans: "kit_ok w \<Longrightarrow> kit_follows w w1 \<Longrightarrow> kit_follows w1 w2 \<Longrightarrow> kit_follows w w2"
  unfolding kit_follows_def kit_ok_def by (blast intro: evolves_trans)

text \<open>What only touches the fixture leaves the bot alone.\<close>

lemma kit_follows_frame:
  assumes "kit_ok w" and "tw_bot w' = tw_bot w" and "ids_in_step (tw_Messen w')"
    and "sm_Failures (tw_S21 w') = []" and "wf_map (fi_byTID (tw_Fake w'))"
    and "keyed iu_TelegramID (fi_byTID (tw_Fake w'))"
  shows "kit_follows w w'"
  using assms by (simp add: kit_follows_def kit_ok_def evolves_same)

lemma fixture_in_step [simp]:
  "ids_in_step (SetChatAdmin c u b k) = ids_in_step k" "ids_in_step (FailNext m e k) = ids_in_step k"
  by (simp_all add: ids_in_step_def SetChatAdmin_def FailNext_def)

lemma fixture_failures [simp]:
  "sm_Failures (SetUser l p pr m) = sm_Failures m" "sm_Failures (SetAdminPassword l p m) = sm_Failures m"
  by (simp_all add: SetUser_def SetAdminPassword_def)

lemma testkit_dispatch_follows:
  assumes "kit_ok w" and "room (tw_bot w)" and "testkit_dispatchMessage out chat from topic txt r w = Some w'"
  shows "kit_follows w w'"
proof -
  have "kit_follows (w\<lparr>tw_nextMessageID := tw_nextMessageID w + 1\<rparr>) w'"
    using assms by (intro dispatchUpdate_follows [rotated 2])
      (simp_all add: testkit_dispatchMessage_def allocMessageID_def kit_ok_def)
  then show ?thesis by (simp add: kit_follows_def)
qed

lemma kit_ok_reset [simp]: "kit_ok w \<Longrightarrow> kit_ok (w\<lparr>tw_Messen := Mock_Reset (tw_Messen w)\<rparr>)"
  by (simp add: kit_ok_def ids_in_step_Reset)

lemma kit_follows_reset [simp]: "kit_follows (w\<lparr>tw_Messen := k\<rparr>) w' = kit_follows w w'"
  by (simp add: kit_follows_def)

lemma RunPeriodic_follows:
  assumes "kit_ok w" and "RunPeriodic out w = Some w'"
  shows "kit_follows w w'"
proof -
  let ?e = "kit_env out w"
  have s: "tw_bot w' = snd (PeriodicJob ?e (fresh_log w))" "tw_Messen w' = replay (calls (tw_bot w')) (tw_Messen w)"
    "tw_S21 w' = tw_S21 w" "tw_Fake w' = tw_Fake w"
    using assms(2) by (auto simp: RunPeriodic_def settle_def split: prod.splits hres.splits)
  have "world_ok (fresh_log w)"
    using assms(1) by (simp add: kit_ok_def fresh_log_def world_ok_def drafts_ok_def)
  then have "evolves (tw_bot w) (tw_bot w')"
    using PeriodicJob_evolves [of "fresh_log w" ?e] unfolding s(1) by (simp add: fresh_log_def)
  then show ?thesis
    using assms(1) by (simp add: kit_follows_def kit_ok_def s(2-4) replay_in_step evolves_def)
qed

lemma MakeAdmin_follows:
  assumes "kit_ok w"
  shows "kit_follows w (MakeAdmin rnd u login pw c cn w)"
proof -
  let ?w1 = "w\<lparr>tw_S21 := SetAdminPassword login pw (SetUser login pw (profile_of login c cn) (tw_S21 w))\<rparr>"
  have 1: "kit_follows w ?w1" using assms by (intro kit_follows_frame) (simp_all add: kit_ok_def)
  define w2 where "w2 = upd_store (s21AccountRepo_Upsert (fresh_account (tu_TelegramID u) login
    (encrypt_or_empty (tw_Cipher w) rnd pw) c cn (tw_clock w))) ?w1"
  have 2: "kit_follows ?w1 w2"
    unfolding w2_def by (rule kit_ok_store) (use 1 in \<open>simp_all add: kit_follows_def\<close>)
  have 3: "kit_follows w2 (MakeAdmin rnd u login pw c cn w)"
    unfolding MakeAdmin_def Let_def w2_def [symmetric]
    by (rule kit_ok_store) (use 2 in \<open>simp_all add: kit_follows_def\<close>)
  show ?thesis
    using assms 1 2 3 by (blast intro: kit_follows_trans)
qed

lemma kit_step_follows:
  assumes ok: "kit_ok w" and "room (tw_bot w)" and "kit_step out op w = Some w'"
  shows "kit_follows w w'"
proof (cases op)
  case (KMakeAdmin rnd u login pw c cn)
  then show ?thesis using assms MakeAdmin_follows by auto
next
  case (KAddConfiguredGroup g c cn a mt s)
  define row where "row = zero_Group\<lparr>g_GroupID := g, g_CampusID := c, g_CampusName := cn,
    g_AdminTelegramID := a, g_MatchesTopicID := mt, g_StatsTopicID := s, g_ConfirmationTimeoutHours := 24,
    g_CreatedAt := tw_clock w\<rparr>"
  have w': "w' = upd_store (groupRepo_Upsert row) w
      \<lparr>tw_Messen := SetChatAdmin g a True (tw_Messen (upd_store (groupRepo_Upsert row) w))\<rparr>"
    using assms(3) KAddConfiguredGroup by (simp add: AddConfiguredGroup_def Let_def row_def)
  have "kit_follows w (upd_store (groupRepo_Upsert row) w)" using ok by (rule kit_ok_store) simp
  then show ?thesis unfolding w' by (auto simp: kit_follows_def kit_ok_def)
next
  case (KAddPlayer g tid)
  then show ?thesis using assms by (auto simp: AddPlayer_def intro!: kit_ok_store)
next
  case (KSendDM u t)
  then show ?thesis
    using assms testkit_dispatch_follows [OF kit_ok_reset [OF ok]] by (auto simp: SendDM_def)
next
  case (KSendDMReply u t r)
  then show ?thesis
    using assms testkit_dispatch_follows [OF kit_ok_reset [OF ok]] by (auto simp: SendDMReply_def)
next
  case (KSendInGroup g u topic t)
  then show ?thesis using assms by (auto simp: testkit_SendInGroup_def intro: testkit_dispatch_follows)
next
  case (KSendReply g u topic t r)
  then show ?thesis using assms by (auto simp: SendReply_def intro: testkit_dispatch_follows)
next
  case (KTapButton n g u d mid t)
  then show ?thesis using assms by (auto simp: TapButtonOnMessage_def intro: dispatchUpdate_follows)
next
  case (KJoinGroup g u)
  then show ?thesis using assms by (auto simp: JoinGroup_def intro: dispatchUpdate_follows)
next
  case KRunPeriodic
  then show ?thesis using assms by (auto intro: RunPeriodic_follows)
qed (use assms in \<open>auto intro!: kit_follows_frame simp: kit_ok_def AddUser_def SetNickname_def IdentityFlushCache_def
    SetGroupAdmin_def Advance_def SetClock_def ResetMessenger_def ids_in_step_Reset fake_Put_def keyed_mput\<close>)

lemma scenario_follows: "scenario out w ops w' \<Longrightarrow> kit_ok w \<Longrightarrow> kit_follows w w'"
proof (induction rule: scenario.induct)
  case (scenario_Nil w)
  then show ?case by (rule kit_follows_refl)
next
  case (scenario_step w ops w1 op w2)
  then have 1: "kit_follows w w1" by simp
  then have "kit_ok w1" by (simp add: kit_follows_def)
  then show ?case
    using kit_follows_trans [OF scenario_step.prems 1] kit_step_follows scenario_step.hyps(2,3) by blast
qed

lemma testkit_New_ok:
  assumes "testkit_New out rnd = Some w"
  shows "kit_ok w"
proof -
  obtain c a where w: "w = upd_store (s21AccountRepo_Upsert a) \<lparr>tw_bot = handlers_New memstore_New, tw_Messen = NewMock,
      tw_S21 = SetAdminPassword ''tk-login'' ''tk-password'' (SetUser ''tk-login'' ''tk-password''
        (profile_of ''tk-login'' ''tk'' ''TK Campus'') s21_NewMock),
      tw_Cipher = c, tw_Fake = newFakeIdentity, tw_clock = startClock, tw_nextMessageID = 0, tw_usernames = []\<rparr>"
    using assms by (auto simp: testkit_New_def Let_def split: sum.splits)
  have "world_ok (handlers_New memstore_New)"
    by (rule world_ok_New [OF wf_store_New]) (simp add: memstore_New_def)
  then have "world_ok (upd_st (s21AccountRepo_Upsert a) (handlers_New memstore_New))"
    using calm_evolves [OF _ calm_repo(3) [OF calm_refl]] by (simp add: evolves_def)
  then show ?thesis
    by (simp add: w kit_ok_def upd_store_def s21_NewMock_def newFakeIdentity_def)
qed

section \<open>The fake server\<close>

interpretation dto: sort_less dto_less
  unfolding dto_less_def by (rule sort_less_key_up)

lemma dto_of_inject: "dto_TelegramID (dto_of u) = iu_TelegramID u"
  by (simp add: dto_of_def)

lemma routes_apart: "\<not> HasPrefix (by_nickname @ s) by_telegram"
  by (simp add: HasPrefix_def by_nickname_def by_telegram_def)

definition put_record :: "TestUser \<Rightarrow> string \<Rightarrow> string \<Rightarrow> string \<Rightarrow> IdentityUser" where
  "put_record u nick c cn = \<lparr>iu_TelegramID = tu_TelegramID u, iu_Nickname = nick, iu_CampusID = c,
     iu_CampusName = cn, iu_CoalitionName = [], iu_Found = True\<rparr>"

text \<open>The nickname end point: sorted by id, each match once, independent of the map's order.\<close>

definition nick_matches :: "string \<Rightarrow> (i64, IdentityUser) gomap \<Rightarrow> fakeUserDTO list" where
  "nick_matches n m = map (dto_of \<circ> snd) (filter (\<lambda>(_, u). EqualFold (iu_Nickname u) n) m)"

lemma nick_matches_set:
  assumes "wf_map m"
  shows "set (nick_matches n m) = {dto_of v | v. \<exists>k. mget m k = Some v \<and> EqualFold (iu_Nickname v) n}"
proof -
  have "(k, v) \<in> set m \<longleftrightarrow> mget m k = Some v" for k v
    using assms by (rule wf_map_get_iff [symmetric])
  then show ?thesis unfolding nick_matches_def by force
qed

lemma nick_matches_distinct:
  assumes "wf_map m" and "keyed iu_TelegramID m"
  shows "distinct (map dto_TelegramID (nick_matches n m))"
proof -
  have "map dto_TelegramID (nick_matches n m) = map fst (filter (\<lambda>(_, u). EqualFold (iu_Nickname u) n) m)"
    using assms by (auto simp: nick_matches_def dto_of_inject wf_map_get_iff keyed_def)
  then show ?thesis
    using assms(1) by (simp add: wf_map_def distinct_map_filter)
qed

lemma nick_sorted:
  assumes "wf_map m" and "keyed iu_TelegramID m"
  shows "sorted_wrt dto_less (sort_by dto_less (nick_matches n m))"
    and "mset m' = mset m \<Longrightarrow> sort_by dto_less (nick_matches n m') = sort_by dto_less (nick_matches n m)"
proof -
  let ?d = "nick_matches n m"
  have apart: "a = b" if "a \<in> set ?d" "b \<in> set ?d" "\<not> dto_less a b" "\<not> dto_less b a" for a b
    using that nick_matches_distinct [OF assms, of n] by (auto simp: dto_less_def distinct_map inj_on_def not_less word_eq_iff_signed [symmetric]
        dest!: order.antisym)
  have "distinct (sort_by dto_less ?d)"
    using nick_matches_distinct [OF assms, of n] by (simp add: distinct_map)
  moreover have "dto_less a b" if "a \<in> set ?d" "b \<in> set ?d" "\<not> dto_less b a" "a \<noteq> b" for a b
    using apart that by blast
  ultimately show "sorted_wrt dto_less (sort_by dto_less ?d)"
    using dto.sorted_sort_by [of ?d] unfolding sorted_wrt_iff_nth_less
    by (metis distinct_sort_by length_sort_by nth_eq_iff_index_eq nth_mem order.strict_trans order_less_irrefl set_sort_by)
  show "sort_by dto_less (nick_matches n m') = sort_by dto_less ?d" if "mset m' = mset m"
    using apart that by (intro dto.sort_by_unique [symmetric]) (auto simp: nick_matches_def)
qed

section \<open>Properties\<close>


text \<open>C29. After a direct message of a test the record of the messenger mock is, call by call, the log
  of the handlers' calls, each of which was answered as the mock answers when it is called in
  this order; \<open>AssertReplyContains\<close> holds exactly when the handlers sent a plain message or a
  forced reply with the text (a keyboard is not a reply), and \<open>AssertNoReplies\<close> exactly when they
  sent no plain message.\<close>

theorem direct_message_transcript:
  assumes "SendDM out from txt w = Some w'"
  defines "w0 \<equiv> snd (allocMessageID (w\<lparr>tw_Messen := Mock_Reset (tw_Messen w)\<rparr>))"
    and "sent \<equiv> calls (tw_bot w')"
  shows "mk_calls (tw_Messen w') = map call_of sent \<and>
    tw_Messen w' = replay sent (Mock_Reset (tw_Messen w)) \<and>
    fst (world.invoke_all (kit_env out w0) cs (fresh_log w0)) = fst (mock.invoke_all cs (Mock_Reset (tw_Messen w))) \<and>
    (AssertReplyContains s w' \<longleftrightarrow> (\<exists>c \<in> set sent. \<exists>t. reply_text c = Some t \<and> Contains t s)) \<and>
    (AssertNoReplies w' \<longleftrightarrow> (\<forall>c \<in> set sent. \<forall>a b t. c \<noteq> SendMessage a b t))"
proof (intro conjI)
  have k: "tw_Messen w0 = Mock_Reset (tw_Messen w)" by (simp add: w0_def allocMessageID_def)
  obtain u where "dispatchUpdate out u w0 = Some w'"
    using assms(1) by (auto simp: SendDM_def testkit_dispatchMessage_def w0_def case_prod_beta)
  then show m: "tw_Messen w' = replay sent (Mock_Reset (tw_Messen w))"
    using dispatchUpdate_settles(3) by (simp add: sent_def k)
  then show c: "mk_calls (tw_Messen w') = map call_of sent"
    by (simp add: replay_calls Mock_Reset_def)
  show "AssertReplyContains s w' \<longleftrightarrow> (\<exists>c \<in> set sent. \<exists>t. reply_text c = Some t \<and> Contains t s)"
    by (rule AssertReplyContains_log [OF c])
  have "in_step w0 (fresh_log w0) (Mock_Reset (tw_Messen w))"
    by (simp add: in_step_def fresh_log_def k)
  then show "fst (world.invoke_all (kit_env out w0) cs (fresh_log w0)) = fst (mock.invoke_all cs (Mock_Reset (tw_Messen w)))"
    using in_step_invoke_all by blast
  have "cl_Method (call_of c) = ''SendMessage'' \<longleftrightarrow> (\<exists>a b t. c = SendMessage a b t)" for c
    by (cases c) (simp_all add: call_of_def mock_methods NewMock_def zero_Call_def send_as_facts(1) act_as_facts(1)
        case_prod_beta Let_def)
  then show "AssertNoReplies w' \<longleftrightarrow> (\<forall>c \<in> set sent. \<forall>a b t. c \<noteq> SendMessage a b t)"
    by (auto simp: AssertNoReplies_def CallsByMethod_def c filter_empty_conv)
qed

text \<open>The fake identity server answers what was put into it: after \<open>SetNickname\<close> the request by
  the user's Telegram id gives that record, an id nobody has gives 404, and the request by
  nickname gives exactly the users with that nickname up to case, strictly by ascending Telegram id
  and so the same whatever order the map is iterated in. The path is decoded once more
  by the handler, although \<open>net/http\<close> has decoded it: what is looked up is \<open>PathUnescape nick\<close>.\<close>

theorem fake_identity_answers:
  fixes u :: TestUser and name c cn :: string and i :: i64
  assumes "kit_ok w" and "PathUnescape nick = Some n"
  defines "f \<equiv> tw_Fake (SetNickname u name c cn w)"
  shows "fst (fake_serve ''GET'' (by_telegram @ fmt_i64 (tu_TelegramID u)) f) =
      writeJSON 200 (UserBody (dto_of (put_record u name c cn))) \<and>
    (mget (fi_byTID f) i = None \<longrightarrow> rs_status (fst (fake_serve ''GET'' (by_telegram @ fmt_i64 i) f)) = 404) \<and>
    (\<exists>ds. fst (fake_serve ''GET'' (by_nickname @ nick) f) = writeJSON 200 (UsersBody ds) \<and>
      sorted_wrt dto_less ds \<and>
      set ds = {dto_of v | v. \<exists>k. mget (fi_byTID f) k = Some v \<and> EqualFold (iu_Nickname v) n} \<and>
      (\<forall>f'. mset (fi_byTID f') = mset (fi_byTID f) \<longrightarrow>
         fst (fake_serve ''GET'' (by_nickname @ nick) f') = writeJSON 200 (UsersBody ds)))"
proof (intro conjI impI)
  have f: "fi_byTID f = mput (tu_TelegramID u) (put_record u name c cn) (fi_byTID (tw_Fake w))"
    by (simp add: f_def SetNickname_def IdentityFlushCache_def fake_Put_def put_record_def)
  have ok: "wf_map (fi_byTID f)" "keyed iu_TelegramID (fi_byTID f)"
    using assms(1) by (simp_all add: f kit_ok_def keyed_mput put_record_def)
  have id: "ParseInt 64 (fmt_i64 i) \<noteq> None \<and> word_of_int (the (ParseInt 64 (fmt_i64 i))) = i" for i
    using ParseInt_fmt_i64 [of i] by auto
  show "fst (fake_serve ''GET'' (by_telegram @ fmt_i64 (tu_TelegramID u)) f) =
      writeJSON 200 (UserBody (dto_of (put_record u name c cn)))"
    using id [of "tu_TelegramID u"] by (auto simp: fake_serve_def handleByTelegram_def fake_bump_def f)
  show "rs_status (fst (fake_serve ''GET'' (by_telegram @ fmt_i64 i) f)) = 404" if "mget (fi_byTID f) i = None"
    using id [of i] that by (auto simp: fake_serve_def handleByTelegram_def fake_bump_def)
  have serve: "fst (fake_serve ''GET'' (by_nickname @ nick) f') = writeJSON 200 (UsersBody (sort_by dto_less (nick_matches n (fi_byTID f'))))" for f'
    using assms(2) by (simp add: fake_serve_def routes_apart handleByNickname_def nick_matches_def fake_bump_def)
  show "\<exists>ds. fst (fake_serve ''GET'' (by_nickname @ nick) f) = writeJSON 200 (UsersBody ds) \<and>
      sorted_wrt dto_less ds \<and>
      set ds = {dto_of v | v. \<exists>k. mget (fi_byTID f) k = Some v \<and> EqualFold (iu_Nickname v) n} \<and>
      (\<forall>f'. mset (fi_byTID f') = mset (fi_byTID f) \<longrightarrow>
         fst (fake_serve ''GET'' (by_nickname @ nick) f') = writeJSON 200 (UsersBody ds))"
    unfolding serve
    by (rule exI [of _ "sort_by dto_less (nick_matches n (fi_byTID f))"])
      (intro conjI allI impI refl nick_sorted(1) [OF ok],
       simp only: set_sort_by nick_matches_set [OF ok(1)], drule nick_sorted(2) [OF ok, where n = n], simp only:)
qed

text \<open>A nickname with a percent sign is not found under its own name, or is a bad request.\<close>

lemma nickname_decoded_twice:
  "rs_status (fst (fake_serve ''GET'' (by_nickname @ ''100%'') f)) = 400"
  "PathUnescape ''a%62'' = Some ''ab''"
  by (simp add: fake_serve_def routes_apart handleByNickname_def writeHeader_def hex_value_def byte_def) code_simp

section \<open>An example\<close>

text \<open>An SDK that asks the two end points, and the example's other surroundings.\<close>

definition example_sdk :: "(string \<Rightarrow> string \<Rightarrow> fake_response) \<Rightarrow> string \<Rightarrow> string \<Rightarrow> identity_client" where
  "example_sdk fetch login password =
     \<lparr>ic_GetUserByTelegram = (\<lambda>tid. case rs_body (fetch ''GET'' (by_telegram @ fmt_i64 tid)) of
          UserBody d \<Rightarrow> Inr \<lparr>cu_TelegramID = dto_TelegramID d, cu_Nickname = dto_Nickname d,
            cu_CampusID = dto_CampusID d, cu_CampusName = dto_CampusName d, cu_CoalitionName = dto_CoalitionName d\<rparr>
        | _ \<Rightarrow> Inl IdNotFound),
      ic_GetUsersByNickname = (\<lambda>nick. case rs_body (fetch ''GET'' (by_nickname @ nick)) of
          UsersBody ds \<Rightarrow> Inr (map (\<lambda>d. \<lparr>cu_TelegramID = dto_TelegramID d, cu_Nickname = dto_Nickname d,
            cu_CampusID = dto_CampusID d, cu_CampusName = dto_CampusName d, cu_CoalitionName = dto_CoalitionName d\<rparr>) ds)
        | _ \<Rightarrow> Inl IdNotFound)\<rparr>"

definition example_outside :: outside where
  "example_outside = \<lparr>out_env = example_env\<lparr>e_PickHealthy := (\<lambda>accs _ fn. case accs of [] \<Rightarrow> (Inl AccNoHealthy, [])
       | a # _ \<Rightarrow> (fn (acc_S21Login a) ''tk-password'', []))\<rparr>,
     out_newGCM = (\<lambda>_. Some example_aead), out_sdk = example_sdk, out_URL = ''http://fake''\<rparr>"

definition example_kit :: TestWorld where
  "example_kit = the (testkit_New example_outside (Some ''xy''))"

definition alice :: TestUser where
  "alice = \<lparr>tu_TelegramID = 11, tu_Username = ''alice'', tu_IsBot = False\<rparr>"

lemma example_kit_New: "testkit_New example_outside (Some ''xy'') = Some example_kit"
  by (simp add: example_kit_def testkit_New_def NewFromKey_def make32ByteKey_def KeySize_def example_outside_def
      Let_def)

lemma example_kit_sel:
  "tw_Messen example_kit = NewMock" "s21AccountRepo_Get (st (tw_bot example_kit)) 11 = Inl ErrNotFound"
  "matchCounters (st (tw_bot example_kit)) = []" "fi_byTID (tw_Fake example_kit) = []"
  "detached (tw_bot example_kit) = []"
  by (simp_all add: example_kit_def testkit_New_def NewFromKey_def make32ByteKey_def KeySize_def example_outside_def
      Let_def upd_store_def s21AccountRepo_Get_def get_or_def baselineLoginTelegramID_def fresh_account_def
      repo_put_defs memstore_New_def handlers_New_def newFakeIdentity_def)

definition not_logged_in :: string where
  "not_logged_in = ''You're not logged in '' @ emdash @ '' nothing to log out from.''"

lemma logout_dispatched:
  assumes "s21AccountRepo_Get (st b) 11 = Inl ErrNotFound"
  shows "Dispatch e (empty_update\<lparr>up_Message := Some (Message mid (chat_of 11 ''private'' False)
      (Some (sender_of alice)) ''/logout'' 0 None None [])\<rparr>) b = send_res e (SendMessage 11 0 not_logged_in) b"
proof -
  have "splitCommand ''/logout'' = (''/logout'', [])" by code_simp
  then show ?thesis
    using assms
    by (simp add: Dispatch_def empty_update_def dispatchMessage_def chat_of_def isPrivate_def isLitter_def
        deleteStatsTopicLitter_def dispatchText_def isLoginReply_def isLogoutReply_def isReplyTo_def runCommand_def
        upsertSenderParticipant_def handleLogout_def reply_def sender_def sender_of_def alice_def not_logged_in_def)
qed

lemma alice_id: "tu_TelegramID alice = 11"
  by (simp add: alice_def)

lemma example_logout:
  assumes "mk_failures (tw_Messen w) = []" and "s21AccountRepo_Get (st (tw_bot w)) 11 = Inl ErrNotFound"
    and "detached (tw_bot w) = []"
  shows "\<exists>w'. SendDM example_outside alice ''/logout'' w = Some w' \<and>
     calls (tw_bot w') = [SendMessage 11 0 not_logged_in]"
  using assms
  by (simp add: SendDM_def testkit_dispatchMessage_def dispatchUpdate_def settle_def Let_def allocMessageID_def
      alice_id logout_dispatched fresh_log_def send_res_def m_send_def
      kit_env_def answer_id_def Mock_SendMessage_def send_as_def Mock_record_def maybeFail_def
      Mock_Reset_def WaitForDetachedRefreshes_def)

theorem direct_message_transcript_witness:
  "\<exists>w'. SendDM example_outside alice ''/logout'' example_kit = Some w' \<and>
     AssertReplyContains ''not logged in'' w' \<and> \<not> AssertReplyContains ''Logged out'' w' \<and> \<not> AssertNoReplies w'"
proof -
  obtain w' where w': "SendDM example_outside alice ''/logout'' example_kit = Some w'"
    and log: "calls (tw_bot w') = [SendMessage 11 0 not_logged_in]"
    using example_logout [of example_kit] example_kit_sel by (auto simp: NewMock_def)
  have "Contains not_logged_in ''not logged in''" "\<not> Contains not_logged_in ''Logged out''" by code_simp+
  then show ?thesis
    using direct_message_transcript [OF w', of _ "''not logged in''"]
      direct_message_transcript [OF w', of _ "''Logged out''"] w' log
    by (auto simp: Let_def)
qed

theorem fake_identity_answers_witness:
  "fst (fake_serve ''GET'' ''/users/by_nickname/ALLY'' (tw_Fake (SetNickname alice ''Ally'' ''c'' ''C'' example_kit))) =
     writeJSON 200 (UsersBody [dto_of (put_record alice ''Ally'' ''c'' ''C'')])"
proof -
  let ?f = "tw_Fake (SetNickname alice ''Ally'' ''c'' ''C'' example_kit)"
  have p: "PathUnescape ''ALLY'' = Some ''ALLY''" "EqualFold ''Ally'' ''ALLY''" by code_simp+
  have f: "fi_byTID ?f = [(11, put_record alice ''Ally'' ''c'' ''C'')]"
    by (simp add: SetNickname_def IdentityFlushCache_def fake_Put_def put_record_def example_kit_sel alice_id)
  have e: "{dto_of v |v. \<exists>k. mget (fi_byTID ?f) k = Some v \<and> EqualFold (iu_Nickname v) ''ALLY''} =
      {dto_of (put_record alice ''Ally'' ''c'' ''C'')}"
    using p(2) by (auto simp: f put_record_def split: if_splits)
  obtain ds where ds: "fst (fake_serve ''GET'' (by_nickname @ ''ALLY'') ?f) = writeJSON 200 (UsersBody ds)"
    "sorted_wrt dto_less ds" "set ds = {dto_of (put_record alice ''Ally'' ''c'' ''C'')}"
    using fake_identity_answers [OF testkit_New_ok [OF example_kit_New] p(1), of alice "''Ally''" "''c''" "''C''"]
    unfolding e by blast
  have "ds = [dto_of (put_record alice ''Ally'' ''c'' ''C'')]"
    using ds(2,3) by (cases ds; cases "tl ds") (auto simp: dto_less_def)
  then show ?thesis using ds(1) by (simp add: by_nickname_def)
qed


end
