(* ===== verification/Yql.thy ===== *)
theory Yql
  imports Memstore
begin

text \<open>
  What \<open>pkg/store/ydbstore\<close> meets at its other side: values and rows, the statements it writes
  as syntax trees of their YQL text, and the database client. The client (\<open>ydb-go-sdk\<close>) and the
  server are not part of the repository: they are the parameter \<open>ydb\<close>, and the locale
  \<open>ydb_engine\<close> collects what their documentation promises, over a ghost view \<open>tab\<close> of the
  tables. \<open>reference_engine\<close> is a database in memory that keeps these promises.
\<close>

section \<open>Values, rows and statements\<close>

text \<open>A \<open>Timestamp\<close> is an unsigned number of microseconds; \<open>YNull\<close> is the NULL of any optional type.\<close>

datatype yval = YNull | YUint64 u64 | YUint32 u32 | YUtf8 string | YBool bool | YTimestamp u64

type_synonym yrow = "(string, yval) gomap"
type_synonym params = "(string, yval) gomap"

text \<open>
  Statements: columns (none for \<open>*\<close>), table, condition, \<open>ORDER BY\<close> and \<open>LIMIT\<close> of a \<open>SELECT\<close>;
  table, columns and parameters of an \<open>UPSERT\<close>; \<open>UPDATE t SET c = x WHERE\<close> and \<open>DELETE\<close>. A
  condition is a conjunction of comparisons of a column with a parameter or a literal.
  \<open>DECLARE\<close> only types the parameters.
\<close>

datatype yexpr = Par string | Lit string

datatype ycond = Eq string yexpr | Neq string yexpr | Less string yexpr

datatype stmt =
    Select "string list" string "ycond list" "string list" "nat option"
  | Upsert string "string list" "string list"
  | UpdateSet string string string "ycond list"
  | DeleteFrom string "ycond list"

text \<open>The result of an execution: its rows, or the error of \<open>NextResultSetErr\<close>.\<close>

datatype yresult = Rows "yrow list" | NoResultSet string

datatype ydb_error = YStore store_error | YEngine string | YScan string

text \<open>
  \<open>y_read\<close> is an \<open>Execute\<close> of a query under \<open>Table().Do\<close> (its last attempt), \<open>y_exec\<close> an
  \<open>Execute\<close> inside a transaction, \<open>y_DoTx\<close> the retrying \<open>Table().DoTx\<close>: the number is what the
  closure leaves behind in a captured variable (\<open>0\<close> when it captures none). \<open>y_stamp\<close> is
  \<open>types.TimestampValueFromTime\<close>, \<open>y_time\<close> the scan of a \<open>Timestamp\<close> into a \<open>time.Time\<close>.
\<close>

record 'd ydb =
  y_read :: "stmt \<Rightarrow> params \<Rightarrow> 'd \<Rightarrow> string + yresult"
  y_exec :: "stmt list \<Rightarrow> params \<Rightarrow> 'd \<Rightarrow> (string + yresult) \<times> 'd"
  y_DoTx :: "('d \<Rightarrow> (ydb_error + u64) \<times> 'd) \<Rightarrow> 'd \<Rightarrow> (ydb_error + u64) \<times> 'd"
  y_stamp :: "time \<Rightarrow> u64"
  y_time :: "u64 \<Rightarrow> time"

section \<open>The meaning of the statements\<close>

type_synonym tables = "string \<Rightarrow> (yval list, yrow) gomap"

text \<open>The primary keys of the schema; a table is a map from key values to rows.\<close>

definition primary_key :: "string \<Rightarrow> string list" where
  "primary_key t =
     (if t = ''participants'' then [''group_id'', ''telegram_id'']
      else if t = ''matches'' then [''group_id'', ''match_id'']
      else if t = ''match_confirmations'' \<or> t = ''undo_commands'' then [''group_id'', ''match_id'', ''telegram_id'']
      else if t = ''groups'' \<or> t = ''match_counters'' then [''group_id'']
      else if t = ''bot_settings'' then [''key'']
      else [''telegram_id''])"

definition col :: "yrow \<Rightarrow> string \<Rightarrow> yval" where
  "col r c = (case mget r c of None \<Rightarrow> YNull | Some v \<Rightarrow> v)"

fun ynum :: "yval \<Rightarrow> int" where
  "ynum (YUint64 n) = uint n"
| "ynum (YUint32 n) = uint n"
| "ynum (YTimestamp n) = uint n"
| "ynum _ = 0"

fun yeval :: "params \<Rightarrow> yexpr \<Rightarrow> yval" where
  "yeval ps (Par p) = col ps p"
| "yeval ps (Lit s) = YUtf8 s"

text \<open>A comparison with NULL does not hold.\<close>

fun cond_holds :: "params \<Rightarrow> yrow \<Rightarrow> ycond \<Rightarrow> bool" where
  "cond_holds ps r (Eq c x) \<longleftrightarrow> col r c \<noteq> YNull \<and> col r c = yeval ps x"
| "cond_holds ps r (Neq c x) \<longleftrightarrow> col r c \<noteq> YNull \<and> yeval ps x \<noteq> YNull \<and> col r c \<noteq> yeval ps x"
| "cond_holds ps r (Less c x) \<longleftrightarrow> col r c \<noteq> YNull \<and> yeval ps x \<noteq> YNull \<and> ynum (col r c) < ynum (yeval ps x)"

definition where_holds :: "params \<Rightarrow> ycond list \<Rightarrow> yrow \<Rightarrow> bool" where
  "where_holds ps cs r \<longleftrightarrow> list_all (cond_holds ps r) cs"

definition project :: "string list \<Rightarrow> yrow \<Rightarrow> yrow" where
  "project cs r = (if cs = [] then r else map (\<lambda>c. (c, col r c)) cs)"

definition set_col :: "string \<Rightarrow> yval \<Rightarrow> yrow \<Rightarrow> yrow" where
  "set_col c v r = map (\<lambda>(c', v'). (c', if c' = c then v else v')) r"

text \<open>\<open>UPSERT\<close> writes the given columns of the row with that key and keeps its other columns.\<close>

definition merge_row :: "yrow \<Rightarrow> yrow option \<Rightarrow> yrow" where
  "merge_row new old =
     new @ (case old of None \<Rightarrow> [] | Some r \<Rightarrow> filter (\<lambda>(c, v). c \<notin> fst ` set new) r)"

fun effect :: "params \<Rightarrow> stmt \<Rightarrow> tables \<Rightarrow> tables" where
  "effect ps (Select cs t w ord lim) T = T"
| "effect ps (Upsert t cs names) T =
     (let new = zip cs (map (col ps) names); key = map (col new) (primary_key t)
      in T(t := mput key (merge_row new (mget (T t) key)) (T t)))"
| "effect ps (UpdateSet t c name w) T =
     T(t := map (\<lambda>(k, r). (k, if where_holds ps w r then set_col c (col ps name) r else r)) (T t))"
| "effect ps (DeleteFrom t w) T = T(t := filter (\<lambda>(k, r). \<not> where_holds ps w r) (T t))"

text \<open>\<open>ORDER BY\<close> several columns, and what a query may answer.\<close>

fun row_less :: "string list \<Rightarrow> yrow \<Rightarrow> yrow \<Rightarrow> bool" where
  "row_less [] a b = False"
| "row_less (c # cs) a b = lex_less (\<lambda>a b. ynum (col a c) < ynum (col b c)) (row_less cs) a b"

definition take_lim :: "nat option \<Rightarrow> 'a list \<Rightarrow> 'a list" where
  "take_lim lim xs = (case lim of None \<Rightarrow> xs | Some n \<Rightarrow> take n xs)"

fun answers :: "params \<Rightarrow> stmt \<Rightarrow> tables \<Rightarrow> yrow list \<Rightarrow> bool" where
  "answers ps (Select cs t w ord lim) T rows \<longleftrightarrow>
     (\<exists>full. mset full = mset (filter (where_holds ps w) (map snd (T t))) \<and>
        sorted_wrt (\<lambda>a b. \<not> row_less ord b a) full \<and> rows = map (project cs) (take_lim lim full))"
| "answers ps _ T rows \<longleftrightarrow> False"

text \<open>A table-service query returns at most 1000 rows; longer results are cut.\<close>

fun few :: "params \<Rightarrow> stmt \<Rightarrow> tables \<Rightarrow> bool" where
  "few ps (Select cs t w ord lim) T \<longleftrightarrow>
     length (take_lim lim (filter (where_holds ps w) (map snd (T t)))) \<le> 1000"
| "few ps _ T \<longleftrightarrow> False"

text \<open>The instants a \<open>Timestamp\<close> can hold: from 1970 to the end of 2105.\<close>

definition stampable :: "time \<Rightarrow> bool" where
  "stampable t \<longleftrightarrow> 0 \<le> t \<and> t < 4291747200 * 10 ^ 9"

definition micros :: "time \<Rightarrow> time" where
  "micros t = 1000 * (t div 1000)"

section \<open>The contract of the client\<close>

text \<open>
  A read answers its query. An execution in a transaction has the effect of its statements. A
  committed transaction ran once on the tables it was started with; a failed one left them
  alone, or the commit went through and only its acknowledgement was lost.
\<close>

lemma stampable_bounds:
  assumes "stampable t"
  shows "0 \<le> t div 1000" and "t div 1000 < 2 ^ 64" and "stampable (1000 * (t div 1000))"
proof -
  have "0 \<le> t" "t < 4291747200 * 10 ^ 9" using assms by (simp_all add: stampable_def)
  then have "0 \<le> t div 1000" "1000 * (t div 1000) \<le> t" by simp_all
  then show "0 \<le> t div 1000" "t div 1000 < 2 ^ 64" "stampable (1000 * (t div 1000))"
    using \<open>t < _\<close> by (simp_all add: stampable_def)
qed

locale ydb_engine =
  fixes Y :: "'d ydb" and tab :: "'d \<Rightarrow> tables"
  assumes read_answers: "y_read Y q ps d = Inr (Rows rows) \<Longrightarrow> few ps q (tab d) \<Longrightarrow> answers ps q (tab d) rows"
    and exec_effect: "y_exec Y qs ps d = (Inr res, d') \<Longrightarrow> tab d' = fold (effect ps) qs (tab d)"
    and exec_answers: "y_exec Y [Select cs tb w ord lim] ps d = (Inr res, d') \<Longrightarrow>
        few ps (Select cs tb w ord lim) (tab d) \<Longrightarrow>
        \<exists>rows. res = Rows rows \<and> answers ps (Select cs tb w ord lim) (tab d) rows"
    and tx_committed: "y_DoTx Y f d = (Inr a, d') \<Longrightarrow>
        \<exists>d0 d1. tab d0 = tab d \<and> f d0 = (Inr a, d1) \<and> tab d' = tab d1"
    and tx_failed: "y_DoTx Y f d = (Inl x, d') \<Longrightarrow>
        tab d' = tab d \<or> (\<exists>d0 d1 a. tab d0 = tab d \<and> f d0 = (Inr a, d1) \<and> tab d' = tab d1)"
    and stamp_micros: "stampable t \<Longrightarrow> uint (y_stamp Y t) = t div 1000"
    and time_micros: "stampable (1000 * uint n) \<Longrightarrow> y_time Y n = 1000 * uint n"
begin

lemma time_stamp: "stampable t \<Longrightarrow> y_time Y (y_stamp Y t) = micros t"
  using time_micros [of "y_stamp Y t"] by (simp add: micros_def stamp_micros stampable_bounds)

lemma stamp_less_iff:
  "stampable a \<Longrightarrow> stampable b \<Longrightarrow> uint (y_stamp Y a) < uint (y_stamp Y b) \<longleftrightarrow> micros a < micros b"
  by (simp add: stamp_micros micros_def)

end

section \<open>A database that keeps the contract\<close>

lemma sort_less_rows: "sort_less (row_less cs)"
proof (induction cs)
  case Nil
  then show ?case by unfold_locales simp_all
next
  case (Cons c cs)
  have "row_less (c # cs) = lex_less (\<lambda>a b. ynum (col a c) < ynum (col b c)) (row_less cs)"
    by (simp add: fun_eq_iff)
  then show ?case using sort_less_lexI [OF sort_less_key_up Cons.IH] by simp
qed

interpretation row_order: sort_less "row_less cs" for cs
  by (rule sort_less_rows)

fun select_rows :: "params \<Rightarrow> stmt \<Rightarrow> tables \<Rightarrow> yresult" where
  "select_rows ps (Select cs t w ord lim) T =
     Rows (map (project cs) (take_lim lim (sort_by (row_less ord) (filter (where_holds ps w) (map snd (T t))))))"
| "select_rows ps _ T = Rows []"

definition reference_engine :: "tables ydb" where
  "reference_engine =
     \<lparr>y_read = (\<lambda>q ps T. Inr (select_rows ps q T)),
      y_exec = (\<lambda>qs ps T. (Inr (case qs of [q] \<Rightarrow> select_rows ps q T | _ \<Rightarrow> Rows []), fold (effect ps) qs T)),
      y_DoTx = (\<lambda>f T. case f T of (Inl x, T') \<Rightarrow> (Inl x, T) | (Inr a, T') \<Rightarrow> (Inr a, T')),
      y_stamp = (\<lambda>t. word_of_int (t div 1000)),
      y_time = (\<lambda>n. 1000 * uint n)\<rparr>"

lemma select_rows_answers:
  "select_rows ps (Select cs t w ord lim) T = Rows rows \<Longrightarrow> answers ps (Select cs t w ord lim) T rows"
  by (auto intro!: exI [of _ "sort_by (row_less ord) (filter (where_holds ps w) (map snd (T t)))"]
      simp: row_order.sorted_sort_by)

interpretation reference: ydb_engine reference_engine "\<lambda>T. T"
proof unfold_locales
  fix q ps and T :: tables and rows
  assume "y_read reference_engine q ps T = Inr (Rows rows)" "few ps q T"
  then show "answers ps q T rows"
    by (cases q) (auto simp: reference_engine_def simp del: answers.simps intro!: select_rows_answers)
next
  fix cs t w ord lim ps and T T' :: tables and res
  assume "y_exec reference_engine [Select cs t w ord lim] ps T = (Inr res, T')"
  then show "\<exists>rows. res = Rows rows \<and> answers ps (Select cs t w ord lim) T rows"
    by (auto simp: reference_engine_def simp del: answers.simps intro!: select_rows_answers)
next
  fix t assume "stampable t"
  then show "uint (y_stamp reference_engine t) = t div 1000"
    using stampable_bounds(1,2) [of t] by (simp add: reference_engine_def uint_word_of_int mod_pos_pos_trivial)
qed (auto simp: reference_engine_def split: prod.splits sum.splits)

end
