(* ===== verification/Ydbstore.thy ===== *)
theory Ydbstore
  imports Yql
begin

text \<open>
  Package \<open>ydbstore\<close> (\<open>pkg/store/ydbstore/ydbstore.go\<close>): the production store, every repository
  method as the statements and parameters it hands to the client and what it makes of the
  answer. \<open>(r xRepo) Op\<close> is \<open>ydb_xRepo_Op\<close>. An \<open>int64\<close> id is stored as the \<open>Uint64\<close> of the same
  bits, so the conversions back and forth are the identity on words. \<open>s21account.ErrNotFound\<close> is
  \<open>YStore ErrNotFound\<close>, as in \<open>Memstore\<close>.
\<close>

section \<open>Parameters of statements\<close>

definition optStr :: "string \<Rightarrow> yval" where
  "optStr s = (if s = '''' then YNull else YUtf8 s)"

definition optU64 :: "i64 \<Rightarrow> yval" where
  "optU64 v = (if v = 0 then YNull else YUint64 v)"

definition y_ts :: "'d ydb \<Rightarrow> time \<Rightarrow> yval" where
  "y_ts Y t = YTimestamp (y_stamp Y t)"

definition optTime :: "'d ydb \<Rightarrow> time option \<Rightarrow> yval" where
  "optTime Y t = (case t of None \<Rightarrow> YNull | Some t \<Rightarrow> y_ts Y t)"

fun status_text :: "MatchStatus \<Rightarrow> string" where
  "status_text MatchStatusPending = ''PENDING''"
| "status_text MatchStatusApproved = ''APPROVED''"
| "status_text MatchStatusUndone = ''UNDONE''"

section \<open>Scanning rows\<close>

text \<open>
  \<open>named.Required\<close> fails on NULL, \<open>named.Optional\<close> yields a nil pointer for it, and
  \<open>named.OptionalWithDefault\<close> the default; a column of another type fails.
\<close>

fun as_u64 :: "yval \<Rightarrow> u64 option" where "as_u64 (YUint64 n) = Some n" | "as_u64 _ = None"
fun as_u32 :: "yval \<Rightarrow> u32 option" where "as_u32 (YUint32 n) = Some n" | "as_u32 _ = None"
fun as_utf8 :: "yval \<Rightarrow> string option" where "as_utf8 (YUtf8 s) = Some s" | "as_utf8 _ = None"
fun as_bool :: "yval \<Rightarrow> bool option" where "as_bool (YBool b) = Some b" | "as_bool _ = None"

fun as_time :: "'d ydb \<Rightarrow> yval \<Rightarrow> time option" where
  "as_time Y (YTimestamp n) = Some (y_time Y n)"
| "as_time Y _ = None"

definition Required :: "(yval \<Rightarrow> 'a option) \<Rightarrow> yrow \<Rightarrow> string \<Rightarrow> ('a \<Rightarrow> ydb_error + 'b) \<Rightarrow> ydb_error + 'b" where
  "Required rd r c k =
     (case mget r c of None \<Rightarrow> Inl (YScan c)
      | Some v \<Rightarrow> (case rd v of None \<Rightarrow> Inl (YScan c) | Some x \<Rightarrow> k x))"

definition Optional :: "(yval \<Rightarrow> 'a option) \<Rightarrow> yrow \<Rightarrow> string \<Rightarrow> ('a option \<Rightarrow> ydb_error + 'b) \<Rightarrow> ydb_error + 'b" where
  "Optional rd r c k =
     (case mget r c of None \<Rightarrow> Inl (YScan c)
      | Some YNull \<Rightarrow> k None
      | Some v \<Rightarrow> (case rd v of None \<Rightarrow> Inl (YScan c) | Some x \<Rightarrow> k (Some x)))"

text \<open>\<open>if p != nil { x = *p }\<close> over a zero value.\<close>

definition deref :: "'a \<Rightarrow> 'a option \<Rightarrow> 'a" where
  "deref z p = (case p of None \<Rightarrow> z | Some x \<Rightarrow> x)"

definition scanParticipant :: "'d ydb \<Rightarrow> yrow \<Rightarrow> ydb_error + Participant" where
  "scanParticipant Y r =
     Required as_u64 r ''group_id'' (\<lambda>gid.
     Required as_u64 r ''telegram_id'' (\<lambda>tid.
     Optional as_utf8 r ''telegram_username'' (\<lambda>un.
     Required (as_time Y) r ''activated_at'' (\<lambda>at.
       Inr \<lparr>p_GroupID = gid, p_TelegramID = tid, p_TelegramUsername = deref '''' un, p_ActivatedAt = at\<rparr>))))"

definition scanAdmin :: "'d ydb \<Rightarrow> yrow \<Rightarrow> ydb_error + Admin" where
  "scanAdmin Y r =
     Required as_u64 r ''telegram_id'' (\<lambda>tid.
     Required as_utf8 r ''campus_id'' (\<lambda>cid.
     Required as_utf8 r ''campus_name'' (\<lambda>cn.
     Required as_utf8 r ''s21_login'' (\<lambda>login.
     Required as_utf8 r ''s21_credentials_encrypted'' (\<lambda>enc.
     Required (as_time Y) r ''created_at'' (\<lambda>ca.
       Inr \<lparr>a_TelegramID = tid, a_CampusID = cid, a_CampusName = cn, a_S21Login = login,
            a_S21CredentialsEncrypted = enc, a_CreatedAt = ca\<rparr>))))))"

definition scanS21Account :: "'d ydb \<Rightarrow> yrow \<Rightarrow> ydb_error + S21Account" where
  "scanS21Account Y r =
     Required as_u64 r ''telegram_id'' (\<lambda>tid.
     Required as_utf8 r ''s21_login'' (\<lambda>login.
     Required as_utf8 r ''s21_creds_encrypted'' (\<lambda>creds.
     Optional as_utf8 r ''campus_id'' (\<lambda>campusID.
     Optional as_utf8 r ''campus_name'' (\<lambda>campusName.
     Required (as_time Y) r ''created_at'' (\<lambda>ca.
     Required (as_time Y) r ''updated_at'' (\<lambda>ua.
     Optional (as_time Y) r ''last_used_at'' (\<lambda>lastUsedAt.
     Optional (as_time Y) r ''s21_creds_failed_at'' (\<lambda>failedAt.
     Optional (as_time Y) r ''s21_creds_last_warned_at'' (\<lambda>lastWarnedAt.
       Inr \<lparr>acc_TelegramID = tid, acc_S21Login = login, acc_S21CredsEncrypted = creds,
            acc_CampusID = deref '''' campusID, acc_CampusName = deref '''' campusName,
            acc_CreatedAt = ca, acc_UpdatedAt = ua, acc_LastUsedAt = lastUsedAt,
            acc_S21CredsFailedAt = failedAt, acc_S21CredsLastWarnedAt = lastWarnedAt\<rparr>))))))))))"

definition scanGroup :: "'d ydb \<Rightarrow> yrow \<Rightarrow> ydb_error + Group" where
  "scanGroup Y r =
     Required as_u64 r ''group_id'' (\<lambda>gid.
     Required as_utf8 r ''campus_id'' (\<lambda>cid.
     Required as_utf8 r ''campus_name'' (\<lambda>cn.
     Required as_u64 r ''admin_telegram_id'' (\<lambda>adminID.
     Optional as_u64 r ''matches_topic_id'' (\<lambda>matchesTopic.
     Optional as_u64 r ''stats_topic_id'' (\<lambda>statsTopic.
     Optional as_u64 r ''rankings_message_id'' (\<lambda>rankingsMsg.
     Optional as_u64 r ''stats_message_id'' (\<lambda>statsMsg.
     Optional as_u64 r ''rankings_elo_message_id'' (\<lambda>rankingsELO.
     Optional as_u64 r ''rankings_glicko_message_id'' (\<lambda>rankingsGlicko.
     Optional as_u64 r ''stats_elo_message_id'' (\<lambda>statsELO.
     Optional as_u64 r ''stats_glicko_message_id'' (\<lambda>statsGlicko.
     Optional as_u32 r ''confirmation_timeout_hours'' (\<lambda>timeout.
     Required (as_time Y) r ''created_at'' (\<lambda>ca.
       Inr \<lparr>g_GroupID = gid, g_CampusID = cid, g_CampusName = cn, g_AdminTelegramID = adminID,
            g_MatchesTopicID = deref 0 matchesTopic, g_StatsTopicID = deref 0 statsTopic,
            g_RankingsMessageID = deref 0 rankingsMsg, g_StatsMessageID = deref 0 statsMsg,
            g_RankingsELOMessageID = deref 0 rankingsELO,
            g_RankingsGlickoMessageID = deref 0 rankingsGlicko,
            g_StatsELOMessageID = deref 0 statsELO, g_StatsGlickoMessageID = deref 0 statsGlicko,
            g_ConfirmationTimeoutHours = deref 0 timeout, g_CreatedAt = ca\<rparr>))))))))))))))"

text \<open>
  \<open>models.MatchStatus(status)\<close> takes any string; of another text than the three constants the
  model makes a scan error.
\<close>

definition scanMatch :: "'d ydb \<Rightarrow> yrow \<Rightarrow> ydb_error + Match" where
  "scanMatch Y r =
     Required as_u64 r ''group_id'' (\<lambda>gid.
     Required as_u64 r ''match_id'' (\<lambda>mid.
     Required as_u64 r ''player1_id'' (\<lambda>p1.
     Required as_u64 r ''player2_id'' (\<lambda>p2.
     Required as_u32 r ''player1_score'' (\<lambda>s1.
     Required as_u32 r ''player2_score'' (\<lambda>s2.
     Required as_u64 r ''registered_by'' (\<lambda>regBy.
     Required as_utf8 r ''status'' (\<lambda>status.
     Required (as_time Y) r ''played_at'' (\<lambda>pa.
     Required (as_time Y) r ''created_at'' (\<lambda>ca.
       (case find (\<lambda>x. status_text x = status) [MatchStatusPending, MatchStatusApproved, MatchStatusUndone] of
          None \<Rightarrow> Inl (YScan ''status'')
        | Some stt \<Rightarrow>
            Inr \<lparr>m_GroupID = gid, m_MatchID = mid, m_Player1ID = p1, m_Player2ID = p2,
                 m_Player1Score = s1, m_Player2Score = s2, m_RegisteredBy = regBy, m_Status = stt,
                 m_PlayedAt = pa, m_CreatedAt = ca\<rparr>)))))))))))"

definition scanConfirmation :: "'d ydb \<Rightarrow> yrow \<Rightarrow> ydb_error + MatchConfirmation" where
  "scanConfirmation Y r =
     Required as_u64 r ''group_id'' (\<lambda>g.
     Required as_u64 r ''match_id'' (\<lambda>m.
     Required as_u64 r ''telegram_id'' (\<lambda>u.
     Required (as_time Y) r ''confirmed_at'' (\<lambda>at.
       Inr \<lparr>c_GroupID = g, c_MatchID = m, c_TelegramID = u, c_ConfirmedAt = at\<rparr>))))"

definition scanUndo :: "'d ydb \<Rightarrow> yrow \<Rightarrow> ydb_error + UndoCommand" where
  "scanUndo Y r =
     Required as_u64 r ''group_id'' (\<lambda>g.
     Required as_u64 r ''match_id'' (\<lambda>m.
     Required as_u64 r ''telegram_id'' (\<lambda>u.
     Required (as_time Y) r ''requested_at'' (\<lambda>at.
       Inr \<lparr>u_GroupID = g, u_MatchID = m, u_TelegramID = u, u_RequestedAt = at\<rparr>))))"

definition scanSetting :: "'d ydb \<Rightarrow> yrow \<Rightarrow> ydb_error + BotSetting" where
  "scanSetting Y r =
     Required as_utf8 r ''key'' (\<lambda>k.
     Required as_utf8 r ''value'' (\<lambda>v.
     Required (as_time Y) r ''updated_at'' (\<lambda>at.
     Optional as_u64 r ''updated_by'' (\<lambda>by.
       Inr \<lparr>s_Key = k, s_Value = v, s_UpdatedAt = at, s_UpdatedBy = deref 0 by\<rparr>))))"

definition scanNick :: "'d ydb \<Rightarrow> yrow \<Rightarrow> ydb_error + S21NickCacheEntry" where
  "scanNick Y r =
     Required as_u64 r ''telegram_id'' (\<lambda>tid.
     Required as_bool r ''found'' (\<lambda>found.
     Optional as_utf8 r ''nickname'' (\<lambda>nickname.
     Optional as_utf8 r ''campus_id'' (\<lambda>campusID.
     Optional as_utf8 r ''campus_name'' (\<lambda>campusName.
     Optional as_utf8 r ''coalition_name'' (\<lambda>coalitionName.
     Required (as_time Y) r ''cached_at'' (\<lambda>at.
       Inr \<lparr>n_TelegramID = tid, n_Found = found, n_Nickname = deref '''' nickname,
            n_CampusID = deref '''' campusID, n_CampusName = deref '''' campusName,
            n_CoalitionName = deref '''' coalitionName, n_CachedAt = at\<rparr>)))))))"

section \<open>Running statements\<close>

text \<open>The closures of single-row reads, of listings and of single-script writes.\<close>

definition one_row :: "'d ydb \<Rightarrow> (yrow \<Rightarrow> ydb_error + 'a) \<Rightarrow> stmt \<Rightarrow> params \<Rightarrow> 'd \<Rightarrow> ydb_error + 'a" where
  "one_row Y scan q ps d =
     (case y_read Y q ps d of
        Inl x \<Rightarrow> Inl (YEngine x)
      | Inr (NoResultSet x) \<Rightarrow> Inl (YEngine x)
      | Inr (Rows []) \<Rightarrow> Inl (YStore ErrNotFound)
      | Inr (Rows (r # _)) \<Rightarrow> scan r)"

fun scan_all :: "(yrow \<Rightarrow> ydb_error + 'a) \<Rightarrow> yrow list \<Rightarrow> ydb_error + 'a list" where
  "scan_all scan [] = Inr []"
| "scan_all scan (r # rows) =
     (case scan r of
        Inl x \<Rightarrow> Inl x
      | Inr v \<Rightarrow> (case scan_all scan rows of Inl x \<Rightarrow> Inl x | Inr vs \<Rightarrow> Inr (v # vs)))"

definition all_rows :: "'d ydb \<Rightarrow> (yrow \<Rightarrow> ydb_error + 'a) \<Rightarrow> stmt \<Rightarrow> params \<Rightarrow> 'd \<Rightarrow> ydb_error + 'a list" where
  "all_rows Y scan q ps d =
     (case y_read Y q ps d of
        Inl x \<Rightarrow> Inl (YEngine x)
      | Inr (NoResultSet x) \<Rightarrow> Inl (YEngine x)
      | Inr (Rows rows) \<Rightarrow> scan_all scan rows)"

definition doTx1 :: "'d ydb \<Rightarrow> stmt list \<Rightarrow> params \<Rightarrow> 'd \<Rightarrow> ydb_error option \<times> 'd" where
  "doTx1 Y qs ps d =
     (case y_DoTx Y (\<lambda>d. case y_exec Y qs ps d of
          (Inl x, d') \<Rightarrow> (Inl (YEngine x), d') | (Inr _, d') \<Rightarrow> (Inr 0, d')) d of
        (Inl x, d') \<Rightarrow> (Some x, d') | (Inr _, d') \<Rightarrow> (None, d'))"

section \<open>Allocating a match\<close>

definition matchCols :: "string list" where
  "matchCols = [''group_id'', ''match_id'', ''player1_id'', ''player2_id'', ''player1_score'',
     ''player2_score'', ''registered_by'', ''status'', ''played_at'', ''created_at'']"

definition read_counter :: stmt where
  "read_counter = Select [''next_match_id''] ''match_counters'' [Eq ''group_id'' (Par ''$gid'')] [] None"

definition insert_match :: "stmt list" where
  "insert_match =
     [Upsert ''matches'' matchCols [''$group_id'', ''$match_id'', ''$player1_id'', ''$player2_id'',
        ''$player1_score'', ''$player2_score'', ''$registered_by'', ''$status'', ''$played_at'', ''$created_at''],
      Upsert ''match_counters'' [''group_id'', ''next_match_id''] [''$group_id'', ''$next'']]"

text \<open>The first id is 1; an unreadable or missing counter counts as none.\<close>

definition read_next_id :: "yresult \<Rightarrow> u64" where
  "read_next_id res =
     (case res of
        Rows (r # _) \<Rightarrow>
          (case Optional as_u64 r ''next_match_id'' (\<lambda>n. Inr (deref 0 n)) of Inl _ \<Rightarrow> 1 | Inr n \<Rightarrow> n + 1)
      | _ \<Rightarrow> 1)"

definition allocate_body :: "'d ydb \<Rightarrow> i64 \<Rightarrow> (u64 \<Rightarrow> Match) \<Rightarrow> 'd \<Rightarrow> (ydb_error + u64) \<times> 'd" where
  "allocate_body Y groupID build d =
     (case y_exec Y [read_counter] [(''$gid'', YUint64 groupID)] d of
        (Inl x, d1) \<Rightarrow> (Inl (YEngine x), d1)
      | (Inr res, d1) \<Rightarrow>
          let nxt = read_next_id res;
              row = (build nxt)\<lparr>m_MatchID := nxt, m_GroupID := groupID\<rparr>
          in (case y_exec Y insert_match
                [(''$group_id'', YUint64 (m_GroupID row)), (''$match_id'', YUint64 (m_MatchID row)),
                 (''$player1_id'', YUint64 (m_Player1ID row)), (''$player2_id'', YUint64 (m_Player2ID row)),
                 (''$player1_score'', YUint32 (m_Player1Score row)), (''$player2_score'', YUint32 (m_Player2Score row)),
                 (''$registered_by'', YUint64 (m_RegisteredBy row)), (''$status'', YUtf8 (status_text (m_Status row))),
                 (''$played_at'', y_ts Y (m_PlayedAt row)), (''$created_at'', y_ts Y (m_CreatedAt row)),
                 (''$next'', YUint64 nxt)] d1 of
                (Inl x, d2) \<Rightarrow> (Inl (YEngine x), d2)
              | (Inr _, d2) \<Rightarrow> (Inr nxt, d2)))"

definition ydb_AllocateAndInsertMatch ::
  "'d ydb \<Rightarrow> i64 \<Rightarrow> (u64 \<Rightarrow> Match) \<Rightarrow> 'd \<Rightarrow> (ydb_error + u64) \<times> 'd" where
  "ydb_AllocateAndInsertMatch Y groupID build d = y_DoTx Y (allocate_body Y groupID build) d"

section \<open>Participants\<close>

definition partCols :: "string list" where
  "partCols = [''group_id'', ''telegram_id'', ''telegram_username'', ''activated_at'']"

definition ydb_participantRepo_Get :: "'d ydb \<Rightarrow> 'd \<Rightarrow> i64 \<times> i64 \<Rightarrow> ydb_error + Participant" where
  "ydb_participantRepo_Get Y d k =
     one_row Y (scanParticipant Y)
       (Select partCols ''participants'' [Eq ''group_id'' (Par ''$g''), Eq ''telegram_id'' (Par ''$u'')] [] None)
       [(''$g'', YUint64 (fst k)), (''$u'', YUint64 (snd k))] d"

definition ydb_participantRepo_GetByUsername :: "'d ydb \<Rightarrow> 'd \<Rightarrow> i64 \<Rightarrow> string \<Rightarrow> ydb_error + Participant" where
  "ydb_participantRepo_GetByUsername Y d gid username =
     one_row Y (scanParticipant Y)
       (Select partCols ''participants'' [Eq ''group_id'' (Par ''$g''), Eq ''telegram_username'' (Par ''$u'')] [] (Some 1))
       [(''$g'', YUint64 gid), (''$u'', YUtf8 username)] d"

definition ydb_participantRepo_ListByGroup :: "'d ydb \<Rightarrow> 'd \<Rightarrow> i64 \<Rightarrow> ydb_error + Participant list" where
  "ydb_participantRepo_ListByGroup Y d gid =
     all_rows Y (scanParticipant Y)
       (Select partCols ''participants'' [Eq ''group_id'' (Par ''$g'')] [] None) [(''$g'', YUint64 gid)] d"

definition ydb_participantRepo_Upsert :: "'d ydb \<Rightarrow> Participant \<Rightarrow> 'd \<Rightarrow> ydb_error option \<times> 'd" where
  "ydb_participantRepo_Upsert Y p d =
     (let unameVal = (if p_TelegramUsername p = '''' then YNull else YUtf8 (p_TelegramUsername p))
      in doTx1 Y [Upsert ''participants'' partCols [''$g'', ''$u'', ''$un'', ''$at'']]
           [(''$g'', YUint64 (p_GroupID p)), (''$u'', YUint64 (p_TelegramID p)), (''$un'', unameVal),
            (''$at'', y_ts Y (p_ActivatedAt p))] d)"

section \<open>Admins\<close>

definition adminCols :: "string list" where
  "adminCols = [''telegram_id'', ''campus_id'', ''campus_name'', ''s21_login'', ''s21_credentials_encrypted'', ''created_at'']"

definition ydb_adminRepo_Get :: "'d ydb \<Rightarrow> 'd \<Rightarrow> i64 \<Rightarrow> ydb_error + Admin" where
  "ydb_adminRepo_Get Y d t =
     one_row Y (scanAdmin Y) (Select [] ''admins'' [Eq ''telegram_id'' (Par ''$t'')] [] None)
       [(''$t'', YUint64 t)] d"

definition ydb_adminRepo_GetByCampus :: "'d ydb \<Rightarrow> 'd \<Rightarrow> string \<Rightarrow> ydb_error + Admin" where
  "ydb_adminRepo_GetByCampus Y d cid =
     one_row Y (scanAdmin Y) (Select [] ''admins'' [Eq ''campus_id'' (Par ''$c'')] [] (Some 1))
       [(''$c'', YUtf8 cid)] d"

definition ydb_adminRepo_Upsert :: "'d ydb \<Rightarrow> Admin \<Rightarrow> 'd \<Rightarrow> ydb_error option \<times> 'd" where
  "ydb_adminRepo_Upsert Y a d =
     doTx1 Y [Upsert ''admins'' adminCols [''$t'', ''$cid'', ''$cn'', ''$login'', ''$enc'', ''$ca'']]
       [(''$t'', YUint64 (a_TelegramID a)), (''$cid'', YUtf8 (a_CampusID a)), (''$cn'', YUtf8 (a_CampusName a)),
        (''$login'', YUtf8 (a_S21Login a)), (''$enc'', YUtf8 (a_S21CredentialsEncrypted a)),
        (''$ca'', y_ts Y (a_CreatedAt a))] d"

definition ydb_adminRepo_List :: "'d ydb \<Rightarrow> 'd \<Rightarrow> ydb_error + Admin list" where
  "ydb_adminRepo_List Y d = all_rows Y (scanAdmin Y) (Select [] ''admins'' [] [] None) [] d"

section \<open>S21 accounts\<close>

definition s21AccountColsSel :: "string list" where
  "s21AccountColsSel = [''telegram_id'', ''s21_login'', ''s21_creds_encrypted'', ''campus_id'', ''campus_name'',
     ''created_at'', ''updated_at'', ''last_used_at'', ''s21_creds_failed_at'', ''s21_creds_last_warned_at'']"

definition ydb_s21AccountRepo_Get :: "'d ydb \<Rightarrow> 'd \<Rightarrow> i64 \<Rightarrow> ydb_error + S21Account" where
  "ydb_s21AccountRepo_Get Y d tid =
     one_row Y (scanS21Account Y)
       (Select s21AccountColsSel ''s21_accounts'' [Eq ''telegram_id'' (Par ''$tid'')] [] None)
       [(''$tid'', YUint64 tid)] d"

definition ydb_s21AccountRepo_List :: "'d ydb \<Rightarrow> 'd \<Rightarrow> ydb_error + S21Account list" where
  "ydb_s21AccountRepo_List Y d =
     all_rows Y (scanS21Account Y)
       (Select s21AccountColsSel ''s21_accounts'' [] [''created_at'', ''telegram_id''] None) [] d"

definition ydb_s21AccountRepo_Upsert :: "'d ydb \<Rightarrow> time \<Rightarrow> S21Account \<Rightarrow> 'd \<Rightarrow> ydb_error option \<times> 'd" where
  "ydb_s21AccountRepo_Upsert Y wall a0 d =
     (let a1 = (if IsZero (acc_UpdatedAt a0) then a0\<lparr>acc_UpdatedAt := wall\<rparr> else a0);
          a = (if IsZero (acc_CreatedAt a1) then a1\<lparr>acc_CreatedAt := acc_UpdatedAt a1\<rparr> else a1)
      in doTx1 Y [Upsert ''s21_accounts'' s21AccountColsSel
             [''$tid'', ''$login'', ''$creds'', ''$cid'', ''$cname'', ''$cat'', ''$uat'', ''$lua'', ''$fat'', ''$wat'']]
           [(''$tid'', YUint64 (acc_TelegramID a)), (''$login'', YUtf8 (acc_S21Login a)),
            (''$creds'', YUtf8 (acc_S21CredsEncrypted a)), (''$cid'', optStr (acc_CampusID a)),
            (''$cname'', optStr (acc_CampusName a)), (''$cat'', y_ts Y (acc_CreatedAt a)),
            (''$uat'', y_ts Y (acc_UpdatedAt a)), (''$lua'', optTime Y (acc_LastUsedAt a)),
            (''$fat'', optTime Y (acc_S21CredsFailedAt a)), (''$wat'', optTime Y (acc_S21CredsLastWarnedAt a))] d)"

definition ydb_s21AccountRepo_Delete :: "'d ydb \<Rightarrow> i64 \<Rightarrow> 'd \<Rightarrow> ydb_error option \<times> 'd" where
  "ydb_s21AccountRepo_Delete Y tid d =
     doTx1 Y [DeleteFrom ''s21_accounts'' [Eq ''telegram_id'' (Par ''$tid'')]] [(''$tid'', YUint64 tid)] d"

section \<open>Groups\<close>

definition groupCols :: "string list" where
  "groupCols = [''group_id'', ''campus_id'', ''campus_name'', ''admin_telegram_id'', ''matches_topic_id'',
     ''stats_topic_id'', ''rankings_message_id'', ''stats_message_id'', ''rankings_elo_message_id'',
     ''rankings_glicko_message_id'', ''stats_elo_message_id'', ''stats_glicko_message_id'',
     ''confirmation_timeout_hours'', ''created_at'']"

definition ydb_groupRepo_Get :: "'d ydb \<Rightarrow> 'd \<Rightarrow> i64 \<Rightarrow> ydb_error + Group" where
  "ydb_groupRepo_Get Y d g =
     one_row Y (scanGroup Y) (Select [] ''groups'' [Eq ''group_id'' (Par ''$g'')] [] None) [(''$g'', YUint64 g)] d"

definition ydb_groupRepo_GetByCampus :: "'d ydb \<Rightarrow> 'd \<Rightarrow> string \<Rightarrow> ydb_error + Group" where
  "ydb_groupRepo_GetByCampus Y d cid =
     one_row Y (scanGroup Y) (Select [] ''groups'' [Eq ''campus_id'' (Par ''$c'')] [] (Some 1)) [(''$c'', YUtf8 cid)] d"

definition ydb_groupRepo_Upsert :: "'d ydb \<Rightarrow> Group \<Rightarrow> 'd \<Rightarrow> ydb_error option \<times> 'd" where
  "ydb_groupRepo_Upsert Y g d =
     (let timeoutVal = (if g_ConfirmationTimeoutHours g = 0 then YNull else YUint32 (g_ConfirmationTimeoutHours g))
      in doTx1 Y [Upsert ''groups'' groupCols
             [''$group_id'', ''$campus_id'', ''$campus_name'', ''$admin_telegram_id'', ''$matches_topic_id'',
              ''$stats_topic_id'', ''$rankings_message_id'', ''$stats_message_id'', ''$rankings_elo_message_id'',
              ''$rankings_glicko_message_id'', ''$stats_elo_message_id'', ''$stats_glicko_message_id'',
              ''$confirmation_timeout_hours'', ''$created_at'']]
           [(''$group_id'', YUint64 (g_GroupID g)), (''$campus_id'', YUtf8 (g_CampusID g)),
            (''$campus_name'', YUtf8 (g_CampusName g)), (''$admin_telegram_id'', YUint64 (g_AdminTelegramID g)),
            (''$matches_topic_id'', optU64 (g_MatchesTopicID g)), (''$stats_topic_id'', optU64 (g_StatsTopicID g)),
            (''$rankings_message_id'', optU64 (g_RankingsMessageID g)), (''$stats_message_id'', optU64 (g_StatsMessageID g)),
            (''$rankings_elo_message_id'', optU64 (g_RankingsELOMessageID g)),
            (''$rankings_glicko_message_id'', optU64 (g_RankingsGlickoMessageID g)),
            (''$stats_elo_message_id'', optU64 (g_StatsELOMessageID g)),
            (''$stats_glicko_message_id'', optU64 (g_StatsGlickoMessageID g)),
            (''$confirmation_timeout_hours'', timeoutVal), (''$created_at'', y_ts Y (g_CreatedAt g))] d)"

definition ydb_groupRepo_List :: "'d ydb \<Rightarrow> 'd \<Rightarrow> ydb_error + Group list" where
  "ydb_groupRepo_List Y d = all_rows Y (scanGroup Y) (Select [] ''groups'' [] [] None) [] d"

section \<open>Matches\<close>

definition of_match :: "ycond list" where
  "of_match = [Eq ''group_id'' (Par ''$g''), Eq ''match_id'' (Par ''$m'')]"

definition ydb_matchRepo_Get :: "'d ydb \<Rightarrow> 'd \<Rightarrow> i64 \<times> u64 \<Rightarrow> ydb_error + Match" where
  "ydb_matchRepo_Get Y d k =
     one_row Y (scanMatch Y) (Select matchCols ''matches'' of_match [] None)
       [(''$g'', YUint64 (fst k)), (''$m'', YUint64 (snd k))] d"

definition ydb_matchRepo_UpdateStatus ::
  "'d ydb \<Rightarrow> i64 \<times> u64 \<Rightarrow> MatchStatus \<Rightarrow> 'd \<Rightarrow> ydb_error option \<times> 'd" where
  "ydb_matchRepo_UpdateStatus Y k status d =
     doTx1 Y [UpdateSet ''matches'' ''status'' ''$s'' of_match]
       [(''$g'', YUint64 (fst k)), (''$m'', YUint64 (snd k)), (''$s'', YUtf8 (status_text status))] d"

definition ydb_matchRepo_Delete :: "'d ydb \<Rightarrow> i64 \<times> u64 \<Rightarrow> 'd \<Rightarrow> ydb_error option \<times> 'd" where
  "ydb_matchRepo_Delete Y k d =
     doTx1 Y [DeleteFrom ''matches'' of_match, DeleteFrom ''match_confirmations'' of_match,
              DeleteFrom ''undo_commands'' of_match]
       [(''$g'', YUint64 (fst k)), (''$m'', YUint64 (snd k))] d"

definition ydb_matchRepo_ListByGroup :: "'d ydb \<Rightarrow> 'd \<Rightarrow> i64 \<Rightarrow> ydb_error + Match list" where
  "ydb_matchRepo_ListByGroup Y d gid =
     all_rows Y (scanMatch Y)
       (Select matchCols ''matches'' [Eq ''group_id'' (Par ''$g'')] [''played_at'', ''match_id''] None)
       [(''$g'', YUint64 gid)] d"

definition scanPlayers :: "yrow \<Rightarrow> ydb_error + i64 \<times> i64" where
  "scanPlayers r =
     Required as_u64 r ''player1_id'' (\<lambda>p1. Required as_u64 r ''player2_id'' (\<lambda>p2. Inr (p1, p2)))"

definition ydb_matchRepo_CountsByPlayer :: "'d ydb \<Rightarrow> 'd \<Rightarrow> i64 \<Rightarrow> ydb_error + (i64, int) gomap" where
  "ydb_matchRepo_CountsByPlayer Y d gid =
     (case all_rows Y scanPlayers
          (Select [''player1_id'', ''player2_id''] ''matches''
             [Eq ''group_id'' (Par ''$g''), Neq ''status'' (Lit ''UNDONE'')] [] None)
          [(''$g'', YUint64 gid)] d of
        Inl x \<Rightarrow> Inl x
      | Inr ps \<Rightarrow> Inr (fold (\<lambda>(p1, p2) out. bump p2 (bump p1 out)) ps []))"

text \<open>The group of a match, from the loop's cache or else from the table.\<close>

definition cached_group ::
  "'d ydb \<Rightarrow> 'd \<Rightarrow> (i64, Group) gomap \<Rightarrow> i64 \<Rightarrow> (Group \<times> (i64, Group) gomap) option" where
  "cached_group Y d cache gid =
     (case mget cache gid of
        Some g \<Rightarrow> Some (g, cache)
      | None \<Rightarrow> (case ydb_groupRepo_Get Y d gid of Inl _ \<Rightarrow> None | Inr g \<Rightarrow> Some (g, mput gid g cache)))"

fun expired_loop ::
  "'d ydb \<Rightarrow> 'd \<Rightarrow> (Group \<Rightarrow> bool) \<Rightarrow> time \<Rightarrow> (i64, Group) gomap \<Rightarrow> Match list \<Rightarrow> Match list" where
  "expired_loop Y d before now cache [] = []"
| "expired_loop Y d before now cache (m # ms) =
     (case cached_group Y d cache (m_GroupID m) of
        None \<Rightarrow> expired_loop Y d before now cache ms
      | Some (g, cache') \<Rightarrow>
          if \<not> before g then expired_loop Y d before now cache' ms
          else if ConfirmationTimeout g < time_Sub now (m_CreatedAt m)
               then m # expired_loop Y d before now cache' ms
          else expired_loop Y d before now cache' ms)"

definition ydb_matchRepo_ListPendingExpired ::
  "'d ydb \<Rightarrow> 'd \<Rightarrow> (Group \<Rightarrow> bool) \<Rightarrow> time \<Rightarrow> ydb_error + Match list" where
  "ydb_matchRepo_ListPendingExpired Y d before now =
     (case all_rows Y (scanMatch Y) (Select matchCols ''matches'' [Eq ''status'' (Lit ''PENDING'')] [] None) [] d of
        Inl x \<Rightarrow> Inl x
      | Inr pending \<Rightarrow> Inr (expired_loop Y d before now [] pending))"

section \<open>Confirmations and undo commands\<close>

definition confCols :: "string list" where
  "confCols = [''group_id'', ''match_id'', ''telegram_id'', ''confirmed_at'']"

definition undoCols :: "string list" where
  "undoCols = [''group_id'', ''match_id'', ''telegram_id'', ''requested_at'']"

definition ydb_confirmRepo_Insert :: "'d ydb \<Rightarrow> MatchConfirmation \<Rightarrow> 'd \<Rightarrow> ydb_error option \<times> 'd" where
  "ydb_confirmRepo_Insert Y c d =
     doTx1 Y [Upsert ''match_confirmations'' confCols [''$g'', ''$m'', ''$u'', ''$t'']]
       [(''$g'', YUint64 (c_GroupID c)), (''$m'', YUint64 (c_MatchID c)), (''$u'', YUint64 (c_TelegramID c)),
        (''$t'', y_ts Y (c_ConfirmedAt c))] d"

definition ydb_confirmRepo_ListForMatch :: "'d ydb \<Rightarrow> 'd \<Rightarrow> i64 \<times> u64 \<Rightarrow> ydb_error + MatchConfirmation list" where
  "ydb_confirmRepo_ListForMatch Y d k =
     all_rows Y (scanConfirmation Y) (Select confCols ''match_confirmations'' of_match [] None)
       [(''$g'', YUint64 (fst k)), (''$m'', YUint64 (snd k))] d"

definition ydb_confirmRepo_DeleteForMatch :: "'d ydb \<Rightarrow> i64 \<times> u64 \<Rightarrow> 'd \<Rightarrow> ydb_error option \<times> 'd" where
  "ydb_confirmRepo_DeleteForMatch Y k d =
     doTx1 Y [DeleteFrom ''match_confirmations'' of_match]
       [(''$g'', YUint64 (fst k)), (''$m'', YUint64 (snd k))] d"

definition ydb_undoRepo_Insert :: "'d ydb \<Rightarrow> UndoCommand \<Rightarrow> 'd \<Rightarrow> ydb_error option \<times> 'd" where
  "ydb_undoRepo_Insert Y u d =
     doTx1 Y [Upsert ''undo_commands'' undoCols [''$g'', ''$m'', ''$u'', ''$t'']]
       [(''$g'', YUint64 (u_GroupID u)), (''$m'', YUint64 (u_MatchID u)), (''$u'', YUint64 (u_TelegramID u)),
        (''$t'', y_ts Y (u_RequestedAt u))] d"

definition ydb_undoRepo_Delete :: "'d ydb \<Rightarrow> i64 \<times> u64 \<times> i64 \<Rightarrow> 'd \<Rightarrow> ydb_error option \<times> 'd" where
  "ydb_undoRepo_Delete Y k d =
     doTx1 Y [DeleteFrom ''undo_commands'' (of_match @ [Eq ''telegram_id'' (Par ''$u'')])]
       [(''$g'', YUint64 (fst k)), (''$m'', YUint64 (fst (snd k))), (''$u'', YUint64 (snd (snd k)))] d"

definition ydb_undoRepo_DeleteForMatch :: "'d ydb \<Rightarrow> i64 \<times> u64 \<Rightarrow> 'd \<Rightarrow> ydb_error option \<times> 'd" where
  "ydb_undoRepo_DeleteForMatch Y k d =
     doTx1 Y [DeleteFrom ''undo_commands'' of_match] [(''$g'', YUint64 (fst k)), (''$m'', YUint64 (snd k))] d"

definition ydb_undoRepo_ListForMatch :: "'d ydb \<Rightarrow> 'd \<Rightarrow> i64 \<times> u64 \<Rightarrow> ydb_error + UndoCommand list" where
  "ydb_undoRepo_ListForMatch Y d k =
     all_rows Y (scanUndo Y) (Select undoCols ''undo_commands'' of_match [] None)
       [(''$g'', YUint64 (fst k)), (''$m'', YUint64 (snd k))] d"

definition ydb_undoRepo_ListExpired :: "'d ydb \<Rightarrow> 'd \<Rightarrow> int \<Rightarrow> ydb_error + UndoCommand list" where
  "ydb_undoRepo_ListExpired Y d cutoffNanos =
     all_rows Y (scanUndo Y) (Select undoCols ''undo_commands'' [Less ''requested_at'' (Par ''$cut'')] [] None)
       [(''$cut'', y_ts Y cutoffNanos)] d"

section \<open>Settings and the durable nickname cache\<close>

definition settingCols :: "string list" where
  "settingCols = [''key'', ''value'', ''updated_at'', ''updated_by'']"

definition ydb_settingsRepo_Get :: "'d ydb \<Rightarrow> 'd \<Rightarrow> string \<Rightarrow> ydb_error + BotSetting" where
  "ydb_settingsRepo_Get Y d k =
     one_row Y (scanSetting Y) (Select settingCols ''bot_settings'' [Eq ''key'' (Par ''$k'')] [] None)
       [(''$k'', YUtf8 k)] d"

definition ydb_settingsRepo_Set ::
  "'d ydb \<Rightarrow> time \<Rightarrow> string \<Rightarrow> string \<Rightarrow> i64 \<Rightarrow> 'd \<Rightarrow> ydb_error option \<times> 'd" where
  "ydb_settingsRepo_Set Y wall k v updatedBy d =
     doTx1 Y [Upsert ''bot_settings'' settingCols [''$k'', ''$v'', ''$t'', ''$by'']]
       [(''$k'', YUtf8 k), (''$v'', YUtf8 v), (''$t'', y_ts Y wall), (''$by'', optU64 updatedBy)] d"

definition nickCols :: "string list" where
  "nickCols = [''telegram_id'', ''found'', ''nickname'', ''campus_id'', ''campus_name'', ''coalition_name'', ''cached_at'']"

definition ydb_nickCacheRepo_Get :: "'d ydb \<Rightarrow> 'd \<Rightarrow> i64 \<Rightarrow> ydb_error + S21NickCacheEntry" where
  "ydb_nickCacheRepo_Get Y d tid =
     one_row Y (scanNick Y) (Select nickCols ''tg_nick_cache'' [Eq ''telegram_id'' (Par ''$tid'')] [] None)
       [(''$tid'', YUint64 tid)] d"

definition ydb_nickCacheRepo_Upsert :: "'d ydb \<Rightarrow> time \<Rightarrow> S21NickCacheEntry \<Rightarrow> 'd \<Rightarrow> ydb_error option \<times> 'd" where
  "ydb_nickCacheRepo_Upsert Y wall e0 d =
     (let e = (if IsZero (n_CachedAt e0) then e0\<lparr>n_CachedAt := wall\<rparr> else e0)
      in doTx1 Y [Upsert ''tg_nick_cache'' nickCols
             [''$tid'', ''$found'', ''$nick'', ''$cid'', ''$cn'', ''$coal'', ''$cat'']]
           [(''$tid'', YUint64 (n_TelegramID e)), (''$found'', YBool (n_Found e)), (''$nick'', optStr (n_Nickname e)),
            (''$cid'', optStr (n_CampusID e)), (''$cn'', optStr (n_CampusName e)), (''$coal'', optStr (n_CoalitionName e)),
            (''$cat'', y_ts Y (n_CachedAt e))] d)"

section \<open>Waiting for the database\<close>

text \<open>
  \<open>EnsureSchema\<close> does nothing. \<open>AwaitReady\<close> polls: in round \<open>i\<close> the query fails with \<open>probe i\<close> (or
  succeeds), the clock then reads \<open>clk i\<close>, and \<open>stop i\<close> is the error of a context that ends
  during the pause. A loop without end is \<open>None\<close>.
\<close>

definition EnsureSchema :: "'d \<Rightarrow> ydb_error option \<times> 'd" where
  "EnsureSchema d = (None, d)"

partial_function (option) await_loop ::
  "(nat \<Rightarrow> string option) \<Rightarrow> (nat \<Rightarrow> time) \<Rightarrow> (nat \<Rightarrow> string option) \<Rightarrow> time \<Rightarrow> nat \<Rightarrow> string option option" where
  "await_loop probe clk stop deadline i =
     (case probe i of
        None \<Rightarrow> Some None
      | Some x \<Rightarrow>
          if deadline < clk i then Some (Some x)
          else (case stop i of
                  Some c \<Rightarrow> Some (Some c)
                | None \<Rightarrow> await_loop probe clk stop deadline (Suc i)))"

definition AwaitReady ::
  "time \<Rightarrow> time option \<Rightarrow> (nat \<Rightarrow> string option) \<Rightarrow> (nat \<Rightarrow> time) \<Rightarrow> (nat \<Rightarrow> string option) \<Rightarrow> string option option" where
  "AwaitReady now ctxDeadline probe clk stop =
     (let deadline = now + 5 * 10 ^ 9;
          deadline = (case ctxDeadline of Some d \<Rightarrow> if d < deadline then d else deadline | None \<Rightarrow> deadline)
      in await_loop probe clk stop deadline 0)"

end
