(* ===== verification/YdbTables.thy ===== *)
theory YdbTables
  imports Ydbstore MemstoreProps
begin

text \<open>
  Database tables as maps. A table \<open>mirrors\<close> a map when its rows are the encoded values under the
  encoded keys. The locale \<open>ydb_table\<close> carries what all tables share, an encoding of keys and
  rows that scans back; it is interpreted on the encodings of all ten tables.
\<close>

section \<open>Lists and maps\<close>

lemma wf_map_mset_eq:
  assumes "wf_map a" and "wf_map b" and "mget a = mget b"
  shows "mset a = mset b"
proof -
  have "set a = set b" using assms by (metis wf_map_def map_of_inject_set)
  then show ?thesis using assms(1,2) by (metis set_eq_iff_mset_eq_distinct wf_map_def distinct_map)
qed

lemma mget_map_prod: "inj kf \<Longrightarrow> mget (map (map_prod kf vf) m) (kf k) = map_option vf (mget m k)"
  by (induction m) (auto simp: inj_eq)

lemma mget_map_prod_None: "x \<notin> range kf \<Longrightarrow> mget (map (map_prod kf vf) m) x = None"
  by (induction m) auto

lemma mget_filter_values:
  "wf_map m \<Longrightarrow> mget (filter (\<lambda>(k, v). P v) m) k =
     (case mget m k of None \<Rightarrow> None | Some v \<Rightarrow> if P v then Some v else None)"
  by (induction m) (auto simp: wf_map_def image_iff dest: map_of_SomeD split: option.splits)

lemma wf_map_filter_values: "wf_map m \<Longrightarrow> wf_map (filter (\<lambda>(k, v). P v) m)"
  by (simp add: wf_map_def distinct_map_filter)

lemma mget_map_values2: "mget (map (\<lambda>(k, v). (k, f v)) m) k = map_option f (mget m k)"
  by (induction m) auto

lemma wf_map_map_values2: "wf_map m \<Longrightarrow> wf_map (map (\<lambda>(k, v). (k, f v)) m)"
  by (simp add: wf_map_def case_prod_beta comp_def)

text \<open>The values of a map whose key is a part of the value.\<close>

lemma values_with_key:
  assumes "wf_map m" and "keyed key m"
  shows "filter (\<lambda>v. key v = k) (map snd m) = (case mget m k of None \<Rightarrow> [] | Some v \<Rightarrow> [v])"
  using assms
proof (induction m)
  case Nil
  then show ?case by simp
next
  case (Cons p m)
  obtain k1 v1 where p: "p = (k1, v1)" by fastforce
  have new: "mget m k1 = None" and wf: "wf_map m"
    using Cons.prems(1) by (auto simp: wf_map_def p map_of_eq_None_iff)
  have "keyed key m"
    unfolding keyed_def
  proof (intro allI impI)
    fix k' v assume v: "mget m k' = Some v"
    then have "k' \<noteq> k1" using new by auto
    then have "mget (p # m) k' = Some v" using v by (simp add: p)
    then show "key v = k'" by (rule keyedD [OF Cons.prems(2)])
  qed
  moreover have "key v1 = k1" using Cons.prems(2) by (auto simp: keyed_def p)
  ultimately show ?case using Cons.IH [OF wf] new by (auto simp: p)
qed

lemma mset_image_split:
  "mset rows = image_mset f M \<Longrightarrow> \<exists>vs. rows = map f vs \<and> mset vs = M"
proof (induction rows arbitrary: M)
  case Nil
  then show ?case by (intro exI [of _ "[]"]) simp
next
  case (Cons r rows)
  then have "image_mset f M = add_mset r (mset rows)" by simp
  then obtain M' v where M: "M = add_mset v M'" "f v = r" "mset rows = image_mset f M'"
    by (metis msed_map_invR)
  from Cons.IH [OF M(3)] obtain vs where "rows = map f vs" "mset vs = M'" by blast
  with M show ?case by (intro exI [of _ "v # vs"]) simp
qed

section \<open>Tables that mirror maps\<close>

definition mirrors ::
  "('k \<Rightarrow> yval list) \<Rightarrow> ('v \<Rightarrow> yrow) \<Rightarrow> ('v \<Rightarrow> bool) \<Rightarrow> ('v \<Rightarrow> 'k) \<Rightarrow> (yval list, yrow) gomap \<Rightarrow> ('k, 'v) gomap \<Rightarrow> bool"
  where
  "mirrors kf vf ok key T m \<longleftrightarrow>
     wf_map T \<and> wf_map m \<and> keyed key m \<and> (\<forall>k v. mget m k = Some v \<longrightarrow> ok v) \<and>
     mget T = mget (map (map_prod kf vf) m)"

lemma mirrors_Nil [simp]: "mirrors kf vf ok key [] []"
  by (simp add: mirrors_def)

text \<open>A read of the production store against one of the in-memory store.\<close>

definition agrees :: "ydb_error + 'a \<Rightarrow> store_error + 'a \<Rightarrow> bool" where
  "agrees x y \<longleftrightarrow> (\<exists>z. x = Inl (YEngine z)) \<or> x = map_sum YStore id y"

locale ydb_table =
  fixes kf :: "'k \<Rightarrow> yval list" and vf :: "'v \<Rightarrow> yrow" and ok :: "'v \<Rightarrow> bool" and key :: "'v \<Rightarrow> 'k"
    and cs :: "string list" and scan :: "yrow \<Rightarrow> ydb_error + 'v"
  assumes inj_key: "inj kf"
    and columns: "map fst (vf v) = cs" and columns_distinct: "distinct cs"
    and scan_row: "ok v \<Longrightarrow> scan (vf v) = Inr v"
begin

abbreviation mir :: "(yval list, yrow) gomap \<Rightarrow> ('k, 'v) gomap \<Rightarrow> bool" where
  "mir \<equiv> mirrors kf vf ok key"

lemma mir_get: "mir T m \<Longrightarrow> mget T (kf k) = map_option vf (mget m k)"
  by (simp add: mirrors_def mget_map_prod inj_key)

lemma mir_ext:
  assumes "wf_map T" and "wf_map m" and "keyed key m" and "\<And>k v. mget m k = Some v \<Longrightarrow> ok v"
    and "\<And>k. mget T (kf k) = map_option vf (mget m k)" and "\<And>x. x \<notin> range kf \<Longrightarrow> mget T x = None"
  shows "mir T m"
proof -
  have "mget T x = mget (map (map_prod kf vf) m) x" for x
    by (cases "x \<in> range kf") (auto simp: assms(5,6) mget_map_prod inj_key mget_map_prod_None)
  then show ?thesis using assms(1-4) by (auto simp: mirrors_def)
qed

lemma mir_none: "mir T m \<Longrightarrow> x \<notin> range kf \<Longrightarrow> mget T x = None"
  by (simp add: mirrors_def mget_map_prod_None)

lemma mir_put:
  assumes "mir T m" and "ok v" and "key v = k"
  shows "mir (mput (kf k) (vf v) T) (mput k v m)"
proof (rule mir_ext)
  show "keyed key (mput k v m)" using assms by (auto simp: mirrors_def intro: keyed_mput)
  show "\<And>k' v'. mget (mput k v m) k' = Some v' \<Longrightarrow> ok v'"
    using assms by (auto simp: mirrors_def split: if_splits)
  show "\<And>k'. mget (mput (kf k) (vf v) T) (kf k') = map_option vf (mget (mput k v m) k')"
    using mir_get [OF assms(1)] by (simp add: inj_key inj_eq)
  show "\<And>x. x \<notin> range kf \<Longrightarrow> mget (mput (kf k) (vf v) T) x = None"
    using mir_none [OF assms(1)] by auto
qed (use assms(1) in \<open>simp_all add: mirrors_def\<close>)

text \<open>Deleting the rows that satisfy a condition on their key.\<close>

lemma mir_del:
  assumes "mir T m" and "wf_map m'" and "\<And>k. mget m' k = (if p k then None else mget m k)"
    and "\<And>v. where_holds ps w (vf v) \<longleftrightarrow> p (key v)"
  shows "mir (filter (\<lambda>(k, r). \<not> where_holds ps w r) T) m'"
proof (rule mir_ext)
  have wf: "wf_map T" and kd: "keyed key m" and okm: "\<forall>k v. mget m k = Some v \<longrightarrow> ok v"
    using assms(1) by (auto simp: mirrors_def)
  show "wf_map (filter (\<lambda>(k, r). \<not> where_holds ps w r) T)" using wf by (rule wf_map_filter_values)
  show "keyed key m'" using kd by (auto simp: keyed_def assms(3))
  show "\<And>k v. mget m' k = Some v \<Longrightarrow> ok v" using okm by (auto simp: assms(3) split: if_splits)
  show "mget (filter (\<lambda>(k, r). \<not> where_holds ps w r) T) (kf k) = map_option vf (mget m' k)" for k
  proof (cases "mget m k")
    case None
    then show ?thesis using mir_get [OF assms(1), of k] by (simp add: mget_filter_values [OF wf] assms(3))
  next
    case (Some v)
    then have "key v = k" using kd by (rule keyedD [rotated])
    then show ?thesis
      using Some mir_get [OF assms(1), of k] by (simp add: mget_filter_values [OF wf] assms(3,4))
  qed
  show "\<And>x. x \<notin> range kf \<Longrightarrow> mget (filter (\<lambda>(k, r). \<not> where_holds ps w r) T) x = None"
    using mir_none [OF assms(1)] by (simp add: mget_filter_values [OF wf])
qed (rule assms(2))

text \<open>Updating the row of one key.\<close>

lemma mir_update:
  assumes "mir T m" and "\<And>v. where_holds ps w (vf v) \<longleftrightarrow> key v = k"
    and "\<And>v. ok v \<Longrightarrow> g (vf v) = vf (f v) \<and> ok (f v) \<and> key (f v) = key v"
  shows "mir (map (\<lambda>(k, r). (k, if where_holds ps w r then g r else r)) T)
           (case mget m k of None \<Rightarrow> m | Some v \<Rightarrow> mput k (f v) m)" (is "mir _ ?m'")
proof (rule mir_ext)
  have wf: "wf_map T" and kd: "keyed key m" and wfm: "wf_map m" and okm: "\<forall>k v. mget m k = Some v \<longrightarrow> ok v"
    using assms(1) by (auto simp: mirrors_def)
  have get: "mget ?m' k' = (if k' = k then map_option f (mget m k) else mget m k')" for k'
    by (simp split: option.split)
  show "wf_map (map (\<lambda>(k, r). (k, if where_holds ps w r then g r else r)) T)"
    using wf by (rule wf_map_map_values2)
  show "wf_map ?m'" using wfm by (simp split: option.split)
  show "keyed key ?m'"
    using kd okm assms(3) by (auto simp: keyed_def get split: if_splits)
  show "\<And>k' v. mget ?m' k' = Some v \<Longrightarrow> ok v"
    using okm assms(3) by (auto simp: get split: if_splits)
  show "mget (map (\<lambda>(k, r). (k, if where_holds ps w r then g r else r)) T) (kf k') = map_option vf (mget ?m' k')" for k'
  proof (cases "mget m k'")
    case None
    then show ?thesis using mir_get [OF assms(1), of k'] by (auto simp: mget_map_values2 get)
  next
    case (Some v)
    then have "key v = k'" "ok v" using kd okm by (auto dest: keyedD)
    then show ?thesis using Some mir_get [OF assms(1), of k'] assms(3) by (auto simp: mget_map_values2 get assms(2))
  qed
  show "\<And>x. x \<notin> range kf \<Longrightarrow> mget (map (\<lambda>(k, r). (k, if where_holds ps w r then g r else r)) T) x = None"
    using mir_none [OF assms(1)] by (simp add: mget_map_values2)
qed

text \<open>The rows of a table, and the rows that satisfy a condition.\<close>

lemma mir_rows: "mir T m \<Longrightarrow> mset (map snd T) = image_mset vf (mset (map snd m))"
proof -
  assume mir: "mir T m"
  have "wf_map (map (map_prod kf vf) m)"
    using mir inj_key by (auto simp: mirrors_def wf_map_def distinct_map inj_on_def)
  then have "mset T = mset (map (map_prod kf vf) m)"
    using mir by (intro wf_map_mset_eq) (simp_all add: mirrors_def)
  then have "mset (map snd T) = image_mset snd (image_mset (map_prod kf vf) (mset m))" by simp
  then show ?thesis by (simp add: image_mset.compositionality comp_def)
qed

lemma mir_where:
  assumes "mir T m" and "\<And>v. where_holds ps w (vf v) \<longleftrightarrow> Q v"
  shows "mset (filter (where_holds ps w) (map snd T)) = image_mset vf (mset (filter Q (map snd m)))"
proof -
  have "mset (filter (where_holds ps w) (map snd T)) = filter_mset (where_holds ps w) (mset (map snd T))" by simp
  also have "\<dots> = image_mset vf (filter_mset Q (mset (map snd m)))"
    unfolding mir_rows [OF assms(1)] by (simp add: filter_mset_image_mset assms(2))
  finally show ?thesis by simp
qed

lemma mir_answers:
  assumes "answers ps (Select cl t w ord lim) T' rows" and "mir (T' t) m"
    and "\<And>v. where_holds ps w (vf v) \<longleftrightarrow> Q v"
  obtains vs where "rows = map (project cl) (take_lim lim (map vf vs))" "mset vs = mset (filter Q (map snd m))"
    "sorted_wrt (\<lambda>a b. \<not> row_less ord (vf b) (vf a)) vs"
proof -
  obtain full where full: "mset full = mset (filter (where_holds ps w) (map snd (T' t)))"
    "sorted_wrt (\<lambda>a b. \<not> row_less ord b a) full" "rows = map (project cl) (take_lim lim full)"
    using assms(1) by auto
  then obtain vs where "full = map vf vs" "mset vs = mset (filter Q (map snd m))"
    using mset_image_split mir_where [OF assms(2,3)] by metis
  with full show ?thesis by (intro that [of vs]) (simp_all add: sorted_wrt_map)
qed

lemma mir_few:
  assumes "mir (T' t) m" and "\<And>v. where_holds ps w (vf v) \<longleftrightarrow> Q v"
    and "length (filter Q (map snd m)) \<le> 1000"
  shows "few ps (Select cl t w ord lim) T'"
proof -
  have "length (filter (where_holds ps w) (map snd (T' t))) = length (filter Q (map snd m))"
    using mir_where [OF assms(1,2)] by (metis size_image_mset size_mset)
  then show ?thesis using assms(3) by (cases lim) (simp_all add: take_lim_def)
qed

lemma project_all: "cl = [] \<or> cl = cs \<Longrightarrow> project cl (vf v) = vf v"
proof -
  assume cl: "cl = [] \<or> cl = cs"
  have "map (\<lambda>c. (c, col r c)) (map fst r) = r" if "distinct (map fst r)" for r
    using that by (auto simp: col_def intro!: map_idI)
  then have "map (\<lambda>c. (c, col (vf v) c)) cs = vf v" using columns [of v] columns_distinct by metis
  then show ?thesis using cl by (auto simp: project_def)
qed

text \<open>Look-ups by key: at most one row.\<close>

lemma mset_short: "mset vs = mset [] \<Longrightarrow> vs = []" "mset vs = mset [v] \<Longrightarrow> vs = [v]"
  by simp_all

lemma key_rows:
  assumes "mir T m" and "\<And>v. where_holds ps w (vf v) \<longleftrightarrow> key v = k"
  shows "filter (\<lambda>v. key v = k) (map snd m) = (case mget m k of None \<Rightarrow> [] | Some v \<Rightarrow> [v])"
  using assms(1) by (intro values_with_key) (simp_all add: mirrors_def)

lemma key_answers:
  assumes "answers ps (Select cl t w ord None) T' rows" and "mir (T' t) m"
    and "\<And>v. where_holds ps w (vf v) \<longleftrightarrow> key v = k"
  shows "rows = (case mget m k of None \<Rightarrow> [] | Some v \<Rightarrow> [project cl (vf v)])"
proof -
  obtain vs where vs: "rows = map (project cl) (take_lim None (map vf vs))"
    "mset vs = mset (filter (\<lambda>v. key v = k) (map snd m))"
    using mir_answers [OF assms] by metis
  then have "mset vs = mset (case mget m k of None \<Rightarrow> [] | Some v \<Rightarrow> [v])"
    using key_rows [OF assms(2,3)] by simp
  then show ?thesis using vs(1) mset_short
    by (cases "mget m k") (simp_all add: take_lim_def)
qed

lemma few_by_key:
  assumes "mir (T' t) m" and "\<And>v. where_holds ps w (vf v) \<longleftrightarrow> key v = k"
  shows "few ps (Select cl t w ord lim) T'"
proof (rule mir_few [where T' = T' and t = t, OF assms])
  show "length (filter (\<lambda>v. key v = k) (map snd m)) \<le> 1000"
    using key_rows [OF assms] by (simp split: option.split)
qed

text \<open>The closures of reads over a table that mirrors a map.\<close>

lemma values_ok: "mir T m \<Longrightarrow> v \<in> snd ` set m \<Longrightarrow> ok v"
  by (force simp: mirrors_def wf_map_get_iff)

lemma one_row_agrees:
  assumes "mir (T t) m" and "\<And>v. where_holds ps w (vf v) \<longleftrightarrow> key v = k" and "cl = [] \<or> cl = cs"
    and law: "\<And>rows. y_read Y (Select cl t w [] None) ps d = Inr (Rows rows) \<Longrightarrow>
      few ps (Select cl t w [] None) T \<Longrightarrow> answers ps (Select cl t w [] None) T rows"
  shows "agrees (one_row Y scan (Select cl t w [] None) ps d) (get_or ErrNotFound m k)"
proof (cases "\<exists>rows. y_read Y (Select cl t w [] None) ps d = Inr (Rows rows)")
  case True
  then obtain rows where read: "y_read Y (Select cl t w [] None) ps d = Inr (Rows rows)" by blast
  have ans: "answers ps (Select cl t w [] None) T rows"
    by (rule law [OF read], rule few_by_key [where T' = T and t = t, OF assms(1,2)])
  have rows: "rows = (case mget m k of None \<Rightarrow> [] | Some v \<Rightarrow> [vf v])"
    using key_answers [where T' = T and t = t, OF ans assms(1,2)] by (simp only: project_all [OF assms(3)])
  show ?thesis
  proof (cases "mget m k")
    case None
    then show ?thesis by (simp add: rows one_row_def read agrees_def get_or_def)
  next
    case (Some v)
    then have "ok v" using assms(1) by (auto simp: mirrors_def)
    then show ?thesis using Some by (simp add: rows one_row_def read agrees_def get_or_def scan_row)
  qed
next
  case False
  then show ?thesis by (auto simp: one_row_def agrees_def split: sum.splits yresult.splits)
qed

lemma scan_all_map: "\<forall>v \<in> set vs. sc (f v) = Inr (h v) \<Longrightarrow> scan_all sc (map f vs) = Inr (map h vs)"
  by (induction vs) simp_all

lemma all_rows_with:
  assumes "mir (T t) m" and "\<And>v. where_holds ps w (vf v) \<longleftrightarrow> Q v"
    and sc: "\<And>v. ok v \<Longrightarrow> sc (project cl (vf v)) = Inr (h v)"
    and "length (filter Q (map snd m)) \<le> 1000"
    and law: "\<And>rows. y_read Y (Select cl t w ord None) ps d = Inr (Rows rows) \<Longrightarrow>
      few ps (Select cl t w ord None) T \<Longrightarrow> answers ps (Select cl t w ord None) T rows"
  shows "(\<exists>x. all_rows Y sc (Select cl t w ord None) ps d = Inl (YEngine x)) \<or>
    (\<exists>vs. all_rows Y sc (Select cl t w ord None) ps d = Inr (map h vs) \<and> mset vs = mset (filter Q (map snd m)) \<and>
       sorted_wrt (\<lambda>a b. \<not> row_less ord (vf b) (vf a)) vs)"
proof (cases "\<exists>rows. y_read Y (Select cl t w ord None) ps d = Inr (Rows rows)")
  case True
  then obtain rows where read: "y_read Y (Select cl t w ord None) ps d = Inr (Rows rows)" by blast
  have ans: "answers ps (Select cl t w ord None) T rows"
    by (rule law [OF read], rule mir_few [where T' = T and t = t, OF assms(1,2,4)])
  obtain vs where vs: "rows = map (project cl) (take_lim None (map vf vs))"
    "mset vs = mset (filter Q (map snd m))" "sorted_wrt (\<lambda>a b. \<not> row_less ord (vf b) (vf a)) vs"
    by (rule mir_answers [where T' = T and t = t, OF ans assms(1,2)])
  have "\<forall>v \<in> set vs. sc (project cl (vf v)) = Inr (h v)"
    using values_ok [OF assms(1)] mset_eq_setD [OF vs(2)] sc by auto
  then have "scan_all sc rows = Inr (map h vs)"
    using scan_all_map [of vs sc "\<lambda>v. project cl (vf v)" h] vs(1) by (simp add: take_lim_def comp_def)
  then show ?thesis using vs(2,3) by (auto simp: all_rows_def read)
next
  case False
  then show ?thesis by (auto simp: all_rows_def split: sum.splits yresult.splits)
qed

lemma all_rows_agrees:
  assumes "mir (T t) m" and "\<And>v. where_holds ps w (vf v) \<longleftrightarrow> Q v" and "cl = [] \<or> cl = cs"
    and "length (filter Q (map snd m)) \<le> 1000"
    and "\<And>rows. y_read Y (Select cl t w ord None) ps d = Inr (Rows rows) \<Longrightarrow>
      few ps (Select cl t w ord None) T \<Longrightarrow> answers ps (Select cl t w ord None) T rows"
  shows "(\<exists>x. all_rows Y scan (Select cl t w ord None) ps d = Inl (YEngine x)) \<or>
    (\<exists>vs. all_rows Y scan (Select cl t w ord None) ps d = Inr vs \<and> mset vs = mset (filter Q (map snd m)) \<and>
       sorted_wrt (\<lambda>a b. \<not> row_less ord (vf b) (vf a)) vs)"
  using all_rows_with [where h = "\<lambda>v. v" and sc = scan, OF assms(1,2) _ assms(4,5)] project_all [OF assms(3)] scan_row
  by simp

text \<open>With an \<open>ORDER BY\<close> that decides between any two rows, the list is the sorted one.\<close>

lemma ordered_rows_agree:
  assumes mir: "mir (T t) m" and "\<And>v. where_holds ps w (vf v) \<longleftrightarrow> Q v" and "cl = [] \<or> cl = cs"
    and "length (filter Q (map snd m)) \<le> 1000"
    and law: "\<And>rows. y_read Y (Select cl t w ord None) ps d = Inr (Rows rows) \<Longrightarrow>
      few ps (Select cl t w ord None) T \<Longrightarrow> answers ps (Select cl t w ord None) T rows"
    and lt: "sort_less lt"
    and ord: "\<And>a b. a \<in> snd ` set m \<Longrightarrow> b \<in> snd ` set m \<Longrightarrow> row_less ord (vf a) (vf b) \<longleftrightarrow> lt a b"
    and total: "\<And>a b. Q a \<Longrightarrow> Q b \<Longrightarrow> \<not> lt a b \<Longrightarrow> \<not> lt b a \<Longrightarrow> key a = key b"
  shows "(\<exists>x. all_rows Y scan (Select cl t w ord None) ps d = Inl (YEngine x)) \<or>
    all_rows Y scan (Select cl t w ord None) ps d = Inr (sort_by lt (filter Q (map snd m)))"
proof -
  have "(\<exists>x. all_rows Y scan (Select cl t w ord None) ps d = Inl (YEngine x)) \<or>
    (\<exists>vs. all_rows Y scan (Select cl t w ord None) ps d = Inr vs \<and> mset vs = mset (filter Q (map snd m)) \<and>
       sorted_wrt (\<lambda>a b. \<not> row_less ord (vf b) (vf a)) vs)"
    by (rule all_rows_agrees [where T = T and t = t, OF assms(1-4)]) (erule (1) law)
  then show ?thesis
  proof (elim disjE exE conjE)
    fix vs
    assume vs: "all_rows Y scan (Select cl t w ord None) ps d = Inr vs" "mset vs = mset (filter Q (map snd m))"
      "sorted_wrt (\<lambda>a b. \<not> row_less ord (vf b) (vf a)) vs"
    have set: "set vs = set (filter Q (map snd m))" using vs(2) by (rule mset_eq_setD)
    have "sorted_wrt (\<lambda>a b. \<not> lt b a) vs"
      using vs(3) by (rule sorted_wrt_mono_rel [rotated]) (use set ord in auto)
    moreover have "a = b" if "a \<in> set (filter Q (map snd m))" "b \<in> set (filter Q (map snd m))" "\<not> lt a b" "\<not> lt b a" for a b
    proof -
      have "key a = key b" using that total by simp
      moreover have "mget m (key a) = Some a" "mget m (key b) = Some b"
        using that(1,2) mir by (intro stored_value_iff [THEN iffD1]; simp add: mirrors_def)+
      ultimately show ?thesis by (metis option.inject)
    qed
    ultimately have "vs = sort_by lt (filter Q (map snd m))"
      using vs(2) by (intro sort_less.sort_by_any [OF lt])
    then show ?thesis using vs(1) by simp
  qed simp
qed

text \<open>An \<open>UPSERT\<close> of all columns replaces the row.\<close>

lemma merge_all:
  assumes "mir T m"
  shows "merge_row (vf v) (mget T (kf k)) = vf v"
proof (cases "mget m k")
  case None
  then show ?thesis using mir_get [OF assms, of k] by (simp add: merge_row_def)
next
  case (Some v')
  have "fst ` set (vf v') \<subseteq> fst ` set (vf v)" using columns [of v] columns [of v'] by (metis list.set_map order_refl)
  then have "filter (\<lambda>(c, x). c \<notin> fst ` set (vf v)) (vf v') = []" by (force simp: filter_empty_conv)
  then show ?thesis using Some mir_get [OF assms, of k] by (simp add: merge_row_def)
qed

lemma upsert_effect:
  assumes "mir (T t) m" and "zip cl (map (col ps) names) = vf v" and "map (col (vf v)) (primary_key t) = kf k"
  shows "effect ps (Upsert t cl names) T = T(t := mput (kf k) (vf v) (T t))"
  using assms by (simp add: merge_all)

end

section \<open>The encodings\<close>

text \<open>An instant the client gives back unchanged.\<close>

definition exact :: "'d ydb \<Rightarrow> time \<Rightarrow> bool" where
  "exact Y t \<longleftrightarrow> stampable t \<and> y_time Y (y_stamp Y t) = t"

definition exact_opt :: "'d ydb \<Rightarrow> time option \<Rightarrow> bool" where
  "exact_opt Y t \<longleftrightarrow> (case t of None \<Rightarrow> True | Some t \<Rightarrow> exact Y t)"

definition optU32 :: "u32 \<Rightarrow> yval" where
  "optU32 v = (if v = 0 then YNull else YUint32 v)"

definition part_row :: "'d ydb \<Rightarrow> Participant \<Rightarrow> yrow" where
  "part_row Y p = zip partCols [YUint64 (p_GroupID p), YUint64 (p_TelegramID p),
     optStr (p_TelegramUsername p), y_ts Y (p_ActivatedAt p)]"

definition admin_row :: "'d ydb \<Rightarrow> Admin \<Rightarrow> yrow" where
  "admin_row Y a = zip adminCols [YUint64 (a_TelegramID a), YUtf8 (a_CampusID a), YUtf8 (a_CampusName a),
     YUtf8 (a_S21Login a), YUtf8 (a_S21CredentialsEncrypted a), y_ts Y (a_CreatedAt a)]"

definition account_row :: "'d ydb \<Rightarrow> S21Account \<Rightarrow> yrow" where
  "account_row Y a = zip s21AccountColsSel [YUint64 (acc_TelegramID a), YUtf8 (acc_S21Login a),
     YUtf8 (acc_S21CredsEncrypted a), optStr (acc_CampusID a), optStr (acc_CampusName a),
     y_ts Y (acc_CreatedAt a), y_ts Y (acc_UpdatedAt a), optTime Y (acc_LastUsedAt a),
     optTime Y (acc_S21CredsFailedAt a), optTime Y (acc_S21CredsLastWarnedAt a)]"

definition group_row :: "'d ydb \<Rightarrow> Group \<Rightarrow> yrow" where
  "group_row Y g = zip groupCols [YUint64 (g_GroupID g), YUtf8 (g_CampusID g), YUtf8 (g_CampusName g),
     YUint64 (g_AdminTelegramID g), optU64 (g_MatchesTopicID g), optU64 (g_StatsTopicID g),
     optU64 (g_RankingsMessageID g), optU64 (g_StatsMessageID g), optU64 (g_RankingsELOMessageID g),
     optU64 (g_RankingsGlickoMessageID g), optU64 (g_StatsELOMessageID g), optU64 (g_StatsGlickoMessageID g),
     optU32 (g_ConfirmationTimeoutHours g), y_ts Y (g_CreatedAt g)]"

definition match_row :: "'d ydb \<Rightarrow> Match \<Rightarrow> yrow" where
  "match_row Y m = zip matchCols [YUint64 (m_GroupID m), YUint64 (m_MatchID m), YUint64 (m_Player1ID m),
     YUint64 (m_Player2ID m), YUint32 (m_Player1Score m), YUint32 (m_Player2Score m),
     YUint64 (m_RegisteredBy m), YUtf8 (status_text (m_Status m)), y_ts Y (m_PlayedAt m), y_ts Y (m_CreatedAt m)]"

definition conf_row :: "'d ydb \<Rightarrow> MatchConfirmation \<Rightarrow> yrow" where
  "conf_row Y c = zip confCols [YUint64 (c_GroupID c), YUint64 (c_MatchID c), YUint64 (c_TelegramID c),
     y_ts Y (c_ConfirmedAt c)]"

definition undo_row :: "'d ydb \<Rightarrow> UndoCommand \<Rightarrow> yrow" where
  "undo_row Y u = zip undoCols [YUint64 (u_GroupID u), YUint64 (u_MatchID u), YUint64 (u_TelegramID u),
     y_ts Y (u_RequestedAt u)]"

definition setting_row :: "'d ydb \<Rightarrow> BotSetting \<Rightarrow> yrow" where
  "setting_row Y b = zip settingCols [YUtf8 (s_Key b), YUtf8 (s_Value b), y_ts Y (s_UpdatedAt b), optU64 (s_UpdatedBy b)]"

definition nick_row :: "'d ydb \<Rightarrow> S21NickCacheEntry \<Rightarrow> yrow" where
  "nick_row Y e = zip nickCols [YUint64 (n_TelegramID e), YBool (n_Found e), optStr (n_Nickname e),
     optStr (n_CampusID e), optStr (n_CampusName e), optStr (n_CoalitionName e), y_ts Y (n_CachedAt e)]"

text \<open>A row of \<open>match_counters\<close>, together with its group.\<close>

definition counter_row :: "i64 \<times> u64 \<Rightarrow> yrow" where
  "counter_row c = [(''group_id'', YUint64 (fst c)), (''next_match_id'', YUint64 (snd c))]"

definition scan_counter :: "yrow \<Rightarrow> ydb_error + i64 \<times> u64" where
  "scan_counter r =
     Required as_u64 r ''group_id'' (\<lambda>g. Required as_u64 r ''next_match_id'' (\<lambda>n. Inr (g, n)))"

fun key1 :: "u64 \<Rightarrow> yval list" where "key1 a = [YUint64 a]"
fun key2 :: "u64 \<times> u64 \<Rightarrow> yval list" where "key2 (a, b) = [YUint64 a, YUint64 b]"
fun key3 :: "u64 \<times> u64 \<times> u64 \<Rightarrow> yval list" where "key3 (a, b, c) = [YUint64 a, YUint64 b, YUint64 c]"
fun key_text :: "string \<Rightarrow> yval list" where "key_text s = [YUtf8 s]"

lemma inj_keys: "inj key1" "inj key2" "inj key3" "inj key_text"
  by (auto intro!: injI)

lemmas cols_defs = partCols_def adminCols_def s21AccountColsSel_def groupCols_def matchCols_def
  confCols_def undoCols_def settingCols_def nickCols_def

lemmas row_defs = part_row_def admin_row_def account_row_def group_row_def match_row_def conf_row_def
  undo_row_def setting_row_def nick_row_def counter_row_def

lemma Required_hit: "mget r c = Some v \<Longrightarrow> rd v = Some x \<Longrightarrow> Required rd r c k = k x"
  by (simp add: Required_def)

lemma Optional_str: "mget r c = Some (optStr s) \<Longrightarrow> Optional as_utf8 r c k = k (if s = '''' then None else Some s)"
  by (simp add: Optional_def optStr_def)

lemma Optional_u64: "mget r c = Some (optU64 v) \<Longrightarrow> Optional as_u64 r c k = k (if v = 0 then None else Some v)"
  by (simp add: Optional_def optU64_def)

lemma Optional_u32: "mget r c = Some (optU32 v) \<Longrightarrow> Optional as_u32 r c k = k (if v = 0 then None else Some v)"
  by (simp add: Optional_def optU32_def)

lemma Optional_time: "mget r c = Some (optTime Y t) \<Longrightarrow> exact_opt Y t \<Longrightarrow> Optional (as_time Y) r c k = k t"
  by (auto simp: Optional_def optTime_def y_ts_def exact_opt_def exact_def split: option.splits)

lemma Required_time: "mget r c = Some (y_ts Y t) \<Longrightarrow> exact Y t \<Longrightarrow> Required (as_time Y) r c k = k t"
  by (simp add: Required_def y_ts_def exact_def)

lemmas scan_hits = Required_hit Optional_str Optional_u64 Optional_u32 Optional_time Required_time

lemma find_status:
  "find (\<lambda>x. status_text x = status_text a) [MatchStatusPending, MatchStatusApproved, MatchStatusUndone] = Some a"
  by (cases a) simp_all

interpretation part_table: ydb_table key2 "part_row Y" "\<lambda>p. exact Y (p_ActivatedAt p)" part_key partCols
  "scanParticipant Y" for Y
proof
  show "exact Y (p_ActivatedAt p) \<Longrightarrow> scanParticipant Y (part_row Y p) = Inr p" for p
    by (simp add: scanParticipant_def part_row_def partCols_def scan_hits deref_def)
qed (simp_all add: inj_keys part_row_def partCols_def)

interpretation admin_table: ydb_table key1 "admin_row Y" "\<lambda>a. exact Y (a_CreatedAt a)" a_TelegramID adminCols
  "scanAdmin Y" for Y
proof
  show "exact Y (a_CreatedAt a) \<Longrightarrow> scanAdmin Y (admin_row Y a) = Inr a" for a
    by (simp add: scanAdmin_def admin_row_def adminCols_def scan_hits)
qed (simp_all add: inj_keys admin_row_def adminCols_def)

definition match_exact :: "'d ydb \<Rightarrow> Match \<Rightarrow> bool" where
  "match_exact Y m \<longleftrightarrow> exact Y (m_PlayedAt m) \<and> exact Y (m_CreatedAt m)"

definition account_exact :: "'d ydb \<Rightarrow> S21Account \<Rightarrow> bool" where
  "account_exact Y a \<longleftrightarrow> exact Y (acc_CreatedAt a) \<and> exact Y (acc_UpdatedAt a) \<and>
     exact_opt Y (acc_LastUsedAt a) \<and> exact_opt Y (acc_S21CredsFailedAt a) \<and> exact_opt Y (acc_S21CredsLastWarnedAt a)"

interpretation account_table: ydb_table key1 "account_row Y" "account_exact Y" acc_TelegramID s21AccountColsSel
  "scanS21Account Y" for Y
proof
  show "account_exact Y a \<Longrightarrow> scanS21Account Y (account_row Y a) = Inr a" for a
    by (simp add: scanS21Account_def account_row_def s21AccountColsSel_def account_exact_def scan_hits deref_def)
qed (simp_all add: inj_keys account_row_def s21AccountColsSel_def)

interpretation group_table: ydb_table key1 "group_row Y" "\<lambda>g. exact Y (g_CreatedAt g)" g_GroupID groupCols
  "scanGroup Y" for Y
proof
  show "exact Y (g_CreatedAt g) \<Longrightarrow> scanGroup Y (group_row Y g) = Inr g" for g
    by (simp add: scanGroup_def group_row_def groupCols_def scan_hits deref_def)
qed (simp_all add: inj_keys group_row_def groupCols_def)

interpretation match_table: ydb_table key2 "match_row Y" "match_exact Y" match_key matchCols "scanMatch Y" for Y
proof
  show "match_exact Y m \<Longrightarrow> scanMatch Y (match_row Y m) = Inr m" for m
    by (simp add: scanMatch_def match_row_def matchCols_def match_exact_def scan_hits find_status del: find.simps)
qed (simp_all add: inj_keys match_row_def matchCols_def)

interpretation conf_table: ydb_table key3 "conf_row Y" "\<lambda>c. exact Y (c_ConfirmedAt c)" conf_key confCols
  "scanConfirmation Y" for Y
proof
  show "exact Y (c_ConfirmedAt c) \<Longrightarrow> scanConfirmation Y (conf_row Y c) = Inr c" for c
    by (simp add: scanConfirmation_def conf_row_def confCols_def scan_hits)
qed (simp_all add: inj_keys conf_row_def confCols_def)

interpretation undo_table: ydb_table key3 "undo_row Y" "\<lambda>u. exact Y (u_RequestedAt u)" undo_key undoCols
  "scanUndo Y" for Y
proof
  show "exact Y (u_RequestedAt u) \<Longrightarrow> scanUndo Y (undo_row Y u) = Inr u" for u
    by (simp add: scanUndo_def undo_row_def undoCols_def scan_hits)
qed (simp_all add: inj_keys undo_row_def undoCols_def)

interpretation setting_table: ydb_table key_text "setting_row Y" "\<lambda>b. exact Y (s_UpdatedAt b)" s_Key settingCols
  "scanSetting Y" for Y
proof
  show "exact Y (s_UpdatedAt b) \<Longrightarrow> scanSetting Y (setting_row Y b) = Inr b" for b
    by (simp add: scanSetting_def setting_row_def settingCols_def scan_hits deref_def)
qed (simp_all add: inj_keys setting_row_def settingCols_def)

interpretation nick_table: ydb_table key1 "nick_row Y" "\<lambda>e. exact Y (n_CachedAt e)" n_TelegramID nickCols
  "scanNick Y" for Y
proof
  show "exact Y (n_CachedAt e) \<Longrightarrow> scanNick Y (nick_row Y e) = Inr e" for e
    by (simp add: scanNick_def nick_row_def nickCols_def scan_hits deref_def)
qed (simp_all add: inj_keys nick_row_def nickCols_def)

interpretation counter_table: ydb_table key1 counter_row "\<lambda>c. True" fst "[''group_id'', ''next_match_id'']" scan_counter
  by unfold_locales (simp_all add: inj_keys counter_row_def scan_counter_def Required_hit)

section \<open>The whole store\<close>

definition counter_entries :: "(i64, u64) gomap \<Rightarrow> (i64, i64 \<times> u64) gomap" where
  "counter_entries cs = map (\<lambda>(g, n). (g, g, n)) cs"

lemma counter_entries_mput [simp]: "counter_entries (mput g n cs) = mput g (g, n) (counter_entries cs)"
  by (induction cs) (auto simp: counter_entries_def)

lemma mget_counter_entries [simp]: "mget (counter_entries cs) g = map_option (Pair g) (mget cs g)"
  by (induction cs) (auto simp: counter_entries_def)

definition stored :: "'d ydb \<Rightarrow> tables \<Rightarrow> memstore \<Rightarrow> bool" where
  "stored Y T s \<longleftrightarrow>
     mirrors key2 (part_row Y) (\<lambda>p. exact Y (p_ActivatedAt p)) part_key (T ''participants'') (participants s) \<and>
     mirrors key1 (admin_row Y) (\<lambda>a. exact Y (a_CreatedAt a)) a_TelegramID (T ''admins'') (admins s) \<and>
     mirrors key1 (account_row Y) (account_exact Y) acc_TelegramID (T ''s21_accounts'') (s21Accounts s) \<and>
     mirrors key1 (group_row Y) (\<lambda>g. exact Y (g_CreatedAt g)) g_GroupID (T ''groups'') (groups s) \<and>
     mirrors key2 (match_row Y) (match_exact Y) match_key (T ''matches'') (matches s) \<and>
     mirrors key3 (conf_row Y) (\<lambda>c. exact Y (c_ConfirmedAt c)) conf_key (T ''match_confirmations'') (confirmations s) \<and>
     mirrors key3 (undo_row Y) (\<lambda>u. exact Y (u_RequestedAt u)) undo_key (T ''undo_commands'') (undos s) \<and>
     mirrors key_text (setting_row Y) (\<lambda>b. exact Y (s_UpdatedAt b)) s_Key (T ''bot_settings'') (settings s) \<and>
     mirrors key1 counter_row (\<lambda>c. True) fst (T ''match_counters'') (counter_entries (matchCounters s)) \<and>
     mirrors key1 (nick_row Y) (\<lambda>e. exact Y (n_CachedAt e)) n_TelegramID (T ''tg_nick_cache'') (nickCache s)"

lemma stored_New: "stored Y (\<lambda>t. []) memstore_New"
  by (simp add: stored_def memstore_New_def counter_entries_def)

end
