(* ===== verification/YdbProps.thy ===== *)
theory YdbProps
  imports YdbTables
begin

text \<open>
  The production store implements the in-memory one: every write carries \<open>stored\<close> over, with
  instants cut to microseconds, and happens entirely or not at all; every read answers what
  the in-memory store answers, or reports an error of the client.
\<close>

section \<open>Writes as commands\<close>

datatype store_op =
    PutParticipant Participant | PutAdmin Admin | PutAccount S21Account | DelAccount i64 | PutGroup Group
  | SetStatus "i64 \<times> u64" MatchStatus | DelMatch "i64 \<times> u64"
  | PutConfirmation MatchConfirmation | DelConfirmations "i64 \<times> u64"
  | PutUndo UndoCommand | DelUndo "i64 \<times> u64 \<times> i64" | DelUndos "i64 \<times> u64"
  | SetSetting string string i64 | PutNick S21NickCacheEntry

fun ydb_do :: "'d ydb \<Rightarrow> time \<Rightarrow> store_op \<Rightarrow> 'd \<Rightarrow> ydb_error option \<times> 'd" where
  "ydb_do Y wall (PutParticipant p) d = ydb_participantRepo_Upsert Y p d"
| "ydb_do Y wall (PutAdmin a) d = ydb_adminRepo_Upsert Y a d"
| "ydb_do Y wall (PutAccount a) d = ydb_s21AccountRepo_Upsert Y wall a d"
| "ydb_do Y wall (DelAccount t) d = ydb_s21AccountRepo_Delete Y t d"
| "ydb_do Y wall (PutGroup g) d = ydb_groupRepo_Upsert Y g d"
| "ydb_do Y wall (SetStatus k x) d = ydb_matchRepo_UpdateStatus Y k x d"
| "ydb_do Y wall (DelMatch k) d = ydb_matchRepo_Delete Y k d"
| "ydb_do Y wall (PutConfirmation c) d = ydb_confirmRepo_Insert Y c d"
| "ydb_do Y wall (DelConfirmations k) d = ydb_confirmRepo_DeleteForMatch Y k d"
| "ydb_do Y wall (PutUndo u) d = ydb_undoRepo_Insert Y u d"
| "ydb_do Y wall (DelUndo k) d = ydb_undoRepo_Delete Y k d"
| "ydb_do Y wall (DelUndos k) d = ydb_undoRepo_DeleteForMatch Y k d"
| "ydb_do Y wall (SetSetting k v u) d = ydb_settingsRepo_Set Y wall k v u d"
| "ydb_do Y wall (PutNick e) d = ydb_nickCacheRepo_Upsert Y wall e d"

text \<open>The same commands on the in-memory store, after the defaults the production store fills in.\<close>

definition account_defaults :: "time \<Rightarrow> S21Account \<Rightarrow> S21Account" where
  "account_defaults wall a =
     (let a1 = (if IsZero (acc_UpdatedAt a) then a\<lparr>acc_UpdatedAt := wall\<rparr> else a)
      in if IsZero (acc_CreatedAt a1) then a1\<lparr>acc_CreatedAt := acc_UpdatedAt a1\<rparr> else a1)"

definition nick_defaults :: "time \<Rightarrow> S21NickCacheEntry \<Rightarrow> S21NickCacheEntry" where
  "nick_defaults wall e = (if IsZero (n_CachedAt e) then e\<lparr>n_CachedAt := wall\<rparr> else e)"

fun mem_do :: "time \<Rightarrow> store_op \<Rightarrow> memstore \<Rightarrow> memstore" where
  "mem_do wall (PutParticipant p) s = participantRepo_Upsert p s"
| "mem_do wall (PutAdmin a) s = adminRepo_Upsert a s"
| "mem_do wall (PutAccount a) s = s21AccountRepo_Upsert a s"
| "mem_do wall (DelAccount t) s = s21AccountRepo_Delete t s"
| "mem_do wall (PutGroup g) s = groupRepo_Upsert g s"
| "mem_do wall (SetStatus k x) s = snd (matchRepo_UpdateStatus k x s)"
| "mem_do wall (DelMatch k) s = snd (matchRepo_Delete k s)"
| "mem_do wall (PutConfirmation c) s = confirmRepo_Insert c s"
| "mem_do wall (DelConfirmations k) s = confirmRepo_DeleteForMatch k s"
| "mem_do wall (PutUndo u) s = undoRepo_Insert u s"
| "mem_do wall (DelUndo k) s = snd (undoRepo_Delete k s)"
| "mem_do wall (DelUndos k) s = undoRepo_DeleteForMatch k s"
| "mem_do wall (SetSetting k v u) s = settingsRepo_Set wall k v u s"
| "mem_do wall (PutNick e) s = nickCacheRepo_Upsert e s"

text \<open>A row as the database keeps it: defaults filled in, instants cut to microseconds.\<close>

definition account_micros :: "S21Account \<Rightarrow> S21Account" where
  "account_micros a = a\<lparr>acc_CreatedAt := micros (acc_CreatedAt a), acc_UpdatedAt := micros (acc_UpdatedAt a),
     acc_LastUsedAt := map_option micros (acc_LastUsedAt a),
     acc_S21CredsFailedAt := map_option micros (acc_S21CredsFailedAt a),
     acc_S21CredsLastWarnedAt := map_option micros (acc_S21CredsLastWarnedAt a)\<rparr>"

fun op_kept :: "time \<Rightarrow> store_op \<Rightarrow> store_op" where
  "op_kept wall (PutParticipant p) = PutParticipant (p\<lparr>p_ActivatedAt := micros (p_ActivatedAt p)\<rparr>)"
| "op_kept wall (PutAdmin a) = PutAdmin (a\<lparr>a_CreatedAt := micros (a_CreatedAt a)\<rparr>)"
| "op_kept wall (PutAccount a) = PutAccount (account_micros (account_defaults wall a))"
| "op_kept wall (PutGroup g) = PutGroup (g\<lparr>g_CreatedAt := micros (g_CreatedAt g)\<rparr>)"
| "op_kept wall (PutConfirmation c) = PutConfirmation (c\<lparr>c_ConfirmedAt := micros (c_ConfirmedAt c)\<rparr>)"
| "op_kept wall (PutUndo u) = PutUndo (u\<lparr>u_RequestedAt := micros (u_RequestedAt u)\<rparr>)"
| "op_kept wall (PutNick e) = PutNick ((nick_defaults wall e)\<lparr>n_CachedAt := micros (n_CachedAt (nick_defaults wall e))\<rparr>)"
| "op_kept wall x = x"

text \<open>The instants written are ones a \<open>Timestamp\<close> can hold.\<close>

fun op_times :: "time \<Rightarrow> store_op \<Rightarrow> time set" where
  "op_times wall (PutParticipant p) = {p_ActivatedAt p}"
| "op_times wall (PutAdmin a) = {a_CreatedAt a}"
| "op_times wall (PutAccount a) = (let a = account_defaults wall a in
     {acc_CreatedAt a, acc_UpdatedAt a} \<union> set_option (acc_LastUsedAt a) \<union>
     set_option (acc_S21CredsFailedAt a) \<union> set_option (acc_S21CredsLastWarnedAt a))"
| "op_times wall (PutGroup g) = {g_CreatedAt g}"
| "op_times wall (PutConfirmation c) = {c_ConfirmedAt c}"
| "op_times wall (PutUndo u) = {u_RequestedAt u}"
| "op_times wall (SetSetting k v u) = {wall}"
| "op_times wall (PutNick e) = {n_CachedAt (nick_defaults wall e)}"
| "op_times wall x = {}"

section \<open>Effects of the scripts\<close>

lemma where_rows:
  "where_holds ps of_match (match_row Y m) \<longleftrightarrow>
     YUint64 (m_GroupID m) = col ps ''$g'' \<and> YUint64 (m_MatchID m) = col ps ''$m''"
  "where_holds ps of_match (conf_row Y c) \<longleftrightarrow>
     YUint64 (c_GroupID c) = col ps ''$g'' \<and> YUint64 (c_MatchID c) = col ps ''$m''"
  "where_holds ps of_match (undo_row Y u) \<longleftrightarrow>
     YUint64 (u_GroupID u) = col ps ''$g'' \<and> YUint64 (u_MatchID u) = col ps ''$m''"
  "where_holds ps (of_match @ [Eq ''telegram_id'' (Par ''$u'')]) (undo_row Y u) \<longleftrightarrow>
     YUint64 (u_GroupID u) = col ps ''$g'' \<and> YUint64 (u_MatchID u) = col ps ''$m'' \<and>
     YUint64 (u_TelegramID u) = col ps ''$u''"
  "where_holds ps [Eq ''telegram_id'' (Par ''$tid'')] (account_row Y a) \<longleftrightarrow>
     YUint64 (acc_TelegramID a) = col ps ''$tid''"
  by (simp_all add: where_holds_def of_match_def match_row_def matchCols_def conf_row_def confCols_def
      undo_row_def undoCols_def account_row_def s21AccountColsSel_def col_def)

context ydb_engine
begin

lemma y_ts_micros: "stampable t \<Longrightarrow> y_ts Y (micros t) = y_ts Y t"
proof -
  assume t: "stampable t"
  then have "stampable (micros t)" by (simp add: micros_def stampable_bounds)
  then have "uint (y_stamp Y (micros t)) = uint (y_stamp Y t)"
    using t by (simp add: stamp_micros) (simp add: micros_def)
  then show ?thesis by (simp add: y_ts_def word_uint_eq_iff)
qed

lemma exact_micros: "stampable t \<Longrightarrow> exact Y (micros t)"
proof -
  assume t: "stampable t"
  then have "y_stamp Y (micros t) = y_stamp Y t" using y_ts_micros [OF t] by (simp add: y_ts_def)
  then show ?thesis using time_stamp [OF t] t by (simp add: exact_def micros_def stampable_bounds)
qed

lemma optTime_micros:
  "\<forall>t \<in> set_option x. stampable t \<Longrightarrow> optTime Y (map_option micros x) = optTime Y x \<and> exact_opt Y (map_option micros x)"
  by (cases x) (simp_all add: optTime_def exact_opt_def y_ts_micros exact_micros)

text \<open>A single-script transaction: its effect when it succeeds, all or nothing when it fails.\<close>

lemma doTx1_cases:
  assumes "doTx1 Y qs ps d = (r, d')"
  shows "(r = None \<longrightarrow> tab d' = fold (effect ps) qs (tab d)) \<and>
         (tab d' = tab d \<or> tab d' = fold (effect ps) qs (tab d))"
proof -
  define f where "f = (\<lambda>d. case y_exec Y qs ps d of (Inl x, d') \<Rightarrow> (Inl (YEngine x), d') | (Inr _, d') \<Rightarrow> (Inr (0 :: u64), d'))"
  have run: "tab d1 = fold (effect ps) qs (tab d)" if "f d0 = (Inr a, d1)" "tab d0 = tab d" for d0 a d1
    using that exec_effect [of qs ps d0] by (auto simp: f_def split: prod.splits sum.splits)
  show ?thesis
  proof (cases "y_DoTx Y f d")
    case (Pair x d2)
    then have r: "d' = d2" "r = (case x of Inl e \<Rightarrow> Some e | Inr _ \<Rightarrow> None)"
      using assms unfolding doTx1_def f_def [symmetric] by (auto split: sum.splits)
    show ?thesis
    proof (cases x)
      case (Inl e)
      then have "y_DoTx Y f d = (Inl e, d2)" using Pair by simp
      from tx_failed [OF this] run show ?thesis using r Inl by (metis old.sum.simps(5) option.distinct(1))
    next
      case (Inr a)
      then have "y_DoTx Y f d = (Inr a, d2)" using Pair by simp
      from tx_committed [OF this] run show ?thesis using r by metis
    qed
  qed
qed

lemma doTx1_stored:
  assumes "doTx1 Y qs ps d = (r, d')" and "stored Y (tab d) s" and "stored Y (fold (effect ps) qs (tab d)) s'"
  shows "(r = None \<longrightarrow> stored Y (tab d') s') \<and> (stored Y (tab d') s \<or> stored Y (tab d') s')"
  using doTx1_cases [OF assms(1)] assms(2,3) by metis

end

section \<open>One table at a time\<close>

lemma keys_of_rows:
  "map (col (part_row Y p)) (primary_key ''participants'') = key2 (part_key p)"
  "map (col (admin_row Y a)) (primary_key ''admins'') = key1 (a_TelegramID a)"
  "map (col (account_row Y ac)) (primary_key ''s21_accounts'') = key1 (acc_TelegramID ac)"
  "map (col (group_row Y g)) (primary_key ''groups'') = key1 (g_GroupID g)"
  "map (col (match_row Y m)) (primary_key ''matches'') = key2 (match_key m)"
  "map (col (conf_row Y c)) (primary_key ''match_confirmations'') = key3 (conf_key c)"
  "map (col (undo_row Y u)) (primary_key ''undo_commands'') = key3 (undo_key u)"
  "map (col (setting_row Y b)) (primary_key ''bot_settings'') = key_text (s_Key b)"
  "map (col (counter_row n)) (primary_key ''match_counters'') = key1 (fst n)"
  "map (col (nick_row Y e)) (primary_key ''tg_nick_cache'') = key1 (n_TelegramID e)"
  by (simp_all add: primary_key_def col_def row_defs cols_defs part_key_def match_key_def conf_key_def undo_key_def)

lemma stored_tables:
  assumes "stored Y T s"
  shows "mirrors key2 (part_row Y) (\<lambda>p. exact Y (p_ActivatedAt p)) part_key (T ''participants'') (participants s)"
    and "mirrors key1 (admin_row Y) (\<lambda>a. exact Y (a_CreatedAt a)) a_TelegramID (T ''admins'') (admins s)"
    and "mirrors key1 (account_row Y) (account_exact Y) acc_TelegramID (T ''s21_accounts'') (s21Accounts s)"
    and "mirrors key1 (group_row Y) (\<lambda>g. exact Y (g_CreatedAt g)) g_GroupID (T ''groups'') (groups s)"
    and "mirrors key2 (match_row Y) (match_exact Y) match_key (T ''matches'') (matches s)"
    and "mirrors key3 (conf_row Y) (\<lambda>c. exact Y (c_ConfirmedAt c)) conf_key (T ''match_confirmations'') (confirmations s)"
    and "mirrors key3 (undo_row Y) (\<lambda>u. exact Y (u_RequestedAt u)) undo_key (T ''undo_commands'') (undos s)"
    and "mirrors key_text (setting_row Y) (\<lambda>b. exact Y (s_UpdatedAt b)) s_Key (T ''bot_settings'') (settings s)"
    and "mirrors key1 counter_row (\<lambda>c. True) fst (T ''match_counters'') (counter_entries (matchCounters s))"
    and "mirrors key1 (nick_row Y) (\<lambda>e. exact Y (n_CachedAt e)) n_TelegramID (T ''tg_nick_cache'') (nickCache s)"
  using assms by (simp_all add: stored_def)

lemma stored_put_participant:
  assumes "stored Y T s" and "zip cl (map (col ps) names) = part_row Y p" and "exact Y (p_ActivatedAt p)"
  shows "stored Y (effect ps (Upsert ''participants'' cl names) T) (participantRepo_Upsert p s)"
  using part_table.mir_put [OF stored_tables(1) [OF assms(1)] assms(3) refl] assms(1)
  unfolding part_table.upsert_effect [where T = T and t = "''participants''", OF stored_tables(1) [OF assms(1)] assms(2) keys_of_rows(1)]
  by (simp add: stored_def participantRepo_Upsert_def part_key_def)

lemma stored_put_admin:
  assumes "stored Y T s" and "zip cl (map (col ps) names) = admin_row Y a" and "exact Y (a_CreatedAt a)"
  shows "stored Y (effect ps (Upsert ''admins'' cl names) T) (adminRepo_Upsert a s)"
  using admin_table.mir_put [OF stored_tables(2) [OF assms(1)] assms(3) refl] assms(1)
  unfolding admin_table.upsert_effect [where T = T and t = "''admins''", OF stored_tables(2) [OF assms(1)] assms(2) keys_of_rows(2)]
  by (simp add: stored_def adminRepo_Upsert_def)

lemma stored_put_account:
  assumes "stored Y T s" and "zip cl (map (col ps) names) = account_row Y a" and "account_exact Y a"
  shows "stored Y (effect ps (Upsert ''s21_accounts'' cl names) T) (s21AccountRepo_Upsert a s)"
  using account_table.mir_put [OF stored_tables(3) [OF assms(1)] assms(3) refl] assms(1)
  unfolding account_table.upsert_effect [where T = T and t = "''s21_accounts''", OF stored_tables(3) [OF assms(1)] assms(2) keys_of_rows(3)]
  by (simp add: stored_def s21AccountRepo_Upsert_def)

lemma stored_put_group:
  assumes "stored Y T s" and "zip cl (map (col ps) names) = group_row Y g" and "exact Y (g_CreatedAt g)"
  shows "stored Y (effect ps (Upsert ''groups'' cl names) T) (groupRepo_Upsert g s)"
  using group_table.mir_put [OF stored_tables(4) [OF assms(1)] assms(3) refl] assms(1)
  unfolding group_table.upsert_effect [where T = T and t = "''groups''", OF stored_tables(4) [OF assms(1)] assms(2) keys_of_rows(4)]
  by (simp add: stored_def groupRepo_Upsert_def)

lemma stored_put_confirmation:
  assumes "stored Y T s" and "zip cl (map (col ps) names) = conf_row Y c" and "exact Y (c_ConfirmedAt c)"
  shows "stored Y (effect ps (Upsert ''match_confirmations'' cl names) T) (confirmRepo_Insert c s)"
  using conf_table.mir_put [OF stored_tables(6) [OF assms(1)] assms(3) refl] assms(1)
  unfolding conf_table.upsert_effect [where T = T and t = "''match_confirmations''", OF stored_tables(6) [OF assms(1)] assms(2) keys_of_rows(6)]
  by (simp add: stored_def confirmRepo_Insert_def)

lemma stored_put_undo:
  assumes "stored Y T s" and "zip cl (map (col ps) names) = undo_row Y u" and "exact Y (u_RequestedAt u)"
  shows "stored Y (effect ps (Upsert ''undo_commands'' cl names) T) (undoRepo_Insert u s)"
  using undo_table.mir_put [OF stored_tables(7) [OF assms(1)] assms(3) refl] assms(1)
  unfolding undo_table.upsert_effect [where T = T and t = "''undo_commands''", OF stored_tables(7) [OF assms(1)] assms(2) keys_of_rows(7)]
  by (simp add: stored_def undoRepo_Insert_def)

lemma stored_put_setting:
  assumes "stored Y T s" and "zip cl (map (col ps) names) = setting_row Y b" and "exact Y (s_UpdatedAt b)"
  shows "stored Y (effect ps (Upsert ''bot_settings'' cl names) T) (s\<lparr>settings := mput (s_Key b) b (settings s)\<rparr>)"
  using setting_table.mir_put [OF stored_tables(8) [OF assms(1)] assms(3) refl] assms(1)
  unfolding setting_table.upsert_effect [where T = T and t = "''bot_settings''", OF stored_tables(8) [OF assms(1)] assms(2) keys_of_rows(8)]
  by (simp add: stored_def)

lemma stored_put_nick:
  assumes "stored Y T s" and "zip cl (map (col ps) names) = nick_row Y e" and "exact Y (n_CachedAt e)"
  shows "stored Y (effect ps (Upsert ''tg_nick_cache'' cl names) T) (nickCacheRepo_Upsert e s)"
  using nick_table.mir_put [OF stored_tables(10) [OF assms(1)] assms(3) refl] assms(1)
  unfolding nick_table.upsert_effect [where T = T and t = "''tg_nick_cache''", OF stored_tables(10) [OF assms(1)] assms(2) keys_of_rows(10)]
  by (simp add: stored_def nickCacheRepo_Upsert_def)

lemma stored_put_match:
  assumes "stored Y T s" and "zip cl (map (col ps) names) = match_row Y m" and "match_exact Y m"
  shows "stored Y (effect ps (Upsert ''matches'' cl names) T) (PutMatch m s)"
  using match_table.mir_put [OF stored_tables(5) [OF assms(1)] assms(3) refl] assms(1)
  unfolding match_table.upsert_effect [where T = T and t = "''matches''", OF stored_tables(5) [OF assms(1)] assms(2) keys_of_rows(5)]
  by (simp add: stored_def PutMatch_def insertMatch_def match_key_def)

lemma stored_put_counter:
  assumes "stored Y T s" and "zip cl (map (col ps) names) = counter_row (g, n)"
  shows "stored Y (effect ps (Upsert ''match_counters'' cl names) T) (s\<lparr>matchCounters := mput g n (matchCounters s)\<rparr>)"
  using counter_table.mir_put [OF stored_tables(9) [OF assms(1)] TrueI refl, of "(g, n)"] assms(1)
  unfolding counter_table.upsert_effect [where T = T and t = "''match_counters''", OF stored_tables(9) [OF assms(1)] assms(2) keys_of_rows(9)]
  by (simp add: stored_def)

text \<open>Deletions and the status update.\<close>

lemma stored_del_account:
  assumes "stored Y T s" and "col ps ''$tid'' = YUint64 t"
  shows "stored Y (effect ps (DeleteFrom ''s21_accounts'' [Eq ''telegram_id'' (Par ''$tid'')]) T)
           (s21AccountRepo_Delete t s)"
proof -
  note m = stored_tables(3) [OF assms(1)]
  have "wf_map (s21Accounts s)" using m by (simp add: mirrors_def)
  from account_table.mir_del [OF m, of "mdel t (s21Accounts s)" "\<lambda>k. k = t" ps "[Eq ''telegram_id'' (Par ''$tid'')]"] this
  show ?thesis using assms(1) by (simp add: where_rows assms(2) stored_def s21AccountRepo_Delete_def)
qed

lemma stored_del_confirmations:
  assumes "stored Y T s" and "col ps ''$g'' = YUint64 (fst k)" and "col ps ''$m'' = YUint64 (snd k)"
  shows "stored Y (effect ps (DeleteFrom ''match_confirmations'' of_match) T) (confirmRepo_DeleteForMatch k s)"
proof -
  note m = stored_tables(6) [OF assms(1)]
  have "wf_map (confirmations s)" using m by (simp add: mirrors_def)
  from conf_table.mir_del [OF m, of "mdel_if (for_match k) (confirmations s)" "for_match k" ps of_match] this
  show ?thesis using assms(1)
    by (cases k) (simp add: where_rows assms(2,3) stored_def confirmRepo_DeleteForMatch_def for_match_def conf_key_def)
qed

lemma stored_del_undos:
  assumes "stored Y T s" and "col ps ''$g'' = YUint64 (fst k)" and "col ps ''$m'' = YUint64 (snd k)"
  shows "stored Y (effect ps (DeleteFrom ''undo_commands'' of_match) T) (undoRepo_DeleteForMatch k s)"
proof -
  note m = stored_tables(7) [OF assms(1)]
  have "wf_map (undos s)" using m by (simp add: mirrors_def)
  from undo_table.mir_del [OF m, of "mdel_if (for_match k) (undos s)" "for_match k" ps of_match] this
  show ?thesis using assms(1)
    by (cases k) (simp add: where_rows assms(2,3) stored_def undoRepo_DeleteForMatch_def for_match_def undo_key_def)
qed

lemma snd_undoRepo_Delete: "mget (undos (snd (undoRepo_Delete k s))) k' = (if k' = k then None else mget (undos s) k')"
  by (simp add: undoRepo_Delete_def split: option.split)

lemma stored_del_undo:
  assumes "stored Y T s" and "col ps ''$g'' = YUint64 (fst k)" and "col ps ''$m'' = YUint64 (fst (snd k))"
    and "col ps ''$u'' = YUint64 (snd (snd k))"
  shows "stored Y (effect ps (DeleteFrom ''undo_commands'' (of_match @ [Eq ''telegram_id'' (Par ''$u'')])) T)
           (snd (undoRepo_Delete k s))"
proof -
  note m = stored_tables(7) [OF assms(1)]
  have wf: "wf_map (undos (snd (undoRepo_Delete k s)))"
    using m by (simp add: mirrors_def undoRepo_Delete_def split: option.split)
  have "undo_key u = k \<longleftrightarrow> u_GroupID u = fst k \<and> u_MatchID u = fst (snd k) \<and> u_TelegramID u = snd (snd k)" for u
    by (cases k) (auto simp: undo_key_def)
  with undo_table.mir_del [OF m wf, of "\<lambda>k'. k' = k" ps "of_match @ [Eq ''telegram_id'' (Par ''$u'')]"]
  have "mirrors key3 (undo_row Y) (\<lambda>u. exact Y (u_RequestedAt u)) undo_key
      (filter (\<lambda>(k, r). \<not> where_holds ps (of_match @ [Eq ''telegram_id'' (Par ''$u'')]) r) (T ''undo_commands''))
      (undos (snd (undoRepo_Delete k s)))"
    by (simp add: where_rows assms(2-4) snd_undoRepo_Delete)
  then show ?thesis using assms(1) by (simp add: stored_def undoRepo_Delete_def split: option.split)
qed

lemma stored_del_match:
  assumes "stored Y T s" and "col ps ''$g'' = YUint64 (fst k)" and "col ps ''$m'' = YUint64 (snd k)"
  shows "stored Y (effect ps (DeleteFrom ''matches'' of_match) T) (s\<lparr>matches := mdel k (matches s)\<rparr>)"
proof -
  note m = stored_tables(5) [OF assms(1)]
  have "wf_map (matches s)" using m by (simp add: mirrors_def)
  from match_table.mir_del [OF m, of "mdel k (matches s)" "\<lambda>k'. k' = k" ps of_match] this
  show ?thesis using assms(1)
    by (cases k) (simp add: where_rows assms(2,3) stored_def match_key_def)
qed

lemma set_status_row: "set_col ''status'' (YUtf8 (status_text x)) (match_row Y m) = match_row Y (m\<lparr>m_Status := x\<rparr>)"
  by (simp add: set_col_def match_row_def matchCols_def)

lemma stored_set_status:
  assumes "stored Y T s" and "col ps ''$g'' = YUint64 (fst k)" and "col ps ''$m'' = YUint64 (snd k)"
    and "col ps ''$s'' = YUtf8 (status_text x)"
  shows "stored Y (effect ps (UpdateSet ''matches'' ''status'' ''$s'' of_match) T) (snd (matchRepo_UpdateStatus k x s))"
proof -
  note m = stored_tables(5) [OF assms(1)]
  have key: "where_holds ps of_match (match_row Y v) \<longleftrightarrow> match_key v = k" for v
    by (cases k) (simp add: where_rows assms(2,3) match_key_def)
  from match_table.mir_update [OF m key, of "set_col ''status'' (col ps ''$s'')" "\<lambda>m. m\<lparr>m_Status := x\<rparr>"]
  show ?thesis using assms(1)
    by (simp add: set_status_row assms(4) match_exact_def match_key_def stored_def matchRepo_UpdateStatus_def
        split: option.split_asm option.split)
qed

section \<open>Every write is simulated\<close>

fun op_fits :: "store_op \<Rightarrow> memstore \<Rightarrow> bool" where
  "op_fits (DelMatch k) s \<longleftrightarrow> mget (matches s) k \<noteq> None"
| "op_fits x s \<longleftrightarrow> True"

text \<open>
  Deleting a match differs where there is no such match: the in-memory store reports
  \<open>ErrNotFound\<close> and touches nothing, the production store deletes whatever dependants there are.
  On a match that is there the two agree.
\<close>

definition cascade :: "i64 \<times> u64 \<Rightarrow> memstore \<Rightarrow> memstore" where
  "cascade k s = undoRepo_DeleteForMatch k (confirmRepo_DeleteForMatch k (s\<lparr>matches := mdel k (matches s)\<rparr>))"

lemma cascade_is_delete: "mget (matches s) k \<noteq> None \<Longrightarrow> cascade k s = snd (matchRepo_Delete k s)"
  by (auto simp: cascade_def matchRepo_Delete_def undoRepo_DeleteForMatch_def confirmRepo_DeleteForMatch_def)

fun keep_write :: "time \<Rightarrow> store_op \<Rightarrow> memstore \<Rightarrow> memstore" where
  "keep_write wall (DelMatch k) s = cascade k s"
| "keep_write wall x s = mem_do (micros wall) (op_kept wall x) s"

lemma keep_write_fits: "op_fits x s \<Longrightarrow> keep_write wall x s = mem_do (micros wall) (op_kept wall x) s"
  by (cases x) (simp_all add: cascade_is_delete)

lemmas ydb_write_defs = ydb_participantRepo_Upsert_def ydb_adminRepo_Upsert_def ydb_s21AccountRepo_Upsert_def
  ydb_s21AccountRepo_Delete_def ydb_groupRepo_Upsert_def ydb_matchRepo_UpdateStatus_def ydb_matchRepo_Delete_def
  ydb_confirmRepo_Insert_def ydb_confirmRepo_DeleteForMatch_def ydb_undoRepo_Insert_def ydb_undoRepo_Delete_def
  ydb_undoRepo_DeleteForMatch_def ydb_settingsRepo_Set_def ydb_nickCacheRepo_Upsert_def

context ydb_engine
begin

lemmas micros_simps = y_ts_micros exact_micros optTime_micros

lemma account_kept:
  assumes "\<forall>t \<in> op_times wall (PutAccount a). stampable t"
  shows "account_row Y (account_micros (account_defaults wall a)) = account_row Y (account_defaults wall a)"
    and "account_exact Y (account_micros (account_defaults wall a))"
  using assms by (simp_all add: account_row_def account_micros_def account_exact_def micros_simps Let_def)

lemma doTx1_single:
  assumes "doTx1 Y [q] ps d = (r, d')" and "stored Y (tab d) s" and "stored Y (effect ps q (tab d)) s'"
  shows "(r = None \<longrightarrow> stored Y (tab d') s') \<and> (stored Y (tab d') s \<or> stored Y (tab d') s')"
  using doTx1_stored [OF assms(1,2)] assms(3) by simp

lemma write_kept:
  assumes st: "stored Y (tab d) s" and times: "\<forall>t \<in> op_times wall x. stampable t"
    and run: "ydb_do Y wall x d = (r, d')"
  shows "(r = None \<longrightarrow> stored Y (tab d') (keep_write wall x s)) \<and>
         (stored Y (tab d') s \<or> stored Y (tab d') (keep_write wall x s))"
proof (cases x)
  case (PutParticipant p)
  show ?thesis
    unfolding PutParticipant keep_write.simps op_kept.simps mem_do.simps
    by (rule doTx1_single [OF run [unfolded PutParticipant ydb_do.simps ydb_write_defs Let_def] st],
        rule stored_put_participant [OF st])
       (use times in \<open>simp_all add: PutParticipant part_row_def partCols_def col_def optStr_def micros_simps\<close>)
next
  case (PutAdmin a)
  show ?thesis
    unfolding PutAdmin keep_write.simps op_kept.simps mem_do.simps
    by (rule doTx1_single [OF run [unfolded PutAdmin ydb_do.simps ydb_write_defs Let_def] st],
        rule stored_put_admin [OF st])
       (use times in \<open>simp_all add: PutAdmin admin_row_def adminCols_def col_def micros_simps\<close>)
next
  case (PutAccount a)
  have run': "doTx1 Y [Upsert ''s21_accounts'' s21AccountColsSel
      [''$tid'', ''$login'', ''$creds'', ''$cid'', ''$cname'', ''$cat'', ''$uat'', ''$lua'', ''$fat'', ''$wat'']]
      [(''$tid'', YUint64 (acc_TelegramID b)), (''$login'', YUtf8 (acc_S21Login b)),
       (''$creds'', YUtf8 (acc_S21CredsEncrypted b)), (''$cid'', optStr (acc_CampusID b)),
       (''$cname'', optStr (acc_CampusName b)), (''$cat'', y_ts Y (acc_CreatedAt b)),
       (''$uat'', y_ts Y (acc_UpdatedAt b)), (''$lua'', optTime Y (acc_LastUsedAt b)),
       (''$fat'', optTime Y (acc_S21CredsFailedAt b)), (''$wat'', optTime Y (acc_S21CredsLastWarnedAt b))] d = (r, d')"
    if "b = account_defaults wall a" for b
    using run unfolding PutAccount ydb_do.simps ydb_write_defs that account_defaults_def Let_def .
  note kept = account_kept [OF times [unfolded PutAccount]]
  show ?thesis
    unfolding PutAccount keep_write.simps op_kept.simps mem_do.simps
    by (rule doTx1_single [OF run' [OF refl] st], rule stored_put_account [OF st _ kept(2)], unfold kept(1))
       (simp add: account_row_def s21AccountColsSel_def col_def)
next
  case (DelAccount t)
  show ?thesis
    unfolding DelAccount keep_write.simps op_kept.simps mem_do.simps
    by (rule doTx1_single [OF run [unfolded DelAccount ydb_do.simps ydb_write_defs Let_def] st],
        rule stored_del_account [OF st]) (simp add: col_def)
next
  case (PutGroup g)
  show ?thesis
    unfolding PutGroup keep_write.simps op_kept.simps mem_do.simps
    by (rule doTx1_single [OF run [unfolded PutGroup ydb_do.simps ydb_write_defs Let_def] st],
        rule stored_put_group [OF st])
       (use times in \<open>simp_all add: PutGroup group_row_def groupCols_def col_def optU32_def micros_simps\<close>)
next
  case (SetStatus k y)
  show ?thesis
    unfolding SetStatus keep_write.simps op_kept.simps mem_do.simps
    by (rule doTx1_single [OF run [unfolded SetStatus ydb_do.simps ydb_write_defs Let_def] st],
        rule stored_set_status [OF st]) (simp_all add: col_def)
next
  case (DelMatch k)
  let ?ps = "[(''$g'', YUint64 (fst k)), (''$m'', YUint64 (snd k))]"
  have "stored Y (fold (effect ?ps) [DeleteFrom ''matches'' of_match, DeleteFrom ''match_confirmations'' of_match,
      DeleteFrom ''undo_commands'' of_match] (tab d))
      (cascade k s)"
    unfolding cascade_def by (simp only: fold_simps, intro stored_del_undos stored_del_confirmations stored_del_match st)
       (simp_all add: col_def)
  then show ?thesis
    using doTx1_stored [OF run [unfolded DelMatch ydb_do.simps ydb_write_defs Let_def] st]
    unfolding DelMatch keep_write.simps by simp
next
  case (PutConfirmation c)
  show ?thesis
    unfolding PutConfirmation keep_write.simps op_kept.simps mem_do.simps
    by (rule doTx1_single [OF run [unfolded PutConfirmation ydb_do.simps ydb_write_defs Let_def] st],
        rule stored_put_confirmation [OF st])
       (use times in \<open>simp_all add: PutConfirmation conf_row_def confCols_def col_def micros_simps\<close>)
next
  case (DelConfirmations k)
  show ?thesis
    unfolding DelConfirmations keep_write.simps op_kept.simps mem_do.simps
    by (rule doTx1_single [OF run [unfolded DelConfirmations ydb_do.simps ydb_write_defs Let_def] st],
        rule stored_del_confirmations [OF st]) (simp_all add: col_def)
next
  case (PutUndo u)
  show ?thesis
    unfolding PutUndo keep_write.simps op_kept.simps mem_do.simps
    by (rule doTx1_single [OF run [unfolded PutUndo ydb_do.simps ydb_write_defs Let_def] st],
        rule stored_put_undo [OF st])
       (use times in \<open>simp_all add: PutUndo undo_row_def undoCols_def col_def micros_simps\<close>)
next
  case (DelUndo k)
  show ?thesis
    unfolding DelUndo keep_write.simps op_kept.simps mem_do.simps
    by (rule doTx1_single [OF run [unfolded DelUndo ydb_do.simps ydb_write_defs Let_def] st],
        rule stored_del_undo [OF st]) (simp_all add: col_def)
next
  case (DelUndos k)
  show ?thesis
    unfolding DelUndos keep_write.simps op_kept.simps mem_do.simps
    by (rule doTx1_single [OF run [unfolded DelUndos ydb_do.simps ydb_write_defs Let_def] st],
        rule stored_del_undos [OF st]) (simp_all add: col_def)
next
  case (SetSetting k v u)
  let ?b = "\<lparr>s_Key = k, s_Value = v, s_UpdatedAt = micros wall, s_UpdatedBy = u\<rparr>"
  have "settingsRepo_Set (micros wall) k v u s = s\<lparr>settings := mput (s_Key ?b) ?b (settings s)\<rparr>"
    by (simp add: settingsRepo_Set_def)
  then show ?thesis
    unfolding SetSetting keep_write.simps op_kept.simps mem_do.simps
    by (elim ssubst, intro doTx1_single [OF run [unfolded SetSetting ydb_do.simps ydb_write_defs Let_def] st]
        stored_put_setting [OF st])
       (use times in \<open>simp_all add: SetSetting setting_row_def settingCols_def col_def micros_simps\<close>)
next
  case (PutNick e)
  show ?thesis
    unfolding PutNick keep_write.simps op_kept.simps mem_do.simps
    by (rule doTx1_single [OF run [unfolded PutNick ydb_do.simps ydb_write_defs Let_def, folded nick_defaults_def] st],
        rule stored_put_nick [OF st])
       (use times in \<open>simp_all add: PutNick nick_row_def nickCols_def col_def micros_simps\<close>)
qed

lemma write_refines:
  assumes "stored Y (tab d) s" and "\<forall>t \<in> op_times wall x. stampable t" and "op_fits x s" and "ydb_do Y wall x d = (r, d')"
  shows "(r = None \<longrightarrow> stored Y (tab d') (mem_do (micros wall) (op_kept wall x) s)) \<and>
         (stored Y (tab d') s \<or> stored Y (tab d') (mem_do (micros wall) (op_kept wall x) s))"
  using write_kept [OF assms(1,2,4)] unfolding keep_write_fits [OF assms(3)] .

end

section \<open>Allocating a match\<close>

text \<open>The row as the database keeps it.\<close>

definition match_micros :: "Match \<Rightarrow> Match" where
  "match_micros m = m\<lparr>m_PlayedAt := micros (m_PlayedAt m), m_CreatedAt := micros (m_CreatedAt m)\<rparr>"

lemma counter_where:
  "where_holds [(''$gid'', YUint64 g)] [Eq ''group_id'' (Par ''$gid'')] (counter_row c) \<longleftrightarrow> fst c = g"
  by (auto simp: where_holds_def counter_row_def col_def)

lemma next_id_counter:
  "read_next_id (Rows (case mget (matchCounters s) g of None \<Rightarrow> []
      | Some n \<Rightarrow> [project [''next_match_id''] (counter_row (g, n))])) = counter s g + 1"
  by (simp add: read_next_id_def project_def col_def counter_row_def Optional_def counter_def deref_def
      split: option.split)

context ydb_engine
begin

lemma counter_read:
  assumes "stored Y (tab d) s" and "y_exec Y [read_counter] [(''$gid'', YUint64 g)] d = (Inr res, d1)"
  shows "read_next_id res = counter s g + 1" and "tab d1 = tab d"
proof -
  note m = stored_tables(9) [OF assms(1)]
  note few = counter_table.few_by_key [where T' = "tab d" and t = "''match_counters''", OF m counter_where]
  from exec_answers [OF assms(2) [unfolded read_counter_def] few]
  obtain rows where rows: "res = Rows rows"
    "answers [(''$gid'', YUint64 g)]
       (Select [''next_match_id''] ''match_counters'' [Eq ''group_id'' (Par ''$gid'')] [] None) (tab d) rows"
    by blast
  from counter_table.key_answers [OF rows(2) m counter_where] rows(1)
  have "res = Rows (case mget (matchCounters s) g of None \<Rightarrow> []
      | Some n \<Rightarrow> [project [''next_match_id''] (counter_row (g, n))])"
    by (simp split: option.split)
  then show "read_next_id res = counter s g + 1" by (simp only: next_id_counter)
  show "tab d1 = tab d" using exec_effect [OF assms(2)] by (simp add: read_counter_def)
qed

lemma match_inserted:
  assumes "stored Y T s" and "stampable (m_PlayedAt m)" and "stampable (m_CreatedAt m)"
    and "ps = [(''$group_id'', YUint64 (m_GroupID m)), (''$match_id'', YUint64 (m_MatchID m)),
           (''$player1_id'', YUint64 (m_Player1ID m)), (''$player2_id'', YUint64 (m_Player2ID m)),
           (''$player1_score'', YUint32 (m_Player1Score m)), (''$player2_score'', YUint32 (m_Player2Score m)),
           (''$registered_by'', YUint64 (m_RegisteredBy m)), (''$status'', YUtf8 (status_text (m_Status m))),
           (''$played_at'', y_ts Y (m_PlayedAt m)), (''$created_at'', y_ts Y (m_CreatedAt m)), (''$next'', YUint64 n)]"
  shows "stored Y (fold (effect ps) insert_match T)
           ((PutMatch (match_micros m) s)\<lparr>matchCounters := mput (m_GroupID m) n (matchCounters s)\<rparr>)"
proof -
  have "stored Y (fold (effect ps) insert_match T)
      ((PutMatch (match_micros m) s)\<lparr>matchCounters := mput (m_GroupID m) n (matchCounters (PutMatch (match_micros m) s))\<rparr>)"
    unfolding insert_match_def fold_simps
    by (intro stored_put_counter stored_put_match assms(1))
       (use assms(2,3) in \<open>simp_all add: assms(4) match_row_def matchCols_def col_def match_micros_def match_exact_def
          micros_simps counter_row_def\<close>)
  then show ?thesis by (simp add: PutMatch_def insertMatch_def)
qed

lemma allocate_body_refines:
  assumes "stored Y (tab d) s" and "allocate_body Y g build d = (Inr i, d1)"
    and "\<And>j. m_GroupID (build j) = g \<and> stampable (m_PlayedAt (build j)) \<and> stampable (m_CreatedAt (build j))"
  shows "AllocateAndInsertMatch g (\<lambda>j. match_micros (build j)) s = (i, snd (AllocateAndInsertMatch g (\<lambda>j. match_micros (build j)) s))"
    and "stored Y (tab d1) (snd (AllocateAndInsertMatch g (\<lambda>j. match_micros (build j)) s))"
proof -
  obtain res d2 where read: "y_exec Y [read_counter] [(''$gid'', YUint64 g)] d = (Inr res, d2)"
    using assms(2) by (auto simp: allocate_body_def split: prod.splits sum.splits)
  note c = counter_read [OF assms(1) read]
  define row where "row = (build (read_next_id res))\<lparr>m_MatchID := read_next_id res, m_GroupID := g\<rparr>"
  define ps where "ps = [(''$group_id'', YUint64 (m_GroupID row)), (''$match_id'', YUint64 (m_MatchID row)),
           (''$player1_id'', YUint64 (m_Player1ID row)), (''$player2_id'', YUint64 (m_Player2ID row)),
           (''$player1_score'', YUint32 (m_Player1Score row)), (''$player2_score'', YUint32 (m_Player2Score row)),
           (''$registered_by'', YUint64 (m_RegisteredBy row)), (''$status'', YUtf8 (status_text (m_Status row))),
           (''$played_at'', y_ts Y (m_PlayedAt row)), (''$created_at'', y_ts Y (m_CreatedAt row)),
           (''$next'', YUint64 (read_next_id res))]"
  have ins: "(case y_exec Y insert_match ps d2 of (Inl x, d') \<Rightarrow> (Inl (YEngine x), d') | (Inr _, d') \<Rightarrow> (Inr (read_next_id res), d'))
      = (Inr i, d1)"
    using assms(2) by (simp add: allocate_body_def read Let_def row_def ps_def)
  then obtain res' where ex: "y_exec Y insert_match ps d2 = (Inr res', d1)" and i: "i = read_next_id res"
    by (auto split: prod.splits sum.splits)
  have eq: "snd (AllocateAndInsertMatch g (\<lambda>j. match_micros (build j)) s) =
      (PutMatch (match_micros row) s)\<lparr>matchCounters := mput (m_GroupID row) (read_next_id res) (matchCounters s)\<rparr>"
    using assms(3) [of "counter s g + 1"]
    by (cases "build (counter s g + 1)") (simp add: AllocateAndInsertMatch_def Let_def c(1) row_def match_micros_def PutMatch_def insertMatch_def)
  show "stored Y (tab d1) (snd (AllocateAndInsertMatch g (\<lambda>j. match_micros (build j)) s))"
    unfolding eq exec_effect [OF ex] c(2)
    by (rule match_inserted [OF assms(1)]) (use assms(3) in \<open>simp_all add: row_def ps_def\<close>)
  show "AllocateAndInsertMatch g (\<lambda>j. match_micros (build j)) s =
      (i, snd (AllocateAndInsertMatch g (\<lambda>j. match_micros (build j)) s))"
    by (simp add: AllocateAndInsertMatch_def Let_def i c(1))
qed

end

text \<open>The allocation transaction, committed or not.\<close>

lemma ydb_allocate_kept:
  assumes "ydb_engine Y tab" and "stored Y (tab d) s"
    and build: "\<And>j. m_GroupID (build j) = g \<and> stampable (m_PlayedAt (build j)) \<and> stampable (m_CreatedAt (build j))"
    and "ydb_AllocateAndInsertMatch Y g build d = (r, d')"
  shows "let (i, s') = AllocateAndInsertMatch g (\<lambda>j. match_micros (build j)) s in
     (case r of Inr j \<Rightarrow> j = i \<and> stored Y (tab d') s' | Inl x \<Rightarrow> stored Y (tab d') s \<or> stored Y (tab d') s')"
proof -
  note tx_laws = ydb_engine.tx_failed [OF assms(1)] ydb_engine.tx_committed [OF assms(1)]
  have body: "fst (AllocateAndInsertMatch g (\<lambda>j. match_micros (build j)) s) = j \<and>
      stored Y (tab d1) (snd (AllocateAndInsertMatch g (\<lambda>j. match_micros (build j)) s))"
    if "tab d0 = tab d" "allocate_body Y g build d0 = (Inr j, d1)" for d0 j d1
    using ydb_engine.allocate_body_refines [OF assms(1) _ that(2) build, of s] assms(2) that(1) by (metis fst_conv)
  have tx: "y_DoTx Y (allocate_body Y g build) d = (r, d')"
    using assms(4) by (simp add: ydb_AllocateAndInsertMatch_def)
  show ?thesis
  proof (cases r)
    case (Inl x)
    with tx_laws(1) [of "allocate_body Y g build" d x d'] tx assms(2) body
    show ?thesis by (auto simp: case_prod_beta Let_def)
  next
    case (Inr j)
    with tx_laws(2) [of "allocate_body Y g build" d j d'] tx body
    show ?thesis by (auto simp: case_prod_beta Let_def)
  qed
qed

section \<open>The production store as a whole\<close>

text \<open>Every write of the production store is simulated by the in-memory store: when it
  reports success, the tables hold what the in-memory store holds after the same write (with
  the defaults filled in and instants cut to microseconds); when it reports an error, they
  hold that or what they held before, and nothing in between, for all fourteen writes and
  every database that keeps the client's contract.\<close>

theorem ydb_write_refines:
  assumes "ydb_engine Y tab" and "stored Y (tab d) s"
    and "\<forall>t \<in> op_times wall x. stampable t" and "op_fits x s" and "ydb_do Y wall x d = (r, d')"
  shows "(r = None \<longrightarrow> stored Y (tab d') (mem_do (micros wall) (op_kept wall x) s)) \<and>
         (stored Y (tab d') s \<or> stored Y (tab d') (mem_do (micros wall) (op_kept wall x) s))"
  by (rule ydb_engine.write_refines [OF assms])

theorem ydb_write_refines_witness:
  "stored reference_engine (snd (ydb_do reference_engine 0 (SetSetting ''engine'' ''elo'' 7) (\<lambda>t. [])))
     (mem_do 0 (SetSetting ''engine'' ''elo'' 7) memstore_New)"
proof -
  let ?x = "SetSetting ''engine'' ''elo'' 7"
  have ok: "fst (ydb_do reference_engine 0 ?x (\<lambda>t. [])) = None"
    by (simp add: ydb_settingsRepo_Set_def doTx1_def reference_engine_def)
  have "\<forall>t \<in> op_times 0 ?x. stampable t" "op_fits ?x memstore_New" by (simp_all add: stampable_def)
  from ydb_write_refines [where tab = "\<lambda>T. T" and d = "\<lambda>t. []", OF reference.ydb_engine_axioms stored_New this
      prod.collapse [symmetric]] ok
  show ?thesis by (simp add: micros_def del: ydb_do.simps mem_do.simps)
qed

text \<open>Allocating a match id in the production store, a read and two writes in one transaction,
  is the atomic allocation of the in-memory store: the id is the successor of the group's
  counter, and the row and the counter are written together or, on an error, possibly not at
  all.\<close>

theorem ydb_Allocate_refines:
  assumes "ydb_engine Y tab" and "stored Y (tab d) s"
    and build: "\<And>j. m_GroupID (build j) = g \<and> stampable (m_PlayedAt (build j)) \<and> stampable (m_CreatedAt (build j))"
    and "ydb_AllocateAndInsertMatch Y g build d = (r, d')"
  shows "let (i, s') = AllocateAndInsertMatch g (\<lambda>j. match_micros (build j)) s in
     (case r of Inr j \<Rightarrow> j = i \<and> stored Y (tab d') s' | Inl x \<Rightarrow> stored Y (tab d') s \<or> stored Y (tab d') s')"
  by (rule ydb_allocate_kept [OF assms])

text \<open>A match for the examples.\<close>

definition example_row :: Match where
  "example_row = \<lparr>m_GroupID = 7, m_MatchID = 0, m_Player1ID = 2, m_Player2ID = 3, m_Player1Score = 3,
     m_Player2Score = 1, m_RegisteredBy = 2, m_Status = MatchStatusPending, m_PlayedAt = 1000000,
     m_CreatedAt = 1000000\<rparr>"

lemma example_allocates: "fst (ydb_AllocateAndInsertMatch reference_engine 7 (\<lambda>j. example_row) (\<lambda>t. [])) = Inr 1"
  by (simp add: ydb_AllocateAndInsertMatch_def allocate_body_def reference_engine_def read_counter_def insert_match_def
      read_next_id_def take_lim_def Let_def split: prod.splits)

theorem ydb_Allocate_refines_witness:
  "stored reference_engine (snd (ydb_AllocateAndInsertMatch reference_engine 7 (\<lambda>j. example_row) (\<lambda>t. [])))
     (snd (AllocateAndInsertMatch 7 (\<lambda>j. match_micros example_row) memstore_New))"
proof -
  have "m_GroupID example_row = 7 \<and> stampable (m_PlayedAt example_row) \<and> stampable (m_CreatedAt example_row)"
    by (simp add: example_row_def stampable_def)
  from ydb_Allocate_refines [where tab = "\<lambda>T. T" and d = "\<lambda>t. []" and build = "\<lambda>j. example_row",
      OF reference.ydb_engine_axioms stored_New this prod.collapse [symmetric]] example_allocates
  show ?thesis by (simp add: case_prod_beta)
qed

text \<open>C27. An unreadable counter restarts the ids: when the read of the counter is executed but its
  result set is not available, the match is stored as number 1, and the row of an existing
  match number 1 of the group is overwritten.\<close>

theorem lost_counter_overwrites:
  assumes law: "\<And>qs ps d res d'. y_exec Y qs ps d = (Inr res, d') \<Longrightarrow> tab d' = fold (effect ps) qs (tab d)"
    and "y_exec Y [read_counter] [(''$gid'', YUint64 g)] d = (Inr (NoResultSet x), d1)"
    and "allocate_body Y g build d = (Inr i, d2)"
  shows "i = 1 \<and> mget (tab d2 ''matches'') (key2 (g, 1)) =
     Some (merge_row (match_row Y ((build 1)\<lparr>m_MatchID := 1, m_GroupID := g\<rparr>)) (mget (tab d ''matches'') (key2 (g, 1))))"
proof -
  have t1: "tab d1 = tab d" using law [OF assms(2)] by (simp add: read_counter_def)
  define row where "row = (build 1)\<lparr>m_MatchID := 1, m_GroupID := g\<rparr>"
  obtain ps res where ex: "y_exec Y insert_match ps d1 = (Inr res, d2)" and i: "i = 1"
    and ps: "zip matchCols (map (col ps) [''$group_id'', ''$match_id'', ''$player1_id'', ''$player2_id'',
        ''$player1_score'', ''$player2_score'', ''$registered_by'', ''$status'', ''$played_at'', ''$created_at''])
      = match_row Y row"
    using assms(3) unfolding allocate_body_def assms(2) prod.case sum.case Let_def read_next_id_def yresult.case row_def [symmetric]
    by (auto simp: match_row_def matchCols_def col_def split: prod.splits sum.splits)
  have keys: "map (col (match_row Y row)) (primary_key ''matches'') = key2 (g, 1)"
    by (simp only: keys_of_rows) (simp add: match_key_def row_def)
  show ?thesis
    using i unfolding law [OF ex] t1 insert_match_def row_def [symmetric]
    by (simp add: ps [simplified] keys [simplified] Let_def del: key2.simps) simp
qed

text \<open>A client whose context expires between the execution of the read and its result set.\<close>

definition flaky_engine :: "tables ydb" where
  "flaky_engine = reference_engine\<lparr>y_exec := \<lambda>qs ps T. (Inr (NoResultSet ''context deadline exceeded''), fold (effect ps) qs T)\<rparr>"

definition approved_row :: Match where
  "approved_row = example_row\<lparr>m_MatchID := 1, m_Player1ID := 4, m_Player2ID := 5, m_Status := MatchStatusApproved\<rparr>"

definition approved_tables :: tables where
  "approved_tables = (\<lambda>t. if t = ''matches'' then [(key2 (7, 1), match_row flaky_engine approved_row)] else [])"

theorem lost_counter_overwrites_witness:
  "mget (approved_tables ''matches'') (key2 (7, 1)) = Some (match_row flaky_engine approved_row) \<and>
   mget (snd (allocate_body flaky_engine 7 (\<lambda>j. example_row) approved_tables) ''matches'') (key2 (7, 1)) =
     Some (match_row flaky_engine (example_row\<lparr>m_MatchID := 1\<rparr>))"
proof -
  have law: "y_exec flaky_engine qs ps d = (Inr res, d') \<Longrightarrow> d' = fold (effect ps) qs d" for qs ps d res d'
    by (auto simp: flaky_engine_def reference_engine_def)
  have read: "y_exec flaky_engine [read_counter] [(''$gid'', YUint64 7)] approved_tables =
      (Inr (NoResultSet ''context deadline exceeded''), approved_tables)"
    by (simp add: flaky_engine_def reference_engine_def read_counter_def)
  have "fst (allocate_body flaky_engine 7 (\<lambda>j. example_row) approved_tables) = Inr 1"
    by (simp add: allocate_body_def flaky_engine_def reference_engine_def read_next_id_def Let_def)
  then have run: "allocate_body flaky_engine 7 (\<lambda>j. example_row) approved_tables =
      (Inr 1, snd (allocate_body flaky_engine 7 (\<lambda>j. example_row) approved_tables))" by (metis prod.collapse)
  have old: "mget (approved_tables ''matches'') (key2 (7, 1)) = Some (match_row flaky_engine approved_row)"
    by (simp add: approved_tables_def)
  have "filter (\<lambda>(c, v). c \<notin> fst ` set (match_row flaky_engine m)) (match_row flaky_engine m') = []" for m m'
    by (simp add: match_row_def matchCols_def)
  then have merged: "merge_row (match_row flaky_engine m) (Some (match_row flaky_engine m')) = match_row flaky_engine m" for m m'
    by (simp add: merge_row_def)
  have same: "example_row\<lparr>m_MatchID := 1, m_GroupID := 7\<rparr> = example_row\<lparr>m_MatchID := 1\<rparr>" by (simp add: example_row_def)
  from lost_counter_overwrites [where tab = "\<lambda>T. T", OF law read run] old
  show ?thesis by (simp add: merged same del: key2.simps)
qed

text \<open>A database with one match, and what the in-memory store holds then.\<close>

definition example_tables :: tables where
  "example_tables = snd (ydb_AllocateAndInsertMatch reference_engine 7 (\<lambda>j. example_row) (\<lambda>t. []))"

definition example_kept :: memstore where
  "example_kept = memstore_New\<lparr>matches := [((7, 1), example_row\<lparr>m_MatchID := 1\<rparr>)], matchCounters := [(7, 1)]\<rparr>"

lemma example_stored: "stored reference_engine example_tables example_kept"
proof -
  have tx: "y_DoTx reference_engine f T = (Inr i, T') \<Longrightarrow> f T = (Inr i, T')" for f T i T'
    by (auto simp: reference_engine_def split: prod.splits sum.splits)
  have "ydb_AllocateAndInsertMatch reference_engine 7 (\<lambda>j. example_row) (\<lambda>t. []) = (Inr 1, example_tables)"
    using example_allocates by (simp add: example_tables_def prod_eq_iff)
  then have "allocate_body reference_engine 7 (\<lambda>j. example_row) (\<lambda>t. []) = (Inr 1, example_tables)"
    unfolding ydb_AllocateAndInsertMatch_def by (rule tx)
  from reference.allocate_body_refines(2) [where d = "\<lambda>t. []", OF stored_New this]
  have "stored reference_engine example_tables (snd (AllocateAndInsertMatch 7 (\<lambda>j. match_micros example_row) memstore_New))"
    by (simp add: example_row_def stampable_def)
  moreover have "snd (AllocateAndInsertMatch 7 (\<lambda>j. match_micros example_row) memstore_New) = example_kept"
    by (simp add: AllocateAndInsertMatch_def match_micros_def micros_def example_row_def example_kept_def counter_def
        memstore_New_def Let_def)
  ultimately show ?thesis by simp
qed

section \<open>Waiting for the database\<close>

lemma await_loop_reaches:
  "deadline < clk (i + n) \<Longrightarrow> \<exists>r. await_loop probe clk stop deadline i = Some r \<and>
     (r = None \<longrightarrow> (\<exists>j \<le> i + n. probe j = None)) \<and> (\<forall>x. r = Some x \<longrightarrow> (\<exists>j \<le> i + n. probe j = Some x \<or> stop j = Some x))"
proof (induction n arbitrary: i)
  case 0
  show ?case
  proof (cases "probe i")
    case None
    then show ?thesis by (subst await_loop.simps) auto
  next
    case (Some x)
    then show ?thesis using 0 by (subst await_loop.simps) auto
  qed
next
  case (Suc n)
  from Suc.IH [of "Suc i"] Suc.prems
  obtain r where r: "await_loop probe clk stop deadline (Suc i) = Some r"
    "r = None \<longrightarrow> (\<exists>j \<le> i + Suc n. probe j = None)"
    "\<forall>x. r = Some x \<longrightarrow> (\<exists>j \<le> i + Suc n. probe j = Some x \<or> stop j = Some x)" by auto
  show ?case
  proof (cases "probe i")
    case None
    then show ?thesis by (subst await_loop.simps) (auto intro: exI [of _ i])
  next
    case (Some x)
    show ?thesis
    proof (cases "deadline < clk i")
      case True
      then show ?thesis using Some by (subst await_loop.simps) (auto intro: exI [of _ i])
    next
      case late: False
      show ?thesis
      proof (cases "stop i")
        case None
        then have "await_loop probe clk stop deadline i = Some r"
          using Some late r(1) by (subst await_loop.simps) simp
        then show ?thesis using r(2,3) by auto
      next
        case (Some c)
        then have "await_loop probe clk stop deadline i = Some (Some c)"
          using \<open>probe i = Some x\<close> late by (subst await_loop.simps) simp
        then show ?thesis using Some by (auto intro: exI [of _ i])
      qed
    qed
  qed
qed

text \<open>Waiting for the database comes to an end: when every round takes at least the pause of 200
  milliseconds, the loop has returned by its 27th query, without an error only if a query has
  succeeded, and otherwise with the error of a query or of the context.\<close>

theorem AwaitReady_returns:
  assumes "\<And>i. now + int i * 200 * 10 ^ 6 \<le> clk i"
  shows "\<exists>r. AwaitReady now ctxDeadline probe clk stop = Some r \<and>
     (r = None \<longrightarrow> (\<exists>j \<le> 26. probe j = None)) \<and> (\<forall>x. r = Some x \<longrightarrow> (\<exists>j \<le> 26. probe j = Some x \<or> stop j = Some x))"
proof -
  let ?d = "case ctxDeadline of Some d \<Rightarrow> if d < now + 5 * 10 ^ 9 then d else now + 5 * 10 ^ 9 | None \<Rightarrow> now + 5 * 10 ^ 9"
  have "?d \<le> now + 5 * 10 ^ 9" by (simp split: option.split)
  also have "\<dots> < clk (0 + 26)" using assms [of 26] by simp
  finally show ?thesis
    using await_loop_reaches [of ?d clk 0 26 probe stop] unfolding AwaitReady_def Let_def by (simp only: add_0)
qed

theorem AwaitReady_returns_witness:
  "\<exists>r. AwaitReady 0 None (\<lambda>i. if i < 3 then Some ''unavailable'' else None) (\<lambda>i. int i * 300 * 10 ^ 6) (\<lambda>i. None) = Some r"
  using AwaitReady_returns [of 0 "\<lambda>i. int i * 300 * 10 ^ 6" None "\<lambda>i. if i < 3 then Some ''unavailable'' else None" "\<lambda>i. None"]
  by auto

end
