(* ===== verification/YdbReads.thy ===== *)
theory YdbReads
  imports YdbProps
begin

text \<open>
  Reads of the production store: what a handler reads is what the in-memory store with the same
  contents would have answered, or an error of the client.
\<close>

section \<open>Single rows\<close>

lemma where_lookups:
  "where_holds [(''$g'', YUint64 (fst k)), (''$u'', YUint64 (snd k))]
     [Eq ''group_id'' (Par ''$g''), Eq ''telegram_id'' (Par ''$u'')] (part_row Y p) \<longleftrightarrow> part_key p = k"
  "where_holds [(''$t'', YUint64 t)] [Eq ''telegram_id'' (Par ''$t'')] (admin_row Y a) \<longleftrightarrow> a_TelegramID a = t"
  "where_holds [(''$tid'', YUint64 t)] [Eq ''telegram_id'' (Par ''$tid'')] (account_row Y ac) \<longleftrightarrow> acc_TelegramID ac = t"
  "where_holds [(''$g'', YUint64 t)] [Eq ''group_id'' (Par ''$g'')] (group_row Y g) \<longleftrightarrow> g_GroupID g = t"
  "where_holds [(''$g'', YUint64 (fst km)), (''$m'', YUint64 (snd km))] of_match (match_row Y m) \<longleftrightarrow> match_key m = km"
  "where_holds [(''$k'', YUtf8 s)] [Eq ''key'' (Par ''$k'')] (setting_row Y b) \<longleftrightarrow> s_Key b = s"
  "where_holds [(''$tid'', YUint64 t)] [Eq ''telegram_id'' (Par ''$tid'')] (nick_row Y e) \<longleftrightarrow> n_TelegramID e = t"
  by (auto simp: where_holds_def of_match_def col_def row_defs cols_defs part_key_def match_key_def)

text \<open>The reference database never reports an error of its own.\<close>

lemma scan_never_engine:
  "Required rd r c k = Inl (YEngine x) \<Longrightarrow> \<exists>y. k y = Inl (YEngine x)"
  "Optional rd r c k' = Inl (YEngine x) \<Longrightarrow> \<exists>y. k' y = Inl (YEngine x)"
  by (auto simp: Required_def Optional_def split: option.splits yval.splits)

lemma scanMatch_never_engine: "scanMatch Y r \<noteq> Inl (YEngine x)"
  by (auto simp: scanMatch_def dest!: scan_never_engine split: option.splits)

text \<open>C24. Each of the seven look-ups by key of the production store answers what the in-memory
  store with the same contents answers, the row or not found, or reports an error of the
  client; a row is never misread, and no stored row fails to scan.\<close>

theorem ydb_Get_agrees:
  assumes "ydb_engine Y tab" and "stored Y (tab d) s"
  shows "agrees (ydb_participantRepo_Get Y d kp) (participantRepo_Get s kp) \<and>
    agrees (ydb_adminRepo_Get Y d t) (adminRepo_Get s t) \<and>
    agrees (ydb_s21AccountRepo_Get Y d t) (s21AccountRepo_Get s t) \<and>
    agrees (ydb_groupRepo_Get Y d g) (groupRepo_Get s g) \<and>
    agrees (ydb_matchRepo_Get Y d km) (matchRepo_Get s km) \<and>
    agrees (ydb_settingsRepo_Get Y d n) (settingsRepo_Get s n) \<and>
    agrees (ydb_nickCacheRepo_Get Y d t) (nickCacheRepo_Get s t)"
proof -
  note law = ydb_engine.read_answers [OF assms(1)]
  note rows = part_table.one_row_agrees [where T = "tab d" and t = "''participants''", OF stored_tables(1) [OF assms(2)] where_lookups(1) _ law]
    admin_table.one_row_agrees [where T = "tab d" and t = "''admins''", OF stored_tables(2) [OF assms(2)] where_lookups(2) _ law]
    account_table.one_row_agrees [where T = "tab d" and t = "''s21_accounts''", OF stored_tables(3) [OF assms(2)] where_lookups(3) _ law]
    group_table.one_row_agrees [where T = "tab d" and t = "''groups''", OF stored_tables(4) [OF assms(2)] where_lookups(4) _ law]
    match_table.one_row_agrees [where T = "tab d" and t = "''matches''", OF stored_tables(5) [OF assms(2)] where_lookups(5) _ law]
    setting_table.one_row_agrees [where T = "tab d" and t = "''bot_settings''", OF stored_tables(8) [OF assms(2)] where_lookups(6) _ law]
    nick_table.one_row_agrees [where T = "tab d" and t = "''tg_nick_cache''", OF stored_tables(10) [OF assms(2)] where_lookups(7) _ law]
  show ?thesis
    unfolding ydb_participantRepo_Get_def ydb_adminRepo_Get_def ydb_s21AccountRepo_Get_def ydb_groupRepo_Get_def
      ydb_matchRepo_Get_def ydb_settingsRepo_Get_def ydb_nickCacheRepo_Get_def repo_get_defs
    by (intro conjI rows) simp_all
qed

theorem ydb_Get_agrees_witness:
  "ydb_matchRepo_Get reference_engine example_tables (7, 1) = Inr (example_row\<lparr>m_MatchID := 1\<rparr>)"
proof -
  have "agrees (ydb_matchRepo_Get reference_engine example_tables (7, 1)) (matchRepo_Get example_kept (7, 1))"
    using ydb_Get_agrees [where tab = "\<lambda>T. T", OF reference.ydb_engine_axioms example_stored] by blast
  moreover have "\<nexists>x. ydb_matchRepo_Get reference_engine example_tables (7, 1) = Inl (YEngine x)"
    by (auto simp: ydb_matchRepo_Get_def one_row_def reference_engine_def scanMatch_never_engine split: list.splits)
  ultimately show ?thesis by (simp add: agrees_def matchRepo_Get_def get_or_def example_kept_def)
qed

section \<open>Listings of matches\<close>

lemma values_with:
  assumes "wf_map m" and "keyed key m"
  shows "mvals_if p m = filter (\<lambda>v. p (key v)) (map snd m)"
proof -
  have "p k = p (key v)" if "(k, v) \<in> set m" for k v
    using keyedD [OF assms(2)] that assms(1) by (simp add: wf_map_get_iff)
  then have eq: "filter (\<lambda>(k, v). p k) m = filter (\<lambda>(k, v). p (key v)) m" by (intro filter_cong) auto
  show ?thesis unfolding mvals_if_def eq by (simp add: filter_map comp_def case_prod_beta')
qed

lemma where_listings:
  "where_holds [(''$g'', YUint64 g)] [Eq ''group_id'' (Par ''$g'')] (match_row Y m) \<longleftrightarrow> m_GroupID m = g"
  "where_holds [(''$g'', YUint64 g)] [Eq ''group_id'' (Par ''$g''), Neq ''status'' (Lit ''UNDONE'')] (match_row Y m) \<longleftrightarrow>
     m_GroupID m = g \<and> m_Status m \<noteq> MatchStatusUndone"
  "where_holds [] [Eq ''status'' (Lit ''PENDING'')] (match_row Y m) \<longleftrightarrow> m_Status m = MatchStatusPending"
  by (cases "m_Status m"; auto simp: where_holds_def col_def match_row_def matchCols_def)+

lemma match_order_cols:
  "col (match_row Y m) ''played_at'' = YTimestamp (y_stamp Y (m_PlayedAt m))"
  "col (match_row Y m) ''match_id'' = YUint64 (m_MatchID m)"
  by (simp_all add: col_def match_row_def matchCols_def y_ts_def)

lemma length_filter_conj: "length (filter (\<lambda>x. P x \<and> Q x) xs) \<le> length (filter P xs)"
  by (induction xs) auto

lemma scan_players:
  "scanPlayers (project [''player1_id'', ''player2_id''] (match_row Y m)) = Inr (m_Player1ID m, m_Player2ID m)"
  by (simp add: scanPlayers_def project_def col_def match_row_def matchCols_def Required_hit)

lemma fold_bumps:
  "fold (\<lambda>(p1, p2) out. bump p2 (bump p1 out)) (map (\<lambda>m. (m_Player1ID m, m_Player2ID m)) ms) out =
     count_players ms out" if "\<forall>m \<in> set ms. m_Status m \<noteq> MatchStatusUndone"
  using that by (induction ms arbitrary: out) simp_all

text \<open>The tally does not depend on the order of the rows, nor on UNDONE rows.\<close>

lemma count_players_perm:
  assumes "mset (filter (\<lambda>m. m_Status m \<noteq> MatchStatusUndone) a) = mset (filter (\<lambda>m. m_Status m \<noteq> MatchStatusUndone) b)"
  shows "mget (count_players a []) = mget (count_players b [])"
proof
  fix p
  let ?c = "\<lambda>x. case mget (count_players x []) p of None \<Rightarrow> 0 | Some n \<Rightarrow> n"
  let ?s = "\<lambda>m :: Match. of_bool (m_Player1ID m = p) + of_bool (m_Player2ID m = p) :: int"
  have "?c a = ?c b"
    unfolding count_players_value using arg_cong [OF assms, of "\<lambda>M. sum_mset (image_mset ?s M)"]
    by (simp only: mset_map [symmetric] sum_mset_sum_list)
  moreover have "set (filter (\<lambda>m. m_Status m \<noteq> MatchStatusUndone) a) = set (filter (\<lambda>m. m_Status m \<noteq> MatchStatusUndone) b)"
    using assms by (rule mset_eq_setD)
  then have "mget (count_players a []) p = None \<longleftrightarrow> mget (count_players b []) p = None"
    unfolding count_players_None by (auto simp: set_eq_iff)
  ultimately show "mget (count_players a []) p = mget (count_players b []) p"
    by (cases "mget (count_players a []) p"; cases "mget (count_players b []) p") simp_all
qed

context ydb_engine
begin

lemma row_order_of_matches:
  assumes "match_exact Y a" and "match_exact Y b"
  shows "row_less [''played_at'', ''match_id''] (match_row Y a) (match_row Y b) \<longleftrightarrow> match_less a b"
proof -
  have "stampable (m_PlayedAt a)" "stampable (m_PlayedAt b)" "micros (m_PlayedAt a) = m_PlayedAt a"
    "micros (m_PlayedAt b) = m_PlayedAt b"
    using assms time_stamp by (auto simp: match_exact_def exact_def)
  then have "uint (y_stamp Y (m_PlayedAt a)) < uint (y_stamp Y (m_PlayedAt b)) \<longleftrightarrow> m_PlayedAt a < m_PlayedAt b"
    "uint (y_stamp Y (m_PlayedAt b)) < uint (y_stamp Y (m_PlayedAt a)) \<longleftrightarrow> m_PlayedAt b < m_PlayedAt a"
    using stamp_less_iff by simp_all
  moreover have "row_less [''played_at'', ''match_id''] (match_row Y a) (match_row Y b) \<longleftrightarrow>
      uint (y_stamp Y (m_PlayedAt a)) < uint (y_stamp Y (m_PlayedAt b)) \<or>
      \<not> uint (y_stamp Y (m_PlayedAt b)) < uint (y_stamp Y (m_PlayedAt a)) \<and> uint (m_MatchID a) < uint (m_MatchID b)"
    by (simp add: lex_less_def match_order_cols)
  ultimately show ?thesis
    unfolding match_less_def word_less_def
    by (cases "m_PlayedAt a" "m_PlayedAt b" rule: linorder_cases) simp_all
qed

lemma ListByGroup_agrees:
  assumes st: "stored Y (tab d) s" and few: "length (matchRepo_ListByGroup s g) \<le> 1000"
  shows "(\<exists>x. ydb_matchRepo_ListByGroup Y d g = Inl (YEngine x)) \<or>
    ydb_matchRepo_ListByGroup Y d g = Inr (matchRepo_ListByGroup s g)"
proof -
  note mir = stored_tables(5) [OF st]
  then have wf: "wf_map (matches s)" and kd: "keyed match_key (matches s)" by (simp_all add: mirrors_def)
  let ?ms = "filter (\<lambda>m. m_GroupID m = g) (map snd (matches s))"
  have list: "matchRepo_ListByGroup s g = sort_by match_less ?ms"
    by (simp add: matchRepo_ListByGroup_def values_with [OF wf kd] match_key_def)
  then have small: "length ?ms \<le> 1000" using few by simp
  have ord: "row_less [''played_at'', ''match_id''] (match_row Y a) (match_row Y b) \<longleftrightarrow> match_less a b"
    if "a \<in> snd ` set (matches s)" "b \<in> snd ` set (matches s)" for a b
    using that by (intro row_order_of_matches match_table.values_ok [OF mir])
  show ?thesis
    unfolding ydb_matchRepo_ListByGroup_def list
    by (rule match_table.ordered_rows_agree [where T = "tab d", OF mir])
       (rule where_listings(1), simp, rule small, erule (1) read_answers, rule match_sort.sort_less_axioms,
        erule (1) ord, auto simp: match_less_def match_key_def not_less split: if_splits)
qed

lemma CountsByPlayer_agrees:
  assumes st: "stored Y (tab d) s" and few: "length (matchRepo_ListByGroup s g) \<le> 1000"
  shows "(\<exists>x. ydb_matchRepo_CountsByPlayer Y d g = Inl (YEngine x)) \<or>
    (\<exists>c. ydb_matchRepo_CountsByPlayer Y d g = Inr c \<and> mget c = mget (matchRepo_CountsByPlayer s g))"
proof -
  note mir = stored_tables(5) [OF st]
  then have wf: "wf_map (matches s)" and kd: "keyed match_key (matches s)" by (simp_all add: mirrors_def)
  let ?q = "Select [''player1_id'', ''player2_id''] ''matches''
    [Eq ''group_id'' (Par ''$g''), Neq ''status'' (Lit ''UNDONE'')] [] None"
  let ?Q = "\<lambda>m. m_GroupID m = g \<and> m_Status m \<noteq> MatchStatusUndone"
  have vals: "mvals_if (\<lambda>k. fst k = g) (matches s) = filter (\<lambda>m. m_GroupID m = g) (map snd (matches s))"
    by (simp add: values_with [OF wf kd] match_key_def)
  have "length (filter ?Q (map snd (matches s))) \<le> length (filter (\<lambda>m. m_GroupID m = g) (map snd (matches s)))"
    by (rule length_filter_conj)
  moreover have "length (filter (\<lambda>m. m_GroupID m = g) (map snd (matches s))) \<le> 1000"
    using few unfolding matchRepo_ListByGroup_def vals length_sort_by .
  ultimately have small: "length (filter ?Q (map snd (matches s))) \<le> 1000" by (rule order_trans)
  have "(\<exists>x. all_rows Y scanPlayers ?q [(''$g'', YUint64 g)] d = Inl (YEngine x)) \<or>
    (\<exists>vs. all_rows Y scanPlayers ?q [(''$g'', YUint64 g)] d = Inr (map (\<lambda>m. (m_Player1ID m, m_Player2ID m)) vs) \<and>
      mset vs = mset (filter ?Q (map snd (matches s))) \<and> sorted_wrt (\<lambda>a b. \<not> row_less [] (match_row Y b) (match_row Y a)) vs)"
    by (rule match_table.all_rows_with [where T = "tab d", OF mir]) 
       (rule where_listings(2), rule scan_players, rule small, erule (1) read_answers)
  then show ?thesis
  proof (elim disjE exE conjE)
    fix x
    assume "all_rows Y scanPlayers ?q [(''$g'', YUint64 g)] d = Inl (YEngine x)"
    then show ?thesis by (simp add: ydb_matchRepo_CountsByPlayer_def)
  next
    fix vs
    assume vs: "all_rows Y scanPlayers ?q [(''$g'', YUint64 g)] d = Inr (map (\<lambda>m. (m_Player1ID m, m_Player2ID m)) vs)"
      "mset vs = mset (filter ?Q (map snd (matches s)))"
    have undone: "\<forall>m \<in> set vs. m_Status m \<noteq> MatchStatusUndone" using mset_eq_setD [OF vs(2)] by auto
    have all: "filter (\<lambda>m. m_Status m \<noteq> MatchStatusUndone) vs = vs" using undone by (simp add: filter_id_conv)
    have same: "filter (\<lambda>m. m_Status m \<noteq> MatchStatusUndone) (mvals_if (\<lambda>k. fst k = g) (matches s)) =
        filter ?Q (map snd (matches s))"
      unfolding vals filter_filter by (rule filter_cong) auto
    have "mget (count_players vs []) = mget (matchRepo_CountsByPlayer s g)"
      unfolding matchRepo_CountsByPlayer_def by (rule count_players_perm, unfold all same, rule vs(2))
    then show ?thesis by (simp add: ydb_matchRepo_CountsByPlayer_def vs(1) fold_bumps [OF undone])
  qed
qed

end

section \<open>Expired matches\<close>

text \<open>The group cache of the loop only saves look-ups.\<close>

definition expired_by :: "(Group \<Rightarrow> bool) \<Rightarrow> time \<Rightarrow> (ydb_error + Group) \<Rightarrow> Match \<Rightarrow> bool" where
  "expired_by before now g m =
     (case g of Inl x \<Rightarrow> False | Inr g \<Rightarrow> before g \<and> ConfirmationTimeout g < time_Sub now (m_CreatedAt m))"

lemma expired_loop_filter:
  assumes "\<And>k g. mget cache k = Some g \<Longrightarrow> ydb_groupRepo_Get Y d k = Inr g"
  shows "expired_loop Y d before now cache ms =
    filter (\<lambda>m. expired_by before now (ydb_groupRepo_Get Y d (m_GroupID m)) m) ms"
  using assms
proof (induction ms arbitrary: cache)
  case Nil
  show ?case by simp
next
  case (Cons m ms)
  show ?case
  proof (cases "cached_group Y d cache (m_GroupID m)")
    case None
    then obtain x where "ydb_groupRepo_Get Y d (m_GroupID m) = Inl x"
      by (auto simp: cached_group_def split: option.splits sum.splits)
    then show ?thesis using Cons by (simp add: None expired_by_def)
  next
    case (Some p)
    obtain g c where p: "p = (g, c)" by fastforce
    have get: "ydb_groupRepo_Get Y d (m_GroupID m) = Inr g"
      using Some Cons.prems by (auto simp: cached_group_def p split: option.splits sum.splits)
    have "mget c k = Some g' \<Longrightarrow> ydb_groupRepo_Get Y d k = Inr g'" for k g'
      using Some Cons.prems by (auto simp: cached_group_def p split: option.splits sum.splits if_splits)
    from Cons.IH [OF this] show ?thesis by (simp add: Some p get expired_by_def)
  qed
qed

lemma where_pending: "where_holds [] [Eq ''status'' (Lit ''PENDING'')] (match_row Y m) \<longleftrightarrow> m_Status m = MatchStatusPending"
  by (rule where_listings(3))

context ydb_engine
begin

lemma group_Get: 
  assumes "stored Y (tab d) s"
  shows "agrees (ydb_groupRepo_Get Y d g) (groupRepo_Get s g)"
  unfolding ydb_groupRepo_Get_def groupRepo_Get_def
  by (rule group_table.one_row_agrees [where T = "tab d", OF stored_tables(4) [OF assms] where_lookups(4)])
     (simp, erule (1) read_answers)

lemma expired_by_pending:
  assumes "stored Y (tab d) s" and "m_Status m = MatchStatusPending"
  shows "expired_by before now (ydb_groupRepo_Get Y d (m_GroupID m)) m \<Longrightarrow> pending_expired before now s m"
    and "\<nexists>x. ydb_groupRepo_Get Y d (m_GroupID m) = Inl (YEngine x) \<Longrightarrow>
      expired_by before now (ydb_groupRepo_Get Y d (m_GroupID m)) m = pending_expired before now s m"
  using group_Get [OF assms(1), of "m_GroupID m"] assms(2)
  by (auto simp: agrees_def expired_by_def pending_expired_def groupRepo_Get_def get_or_def split: option.splits)

lemma ListPendingExpired_agrees:
  assumes st: "stored Y (tab d) s"
    and few: "length (filter (\<lambda>m. m_Status m = MatchStatusPending) (map snd (matches s))) \<le> 1000"
  shows "(\<exists>x. ydb_matchRepo_ListPendingExpired Y d before now = Inl (YEngine x)) \<or>
    (\<exists>vs. ydb_matchRepo_ListPendingExpired Y d before now = Inr vs \<and>
      mset vs \<subseteq># mset (matchRepo_ListPendingExpired before now s) \<and>
      ((\<forall>g. \<nexists>x. ydb_groupRepo_Get Y d g = Inl (YEngine x)) \<longrightarrow> mset vs = mset (matchRepo_ListPendingExpired before now s)))"
proof -
  let ?P = "\<lambda>m. m_Status m = MatchStatusPending"
  let ?E = "\<lambda>m. expired_by before now (ydb_groupRepo_Get Y d (m_GroupID m)) m"
  have "(\<exists>x. all_rows Y (scanMatch Y) (Select matchCols ''matches'' [Eq ''status'' (Lit ''PENDING'')] [] None) [] d = Inl (YEngine x)) \<or>
    (\<exists>vs. all_rows Y (scanMatch Y) (Select matchCols ''matches'' [Eq ''status'' (Lit ''PENDING'')] [] None) [] d = Inr vs \<and>
      mset vs = mset (filter ?P (map snd (matches s))) \<and> sorted_wrt (\<lambda>a b. \<not> row_less [] (match_row Y b) (match_row Y a)) vs)"
    by (rule match_table.all_rows_agrees [where T = "tab d", OF stored_tables(5) [OF st]])
       (rule where_pending, simp, rule few, erule (1) read_answers)
  then show ?thesis
  proof (elim disjE exE conjE)
    fix x
    assume "all_rows Y (scanMatch Y) (Select matchCols ''matches'' [Eq ''status'' (Lit ''PENDING'')] [] None) [] d = Inl (YEngine x)"
    then show ?thesis by (simp add: ydb_matchRepo_ListPendingExpired_def)
  next
    fix vs
    assume read: "all_rows Y (scanMatch Y) (Select matchCols ''matches'' [Eq ''status'' (Lit ''PENDING'')] [] None) [] d = Inr vs"
      and vs: "mset vs = mset (filter ?P (map snd (matches s)))"
    let ?M = "mset (map snd (matches s))"
    have res: "ydb_matchRepo_ListPendingExpired Y d before now = Inr (filter ?E vs)"
      by (simp add: ydb_matchRepo_ListPendingExpired_def read) (rule expired_loop_filter, simp)
    have left: "mset (filter ?E vs) = filter_mset ?E (filter_mset ?P ?M)"
      unfolding mset_filter vs ..
    have right: "mset (matchRepo_ListPendingExpired before now s) = filter_mset (pending_expired before now s) (filter_mset ?P ?M)"
      unfolding matchRepo_ListPendingExpired_def mset_filter filter_filter_mset
      by (rule filter_mset_cong) (auto simp: pending_expired_def)
    have sub: "filter_mset ?E (filter_mset ?P ?M) \<subseteq># filter_mset (pending_expired before now s) (filter_mset ?P ?M)"
    proof -
      have "filter_mset ?E (filter_mset ?P ?M) =
          filter_mset ?E (filter_mset (pending_expired before now s) (filter_mset ?P ?M))"
        unfolding filter_filter_mset using expired_by_pending(1) [OF st] by (intro filter_mset_cong) auto
      then show ?thesis by simp
    qed
    have eq: "filter_mset ?E (filter_mset ?P ?M) = filter_mset (pending_expired before now s) (filter_mset ?P ?M)"
      if "\<forall>g. \<nexists>x. ydb_groupRepo_Get Y d g = Inl (YEngine x)"
      unfolding filter_filter_mset using expired_by_pending(2) [OF st] that by (intro filter_mset_cong) auto
    show ?thesis
    proof (intro disjI2 exI conjI impI)
      show "ydb_matchRepo_ListPendingExpired Y d before now = Inr (filter ?E vs)" by (rule res)
      show "mset (filter ?E vs) \<subseteq># mset (matchRepo_ListPendingExpired before now s)"
        unfolding left right by (rule sub)
      show "mset (filter ?E vs) = mset (matchRepo_ListPendingExpired before now s)"
        if "\<forall>g. \<nexists>x. ydb_groupRepo_Get Y d g = Inl (YEngine x)"
        unfolding left right using that by (rule eq)
    qed
  qed
qed

end

end
