(* ===== verification/YdbListings.thy ===== *)
theory YdbListings
  imports YdbReads
begin

text \<open>
  The listings of the production store against those of the in-memory store. A table-service
  query returns at most 1000 rows, so each statement is about results of at most that size.
\<close>

section \<open>Listings in no particular order\<close>

definition lists_agree :: "ydb_error + 'a list \<Rightarrow> 'a list \<Rightarrow> bool" where
  "lists_agree x ys \<longleftrightarrow> (\<exists>z. x = Inl (YEngine z)) \<or> (\<exists>vs. x = Inr vs \<and> mset vs = mset ys)"

lemma lists_agreeI:
  "(\<exists>z. x = Inl (YEngine z)) \<or> (\<exists>vs. x = Inr vs \<and> mset vs = mset ys \<and> P vs) \<Longrightarrow> lists_agree x ys"
  unfolding lists_agree_def by metis

lemma where_tables:
  "where_holds [(''$g'', YUint64 g)] [Eq ''group_id'' (Par ''$g'')] (part_row Y p) \<longleftrightarrow> fst (part_key p) = g"
  "where_holds [(''$g'', YUint64 (fst k)), (''$m'', YUint64 (snd k))] of_match (conf_row Y c) \<longleftrightarrow> for_match k (conf_key c)"
  "where_holds [(''$g'', YUint64 (fst k)), (''$m'', YUint64 (snd k))] of_match (undo_row Y u) \<longleftrightarrow> for_match k (undo_key u)"
  "where_holds ps [] r \<longleftrightarrow> True"
  by (cases k; simp add: where_holds_def of_match_def col_def row_defs cols_defs part_key_def
      for_match_def conf_key_def undo_key_def)+

lemma where_requested:
  "where_holds [(''$cut'', y_ts Y cutoff)] [Less ''requested_at'' (Par ''$cut'')] (undo_row Y u) \<longleftrightarrow>
     uint (y_stamp Y (u_RequestedAt u)) < uint (y_stamp Y cutoff)"
  by (simp add: where_holds_def col_def undo_row_def undoCols_def y_ts_def)

lemma uint_nonneg: "0 \<le> sint w \<Longrightarrow> uint w = sint w" for w :: i64
  using sint_lt [of w] by (simp add: uint_sint take_bit_int_eq_self)

lemma UnixNano_stampable: "stampable t \<Longrightarrow> UnixNano t = t"
  by (simp add: UnixNano_def wrap64_id stampable_def)

context ydb_engine
begin

lemma participants_listed:
  assumes "stored Y (tab d) s" and "length (participantRepo_ListByGroup s g) \<le> 1000"
  shows "lists_agree (ydb_participantRepo_ListByGroup Y d g) (participantRepo_ListByGroup s g)"
proof -
  note mir = stored_tables(1) [OF assms(1)]
  have "mvals_if (\<lambda>k. fst k = g) (participants s) = filter (\<lambda>p. fst (part_key p) = g) (map snd (participants s))"
    using mir by (intro values_with) (simp_all add: mirrors_def)
  then have list: "participantRepo_ListByGroup s g = filter (\<lambda>p. fst (part_key p) = g) (map snd (participants s))"
    by (simp only: participantRepo_ListByGroup_def)
  show ?thesis
    unfolding ydb_participantRepo_ListByGroup_def list
    by (rule lists_agreeI, rule part_table.all_rows_agrees [where T = "tab d", OF mir])
       (rule where_tables(1), simp, use assms(2) list in simp, erule (1) read_answers)
qed

lemma confirmations_listed_ydb:
  assumes "stored Y (tab d) s" and "length (confirmRepo_ListForMatch s k) \<le> 1000"
  shows "lists_agree (ydb_confirmRepo_ListForMatch Y d k) (confirmRepo_ListForMatch s k)"
proof -
  note mir = stored_tables(6) [OF assms(1)]
  have "mvals_if (for_match k) (confirmations s) = filter (\<lambda>c. for_match k (conf_key c)) (map snd (confirmations s))"
    using mir by (intro values_with) (simp_all add: mirrors_def)
  then have list: "confirmRepo_ListForMatch s k = filter (\<lambda>c. for_match k (conf_key c)) (map snd (confirmations s))"
    by (simp only: confirmRepo_ListForMatch_def)
  show ?thesis
    unfolding ydb_confirmRepo_ListForMatch_def list
    by (rule lists_agreeI, rule conf_table.all_rows_agrees [where T = "tab d", OF mir])
       (rule where_tables(2), simp, use assms(2) list in simp, erule (1) read_answers)
qed

lemma undos_listed_ydb:
  assumes "stored Y (tab d) s" and "length (undoRepo_ListForMatch s k) \<le> 1000"
  shows "lists_agree (ydb_undoRepo_ListForMatch Y d k) (undoRepo_ListForMatch s k)"
proof -
  note mir = stored_tables(7) [OF assms(1)]
  have "mvals_if (for_match k) (undos s) = filter (\<lambda>u. for_match k (undo_key u)) (map snd (undos s))"
    using mir by (intro values_with) (simp_all add: mirrors_def)
  then have list: "undoRepo_ListForMatch s k = filter (\<lambda>u. for_match k (undo_key u)) (map snd (undos s))"
    by (simp only: undoRepo_ListForMatch_def)
  show ?thesis
    unfolding ydb_undoRepo_ListForMatch_def list
    by (rule lists_agreeI, rule undo_table.all_rows_agrees [where T = "tab d", OF mir])
       (rule where_tables(3), simp, use assms(2) list in simp, erule (1) read_answers)
qed

text \<open>For a cutoff of whole microseconds; otherwise the boundary moves by less than one.\<close>

lemma expired_undos_listed:
  assumes st: "stored Y (tab d) s" and "length (undoRepo_ListExpired s cutoff) \<le> 1000"
    and "stampable cutoff" and "micros cutoff = cutoff"
  shows "lists_agree (ydb_undoRepo_ListExpired Y d cutoff) (undoRepo_ListExpired s cutoff)"
proof -
  note mir = stored_tables(7) [OF st]
  have "UnixNano (u_RequestedAt u) < cutoff \<longleftrightarrow> uint (y_stamp Y (u_RequestedAt u)) < uint (y_stamp Y cutoff)"
    if "u \<in> set (map snd (undos s))" for u
  proof -
    have "exact Y (u_RequestedAt u)" using undo_table.values_ok [OF mir] that by simp
    then have t: "stampable (u_RequestedAt u)" "micros (u_RequestedAt u) = u_RequestedAt u"
      using time_stamp by (auto simp: exact_def)
    then show ?thesis by (simp add: stamp_less_iff assms(3,4) UnixNano_stampable)
  qed
  then have list: "undoRepo_ListExpired s cutoff =
      filter (\<lambda>u. uint (y_stamp Y (u_RequestedAt u)) < uint (y_stamp Y cutoff)) (map snd (undos s))"
    unfolding undoRepo_ListExpired_def by (intro filter_cong) auto
  show ?thesis
    unfolding ydb_undoRepo_ListExpired_def list
    by (rule lists_agreeI, rule undo_table.all_rows_agrees [where T = "tab d", OF mir])
       (rule where_requested, simp, use assms(2) list in simp, erule (1) read_answers)
qed

lemma groups_listed:
  assumes "stored Y (tab d) s" and "length (groups s) \<le> 1000"
  shows "lists_agree (ydb_groupRepo_List Y d) (groupRepo_List s)"
proof -
  have list: "groupRepo_List s = filter (\<lambda>g. True) (map snd (groups s))" by (simp add: groupRepo_List_def)
  show ?thesis
    unfolding ydb_groupRepo_List_def list
    by (rule lists_agreeI, rule group_table.all_rows_agrees [where T = "tab d", OF stored_tables(4) [OF assms(1)]])
       (rule where_tables(4), simp, use assms(2) in simp, erule (1) read_answers)
qed

lemma admins_listed:
  assumes "stored Y (tab d) s" and "length (admins s) \<le> 1000"
  shows "lists_agree (ydb_adminRepo_List Y d) (adminRepo_List s)"
proof -
  have "lists_agree (ydb_adminRepo_List Y d) (filter (\<lambda>a. True) (map snd (admins s)))"
    unfolding ydb_adminRepo_List_def
    by (rule lists_agreeI, rule admin_table.all_rows_agrees [where T = "tab d", OF stored_tables(2) [OF assms(1)]])
       (rule where_tables(4), simp, use assms(2) in simp, erule (1) read_answers)
  then show ?thesis by (simp add: lists_agree_def adminRepo_List_def)
qed

text \<open>
  The accounts in the order \<open>PickHealthy\<close> relies on. \<open>ORDER BY telegram_id\<close> compares unsigned,
  \<open>sort.Slice\<close> signed; Telegram's user ids are positive.
\<close>

lemma account_order:
  assumes "account_exact Y a" and "account_exact Y b" and "0 \<le> sint (acc_TelegramID a)" and "0 \<le> sint (acc_TelegramID b)"
  shows "row_less [''created_at'', ''telegram_id''] (account_row Y a) (account_row Y b) \<longleftrightarrow> account_less a b"
proof -
  have "stampable (acc_CreatedAt a)" "stampable (acc_CreatedAt b)"
    "micros (acc_CreatedAt a) = acc_CreatedAt a" "micros (acc_CreatedAt b) = acc_CreatedAt b"
    using assms(1,2) time_stamp by (auto simp: account_exact_def exact_def)
  then have "uint (y_stamp Y (acc_CreatedAt a)) < uint (y_stamp Y (acc_CreatedAt b)) \<longleftrightarrow> acc_CreatedAt a < acc_CreatedAt b"
    "uint (y_stamp Y (acc_CreatedAt b)) < uint (y_stamp Y (acc_CreatedAt a)) \<longleftrightarrow> acc_CreatedAt b < acc_CreatedAt a"
    using stamp_less_iff by simp_all
  moreover have "row_less [''created_at'', ''telegram_id''] (account_row Y a) (account_row Y b) \<longleftrightarrow>
      uint (y_stamp Y (acc_CreatedAt a)) < uint (y_stamp Y (acc_CreatedAt b)) \<or>
      \<not> uint (y_stamp Y (acc_CreatedAt b)) < uint (y_stamp Y (acc_CreatedAt a)) \<and>
      uint (acc_TelegramID a) < uint (acc_TelegramID b)"
    by (simp add: lex_less_def account_row_def s21AccountColsSel_def col_def y_ts_def)
  moreover have "uint (acc_TelegramID a) = sint (acc_TelegramID a)" "uint (acc_TelegramID b) = sint (acc_TelegramID b)"
    using assms(3,4) by (simp_all add: uint_nonneg)
  ultimately show ?thesis
    unfolding account_less_def
    by (cases "acc_CreatedAt a" "acc_CreatedAt b" rule: linorder_cases) simp_all
qed

lemma accounts_listed:
  assumes st: "stored Y (tab d) s" and "length (s21Accounts s) \<le> 1000"
    and pos: "\<And>k. mget (s21Accounts s) k \<noteq> None \<Longrightarrow> 0 \<le> sint k"
  shows "(\<exists>x. ydb_s21AccountRepo_List Y d = Inl (YEngine x)) \<or> ydb_s21AccountRepo_List Y d = Inr (s21AccountRepo_List s)"
proof -
  note mir = stored_tables(3) [OF st]
  have list: "s21AccountRepo_List s = sort_by account_less (filter (\<lambda>a. True) (map snd (s21Accounts s)))"
    by (simp add: s21AccountRepo_List_def)
  have nonneg: "0 \<le> sint (acc_TelegramID a)" if "a \<in> snd ` set (s21Accounts s)" for a
    using that mir pos [of "acc_TelegramID a"] stored_value_iff [of "s21Accounts s" acc_TelegramID a]
    by (simp add: mirrors_def)
  have ord: "row_less [''created_at'', ''telegram_id''] (account_row Y a) (account_row Y b) \<longleftrightarrow> account_less a b"
    if "a \<in> snd ` set (s21Accounts s)" "b \<in> snd ` set (s21Accounts s)" for a b
    using that by (intro account_order account_table.values_ok [OF mir] nonneg)
  show ?thesis
    unfolding ydb_s21AccountRepo_List_def list
    by (rule account_table.ordered_rows_agree [where T = "tab d", OF mir])
       (rule where_tables(4), simp, use assms(2) in simp, erule (1) read_answers, rule account_sort.sort_less_axioms,
        erule (1) ord, auto dest: account_less_total)
qed

end

section \<open>What the production store lists\<close>

text \<open>C25. The matches of a group are listed in the production store exactly as in the in-memory
  store with the same contents (by time, then id); the per-player counts are the same; and
  the expired matches it reports are among those of the in-memory store, and all of them when
  no look-up of a group fails.\<close>

theorem ydb_match_listings:
  assumes "ydb_engine Y tab" and "stored Y (tab d) s" and "length (matchRepo_ListByGroup s g) \<le> 1000"
    and "length (filter (\<lambda>m. m_Status m = MatchStatusPending) (map snd (matches s))) \<le> 1000"
  shows "((\<exists>x. ydb_matchRepo_ListByGroup Y d g = Inl (YEngine x)) \<or>
      ydb_matchRepo_ListByGroup Y d g = Inr (matchRepo_ListByGroup s g)) \<and>
    ((\<exists>x. ydb_matchRepo_CountsByPlayer Y d g = Inl (YEngine x)) \<or>
      (\<exists>c. ydb_matchRepo_CountsByPlayer Y d g = Inr c \<and> mget c = mget (matchRepo_CountsByPlayer s g))) \<and>
    ((\<exists>x. ydb_matchRepo_ListPendingExpired Y d before now = Inl (YEngine x)) \<or>
      (\<exists>vs. ydb_matchRepo_ListPendingExpired Y d before now = Inr vs \<and>
        mset vs \<subseteq># mset (matchRepo_ListPendingExpired before now s) \<and>
        ((\<forall>g. \<nexists>x. ydb_groupRepo_Get Y d g = Inl (YEngine x)) \<longrightarrow>
          mset vs = mset (matchRepo_ListPendingExpired before now s))))"
  by (intro conjI ydb_engine.ListByGroup_agrees [OF assms(1-3)] ydb_engine.CountsByPlayer_agrees [OF assms(1-3)]
      ydb_engine.ListPendingExpired_agrees [OF assms(1,2,4)])

text \<open>C26. The other listings of the production store (participants of a group, confirmations and
  undo commands of a match, expired undo commands, groups, legacy administrators) hold the
  same rows as those of the in-memory store, and the accounts come in the same order, oldest
  first, which the choice of a healthy account relies on.\<close>

theorem ydb_listings:
  assumes "ydb_engine Y tab" and "stored Y (tab d) s"
    and "length (participants s) \<le> 1000" "length (confirmations s) \<le> 1000" "length (undos s) \<le> 1000"
      "length (groups s) \<le> 1000" "length (admins s) \<le> 1000" "length (s21Accounts s) \<le> 1000"
    and "stampable cutoff" and "micros cutoff = cutoff"
    and "\<And>k. mget (s21Accounts s) k \<noteq> None \<Longrightarrow> 0 \<le> sint k"
  shows "lists_agree (ydb_participantRepo_ListByGroup Y d g) (participantRepo_ListByGroup s g) \<and>
    lists_agree (ydb_confirmRepo_ListForMatch Y d k) (confirmRepo_ListForMatch s k) \<and>
    lists_agree (ydb_undoRepo_ListForMatch Y d k) (undoRepo_ListForMatch s k) \<and>
    lists_agree (ydb_undoRepo_ListExpired Y d cutoff) (undoRepo_ListExpired s cutoff) \<and>
    lists_agree (ydb_groupRepo_List Y d) (groupRepo_List s) \<and>
    lists_agree (ydb_adminRepo_List Y d) (adminRepo_List s) \<and>
    ((\<exists>x. ydb_s21AccountRepo_List Y d = Inl (YEngine x)) \<or> ydb_s21AccountRepo_List Y d = Inr (s21AccountRepo_List s))"
proof -
  have part: "length (mvals_if p m) \<le> 1000" if "length m \<le> 1000" for p and m :: "('k, 'v) gomap"
    unfolding mvals_if_def length_map by (rule order_trans [OF length_filter_le that])
  have some: "length (filter P xs) \<le> 1000" if "length xs \<le> 1000" for P and xs :: "'v list"
    by (rule order_trans [OF length_filter_le that])
  show ?thesis
    by (intro conjI ydb_engine.participants_listed [OF assms(1,2)] ydb_engine.confirmations_listed_ydb [OF assms(1,2)]
        ydb_engine.undos_listed_ydb [OF assms(1,2)] ydb_engine.expired_undos_listed [OF assms(1,2) _ assms(9,10)]
        ydb_engine.groups_listed [OF assms(1,2)] ydb_engine.admins_listed [OF assms(1,2)]
        ydb_engine.accounts_listed [OF assms(1,2)] assms(3-8,11))
       (simp_all add: participantRepo_ListByGroup_def confirmRepo_ListForMatch_def undoRepo_ListForMatch_def
          undoRepo_ListExpired_def part some assms(3-5))
qed

section \<open>Examples\<close>

lemma scan_all_never: "(\<And>r. sc r \<noteq> Inl (YEngine x)) \<Longrightarrow> scan_all sc rows \<noteq> Inl (YEngine x)"
  by (induction rows) (auto split: sum.splits)

theorem ydb_match_listings_witness:
  "ydb_matchRepo_ListByGroup reference_engine example_tables 7 = Inr [example_row\<lparr>m_MatchID := 1\<rparr>]"
proof -
  have list: "matchRepo_ListByGroup example_kept 7 = [example_row\<lparr>m_MatchID := 1\<rparr>]"
    by (simp add: matchRepo_ListByGroup_def example_kept_def mvals_if_def)
  have small: "length (matchRepo_ListByGroup example_kept 7) \<le> 1000"
    "length (filter (\<lambda>m. m_Status m = MatchStatusPending) (map snd (matches example_kept))) \<le> 1000"
    unfolding list by (simp_all add: example_kept_def)
  have "\<nexists>x. ydb_matchRepo_ListByGroup reference_engine example_tables 7 = Inl (YEngine x)"
    by (simp add: ydb_matchRepo_ListByGroup_def all_rows_def reference_engine_def scan_all_never [OF scanMatch_never_engine])
  with ydb_match_listings [where tab = "\<lambda>T. T", OF reference.ydb_engine_axioms example_stored small]
  show ?thesis unfolding list by blast
qed

definition example_account :: S21Account where
  "example_account = \<lparr>acc_TelegramID = 5, acc_S21Login = ''alice'', acc_S21CredsEncrypted = ''x'', acc_CampusID = '''',
     acc_CampusName = '''', acc_CreatedAt = 2000, acc_UpdatedAt = 3000, acc_LastUsedAt = None,
     acc_S21CredsFailedAt = None, acc_S21CredsLastWarnedAt = None\<rparr>"

definition account_tables :: tables where
  "account_tables = snd (ydb_do reference_engine 0 (PutAccount example_account) (\<lambda>t. []))"

lemma account_stored: "stored reference_engine account_tables (memstore_New\<lparr>s21Accounts := [(5, example_account)]\<rparr>)"
proof -
  have same: "account_micros (account_defaults 0 example_account) = example_account"
    by (simp add: account_micros_def account_defaults_def example_account_def micros_def IsZero_def zero_time_def)
  have ok: "fst (ydb_do reference_engine 0 (PutAccount example_account) (\<lambda>t. [])) = None"
    by (simp add: ydb_s21AccountRepo_Upsert_def Let_def doTx1_def reference_engine_def)
  have "\<forall>t \<in> op_times 0 (PutAccount example_account). stampable t"
    by (simp add: Let_def account_defaults_def example_account_def IsZero_def zero_time_def stampable_def)
  note run = reference.write_refines [where d = "\<lambda>t. []", OF stored_New this _ prod.collapse [symmetric]]
  have "acc_TelegramID example_account = 5" by (simp add: example_account_def)
  then have "mem_do (micros 0) (op_kept 0 (PutAccount example_account)) memstore_New =
      memstore_New\<lparr>s21Accounts := [(5, example_account)]\<rparr>"
    by (simp add: same s21AccountRepo_Upsert_def memstore_New_def)
  with run ok show ?thesis by (simp add: account_tables_def del: ydb_do.simps op_kept.simps mem_do.simps)
qed

theorem ydb_listings_witness:
  "ydb_s21AccountRepo_List reference_engine account_tables = Inr [example_account]"
proof -
  let ?s = "memstore_New\<lparr>s21Accounts := [(5, example_account)]\<rparr>"
  have "scanS21Account reference_engine r \<noteq> Inl (YEngine x)" for r x
    by (auto simp: scanS21Account_def dest!: scan_never_engine)
  then have "\<nexists>x. ydb_s21AccountRepo_List reference_engine account_tables = Inl (YEngine x)"
    by (simp add: ydb_s21AccountRepo_List_def all_rows_def reference_engine_def scan_all_never)
  moreover have "stampable 0" "micros 0 = 0" by (simp_all add: stampable_def micros_def)
  moreover have "0 \<le> sint k" if "mget (s21Accounts ?s) k \<noteq> None" for k
    using that by (simp split: if_splits)
  moreover have "length (participants ?s) \<le> 1000" "length (confirmations ?s) \<le> 1000" "length (undos ?s) \<le> 1000"
    "length (groups ?s) \<le> 1000" "length (admins ?s) \<le> 1000" "length (s21Accounts ?s) \<le> 1000"
    by (simp_all add: memstore_New_def)
  moreover have "s21AccountRepo_List ?s = [example_account]" by (simp add: s21AccountRepo_List_def)
  ultimately show ?thesis
    using ydb_listings [where tab = "\<lambda>T. T" and s = ?s and cutoff = 0, OF reference.ydb_engine_axioms account_stored]
    by metis
qed

end
