(* ===== verification/NickLevels.thy ===== *)
theory NickLevels
  imports Standings
begin

text \<open>
  The levels of the nickname look-up (\<open>lookupS21Nickname\<close>): the in-memory cache never
  contradicts the rows of the store, and while the rows of the players are fresh the matches
  that count are decided by the rows alone.
\<close>

section \<open>Agreement of the two caches\<close>

definition row_answer :: "world \<Rightarrow> i64 \<Rightarrow> (string \<times> bool) option" where
  "row_answer w p = map_option (\<lambda>r. nick_answer (of_entry r)) (mget (nickCache (st w)) p)"

definition levels_agree :: "world \<Rightarrow> bool" where
  "levels_agree w \<longleftrightarrow> (\<forall>p x. mget (nc_entries (nicks w)) p = Some x \<longrightarrow> row_answer w p = Some (nick_answer (ne_user x)))"

lemma evictLocked_sub: "mget (nc_entries (evictLocked c)) p = Some x \<Longrightarrow> mget (nc_entries c) p = Some x"
proof (induction c rule: evictLocked.induct)
  case (1 c)
  show ?case
  proof (cases "nc_maxEntries c < length (nc_entries c) \<and> nc_lru c \<noteq> []")
    case True
    then have "evictLocked c = evictLocked (c\<lparr>nc_lru := butlast (nc_lru c), nc_entries := mdel (last (nc_lru c)) (nc_entries c)\<rparr>)"
      by (subst evictLocked.simps) simp
    then show ?thesis using 1 True by (auto split: if_splits)
  next
    case False
    then have "evictLocked c = c" by (subst evictLocked.simps) (simp only: if_False)
    then show ?thesis using 1(2) by simp
  qed
qed

lemma nick_Get_sub:
  "mget (nc_entries (snd (nick_Get now q c))) p = Some x \<Longrightarrow> mget (nc_entries c) p = Some x"
  by (auto simp: nick_Get_def split: option.splits if_splits)

lemma nick_Get_hit: "fst (nick_Get now p c) = Some u \<Longrightarrow> \<exists>x. mget (nc_entries c) p = Some x \<and> u = ne_user x"
  by (auto simp: nick_Get_def split: option.splits if_splits)

lemma nick_Put_sub:
  "mget (nc_entries (nick_Put now q u c)) p = Some x \<Longrightarrow>
     (if p = q then ne_user x = u else mget (nc_entries c) p = Some x)"
  by (auto simp: nick_Put_def dest!: evictLocked_sub split: option.splits if_splits)

lemma row_answer_nicks [simp]: "row_answer (w\<lparr>nicks := c\<rparr>) p = row_answer w p"
  by (simp add: row_answer_def)

lemma levels_agree_Get:
  "levels_agree w \<Longrightarrow> levels_agree (w\<lparr>nicks := snd (nick_Get now q (nicks w))\<rparr>)"
  by (simp add: levels_agree_def) (meson nick_Get_sub)

lemma levels_agree_Put:
  assumes "levels_agree w" and "row_answer w q = Some (nick_answer u)"
  shows "levels_agree (w\<lparr>nicks := nick_Put now q u (nicks w)\<rparr>)"
  unfolding levels_agree_def
proof (intro allI impI)
  fix p x
  assume "mget (nc_entries (nicks (w\<lparr>nicks := nick_Put now q u (nicks w)\<rparr>))) p = Some x"
  then have "if p = q then ne_user x = u else mget (nc_entries (nicks w)) p = Some x"
    using nick_Put_sub [of now q u "nicks w" p x] by simp
  then show "row_answer (w\<lparr>nicks := nick_Put now q u (nicks w)\<rparr>) p = Some (nick_answer (ne_user x))"
    using assms by (auto simp: levels_agree_def split: if_splits)
qed

lemma withIdentity_levels [simp]:
  "nickCache (st (snd (withIdentity e fn w))) = nickCache (st w)" "nicks (snd (withIdentity e fn w)) = nicks w"
  by (simp_all add: withIdentity_def case_prod_beta Let_def)

lemma lookupRemote_levels:
  assumes "levels_agree w"
  shows "levels_agree (snd (lookupRemote e p w))"
proof -
  obtain r w1 where r: "withIdentity e (\<lambda>svc. case fst (GetByTelegram p svc) of Inl err \<Rightarrow> Inl err | Inr u \<Rightarrow> Inr [u]) w = (r, w1)"
    by fastforce
  then have w1: "nickCache (st w1) = nickCache (st w)" "nicks w1 = nicks w"
    using withIdentity_levels [of e _ w] by (metis snd_conv)+
  then have a1: "levels_agree w1" using assms by (simp add: levels_agree_def row_answer_def)
  have "levels_agree (upd_st (nickCacheRepo_Upsert (nick_entry (e_now e) p got)) (w1\<lparr>nicks := nick_Put (e_now e) p got (nicks w1)\<rparr>))" for got
  proof -
    let ?w2 = "upd_st (nickCacheRepo_Upsert (nick_entry (e_now e) p got)) w1"
    let ?w3 = "?w2\<lparr>nicks := nick_Put (e_now e) p got (nicks w1)\<rparr>"
    have row: "row_answer ?w2 q = (if q = p then Some (nick_answer got) else row_answer w1 q)" for q
      by (simp add: row_answer_def nickCacheRepo_Upsert_def nick_entry_def nick_answer_def of_entry_def)
    have "row_answer ?w3 q = Some (nick_answer (ne_user x))" if "mget (nc_entries (nicks ?w3)) q = Some x" for q x
    proof -
      have "if q = p then ne_user x = got else mget (nc_entries (nicks w1)) q = Some x"
        using that nick_Put_sub [of "e_now e" p got "nicks w1" q x] by simp
      then show ?thesis using row a1 by (auto simp: levels_agree_def split: if_splits)
    qed
    then have "levels_agree ?w3" by (simp add: levels_agree_def)
    moreover have "upd_st (nickCacheRepo_Upsert (nick_entry (e_now e) p got)) (w1\<lparr>nicks := nick_Put (e_now e) p got (nicks w1)\<rparr>) = ?w3"
      by (simp add: upd_st_def)
    ultimately show ?thesis by argo
  qed
  then show ?thesis using a1 by (simp add: lookupRemote_def r split: sum.splits list.splits)
qed

lemma lookupS21Nickname_levels:
  assumes "levels_agree w"
  shows "levels_agree (snd (lookupS21Nickname e p w))"
proof -
  let ?w1 = "w\<lparr>nicks := snd (nick_Get (e_now e) p (nicks w))\<rparr>"
  have a1: "levels_agree ?w1" by (rule levels_agree_Get [OF assms])
  have "levels_agree (?w1\<lparr>nicks := nick_Put (e_now e) p (of_entry row) (nicks ?w1)\<rparr>)"
    if "nickCacheRepo_Get (st w) p = Inr row" for row
    using that by (intro levels_agree_Put a1) (simp add: row_answer_def nickCacheRepo_Get_def get_or_def split: option.splits)
  then show ?thesis
    using a1 lookupRemote_levels [OF a1]
    by (simp add: lookupS21Nickname_def case_prod_beta Let_def split: option.splits sum.splits)
qed

text \<open>A nickname that is reported is the one of the row.\<close>

lemma lookupRemote_row:
  "snd (fst (lookupRemote e p w)) \<Longrightarrow> row_answer (snd (lookupRemote e p w)) p = Some (fst (lookupRemote e p w))"
  by (auto simp: lookupRemote_def case_prod_beta Let_def row_answer_def nickCacheRepo_Upsert_def nick_entry_def
      nick_answer_def of_entry_def split: sum.splits list.splits)

lemma reported_is_row:
  assumes "levels_agree w" and "snd (fst (lookupS21Nickname e p w))"
  shows "row_answer (snd (lookupS21Nickname e p w)) p = Some (fst (lookupS21Nickname e p w))"
proof -
  let ?w1 = "w\<lparr>nicks := snd (nick_Get (e_now e) p (nicks w))\<rparr>"
  have hit: "row_answer w p = Some (nick_answer u)" if "fst (nick_Get (e_now e) p (nicks w)) = Some u" for u
    using nick_Get_hit [OF that] assms(1) by (auto simp: levels_agree_def)
  have row: "row_answer w p = Some (nick_answer (of_entry r))" if "nickCacheRepo_Get (st w) p = Inr r" for r
    using that by (simp add: row_answer_def nickCacheRepo_Get_def get_or_def split: option.splits)
  show ?thesis
    using hit row lookupRemote_row [of e p ?w1] assms(2)
    by (simp add: lookupS21Nickname_def case_prod_beta Let_def split: option.splits sum.splits if_splits)
qed

section \<open>Fresh rows decide\<close>

definition fresh_row :: "env \<Rightarrow> world \<Rightarrow> i64 \<Rightarrow> bool" where
  "fresh_row e w p \<longleftrightarrow> (case mget (nickCache (st w)) p of None \<Rightarrow> False
     | Some r \<Rightarrow> time_Sub (e_now e) (n_CachedAt r) \<le> s21NickDurableTTL)"

text \<open>With a fresh row the answer is the row's, nothing outside is asked and the store stays.\<close>

lemma lookup_fresh:
  assumes "levels_agree w" and "fresh_row e w p"
  shows "Some (fst (lookupS21Nickname e p w)) = row_answer w p" and "st (snd (lookupS21Nickname e p w)) = st w"
    and "rounds (snd (lookupS21Nickname e p w)) = rounds w"
proof -
  obtain row where row: "mget (nickCache (st w)) p = Some row" "time_Sub (e_now e) (n_CachedAt row) \<le> s21NickDurableTTL"
    using assms(2) by (auto simp: fresh_row_def split: option.splits)
  have hit: "row_answer w p = Some (nick_answer u)" if "fst (nick_Get (e_now e) p (nicks w)) = Some u" for u
    using nick_Get_hit [OF that] assms(1) by (auto simp: levels_agree_def)
  show "Some (fst (lookupS21Nickname e p w)) = row_answer w p"
    using row hit by (auto simp: lookupS21Nickname_def case_prod_beta Let_def nickCacheRepo_Get_def get_or_def row_answer_def
        split: option.split)
  show "st (snd (lookupS21Nickname e p w)) = st w" "rounds (snd (lookupS21Nickname e p w)) = rounds w"
    using row by (simp_all add: lookupS21Nickname_def case_prod_beta Let_def nickCacheRepo_Get_def get_or_def split: option.split)
qed

definition row_nicknamed :: "world \<Rightarrow> i64 \<Rightarrow> bool" where
  "row_nicknamed w p \<longleftrightarrow> (case row_answer w p of None \<Rightarrow> False | Some a \<Rightarrow> snd a)"

lemma nicknames_for_fresh:
  assumes "levels_agree w" and "\<forall>p \<in> set ps. fresh_row e w p" and "\<forall>p. mget seen p \<in> {None, Some (row_nicknamed w p)}"
  shows "\<forall>p. mget (fst (nicknames_for e ps seen w)) p \<in> {None, Some (row_nicknamed w p)}"
  using assms
proof (induction e ps seen w rule: nicknames_for.induct)
  case (2 e q ps seen w)
  show ?case
  proof (cases "mget seen q")
    case None
    obtain has w1 where h: "hasNickname e q w = (has, w1)" by fastforce
    have l: "snd (lookupS21Nickname e q w) = w1" "snd (fst (lookupS21Nickname e q w)) = has"
      using h by (auto simp: hasNickname_def case_prod_beta)
    have q: "fresh_row e w q" using 2(4) by simp
    have "st w1 = st w" and w1: "levels_agree w1"
      using lookup_fresh(2) [OF 2(3) q] lookupS21Nickname_levels [OF 2(3), of e q] l by simp_all
    then have same: "row_nicknamed w1 p = row_nicknamed w p" "fresh_row e w1 p = fresh_row e w p" for p
      by (simp_all add: row_nicknamed_def row_answer_def fresh_row_def)
    have "has = row_nicknamed w q"
      using lookup_fresh(1) [OF 2(3) q, symmetric] l(2) by (simp add: row_nicknamed_def)
    then have "\<forall>p. mget (mput q has seen) p \<in> {None, Some (row_nicknamed w1 p)}"
      using 2(5) by (simp add: same)
    then show ?thesis using 2(2) [OF _ h [symmetric] refl w1] 2(4) None h by (simp add: same)
  next
    case (Some b)
    then show ?thesis using 2(1,3-5) by simp
  qed
qed simp

section \<open>Properties\<close>


definition named_world :: world where
  "named_world = upd_st (nickCacheRepo_Upsert (nick_entry (1000 * hour) 2 (zero_IdentityUser\<lparr>iu_Nickname := ''bob'', iu_Found := True\<rparr>)))
     example_world"


end
