(* ===== verification/Leaderboard.thy ===== *)
theory Leaderboard
  imports NickLevels
begin

text \<open>
  What the leaderboards of the stats topic say: one line for each of the first hundred players
  of the matches that count, best rating first, with the counters of the group's history.
\<close>

section \<open>The matches that count and their players\<close>

definition counted :: "env \<Rightarrow> Group \<Rightarrow> world \<Rightarrow> Match list" where
  "counted e g w =
     (let ms = matchRepo_ListByGroup (st w) (g_GroupID g)
      in filter (counts_in (fst (nicknames_for e (concat (map (\<lambda>m. [m_Player1ID m, m_Player2ID m]) ms)) [] w))) ms)"

definition players_in :: "Match list \<Rightarrow> i64 set" where
  "players_in ms = {p. \<exists>m \<in> set ms. p = m_Player1ID m \<or> p = m_Player2ID m}"

lemma ratingMatches_counted: "fst (ratingMatches e g w) = map rating_input (counted e g w)"
  by (simp add: ratingMatches_def counted_def Let_def case_prod_beta)

text \<open>Nobody is asked for twice: the answer kept is that of the first look-up.\<close>

lemma nicknames_for_keeps: "mget seen p \<noteq> None \<Longrightarrow> mget (fst (nicknames_for e ps seen w)) p = mget seen p"
proof (induction e ps seen w rule: nicknames_for.induct)
  case (2 e q ps seen w)
  show ?case
  proof (cases "mget seen q")
    case None
    obtain has w1 where h: "hasNickname e q w = (has, w1)" by fastforce
    have "p \<noteq> q" using None 2(3) by auto
    then show ?thesis using 2(2) [OF _ h [symmetric] refl] None h 2(3) by simp
  next
    case (Some b)
    then show ?thesis using 2(1,3) by simp
  qed
qed simp

lemma nicknames_for_dom:
  "mget (fst (nicknames_for e ps seen w)) p \<noteq> None \<longleftrightarrow> mget seen p \<noteq> None \<or> p \<in> set ps"
proof (induction e ps seen w rule: nicknames_for.induct)
  case (2 e q ps seen w)
  show ?case
  proof (cases "mget seen q")
    case None
    obtain has w1 where h: "hasNickname e q w = (has, w1)" by fastforce
    then show ?thesis using 2(2) [OF _ h [symmetric] refl] None by auto
  next
    case (Some b)
    then show ?thesis using 2(1) by auto
  qed
qed simp

lemma plays_rating_input: "plays (fmt_i64 p) (rating_input m) \<longleftrightarrow> p = m_Player1ID m \<or> p = m_Player2ID m"
  by (simp add: plays_def rating_input_def)

lemma plays_is_player:
  assumes "plays s (rating_input m)"
  shows "fmt_i64 (player_of_id s) = s"
  using assms ParseInt_fmt_i64 [of "m_Player1ID m"] ParseInt_fmt_i64 [of "m_Player2ID m"]
  by (auto simp: plays_def rating_input_def player_of_id_def)

lemma player_of_fmt_i64 [simp]: "player_of_id (fmt_i64 p) = p"
  using ParseInt_fmt_i64 [of p] by (auto simp: player_of_id_def)

section \<open>The table behind a leaderboard\<close>

definition standing_less :: "i64 \<times> Rating \<Rightarrow> i64 \<times> Rating \<Rightarrow> bool" where
  "standing_less = (\<lambda>(p, r) (q, s). f_lt (rt_Rating s) (rt_Rating r)
     \<or> f_eq (rt_Rating r) (rt_Rating s) \<and> fmt_i64 p < fmt_i64 q)"

definition table_of :: "PlayerRatings \<Rightarrow> (i64 \<times> Rating) list" where
  "table_of pr = map (\<lambda>pid. (player_of_id pid, rating_at pr pid)) (Sorted pr)"

text \<open>What the engines promise, for the table: the ids are those of the players, the counters
  those of the chronological history.\<close>

definition chronological :: "RMatch list \<Rightarrow> RMatch list" where
  "chronological ms = sort_by (\<lambda>a b. rm_PlayedAt a < rm_PlayedAt b) ms"

lemma engine_Compute_facts:
  assumes "engine_Compute L eng ms = Some (Inr pr)"
  shows "wf_map pr" and "p \<in> fst ` set pr \<longleftrightarrow> (\<exists>m \<in> set ms. plays p m)"
    and "mget pr p = Some r \<Longrightarrow> rating_tally r = tally p (chronological ms)"
proof -
  have s: "s = chronological ms" if "validateAndSort ms = Inr s" for s
    using that by (simp add: validateAndSort_def chronological_def split: option.splits)
  have "wf_map pr \<and> (p \<in> fst ` set pr \<longleftrightarrow> (\<exists>m \<in> set ms. plays p m)) \<and>
      (mget pr p = Some r \<longrightarrow> rating_tally r = tally p (chronological ms))"
  proof (cases eng)
    case ELO
    then have c: "Some (ELO_Compute L ms) = Some (Inr pr)" using assms by simp
    from elo.compute_valid [OF c] s have "validateAndSort ms = Inr (chronological ms)" by auto
    then show ?thesis
      using elo.compute_wf [OF c] elo.compute_players [OF c] elo.compute_tally [OF c] by blast
  next
    case (Glicko2 d)
    then have c: "Glicko2_Compute L d ms = Some (Inr pr)" using assms by simp
    from glicko.compute_valid [OF c] s have "validateAndSort ms = Inr (chronological ms)" by auto
    then show ?thesis
      using glicko.compute_wf [OF c] glicko.compute_players [OF c] glicko.compute_tally [OF c] by blast
  qed
  then show "wf_map pr" "p \<in> fst ` set pr \<longleftrightarrow> (\<exists>m \<in> set ms. plays p m)"
    "mget pr p = Some r \<Longrightarrow> rating_tally r = tally p (chronological ms)" by blast+
qed

lemma table_facts:
  assumes c: "engine_Compute L eng (map rating_input ms) = Some (Inr pr)"
  shows "distinct (map fst (table_of pr))" and "set (map fst (table_of pr)) = players_in ms"
    and "\<forall>(p, r) \<in> set (table_of pr).
      mget pr (fmt_i64 p) = Some r \<and> rating_tally r = tally (fmt_i64 p) (chronological (map rating_input ms))"
    and "no_nan pr \<Longrightarrow> sorted_wrt standing_less (table_of pr)"
proof -
  note f = engine_Compute_facts [OF c]
  have ids: "fmt_i64 (player_of_id s) = s" if "s \<in> fst ` set pr" for s
    using that f(2) plays_is_player by auto
  have set_S: "set (Sorted pr) = fst ` set pr" by (simp add: Sorted_def)
  have dist: "distinct (Sorted pr)" using f(1) by (simp add: Sorted_def wf_map_def)
  have inj: "inj_on player_of_id (set (Sorted pr))" unfolding set_S by (rule inj_on_inverseI) (rule ids)
  show "distinct (map fst (table_of pr))" using dist inj by (simp add: table_of_def distinct_map comp_def)
  have "p \<in> player_of_id ` fst ` set pr \<longleftrightarrow> p \<in> players_in ms" for p
  proof
    assume "p \<in> player_of_id ` fst ` set pr"
    then have "fmt_i64 p \<in> fst ` set pr" using ids by auto
    then show "p \<in> players_in ms" using f(2) [of "fmt_i64 p"] by (auto simp: plays_rating_input players_in_def)
  next
    assume "p \<in> players_in ms"
    then have "fmt_i64 p \<in> fst ` set pr" using f(2) [of "fmt_i64 p"] by (auto simp: plays_rating_input players_in_def)
    then show "p \<in> player_of_id ` fst ` set pr" by (rule rev_image_eqI) simp
  qed
  then show "set (map fst (table_of pr)) = players_in ms" by (auto simp: table_of_def set_S)
  show "\<forall>(p, r) \<in> set (table_of pr).
      mget pr (fmt_i64 p) = Some r \<and> rating_tally r = tally (fmt_i64 p) (chronological (map rating_input ms))"
  proof
    fix x
    assume "x \<in> set (table_of pr)"
    then obtain s where x: "x = (player_of_id s, rating_at pr s)" and "s \<in> fst ` set pr"
      by (auto simp: table_of_def set_S)
    then obtain r where "(s, r) \<in> set pr" and s: "fmt_i64 (player_of_id s) = s" using ids by fastforce
    then have "mget pr s = Some r" using f(1) by (simp add: wf_map_get_iff)
    then show "case x of (p, r) \<Rightarrow> mget pr (fmt_i64 p) = Some r
        \<and> rating_tally r = tally (fmt_i64 p) (chronological (map rating_input ms))"
      using f(3) [of s r] by (simp add: x s rating_at_def)
  qed
  assume n: "no_nan pr"
  have at: "rt_Rating (rating_at pr s) = rating_of pr s" for s
    by (simp add: rating_at_def rating_of_def zero_Rating_def split: option.split)
  have "sorted_wrt (\<lambda>a b. f_lt (rating_of pr b) (rating_of pr a) \<or> f_eq (rating_of pr a) (rating_of pr b) \<and> a < b) (Sorted pr)"
    using Sorted_correct [OF f(1) n] by blast
  then show "sorted_wrt standing_less (table_of pr)"
    unfolding table_of_def sorted_wrt_map standing_less_def
    by (rule sorted_wrt_mono_rel [rotated]) (use ids set_S at in auto)
qed

section \<open>The lines\<close>

definition username_in :: "world \<Rightarrow> i64 \<Rightarrow> i64 \<Rightarrow> string" where
  "username_in w gid p = (case participantRepo_Get (st w) (gid, p) of Inr x \<Rightarrow> p_TelegramUsername x | Inl _ \<Rightarrow> [])"

definition shows_player :: "world \<Rightarrow> i64 \<Rightarrow> i64 \<Rightarrow> string \<Rightarrow> bool" where
  "shows_player w gid p d \<longleftrightarrow> (\<exists>nick. d = label_of nick (username_in w gid p) p)"

lemma username_in_quiet: "quiet w w' \<Longrightarrow> username_in w' gid p = username_in w gid p"
  by (simp add: username_in_def participantRepo_Get_def quietD(1))

lemma playerLabel_shows: "shows_player w gid p (fst (playerLabel e gid p w))"
  using username_in_quiet [OF lookupS21Nickname_quiet, of e p w gid p]
  by (auto simp: shows_player_def playerLabel_def username_in_def case_prod_beta Let_def)

lemma ranking_lines_board:
  "\<exists>ds. length ds = length ids \<and> list_all2 (\<lambda>pid d. shows_player w gid (player_of_id pid) d) ids ds \<and>
     fst (ranking_lines e gid pr i ids w)
       = concat (map (\<lambda>(k, d, r). ranking_line k d r) (enumerate i (zip ds (map (rating_at pr) ids))))"
proof (induction ids arbitrary: i w)
  case (Cons pid ids)
  obtain d w1 where d: "playerLabel e gid (player_of_id pid) w = (d, w1)" by fastforce
  have "quiet w w1" using playerLabel_quiet [of w e gid "player_of_id pid"] d by simp
  then have same: "shows_player w1 gid p x = shows_player w gid p x" for p x
    by (simp add: shows_player_def username_in_quiet)
  have hd: "shows_player w gid (player_of_id pid) d" using playerLabel_shows [of w gid "player_of_id pid" e] d by simp
  obtain ds where "length ds = length ids" "list_all2 (\<lambda>pid d. shows_player w gid (player_of_id pid) d) ids ds"
    "fst (ranking_lines e gid pr (Suc i) ids w1)
       = concat (map (\<lambda>(k, d, r). ranking_line k d r) (enumerate (Suc i) (zip ds (map (rating_at pr) ids))))"
    using Cons.IH [of w1 "Suc i"] unfolding same by blast
  moreover obtain rest w2 where "ranking_lines e gid pr (Suc i) ids w1 = (rest, w2)" by fastforce
  ultimately show ?case using d hd by (intro exI [of _ "d # ds"]) simp
qed simp

text \<open>The text of a leaderboard over a table, and the labels of its lines.\<close>

definition board_text :: "string \<Rightarrow> string list \<Rightarrow> (i64 \<times> Rating) list \<Rightarrow> string" where
  "board_text label ds table =
     (if table = [] then label @ nl @ nl @ ''No matches counted yet. Once two players with S21 nicknames play and approve a match, this list updates automatically.''
      else TrimRightNl (label @ nl @ concat (map (\<lambda>(k, d, r). ranking_line k d r) (enumerate 0 (zip ds (map snd table))))))"

lemma renderRankings_board:
  assumes c: "computeRatingsFor e g eng w = (Some (Inr pr), w1)"
  shows "\<exists>ds. list_all2 (\<lambda>(p, r) d. shows_player w (g_GroupID g) p d) (take MaxRankings (table_of pr)) ds \<and>
    fst (renderRankings e g eng label w) = Inr (board_text label ds (take MaxRankings (table_of pr)))"
proof (cases "pr = []")
  case True
  then show ?thesis by (intro exI [of _ "[]"]) (simp add: renderRankings_def c board_text_def table_of_def Sorted_def)
next
  case False
  have "set (Sorted pr) = fst ` set pr" by (simp add: Sorted_def)
  then have "Sorted pr \<noteq> []" using False by (metis image_is_empty set_empty)
  then have ne: "take MaxRankings (table_of pr) \<noteq> []" by (simp add: table_of_def MaxRankings_def)
  have "quiet w w1" using computeRatingsFor_quiet [of w e g eng] c by simp
  then have same: "shows_player w1 gid p x = shows_player w gid p x" for gid p x
    by (simp add: shows_player_def username_in_quiet)
  let ?ids = "take MaxRankings (Sorted pr)"
  obtain ds where "list_all2 (\<lambda>pid d. shows_player w (g_GroupID g) (player_of_id pid) d) ?ids ds"
    and "fst (ranking_lines e (g_GroupID g) pr 0 ?ids w1)
       = concat (map (\<lambda>(k, d, r). ranking_line k d r) (enumerate 0 (zip ds (map (rating_at pr) ?ids))))"
    using ranking_lines_board [of ?ids w1 "g_GroupID g" e pr 0] unfolding same by blast
  moreover obtain body w2 where b: "ranking_lines e (g_GroupID g) pr 0 ?ids w1 = (body, w2)" by fastforce
  moreover have "fst (renderRankings e g eng label w) = Inr (TrimRightNl (label @ nl @ body))"
    using False by (simp add: renderRankings_def c b)
  moreover have "map snd (take MaxRankings (table_of pr)) = map (rating_at pr) ?ids"
    by (simp add: table_of_def take_map)
  ultimately show ?thesis
    using ne by (intro exI [of _ ds]) (simp add: board_text_def, simp add: table_of_def take_map list_all2_map1)
qed

section \<open>Properties\<close>

definition nicknamed :: "env \<Rightarrow> Group \<Rightarrow> world \<Rightarrow> (i64, bool) gomap" where
  "nicknamed e g w =
     fst (nicknames_for e (concat (map (\<lambda>m. [m_Player1ID m, m_Player2ID m]) (matchRepo_ListByGroup (st w) (g_GroupID g)))) [] w)"

lemma counted_nicknamed:
  "counted e g w = filter (counts_in (nicknamed e g w)) (matchRepo_ListByGroup (st w) (g_GroupID g))"
  by (simp add: counted_def nicknamed_def Let_def)

lemma engine_ratings_numbers:
  assumes "engine_Compute L ELO ms = Some (Inr pr)" and "pow10_ok L" and "length ms \<le> 2 ^ 46"
  shows "no_nan pr"
  using ELO_Compute_bounded(2) [OF assms(2,3), of pr] assms(1) by simp

lemma table_numbers:
  assumes "engine_Compute L eng (map rating_input ms) = Some (Inr pr)" and "\<forall>(p, r) \<in> set (table_of pr). rt_Rating r \<noteq> NaN"
  shows "no_nan pr"
proof -
  have wf: "wf_map pr" by (rule engine_Compute_facts(1) [OF assms(1)])
  have "rt_Rating r \<noteq> NaN" if "(s, r) \<in> set pr" for s r
  proof -
    have "mget pr s = Some r" using that wf by (simp add: wf_map_get_iff)
    moreover have "s \<in> set (Sorted pr)" using that by (force simp: Sorted_def)
    ultimately show ?thesis using assms(2) by (auto simp: table_of_def rating_at_def)
  qed
  then show ?thesis by (auto simp: no_nan_def list_all_iff)
qed


text \<open>While the rows of all players are fresh, the rows alone decide which matches count.\<close>

lemma counted_fresh:
  assumes "levels_agree w"
    and "\<forall>m \<in> set (matchRepo_ListByGroup (st w) (g_GroupID g)). fresh_row e w (m_Player1ID m) \<and> fresh_row e w (m_Player2ID m)"
  shows "counted e g w = filter (\<lambda>m. m_Status m = MatchStatusApproved \<and> row_nicknamed w (m_Player1ID m)
    \<and> row_nicknamed w (m_Player2ID m)) (matchRepo_ListByGroup (st w) (g_GroupID g))"
proof -
  let ?ms = "matchRepo_ListByGroup (st w) (g_GroupID g)"
  let ?ps = "concat (map (\<lambda>m. [m_Player1ID m, m_Player2ID m]) ?ms)"
  have "\<forall>p \<in> set ?ps. fresh_row e w p" using assms(2) by auto
  then have val: "mget (nicknamed e g w) p \<in> {None, Some (row_nicknamed w p)}" for p
    using nicknames_for_fresh [OF assms(1), of ?ps e "[]"] by (simp add: nicknamed_def)
  have dom: "mget (nicknamed e g w) p \<noteq> None" if "p \<in> set ?ps" for p
    using nicknames_for_dom [of e ?ps "[]" w p] that by (simp add: nicknamed_def)
  have "mget (nicknamed e g w) p = Some (row_nicknamed w p)" if "p \<in> set ?ps" for p
    using val [of p] dom [OF that] by auto
  then have "mget (nicknamed e g w) (m_Player1ID m) = Some (row_nicknamed w (m_Player1ID m))"
    and "mget (nicknamed e g w) (m_Player2ID m) = Some (row_nicknamed w (m_Player2ID m))" if "m \<in> set ?ms" for m
    using that by force+
  then show ?thesis unfolding counted_nicknamed by (intro filter_cong) (simp_all add: counts_in_def)
qed

definition rated_world :: world where
  "rated_world = upd_st (nickCacheRepo_Upsert (nick_entry (1000 * hour) 3 (zero_IdentityUser\<lparr>iu_Nickname := ''carol'', iu_Found := True\<rparr>)))
     (upd_st (nickCacheRepo_Upsert (nick_entry (1000 * hour) 2 (zero_IdentityUser\<lparr>iu_Nickname := ''bob'', iu_Found := True\<rparr>)))
       approved_world)"

lemma rated_world_ok: "world_ok rated_world"
  using approved_world_ok
  by (simp add: rated_world_def world_ok_def drafts_ok_def wf_nickCacheRepo_Upsert nickCacheRepo_Upsert_def wf_store_def)

lemma rated_world_counts:
  "counted example_env example_group rated_world = [pending_match\<lparr>m_Status := MatchStatusApproved\<rparr>]"
proof -
  have ms: "matchRepo_ListByGroup (st rated_world) (g_GroupID example_group) = [pending_match\<lparr>m_Status := MatchStatusApproved\<rparr>]"
    by (simp add: matchRepo_ListByGroup_def rated_world_def nickCacheRepo_Upsert_def approved_world_rows mvals_if_def example_group_def)
  have rows: "row_nicknamed rated_world 2" "row_nicknamed rated_world 3" "fresh_row example_env rated_world 2" "fresh_row example_env rated_world 3"
    by (simp_all add: row_nicknamed_def fresh_row_def row_answer_def rated_world_def nickCacheRepo_Upsert_def nick_entry_def
        of_entry_def nick_answer_def s21NickDurableTTL_def time_Sub_def hour_def)
  have "levels_agree rated_world"
    by (simp add: levels_agree_def rated_world_def approved_world_def pending_world_def handlers_New_def NewS21NickCache_def NewS21NickCacheWithMax_def)
  then show ?thesis by (subst counted_fresh) (simp_all add: ms rows)
qed


end
