(* ===== verification/Job.thy ===== *)
theory Job
  imports Pages
begin

text \<open>
  The periodic job (\<open>pkg/handlers/periodic.go\<close>) as a whole: what becomes of every row of the
  store, part by part and then for the four parts in the order the code runs them.
\<close>

section \<open>Probing the accounts\<close>

text \<open>What the account package decides about an account, and what is left of it.\<close>

definition probe_fate :: "env \<Rightarrow> S21Account \<Rightarrow> S21Account option" where
  "probe_fate e a =
     (case Decrypt (e_cipher e) (acc_S21CredsEncrypted a) of
        Inl _ \<Rightarrow> Some a
      | Inr password \<Rightarrow>
          let d = e_ApplyAuthResult e a
                (case s21_adapter_Authenticate e (acc_S21Login a) password of Inl err \<Rightarrow> Some err | Inr _ \<Rightarrow> None) (e_now e)
          in if dc_Logout d then None else if dc_PersistUpdate d then Some (dc_UpdatedAccount d) else Some a)"

definition keeps_owner :: "env \<Rightarrow> bool" where
  "keeps_owner e \<longleftrightarrow> (\<forall>a r t. acc_TelegramID (dc_UpdatedAccount (e_ApplyAuthResult e a r t)) = acc_TelegramID a)"

lemma probeOne_effect:
  assumes "keeps_owner e" and "mget (s21Accounts (st w)) (acc_TelegramID a) = Some a"
  shows "\<exists>T. st (probeOne e a w) = (st w)\<lparr>s21Accounts := T\<rparr> \<and>
    (\<forall>t. mget T t = (if t = acc_TelegramID a then probe_fate e a else mget (s21Accounts (st w)) t))"
proof -
  have same: "\<exists>T. s = s\<lparr>s21Accounts := T\<rparr> \<and> (\<forall>t. mget T t = mget (s21Accounts s) t)" for s :: memstore
    by (rule exI [of _ "s21Accounts s"]) simp
  show ?thesis
    using assms same [of "st w"]
    by (auto simp: probeOne_def probe_fate_def keeps_owner_def Let_def s21AccountRepo_Delete_def s21AccountRepo_Upsert_def
        split: sum.split)
qed

lemma probe_fold:
  assumes "keeps_owner e" and "distinct (map acc_TelegramID as)"
    and "\<forall>a \<in> set as. mget (s21Accounts (st w)) (acc_TelegramID a) = Some a"
  shows "\<exists>T. st (fold (probeOne e) as w) = (st w)\<lparr>s21Accounts := T\<rparr> \<and>
    (\<forall>a \<in> set as. mget T (acc_TelegramID a) = probe_fate e a) \<and>
    (\<forall>t. t \<notin> acc_TelegramID ` set as \<longrightarrow> mget T t = mget (s21Accounts (st w)) t)"
  using assms(2,3)
proof (induction as arbitrary: w)
  case Nil
  show ?case by (rule exI [of _ "s21Accounts (st w)"]) simp
next
  case (Cons a as)
  let ?w1 = "probeOne e a w"
  obtain T1 where T1: "st ?w1 = (st w)\<lparr>s21Accounts := T1\<rparr>"
    "\<forall>t. mget T1 t = (if t = acc_TelegramID a then probe_fate e a else mget (s21Accounts (st w)) t)"
    using probeOne_effect [OF assms(1), of w a] Cons.prems(2) by auto
  have fresh: "acc_TelegramID a \<notin> acc_TelegramID ` set as" using Cons.prems(1) by simp
  have "\<forall>b \<in> set as. mget (s21Accounts (st ?w1)) (acc_TelegramID b) = Some b"
    using Cons.prems T1 by (auto simp: image_iff)
  from Cons.IH [OF _ this] Cons.prems(1)
  obtain T where T: "st (fold (probeOne e) as ?w1) = (st ?w1)\<lparr>s21Accounts := T\<rparr>"
    "\<forall>b \<in> set as. mget T (acc_TelegramID b) = probe_fate e b"
    "\<forall>t. t \<notin> acc_TelegramID ` set as \<longrightarrow> mget T t = mget T1 t"
    using T1(1) by auto
  then have "mget T (acc_TelegramID a) = probe_fate e a" using fresh T1(2) by simp
  then show ?case using T T1 by (intro exI [of _ T]) (auto simp: image_iff)
qed

lemma probeAllAccounts_exact:
  assumes "wf_store (st w)" and "keeps_owner e"
  shows "\<exists>T. st (probeAllAccounts e w) = (st w)\<lparr>s21Accounts := T\<rparr> \<and>
    (\<forall>t. mget T t = (case mget (s21Accounts (st w)) t of None \<Rightarrow> None | Some a \<Rightarrow> probe_fate e a))"
proof -
  let ?as = "s21AccountRepo_List (st w)"
  have wf: "wf_map (s21Accounts (st w))" and k: "keyed acc_TelegramID (s21Accounts (st w))"
    using assms(1) by (simp_all add: wf_store_def)
  have rows: "a \<in> set ?as \<longleftrightarrow> mget (s21Accounts (st w)) (acc_TelegramID a) = Some a" for a
    using stored_value_iff [OF wf k, of a] by (simp add: s21AccountRepo_List_def)
  have "acc_TelegramID v = t" if "(t, v) \<in> set (s21Accounts (st w))" for t v
    using that keyedD [OF k, of t v] by (simp add: wf_map_get_iff [OF wf])
  then have ids: "map (acc_TelegramID \<circ> snd) (s21Accounts (st w)) = map fst (s21Accounts (st w))" by (intro map_cong) auto
  have "distinct (map acc_TelegramID (map snd (s21Accounts (st w))))"
    unfolding map_map ids using wf by (simp only: wf_map_def)
  moreover have "mset (map acc_TelegramID ?as) = mset (map acc_TelegramID (map snd (s21Accounts (st w))))"
    unfolding s21AccountRepo_List_def mset_map [of acc_TelegramID] mset_sort_by ..
  ultimately have "distinct (map acc_TelegramID ?as)" by (metis mset_eq_imp_distinct_iff)
  from probe_fold [OF assms(2) this, of w] rows
  obtain T where T: "st (probeAllAccounts e w) = (st w)\<lparr>s21Accounts := T\<rparr>"
    "\<forall>a \<in> set ?as. mget T (acc_TelegramID a) = probe_fate e a"
    "\<forall>t. t \<notin> acc_TelegramID ` set ?as \<longrightarrow> mget T t = mget (s21Accounts (st w)) t"
    unfolding probeAllAccounts_def by blast
  have "mget T t = (case mget (s21Accounts (st w)) t of None \<Rightarrow> None | Some a \<Rightarrow> probe_fate e a)" for t
  proof (cases "mget (s21Accounts (st w)) t")
    case None
    then have "t \<notin> acc_TelegramID ` set ?as" using rows by auto
    then show ?thesis using T(3) None by simp
  next
    case (Some a)
    then have "acc_TelegramID a = t" by (rule keyedD [OF k])
    then show ?thesis using Some T(2) rows by auto
  qed
  then show ?thesis using T(1) by blast
qed

section \<open>Refreshing the user names\<close>

definition renamed :: "env \<Rightarrow> mcall list \<Rightarrow> Participant \<Rightarrow> Participant" where
  "renamed e cs p =
     (case e_username e cs (p_GroupID p) (p_TelegramID p) of
        Inl _ \<Rightarrow> p
      | Inr name \<Rightarrow> if name = p_TelegramUsername p then p
          else p\<lparr>p_TelegramUsername := name, p_ActivatedAt := e_now e\<rparr>)"

text \<open>Between the two states the messenger was asked for the user name of \<open>p\<close>, and \<open>q\<close> is what
  its answer makes of the row.\<close>

definition asked :: "env \<Rightarrow> world \<Rightarrow> world \<Rightarrow> Participant \<Rightarrow> Participant \<Rightarrow> bool" where
  "asked e w w' p q \<longleftrightarrow> (\<exists>cs. prefix (calls w) cs \<and>
     prefix (cs @ [ResolveChatMemberUsername (p_GroupID p) (p_TelegramID p)]) (calls w') \<and> q = renamed e cs p)"

lemma asked_mono: "asked e w1 w2 p q \<Longrightarrow> prefix (calls w) (calls w1) \<Longrightarrow> prefix (calls w2) (calls w') \<Longrightarrow> asked e w w' p q"
  unfolding asked_def using prefix_order.trans by blast

lemma renamed_sel [simp]:
  "p_GroupID (renamed e cs p) = p_GroupID p" "p_TelegramID (renamed e cs p) = p_TelegramID p"
  by (simp_all add: renamed_def split: sum.split)

text \<open>The rows of the keys \<open>K\<close> are asked for, the others stay.\<close>

definition refreshed_row :: "env \<Rightarrow> bool \<Rightarrow> world \<Rightarrow> world \<Rightarrow> Participant option \<Rightarrow> Participant option \<Rightarrow> bool" where
  "refreshed_row e hit w w' x y \<longleftrightarrow> (case x of None \<Rightarrow> y = None
     | Some p \<Rightarrow> if hit then \<exists>q. y = Some q \<and> asked e w w' p q else y = Some p)"

lemma refreshed_row_simps [simp]:
  "refreshed_row e hit w w' None y \<longleftrightarrow> y = None"
  "refreshed_row e False w w' x y \<longleftrightarrow> y = x"
  by (auto simp: refreshed_row_def split: option.split)

lemma refreshed_row_mono:
  assumes "refreshed_row e hit w1 w2 x y" and "prefix (calls w) (calls w1)" and "prefix (calls w2) (calls w')"
  shows "refreshed_row e hit w w' x y"
  using assms asked_mono [OF _ assms(2,3)] by (auto simp: refreshed_row_def split: option.splits if_splits)

definition refreshed :: "env \<Rightarrow> (i64 \<times> i64) set \<Rightarrow> world \<Rightarrow> world \<Rightarrow> bool" where
  "refreshed e K w w' \<longleftrightarrow> prefix (calls w) (calls w') \<and>
     (\<exists>T. st w' = (st w)\<lparr>participants := T\<rparr> \<and>
       (\<forall>k. refreshed_row e (k \<in> K) w w' (mget (participants (st w)) k) (mget T k)))"

lemma refreshed_empty [simp]: "refreshed e {} w w"
  by (simp add: refreshed_def) (rule exI [of _ "participants (st w)"], simp)

lemma refreshed_keys:
  assumes "refreshed e K w w'" and "\<And>k. mget (participants (st w)) k \<noteq> None \<Longrightarrow> k \<in> K \<longleftrightarrow> k \<in> K'"
  shows "refreshed e K' w w'"
proof -
  have "refreshed_row e (k \<in> K) w w' (mget (participants (st w)) k) y
      = refreshed_row e (k \<in> K') w w' (mget (participants (st w)) k) y" for k y
    using assms(2) [of k] by (cases "mget (participants (st w)) k") simp_all
  then show ?thesis using assms(1) by (simp add: refreshed_def)
qed

lemma refreshed_trans:
  assumes "refreshed e A w w1" and "refreshed e B w1 w2" and "A \<inter> B = {}"
  shows "refreshed e (A \<union> B) w w2"
proof -
  obtain T1 T2 where T: "st w1 = (st w)\<lparr>participants := T1\<rparr>" "st w2 = (st w1)\<lparr>participants := T2\<rparr>"
    and 1: "prefix (calls w) (calls w1)" "\<And>k. refreshed_row e (k \<in> A) w w1 (mget (participants (st w)) k) (mget T1 k)"
    and 2: "prefix (calls w1) (calls w2)" "\<And>k. refreshed_row e (k \<in> B) w1 w2 (mget T1 k) (mget T2 k)"
    using assms(1,2) unfolding refreshed_def by auto
  have "refreshed_row e (k \<in> A \<union> B) w w2 (mget (participants (st w)) k) (mget T2 k)" for k
  proof (cases "k \<in> A")
    case True
    then have "mget T2 k = mget T1 k" using assms(3) 2(2) [of k] by (cases "k \<in> B") auto
    then show ?thesis using True refreshed_row_mono [OF 1(2) [of k] prefix_order.refl 2(1)] by simp
  next
    case False
    then have "mget T1 k = mget (participants (st w)) k" using 1(2) [of k] by simp
    then show ?thesis using False refreshed_row_mono [OF 2(2) [of k] 1(1) prefix_order.refl] by simp
  qed
  then show ?thesis
    unfolding refreshed_def using T prefix_order.trans [OF 1(1) 2(1)] by (intro conjI exI [of _ T2]) simp_all
qed

lemma refresh_participants_refreshed:
  assumes "distinct (map p_TelegramID ps)"
    and "\<forall>p \<in> set ps. p_GroupID p = gid \<and> mget (participants (st w)) (gid, p_TelegramID p) = Some p"
  shows "refreshed e ((\<lambda>p. (gid, p_TelegramID p)) ` set ps) w (snd (refresh_participants e gid ps n w))"
  using assms
proof (induction ps arbitrary: n w)
  case (Cons p ps)
  let ?k = "(gid, p_TelegramID p)"
  let ?c = "ResolveChatMemberUsername gid (p_TelegramID p)"
  define w0 where "w0 = w\<lparr>calls := calls w @ [?c]\<rparr>"
  define w1 where "w1 = (case e_username e (calls w) gid (p_TelegramID p) of Inl _ \<Rightarrow> w0
    | Inr name \<Rightarrow> if name = p_TelegramUsername p then w0
        else upd_st (participantRepo_Upsert (p\<lparr>p_TelegramUsername := name, p_ActivatedAt := e_now e\<rparr>)) w0)"
  have p: "p_GroupID p = gid" "mget (participants (st w)) ?k = Some p" using Cons.prems(2) by simp_all
  have step: "\<exists>n'. refresh_participants e gid (p # ps) n w = refresh_participants e gid ps n' w1"
    by (auto simp: w1_def w0_def m_ResolveChatMemberUsername_def split: sum.split)
  have calls: "calls w1 = calls w @ [?c]" by (simp add: w1_def w0_def split: sum.split)
  obtain T where T: "st w1 = (st w)\<lparr>participants := T\<rparr>"
    "\<forall>k. mget T k = (if k = ?k then Some (renamed e (calls w) p) else mget (participants (st w)) k)"
  proof -
    have "st w1 = (st w)\<lparr>participants := participants (st w1)\<rparr>"
      by (simp add: w1_def w0_def participantRepo_Upsert_def split: sum.split)
    moreover have "\<forall>k. mget (participants (st w1)) k = (if k = ?k then Some (renamed e (calls w) p) else mget (participants (st w)) k)"
      using p by (simp add: w1_def w0_def participantRepo_Upsert_def renamed_def split: sum.split)
    ultimately show ?thesis using that by blast
  qed
  have "asked e w w1 p (renamed e (calls w) p)"
    unfolding asked_def using p(1) calls by (intro exI [of _ "calls w"]) simp
  then have "refreshed_row e (k \<in> {?k}) w w1 (mget (participants (st w)) k) (mget T k)" for k
    using spec [OF T(2), of k] p(2) by (cases "k = ?k") (simp_all add: refreshed_row_def split: option.split)
  then have 1: "refreshed e {?k} w w1"
    unfolding refreshed_def using T(1) calls by (intro conjI exI [of _ T]) simp_all
  have fresh: "p_TelegramID p \<notin> p_TelegramID ` set ps" using Cons.prems(1) by simp
  have "\<forall>q \<in> set ps. p_GroupID q = gid \<and> mget (participants (st w1)) (gid, p_TelegramID q) = Some q"
  proof
    fix q assume q: "q \<in> set ps"
    then have "p_TelegramID q \<noteq> p_TelegramID p" using fresh by (metis imageI)
    then show "p_GroupID q = gid \<and> mget (participants (st w1)) (gid, p_TelegramID q) = Some q"
      using q Cons.prems(2) spec [OF T(2), of "(gid, p_TelegramID q)"] by (simp add: T(1))
  qed
  then have 2: "refreshed e ((\<lambda>p. (gid, p_TelegramID p)) ` set ps) w1 (snd (refresh_participants e gid ps n' w1))" for n'
    using Cons.IH Cons.prems(1) by simp
  have "{?k} \<inter> (\<lambda>p. (gid, p_TelegramID p)) ` set ps = {}" using fresh by auto
  moreover have "{?k} \<union> (\<lambda>p. (gid, p_TelegramID p)) ` set ps = (\<lambda>p. (gid, p_TelegramID p)) ` set (p # ps)" by simp
  moreover obtain n' where "refresh_participants e gid (p # ps) n w = refresh_participants e gid ps n' w1" using step by blast
  ultimately show ?case using refreshed_trans [OF 1 2, of n'] by argo
qed simp

lemma refreshGroupUsernames_refreshed:
  assumes "wf_store (st w)"
  shows "refreshed e {k. fst k = g_GroupID g} w (snd (refreshGroupUsernames e g w))"
proof -
  let ?gid = "g_GroupID g"
  let ?ps = "participantRepo_ListByGroup (st w) ?gid"
  let ?w' = "snd (refreshGroupUsernames e g w)"
  note l = listed_participants [OF assms, of ?gid]
  have wf: "wf_map (participants (st w))" and key: "keyed part_key (participants (st w))" using assms by (simp_all add: wf_store_def)
  have rows: "\<forall>p \<in> set ?ps. p_GroupID p = ?gid \<and> mget (participants (st w)) (?gid, p_TelegramID p) = Some p"
  proof
    fix p assume "p \<in> set ?ps"
    then obtain k where k: "fst k = ?gid" "mget (participants (st w)) k = Some p"
      using mvals_if_iff [OF wf] by (auto simp: participantRepo_ListByGroup_def)
    then have "part_key p = k" using keyedD [OF key] by simp
    then show "p_GroupID p = ?gid \<and> mget (participants (st w)) (?gid, p_TelegramID p) = Some p"
      using k by (cases k) (simp add: part_key_def)
  qed
  have r: "refreshed e ((\<lambda>p. (?gid, p_TelegramID p)) ` set ?ps) w ?w'"
    unfolding refreshGroupUsernames_def by (rule refresh_participants_refreshed [OF l(2) rows])
  show ?thesis
  proof (rule refreshed_keys [OF r])
    fix k assume "mget (participants (st w)) k \<noteq> None"
    then show "k \<in> (\<lambda>p. (?gid, p_TelegramID p)) ` set ?ps \<longleftrightarrow> k \<in> {k. fst k = ?gid}"
      using l(1) by (cases k) (auto simp: image_iff set_eq_iff)
  qed
qed

lemma refresh_groups_refreshed:
  assumes "world_ok w" and "distinct (map g_GroupID gs)"
  shows "refreshed e {k. fst k \<in> g_GroupID ` set gs} w (refresh_groups e gs w)"
  using assms
proof (induction gs arbitrary: w)
  case (Cons g gs)
  let ?w1 = "snd (refreshGroupUsernames e g w)"
  have 1: "refreshed e {k. fst k = g_GroupID g} w ?w1"
    using Cons.prems(1) by (intro refreshGroupUsernames_refreshed) (simp add: world_ok_def)
  have "calm w ?w1" by simp
  then have "world_ok ?w1" using Cons.prems(1) by (auto simp: calm_def world_ok_def)
  then have 2: "refreshed e {k. fst k \<in> g_GroupID ` set gs} ?w1 (refresh_groups e gs ?w1)"
    using Cons by simp
  have "{k. fst k = g_GroupID g} \<inter> {k. fst k \<in> g_GroupID ` set gs} = {}" using Cons.prems(2) by auto
  moreover have "{k. fst k = g_GroupID g} \<union> {k. fst k \<in> g_GroupID ` set gs} = {k. fst k \<in> g_GroupID ` set (g # gs)}" by auto
  ultimately show ?case using refreshed_trans [OF 1 2] by (metis refresh_groups.simps(2))
qed simp

lemma refreshAllUsernames_refreshed:
  assumes "world_ok w"
  shows "refreshed e {k. mget (groups (st w)) (fst k) \<noteq> None} w (refreshAllUsernames e w)"
proof -
  let ?gs = "groupRepo_List (st w)"
  have wf: "wf_map (groups (st w))" and key: "keyed g_GroupID (groups (st w))" using assms by (simp_all add: world_ok_def wf_store_def)
  have "g_GroupID v = t" if "(t, v) \<in> set (groups (st w))" for t v
    using that keyedD [OF key, of t v] by (simp add: wf_map_get_iff [OF wf])
  then have ids: "map (g_GroupID \<circ> snd) (groups (st w)) = map fst (groups (st w))" by (intro map_cong) auto
  have m: "map g_GroupID ?gs = map fst (groups (st w))" unfolding groupRepo_List_def map_map ids ..
  have "distinct (map g_GroupID ?gs)" unfolding m using wf by (simp only: wf_map_def)
  moreover have "g_GroupID ` set ?gs = {t. mget (groups (st w)) t \<noteq> None}"
    by (metis (no_types) m set_map dom_map_of_conv_image_fst dom_def)
  ultimately show ?thesis using refresh_groups_refreshed [OF assms, of ?gs e] by (simp add: refreshAllUsernames_def)
qed

section \<open>The whole job\<close>

definition match_expired :: "env \<Rightarrow> memstore \<Rightarrow> i64 \<times> u64 \<Rightarrow> bool" where
  "match_expired e s k \<longleftrightarrow> (\<exists>m g. mget (matches s) k = Some m \<and> m_Status m = MatchStatusPending \<and>
     mget (groups s) (m_GroupID m) = Some g \<and> m_CreatedAt m + ConfirmationTimeout g < e_wall e)"

text \<open>The times of the store lie in the range of a 64-bit nanosecond count.\<close>

definition times_in_range :: "env \<Rightarrow> memstore \<Rightarrow> bool" where
  "times_in_range e s \<longleftrightarrow> \<bar>e_now e - 24 * hour\<bar> < 2 ^ 63 \<and>
     (\<forall>k m. mget (matches s) k = Some m \<longrightarrow> \<bar>e_wall e - m_CreatedAt m\<bar> < 2 ^ 63 - 1) \<and>
     (\<forall>k u. mget (undos s) k = Some u \<longrightarrow> \<bar>u_RequestedAt u\<bar> < 2 ^ 63)"

lemma cleanExpiredMatches_removed:
  assumes "world_ok w" and "times_in_range e (st w)"
  shows "removed {k. match_expired e (st w) k} w (snd (cleanExpiredMatches e w))"
proof -
  obtain ks where "removed ks w (snd (cleanExpiredMatches e w))" "\<forall>k. k \<in> ks \<longleftrightarrow> match_expired e (st w) k"
    using cleanExpiredMatches_exact [OF assms(1), of e] assms(2) unfolding times_in_range_def match_expired_def by blast
  moreover from this(2) have "ks = {k. match_expired e (st w) k}" by blast
  ultimately show ?thesis by simp
qed

lemma cleanExpiredUndo_undone:
  assumes "world_ok w" and "times_in_range e (st w)"
  shows "undone {k. \<exists>u. mget (undos (st w)) k = Some u \<and> u_RequestedAt u < e_now e - 24 * hour} w
    (snd (cleanExpiredUndo e w))"
proof -
  obtain ks where "undone ks w (snd (cleanExpiredUndo e w))"
    "\<forall>k. k \<in> ks \<longleftrightarrow> (\<exists>u. mget (undos (st w)) k = Some u \<and> u_RequestedAt u < e_now e - 24 * hour)"
    using cleanExpiredUndo_exact [OF assms(1), of e] assms(2) unfolding times_in_range_def by blast
  moreover from this(2) have "ks = {k. \<exists>u. mget (undos (st w)) k = Some u \<and> u_RequestedAt u < e_now e - 24 * hour}" by blast
  ultimately show ?thesis by simp
qed

lemma removed_in_range:
  assumes "removed ks w w'" and "times_in_range e (st w)"
  shows "times_in_range e (st w')"
proof -
  have m: "mget (matches (st w)) k = Some m" if "mget (matches (st w')) k = Some m" for k m
    using assms(1) that unfolding removed_def by (metis option.distinct(1))
  have u: "mget (undos (st w)) k = Some u" if "mget (undos (st w')) k = Some u" for k u
    using assms(1) that unfolding removed_def rows_without_def by (cases k) (metis option.distinct(1))
  show ?thesis using assms(2) m u unfolding times_in_range_def by blast
qed



end
