(* ===== verification/Session.thy ===== *)
theory Session
  imports Pages Mirror
begin

text \<open>
  A whole interactive \<open>/match\<close>: the owner's taps on one message, with anything in between that
  leaves the draft of that message alone or loses it (restarts, garbage collection, everybody
  else's updates). What the user sees in the message is part of the state: it is where a lost
  draft comes back from.
\<close>

section \<open>What the message shows\<close>

text \<open>The client renders the HTML of an edit: the spoiler tags go, the text stays. \<open>client\<close> is that
  rendering; the law is asked for texts without markup of their own.\<close>

definition renders_spoilers :: "(string \<Rightarrow> string) \<Rightarrow> bool" where
  "renders_spoilers client \<longleftrightarrow> (\<forall>pre tag. set (pre @ tag) \<inter> {CHR ''<'', CHR ''&''} = {} \<longrightarrow>
     client (pre @ spoilerWrap tag) = pre @ tag)"

fun text_after :: "(string \<Rightarrow> string) \<Rightarrow> i64 \<Rightarrow> i64 \<Rightarrow> mcall list \<Rightarrow> string \<Rightarrow> string" where
  "text_after client chat i [] t = t"
| "text_after client chat i (EditKeyboardGridHTML c j x rows # cs) t =
     text_after client chat i cs (if c = chat \<and> j = i then client x else t)"
| "text_after client chat i (c # cs) t = text_after client chat i cs t"

section \<open>Drafts that fit a board\<close>

text \<open>Texts that neither the markup nor the header expressions trip over.\<close>

definition plain :: "string \<Rightarrow> bool" where
  "plain s \<longleftrightarrow> set s \<inter> {CHR ''['', CHR ''<'', CHR ''&''} = {}"

lemma plain_simps [simp]:
  "plain []" "plain (s @ t) \<longleftrightarrow> plain s \<and> plain t"
  "plain (c # s) \<longleftrightarrow> c \<noteq> CHR ''['' \<and> c \<noteq> CHR ''<'' \<and> c \<noteq> CHR ''&'' \<and> plain s"
  by (auto simp: plain_def)

lemma plain_numbers [simp]: "plain (dec n)" "plain (Itoa v)" "plain (fmt_i64 w)"
  using dec_digits [of n] Itoa_chars [of _ v] fmt_i64_chars [of _ w]
  by (force simp: plain_def is_digit_def byte_def)+

definition fits :: "i64 \<Rightarrow> board \<Rightarrow> matchDraft \<Rightarrow> bool" where
  "fits owner b d \<longleftrightarrow> d_ownerID d = owner \<and> abs_draft d = b \<and> mirrorable d \<and>
     plain (d_ownerLabel d) \<and> plain (d_oppLabel d)"

lemma fits_touched [simp]: "fits owner b (d\<lparr>d_touchedAt := t\<rparr>) = fits owner b d"
  by (simp add: fits_def abs_draft_def mirrorable_def)

lemma fits_mirrored: "fits owner b d \<Longrightarrow> fits owner b (mirrored d)"
  by (auto simp: fits_def mirrored_def abs_draft_def mirrorable_def zero_draft_def draft_ok_def)

text \<open>The message shows the board, and the draft in memory, if there is one, is at it.\<close>

definition at_board :: "i64 \<Rightarrow> i64 \<Rightarrow> world \<Rightarrow> string \<Rightarrow> i64 \<Rightarrow> board \<Rightarrow> bool" where
  "at_board chat i w text owner b \<longleftrightarrow> wf_map (matchDrafts w) \<and>
     (\<exists>d. parseDraftFromHeader text = Some d \<and> fits owner b d) \<and>
     (\<forall>d. mget (matchDrafts w) (draftKey chat i) = Some d \<longrightarrow> fits owner b d)"

lemma load_at_board:
  assumes "at_board chat i w text owner b"
  obtains d ds where "loadOrRestoreDraft e chat i text w = (Some d, w\<lparr>matchDrafts := ds\<rparr>)" and "fits owner b d"
    and "wf_map ds"
proof (cases "mget (matchDrafts w) (draftKey chat i)")
  case (Some d)
  then show ?thesis
    using that [of d] assms gcDrafts_sub(1) by (simp add: loadOrRestoreDraft_def at_board_def)
next
  case None
  obtain d where "parseDraftFromHeader text = Some d" "fits owner b d" using assms by (auto simp: at_board_def)
  then show ?thesis
    using that [of "d\<lparr>d_touchedAt := e_now e\<rparr>"] None assms gcDrafts_sub(1)
    by (simp add: loadOrRestoreDraft_def at_board_def Let_def)
qed

section \<open>What the pickers render\<close>

definition view_of :: "matchDraft \<Rightarrow> string \<Rightarrow> bool" where
  "view_of d x \<longleftrightarrow> (\<exists>pre. plain pre \<and> x = pre @ spoilerWrap (if d_isScore d then renderScoreHeader d else renderOppHeader d))"

lemma safeLabel_plain: "plain s \<Longrightarrow> plain (safeLabel s)"
  by (simp add: safeLabel_def)

lemma plain_constants [simp]: "plain emdash" "plain nl" "plain bullet"
  by (simp_all add: emdash_def nl_def bullet_def)

lemma score_view: "fits owner b d \<Longrightarrow> d_isScore d \<Longrightarrow> view_of d (fst (renderScorePicker d))"
  unfolding view_of_def renderScorePicker_def fst_conv
  by (intro exI conjI, rule_tac [2] append_assoc [symmetric, THEN trans]) (auto simp: fits_def safeLabel_plain)

lemma opponents_view:
  assumes "renderOpponentPicker s gid d = (Some v, d1)" and "\<not> d_isScore d"
  shows "view_of d1 (fst v)"
proof -
  have "\<not> d_isScore d1" using assms by (auto simp: renderOpponentPicker_def Let_def split: if_splits)
  moreover have "\<exists>pre. plain pre \<and> fst v = pre @ spoilerWrap (renderOppHeader d1)"
    using assms(1) unfolding renderOpponentPicker_def Let_def
    by (auto split: if_splits intro!: exI [of _ "(_ @ _) @ nl @ nl"])
  ultimately show ?thesis by (simp add: view_of_def)
qed

lemma plain_escape: "plain (QueryEscape l)"
proof -
  have hex: "hex_digit n \<notin> {CHR ''['', CHR ''<'', CHR ''&''}" if "n < 16" for n
  proof -
    have "list_all (\<lambda>n. hex_digit n \<notin> {CHR ''['', CHR ''<'', CHR ''&''}) [0..<16]" by code_simp
    then show ?thesis using that by (simp only: list_all_iff) simp
  qed
  have un: "unreserved c \<Longrightarrow> c \<notin> {CHR ''['', CHR ''<'', CHR ''&''}" for c
    by (auto simp: unreserved_def is_alnum_def is_alpha_def is_upper_def is_lower_def is_digit_def byte_def)
  show ?thesis
  proof (induction l)
    case (Cons c l)
    have b: "byte c div 16 < 16" "byte c mod 16 < 16" using byte_less [of c] by (simp_all add: less_mult_imp_div_less)
    show ?case using hex [OF b(1)] hex [OF b(2)] Cons un [of c] by (auto simp: plain_def)
  qed simp
qed

lemma header_plain: "set (if d_isScore d then renderScoreHeader d else renderOppHeader d) \<inter> {CHR ''<'', CHR ''&''} = {}"
proof -
  have h: "set (CHR ''['' # t) \<inter> {CHR ''<'', CHR ''&''} = {}" if "plain t" for t
    using that by (auto simp: plain_def)
  have p: "plain (tl (renderScoreHeader d))" "plain (tl (renderOppHeader d))"
    by (simp_all add: renderScoreHeader_def renderOppHeader_def plain_escape scoreTok_def)
  have e: "renderScoreHeader d = CHR ''['' # tl (renderScoreHeader d)" "renderOppHeader d = CHR ''['' # tl (renderOppHeader d)"
    by (simp_all add: renderScoreHeader_def renderOppHeader_def)
  show ?thesis
  proof (cases "d_isScore d")
    case True
    then show ?thesis by (simp only: if_True) (subst e(1), rule h [OF p(1)])
  next
    case False
    then show ?thesis by (simp only: if_False) (subst e(2), rule h [OF p(2)])
  qed
qed

lemma view_restores:
  assumes "renders_spoilers client" and "view_of d x" and "fits owner b d"
  shows "\<exists>d0. parseDraftFromHeader (client x) = Some d0 \<and> fits owner b d0"
proof -
  let ?tag = "if d_isScore d then renderScoreHeader d else renderOppHeader d"
  obtain pre where pre: "plain pre" "x = pre @ spoilerWrap ?tag" using assms(2) unfolding view_of_def by blast
  have "set pre \<inter> {CHR ''<'', CHR ''&''} = {}" using pre(1) by (auto simp: plain_def)
  then have "set (pre @ ?tag) \<inter> {CHR ''<'', CHR ''&''} = {}" using header_plain [of d] unfolding set_append by blast
  then have "client x = draft_text pre d []" using assms(1) pre(2) by (simp add: renders_spoilers_def draft_text_def)
  moreover have "parseDraftFromHeader (draft_text pre d []) = Some (mirrored d)"
    using assms(3) pre(1) by (intro parse_draft_text) (auto simp: fits_def plain_def)
  ultimately show ?thesis using fits_mirrored [OF assms(3)] by auto
qed

section \<open>One tap\<close>

text \<open>The messenger takes every edit and answer of the tap.\<close>

definition accepting :: "env \<Rightarrow> bool" where
  "accepting e \<longleftrightarrow> (\<forall>cs c. e_act e cs c = None)"

text \<open>What a picking tap does to the draft, the drafts in memory, the calls and the message.\<close>

definition picks :: "(string \<Rightarrow> string) \<Rightarrow> i64 \<Rightarrow> i64 \<Rightarrow> world \<Rightarrow> matchDraft \<Rightarrow> string option \<times> matchDraft \<times> world \<Rightarrow> bool" where
  "picks client chat i w d = (\<lambda>(r, d', w'). r = None \<and> matchDrafts w' = matchDrafts w \<and>
     (\<exists>cs. calls w' = calls w @ cs \<and>
        ((\<forall>x. text_after client chat i cs x = x) \<and> abs_draft d' = abs_draft d \<or>
         (\<exists>y. view_of d' y \<and> (\<forall>x. text_after client chat i cs x = client y)))))"

lemma picks_ack: "accepting e \<Longrightarrow> abs_draft d' = abs_draft d \<Longrightarrow> quiet w w1 \<Longrightarrow> picks client chat i w d (ack e q t d' w1)"
  by (simp add: picks_def ack_def act_text_def m_act_def accepting_def quietD)

lemma picks_edit:
  assumes "accepting e" and "view_of d' (fst v)" and "quiet w w1"
  shows "picks client (ch_ID (msg_Chat m)) (msg_MessageID m) w d (editAndAck e q m v t d' w1)"
  using assms by (simp add: picks_def editAndAck_def act_text_def m_act_def accepting_def quietD case_prod_beta Let_def) blast

lemma picks_show:
  assumes "accepting e" and "\<not> d_isScore d'" and "opponentCandidates (st w) (ch_ID (msg_Chat m)) (d_ownerID d') \<noteq> []"
  shows "picks client (ch_ID (msg_Chat m)) (msg_MessageID m) w d (showOpponents e q m d' w)"
proof -
  obtain v d1 where v: "renderOpponentPicker (st w) (ch_ID (msg_Chat m)) d' = (Some v, d1)"
    using assms(3) by (auto simp: renderOpponentPicker_def Let_def)
  show ?thesis
    using picks_edit [OF assms(1) opponents_view [OF v assms(2)] quiet_refl] by (simp add: showOpponents_def v)
qed

definition plain_labels :: "env \<Rightarrow> i64 \<Rightarrow> world \<Rightarrow> bool" where
  "plain_labels e chat w \<longleftrightarrow> (\<forall>ds p q. plain (fst (playerLabel e chat p (w\<lparr>matchDrafts := ds\<rparr>))) \<and>
     plain (fst (playerLabel e chat p (snd (playerLabel e chat q (w\<lparr>matchDrafts := ds\<rparr>))))))"

definition somebody :: "i64 \<Rightarrow> i64 \<Rightarrow> world \<Rightarrow> bool" where
  "somebody chat owner w \<longleftrightarrow> opponentCandidates (st w) chat owner \<noteq> []"

lemma clamp_bounds:
  assumes "somebody chat owner w"
  shows "1 \<le> shown_page (st w) chat owner p" and "1 \<le> p \<Longrightarrow> shown_page (st w) chat owner p \<le> p"
    and "p < 1 \<Longrightarrow> shown_page (st w) chat owner p = 1"
proof -
  let ?cs = "opponentCandidates (st w) chat owner"
  have "1 \<le> length ?cs" using assms by (cases ?cs) (auto simp: somebody_def)
  then have "1 \<le> totalPages ?cs" by (simp add: totalPages_def oppPerPage_def)
  then show "1 \<le> shown_page (st w) chat owner p" "1 \<le> p \<Longrightarrow> shown_page (st w) chat owner p \<le> p"
    "p < 1 \<Longrightarrow> shown_page (st w) chat owner p = 1"
    using assms by (auto simp: shown_page_def clampPage_def Let_def somebody_def)
qed

lemma shown_page_small:
  assumes "somebody chat owner w" and "p < 2 ^ 63"
  shows "0 \<le> shown_page (st w) chat owner p" and "shown_page (st w) chat owner p < 2 ^ 63"
  using clamp_bounds [OF assms(1), of p] assms(2) by (cases "p < 1"; simp)+

text \<open>Taps on the buttons, other than Cancel and Confirm.\<close>

fun picking :: "tap \<Rightarrow> bool" where
  "picking TCancel = False"
| "picking TConfirm = False"
| "picking (TOpp i) \<longleftrightarrow> 0 \<le> sint i"
| "picking t = tap_ok t"

lemma picking_ok: "picking t \<Longrightarrow> tap_ok t"
  by (cases t) simp_all

lemma tap_picks:
  fixes e q m w t d
  defines "chat \<equiv> ch_ID (msg_Chat m)" and "out \<equiv> dispatchTap e q m d (tap_payload t) w"
  assumes "accepting e" and t: "picking t" and d: "fits owner b d" and some: "somebody chat owner w"
    and labels: "plain_labels e chat w"
  shows "picks client chat (msg_MessageID m) w d out \<and> mirrorable (fst (snd out)) \<and>
    plain (d_ownerLabel (fst (snd out))) \<and> plain (d_oppLabel (fst (snd out)))"
proof -
  let ?d = "d\<lparr>d_touchedAt := e_now e\<rparr>"
  let ?P = "\<lambda>out. picks client chat (msg_MessageID m) w d out \<and> mirrorable (fst (snd out)) \<and>
    plain (d_ownerLabel (fst (snd out))) \<and> plain (d_oppLabel (fst (snd out)))"
  have owner: "d_ownerID d = owner" and fit: "mirrorable d" "plain (d_ownerLabel d)" "plain (d_oppLabel d)"
    using d by (simp_all add: fits_def)
  have ack: "?P (ack e q x ?d w)" for x
    using fit picks_ack [OF assms(3) _ quiet_refl, of ?d d] by (simp add: abs_draft_def mirrorable_def)
  have page: "p < 2 ^ 63 \<Longrightarrow> ?P (showOpponents e q m (?d\<lparr>d_page := p, d_isScore := False\<rparr>) w)" for p
    using fit shown_page_small [OF some, of p] picks_show [OF assms(3), of "?d\<lparr>d_page := p, d_isScore := False\<rparr>" w m]
      some owner
    by (simp add: showOpponents_draft mirrorable_def chat_def somebody_def)
  have edit: "?P (editAndAck e q m (renderScorePicker d') x d' w')"
    if "fits owner b' d'" "d_isScore d'" "quiet w w'" for b' d' w' x
    using that picks_edit [OF assms(3) score_view [OF that(1,2)] that(3)] by (simp add: fits_def chat_def)
  have "?P (dispatchTap e q m d (tap_payload t) w)"
  proof (cases t)
    case TNoop
    show ?thesis unfolding TNoop dispatch_payloads by (rule ack)
  next
    case (TNav p)
    have p: "- (2 ^ 63) \<le> p" "p < 2 ^ 63" using t TNav by simp_all
    then have "Atoi (Itoa p) = Some p" using ParseInt_Itoa [of 64 p] by (simp add: Atoi_def)
    then show ?thesis unfolding TNav dispatch_payloads tapNav_def using page [OF p(2)] by simp
  next
    case (TOpp i)
    obtain x where x: "ParseInt 64 (fmt_i64 i) = Some x" "word_of_int x = i" using ParseInt_fmt_i64 [of i] by auto
    show ?thesis
    proof (cases "i = d_ownerID d")
      case True
      then have "tapOpp e q m (fmt_i64 i) ?d w = ack e q [] ?d w" unfolding tapOpp_def x(1) by (simp add: x(2))
      then show ?thesis unfolding TOpp dispatch_payloads using ack by simp
    next
      case False
      obtain own w1 where own: "(if d_ownerLabel d = [] then playerLabel e chat (d_ownerID d) w else (d_ownerLabel d, w)) = (own, w1)"
        by fastforce
      obtain opp w2 where opp: "playerLabel e chat i w1 = (opp, w2)" by fastforce
      have lab: "plain (fst (playerLabel e chat p w))" "plain (fst (playerLabel e chat p (snd (playerLabel e chat q w))))" for p q
        using labels [unfolded plain_labels_def, rule_format, of p "matchDrafts w" q] by simp_all
      have "quiet w w1" using own playerLabel_quiet [of w e chat "d_ownerID d"] by (auto split: if_splits)
      then have "quiet w w2" using opp playerLabel_quiet [of w1 e chat i] by (metis quiet_trans snd_conv)
      moreover have "plain own" using own fit lab(1) [of "d_ownerID d"] by (auto split: if_splits)
      moreover have "plain opp"
        using own opp lab(1) [of i] lab(2) [of i "d_ownerID d"] by (auto split: if_splits dest: arg_cong [of _ _ fst])
      moreover have "0 \<le> sint i" using t TOpp by simp
      ultimately have "?P (editAndAck e q m (renderScorePicker (?d\<lparr>d_ownerLabel := own, d_oppID := i, d_oppLabel := opp,
            d_isScore := True, d_p1 := -1, d_p2 := -1\<rparr>)) [] (?d\<lparr>d_ownerLabel := own, d_oppID := i, d_oppLabel := opp,
            d_isScore := True, d_p1 := -1, d_p2 := -1\<rparr>) w2)"
        using fit owner
        by (intro edit [of "Scoring i (-1) (-1)"]) (simp_all add: fits_def abs_draft_def mirrorable_def draft_ok_def)
      moreover have "tapOpp e q m (fmt_i64 i) ?d w = editAndAck e q m (renderScorePicker (?d\<lparr>d_ownerLabel := own, d_oppID := i,
          d_oppLabel := opp, d_isScore := True, d_p1 := -1, d_p2 := -1\<rparr>)) [] (?d\<lparr>d_ownerLabel := own, d_oppID := i,
          d_oppLabel := opp, d_isScore := True, d_p1 := -1, d_p2 := -1\<rparr>) w2"
        unfolding tapOpp_def x(1) option.case Let_def x(2) using False own opp
        by (cases "d_ownerLabel d = []") (simp_all add: chat_def)
      ultimately show ?thesis unfolding TOpp dispatch_payloads by argo
    qed
  next
    case TBack
    have swap: "?d\<lparr>d_isScore := False, d_page := 1\<rparr> = ?d\<lparr>d_page := 1, d_isScore := False\<rparr>" by simp
    show ?thesis unfolding TBack dispatch_payloads tapBack_def swap using ack page [of 1] by (cases "d_isScore ?d") (simp_all only: if_True if_False not_True_eq_False not_False_eq_True, simp_all)
  next
    case (TLeft v)
    have v: "v < 2 ^ 63" using t TLeft by simp
    have "fits owner (Scoring (d_oppID d) (int v) (d_p2 d)) (?d\<lparr>d_p1 := int v\<rparr>)" if "d_isScore d" "v \<le> scoreMaxVal"
      using that fit owner by (simp add: fits_def abs_draft_def mirrorable_def draft_ok_def scoreMaxVal_def)
    then have "?P (editAndAck e q m (renderScorePicker (?d\<lparr>d_p1 := int v\<rparr>)) [] (?d\<lparr>d_p1 := int v\<rparr>) w)"
      if "d_isScore d" "v \<le> scoreMaxVal" using that by (intro edit) simp_all
    moreover have "tapScore e q m (''1:'' @ dec v) ?d w = (if d_isScore d \<and> v \<le> scoreMaxVal
        then editAndAck e q m (renderScorePicker (?d\<lparr>d_p1 := int v\<rparr>)) [] (?d\<lparr>d_p1 := int v\<rparr>) w else ack e q [] ?d w)"
      by (simp add: tapScore_def tapScore_parses [OF v, simplified] Let_def)
    ultimately show ?thesis unfolding TLeft dispatch_payloads using ack by presburger
  next
    case (TRight v)
    have v: "v < 2 ^ 63" using t TRight by simp
    have "fits owner (Scoring (d_oppID d) (d_p1 d) (int v)) (?d\<lparr>d_p2 := int v\<rparr>)" if "d_isScore d" "v \<le> scoreMaxVal"
      using that fit owner by (simp add: fits_def abs_draft_def mirrorable_def draft_ok_def scoreMaxVal_def)
    then have "?P (editAndAck e q m (renderScorePicker (?d\<lparr>d_p2 := int v\<rparr>)) [] (?d\<lparr>d_p2 := int v\<rparr>) w)"
      if "d_isScore d" "v \<le> scoreMaxVal" using that by (intro edit) simp_all
    moreover have "tapScore e q m (''2:'' @ dec v) ?d w = (if d_isScore d \<and> v \<le> scoreMaxVal
        then editAndAck e q m (renderScorePicker (?d\<lparr>d_p2 := int v\<rparr>)) [] (?d\<lparr>d_p2 := int v\<rparr>) w else ack e q [] ?d w)"
      by (simp add: tapScore_def tapScore_parses [OF v, simplified] Let_def)
    ultimately show ?thesis unfolding TRight dispatch_payloads using ack by presburger
  qed (use t in simp_all)
  then show ?thesis by (simp add: out_def)
qed

section \<open>The abstract session\<close>

text \<open>The board machine with any sensible clamping of pages, which depends on the store.\<close>

definition clamping :: "(int \<Rightarrow> int) \<Rightarrow> bool" where
  "clamping clamp \<longleftrightarrow> (\<forall>p. 1 \<le> clamp p \<and> (1 \<le> p \<longrightarrow> clamp p \<le> p) \<and> (p < 1 \<longrightarrow> clamp p = 1))"

inductive board_run :: "i64 \<Rightarrow> board \<Rightarrow> tap list \<Rightarrow> board \<Rightarrow> bool" where
  board_start: "board_run owner b [] b"
| board_tap: "board_run owner b ts b1 \<Longrightarrow> clamping clamp \<Longrightarrow> board_run owner b (ts @ [t]) (board_step clamp owner t b1)"

section \<open>The session of the code\<close>

text \<open>A tap of the owner on a button of the message.\<close>

definition tap_by :: "i64 \<Rightarrow> i64 \<Rightarrow> i64 \<Rightarrow> string \<Rightarrow> CallbackQuery \<Rightarrow> Message \<Rightarrow> bool" where
  "tap_by owner chat i text q m \<longleftrightarrow> cq_Message q = Some m \<and> ch_ID (msg_Chat m) = chat \<and> msg_MessageID m = i \<and>
     msg_Text m = text \<and> (\<exists>u. cq_From q = Some u \<and> usr_ID u = owner)"

definition new_calls :: "world \<Rightarrow> world \<Rightarrow> mcall list" where
  "new_calls w w' = drop (length (calls w)) (calls w')"

text \<open>The owner's picking taps on a message, with anything in between that leaves its draft alone
  or loses it.\<close>

inductive session ::
  "(string \<Rightarrow> string) \<Rightarrow> i64 \<Rightarrow> i64 \<Rightarrow> i64 \<Rightarrow> world \<Rightarrow> string \<Rightarrow> tap list \<Rightarrow> world \<Rightarrow> string \<Rightarrow> bool"
  for client :: "string \<Rightarrow> string" and chat i owner :: i64 and w :: world and shown :: string where
  session_start: "session client chat i owner w shown [] w shown"
| session_tap: "session client chat i owner w shown ts w1 text1 \<Longrightarrow> tap_by owner chat i text1 q m \<Longrightarrow> picking t \<Longrightarrow>
    accepting e \<Longrightarrow> somebody chat owner w1 \<Longrightarrow> plain_labels e chat w1 \<Longrightarrow>
    w2 = snd (handleMatchInteractiveCallback e q (tap_payload t) w1) \<Longrightarrow>
    session client chat i owner w shown (ts @ [t]) w2 (text_after client chat i (new_calls w1 w2) text1)"
| session_meanwhile: "session client chat i owner w shown ts w1 text1 \<Longrightarrow> wf_map (matchDrafts w2) \<Longrightarrow>
    mget (matchDrafts w2) (draftKey chat i) \<in> {None, mget (matchDrafts w1) (draftKey chat i)} \<Longrightarrow>
    session client chat i owner w shown ts w2 text1"

lemma tap_at_board:
  assumes law: "renders_spoilers client" and at: "at_board chat i w text owner b" and q: "tap_by owner chat i text q m"
    and t: "picking t" and "accepting e" and some: "somebody chat owner w" and lab: "plain_labels e chat w"
    and w2: "w2 = snd (handleMatchInteractiveCallback e q (tap_payload t) w)"
  shows "at_board chat i w2 (text_after client chat i (new_calls w w2) text) owner (board_step (shown_page (st w) chat owner) owner t b)"
proof -
  have qm: "cq_Message q = Some m" "ch_ID (msg_Chat m) = chat" "msg_MessageID m = i" "msg_Text m = text"
    "cq_From q \<noteq> None" "usr_ID (tapper q) = owner"
    using q by (auto simp: tap_by_def tapper_def)
  obtain d ds where load: "loadOrRestoreDraft e chat i text w = (Some d, w\<lparr>matchDrafts := ds\<rparr>)" "fits owner b d" "wf_map ds"
    using load_at_board [OF at] .
  let ?w1 = "w\<lparr>matchDrafts := ds\<rparr>"
  obtain r d' w' where out: "dispatchTap e q m d (tap_payload t) ?w1 = (r, d', w')" by (metis prod_cases3)
  have own: "d_ownerID d = owner" "abs_draft d = b" using load(2) by (simp_all add: fits_def)
  have s1: "somebody chat owner ?w1" "plain_labels e chat ?w1" using some lab by (simp_all add: somebody_def plain_labels_def)
  have p: "picks client chat i ?w1 d (r, d', w') \<and> mirrorable d' \<and> plain (d_ownerLabel d') \<and> plain (d_oppLabel d')"
    using tap_picks [where m = m and q = q and w = ?w1 and client = client, OF assms(5) t load(2)] s1 by (simp add: qm out)
  have r: "abs_draft d' = board_step (shown_page (st w) chat owner) owner t b" "d_ownerID d' = owner"
    using tap_refines [OF picking_ok [OF t], of e q m d ?w1] by (simp_all add: out qm own)
  have fit: "fits owner (board_step (shown_page (st w) chat owner) owner t b) d'"
    using p r by (simp add: fits_def)
  obtain cs where cs: "r = None" "matchDrafts w' = ds" "calls w' = calls w @ cs"
    "(\<forall>x. text_after client chat i cs x = x) \<and> abs_draft d' = abs_draft d \<or>
       (\<exists>y. view_of d' y \<and> (\<forall>x. text_after client chat i cs x = client y))"
    using p by (auto simp: picks_def)
  have end_state: "w2 = saveDraft chat i d' w'"
    using w2 load(1) own out cs(1) qm by (simp add: handleMatchInteractiveCallback_def)
  have new: "new_calls w w2 = cs" using cs(3) by (simp add: new_calls_def end_state saveDraft_def)
  have "\<exists>d. parseDraftFromHeader (text_after client chat i cs text) = Some d \<and>
      fits owner (board_step (shown_page (st w) chat owner) owner t b) d"
  proof (cases "\<exists>y. view_of d' y \<and> (\<forall>x. text_after client chat i cs x = client y)")
    case True
    then obtain y where y: "view_of d' y" "text_after client chat i cs text = client y" by blast
    show ?thesis unfolding y(2) by (rule view_restores [OF law y(1) fit])
  next
    case False
    then have same: "text_after client chat i cs text = text" "abs_draft d' = b" using cs(4) own by auto
    then have "board_step (shown_page (st w) chat owner) owner t b = b" using fit by (simp add: fits_def)
    then show ?thesis using at same(1) by (simp add: at_board_def)
  qed
  moreover have "wf_map (matchDrafts w2)" using load(3) cs(2) by (simp add: end_state saveDraft_def)
  moreover have "mget (matchDrafts w2) (draftKey chat i) = Some x \<Longrightarrow> x = d'" for x
    by (simp add: end_state saveDraft_def split: if_splits)
  ultimately show ?thesis unfolding at_board_def new using fit by blast
qed

lemma session_at_board:
  assumes "renders_spoilers client" and "session client chat i owner w text ts w' text'" and "at_board chat i w text owner b"
  shows "\<exists>b'. board_run owner b ts b' \<and> at_board chat i w' text' owner b'"
  using assms(2,3)
proof (induction rule: session.induct)
  case session_start
  then show ?case by (intro exI [of _ b] conjI board_start)
next
  case (session_tap ts w1 text1 q m t e w2)
  obtain b1 where b1: "board_run owner b ts b1" "at_board chat i w1 text1 owner b1" using session_tap.IH [OF session_tap.prems] by blast
  have "clamping (shown_page (st w1) chat owner)"
    using clamp_bounds [OF session_tap.hyps(5)] unfolding clamping_def by blast
  from board_tap [OF b1(1) this] tap_at_board [OF assms(1) b1(2) session_tap.hyps(2-7)] show ?case by blast
next
  case (session_meanwhile ts w1 text1 w2)
  obtain b1 where b1: "board_run owner b ts b1" "at_board chat i w1 text1 owner b1" using session_meanwhile.IH [OF session_meanwhile.prems] by blast
  then have "at_board chat i w2 text1 owner b1" using session_meanwhile.hyps(2,3) by (auto simp: at_board_def)
  then show ?case using b1(1) by blast
qed

lemma confirm_at_board:
  assumes at: "at_board chat i w text owner b" and q: "tap_by owner chat i text q m"
  shows "matches (st (snd (handleMatchInteractiveCallback e q (tap_payload TConfirm) w))) =
    (case (groupRepo_Get (st w) chat, b) of
       (Inr g, Scoring opp x y) \<Rightarrow> if complete owner b then matches (inserted e (g_GroupID g) owner opp x y w) else matches (st w)
     | _ \<Rightarrow> matches (st w))"
proof -
  have qm: "cq_Message q = Some m" "ch_ID (msg_Chat m) = chat" "msg_MessageID m = i" "msg_Text m = text"
    "cq_From q \<noteq> None" "usr_ID (tapper q) = owner"
    using q by (auto simp: tap_by_def tapper_def)
  obtain d ds where load: "loadOrRestoreDraft e chat i text w = (Some d, w\<lparr>matchDrafts := ds\<rparr>)" "fits owner b d" "wf_map ds"
    using load_at_board [OF at] .
  let ?w1 = "w\<lparr>matchDrafts := ds\<rparr>" and ?d = "d\<lparr>d_touchedAt := e_now e\<rparr>"
  have d: "d_ownerID ?d = owner" "abs_draft ?d = b" "draft_ok ?d" "d_ownerID d = owner"
    using load(2) by (auto simp: fits_def mirrorable_def abs_draft_def)
  obtain r d' w' where out: "dispatchTap e q m d (tap_payload TConfirm) ?w1 = (r, d', w')" by (metis prod_cases3)
  have "w' = snd (snd (tapConfirm e q m ?d ?w1))" using out unfolding dispatch_payloads(8) by (metis snd_conv)
  then have m: "matches (st w') = (case groupRepo_Get (st w) chat of Inl _ \<Rightarrow> matches (st w)
     | Inr g \<Rightarrow> if complete owner b
         then matches (inserted e (g_GroupID g) owner (d_oppID ?d) (d_p1 ?d) (d_p2 ?d) ?w1) else matches (st w))"
    using tapConfirm_effect [OF d(3), of e q m ?w1] unfolding qm d(1,2)
    by (cases "groupRepo_Get (st w) chat") simp_all
  have ins: "inserted e g o1 o2 x y ?w1 = inserted e g o1 o2 x y w" for g o1 o2 x y
    by (simp add: inserted_def admin_now_def)
  have sc: "complete owner b \<Longrightarrow> b = Scoring (d_oppID ?d) (d_p1 ?d) (d_p2 ?d)"
    using d(2) by (cases "d_isScore d") (auto simp: abs_draft_def)
  have "matches (st (snd (handleMatchInteractiveCallback e q (tap_payload TConfirm) w))) = matches (st w')"
    using load(1) out d(4) qm
    by (auto simp: handleMatchInteractiveCallback_def saveDraft_def failTapGracefully_def dropDraft_def m_act_def Let_def split: option.split)
  then show ?thesis unfolding m ins using sc by (auto split: sum.split board.split)
qed

section \<open>From the command to the match\<close>

lemma start_at_board:
  assumes law: "renders_spoilers client" and "world_ok w0" and "0 \<le> sint owner" and "usr_ID (sender m0) = owner"
    and some: "somebody (g_GroupID g) owner w0"
    and w: "w = snd (startInteractiveMatch e m0 g w0)"
    and sent: "calls w = calls w0 @ [SendKeyboardGridHTML (g_GroupID g) tp x rows]"
    and id: "e_send e (calls w0) (SendKeyboardGridHTML (g_GroupID g) tp x rows) = Inr i"
  shows "at_board (g_GroupID g) i w (client x) owner (Choosing 1)"
proof -
  let ?d = "zero_draft\<lparr>d_ownerID := owner, d_page := 1, d_p1 := -1, d_p2 := -1\<rparr>"
  let ?p = "shown_page (st w0) (g_GroupID g) owner 1"
  obtain v d1 where v: "renderOpponentPicker (st w0) (g_GroupID g) ?d = (Some v, d1)" and d1: "d1 = ?d\<lparr>d_page := ?p\<rparr>"
    using some by (auto simp: renderOpponentPicker_def Let_def somebody_def shown_page_def)
  have "?p = 1" using clamp_bounds(1,2) [OF some, of 1] by simp
  then have fit: "fits owner (Choosing 1) d1"
    using assms(3) by (simp add: d1 fits_def abs_draft_def mirrorable_def draft_ok_def zero_draft_def)
  have "\<not> d_isScore ?d" by (simp add: zero_draft_def)
  from opponents_view [OF v this] have view: "view_of d1 (fst v)" .
  have "calls w = calls w0 @ [SendKeyboardGridHTML (g_GroupID g) (g_MatchesTopicID g) (fst v) (snd v)]"
    using w v assms(4) by (simp add: startInteractiveMatch_def m_send_def case_prod_beta Let_def storeDraft_def split: sum.split)
  then have x: "x = fst v" "tp = g_MatchesTopicID g" "rows = snd v" using sent by simp_all
  have w': "w = storeDraft e (g_GroupID g) i d1 (w0\<lparr>calls := calls w\<rparr>)"
    using w v assms(4) id sent x by (simp add: startInteractiveMatch_def m_send_def case_prod_beta Let_def)
  have wf: "wf_map (mput (draftKey (g_GroupID g) i) (d1\<lparr>d_touchedAt := e_now e\<rparr>) (matchDrafts w0))"
    using assms(2) by (simp add: world_ok_def drafts_ok_def)
  have "matchDrafts w = gcDrafts (e_now e) (mput (draftKey (g_GroupID g) i) (d1\<lparr>d_touchedAt := e_now e\<rparr>) (matchDrafts w0))"
    by (subst w') (simp add: storeDraft_def)
  then have "wf_map (matchDrafts w)" "mget (matchDrafts w) (draftKey (g_GroupID g) i) = Some z \<Longrightarrow> z = d1\<lparr>d_touchedAt := e_now e\<rparr>" for z
    using gcDrafts_sub [OF wf, of "e_now e"] by fastforce+
  then show ?thesis
    using view_restores [OF law view fit] fit by (auto simp: at_board_def x)
qed

text \<open>C12. A whole interactive \<open>/match\<close>, from the command through any number of taps to Confirm: whatever
  happens to the bot between the taps (restarts, the garbage collection of its drafts, anybody
  else's updates), the owner's session follows the board machine, the draft being in memory or
  coming back from the text of the message; and Confirm registers exactly the match the boards
  have led to, the owner against the chosen opponent with the chosen scores, or nothing when
  the board is not complete. (For labels without brackets and markup, members with
  non-negative ids, and a messenger that takes the edits; the client shows spoilers as text.)\<close>

theorem interactive_session:
  assumes "renders_spoilers client" and "world_ok w0" and "0 \<le> sint owner" and "usr_ID (sender m0) = owner"
    and "somebody (g_GroupID g) owner w0"
    and "w = snd (startInteractiveMatch e0 m0 g w0)"
    and "calls w = calls w0 @ [SendKeyboardGridHTML (g_GroupID g) tp x rows]"
    and "e_send e0 (calls w0) (SendKeyboardGridHTML (g_GroupID g) tp x rows) = Inr i"
    and "session client (g_GroupID g) i owner w (client x) ts w' text'"
    and "tap_by owner (g_GroupID g) i text' q m"
  shows "\<exists>b. board_run owner (Choosing 1) ts b \<and>
    matches (st (snd (handleMatchInteractiveCallback e q ''confirm'' w'))) =
      (case (groupRepo_Get (st w') (g_GroupID g), b) of
         (Inr g', Scoring opp s1 s2) \<Rightarrow>
           if complete owner b then matches (inserted e (g_GroupID g') owner opp s1 s2 w') else matches (st w')
       | _ \<Rightarrow> matches (st w'))"
proof -
  obtain b where b: "board_run owner (Choosing 1) ts b" "at_board (g_GroupID g) i w' text' owner b"
    using session_at_board [OF assms(1,9) start_at_board [OF assms(1-8)]] by blast
  then show ?thesis using confirm_at_board [OF b(2) assms(10), of e] by auto
qed

section \<open>A concrete session\<close>

lemma board_run_snoc:
  "board_run owner b (ts @ [t]) b' \<longleftrightarrow> (\<exists>b1 clamp. board_run owner b ts b1 \<and> clamping clamp \<and> b' = board_step clamp owner t b1)"
  by (subst board_run.simps) auto

lemma board_run_Nil: "board_run owner b [] b' \<longleftrightarrow> b' = b"
  by (subst board_run.simps) auto

text \<open>A client that drops what stands in angle brackets.\<close>

fun visible :: "bool \<Rightarrow> string \<Rightarrow> string" where
  "visible inside [] = []"
| "visible True (c # s) = visible (c \<noteq> CHR ''>'') s"
| "visible False (c # s) = (if c = CHR ''<'' then visible True s else c # visible False s)"

lemma visible_renders: "renders_spoilers (visible False)"
proof -
  have app: "CHR ''<'' \<notin> set p \<Longrightarrow> visible False (p @ s) = p @ visible False s" for p s
    by (induction p) auto
  show ?thesis by (auto simp: renders_spoilers_def spoilerWrap_def app)
qed

text \<open>Without an identity service and with empty caches every label is the user name.\<close>

definition bare :: "world \<Rightarrow> bool" where
  "bare w \<longleftrightarrow> st w = st example_world \<and> nc_entries (nicks w) = []"

lemma bare_lookup:
  assumes "bare w"
  shows "lookupS21Nickname example_env p w = (([], False), w)"
proof -
  have "nickCache (st w) = []"
    using assms by (simp add: bare_def example_world_def handlers_New_def example_members_def repo_put_defs memstore_New_def)
  then show ?thesis
    using assms by (simp add: bare_def lookupS21Nickname_def lookupRemote_def withIdentity_def nick_Get_def nickCacheRepo_Get_def get_or_def
        example_env_def Let_def)
qed

lemma bare_label:
  assumes "bare w"
  shows "snd (playerLabel example_env chat p w) = w" and "plain (fst (playerLabel example_env chat p w))"
proof -
  show "snd (playerLabel example_env chat p w) = w" by (simp add: playerLabel_def bare_lookup [OF assms])
  have "plain (p_TelegramUsername x)" if "participantRepo_Get (st w) k = Inr x" for k x
    using that assms by (auto simp: bare_def participantRepo_Get_def get_or_def example_world_def handlers_New_def example_members_def
        repo_put_defs memstore_New_def participant_of_def example_user_def split: option.splits if_splits)
  then show "plain (fst (playerLabel example_env chat p w))"
    by (auto simp: playerLabel_def bare_lookup [OF assms] label_of_def Let_def split: sum.split)
qed

lemma bare_labels:
  assumes "bare w"
  shows "plain_labels example_env chat w"
proof -
  have "bare (w\<lparr>matchDrafts := ds\<rparr>)" for ds using assms by (simp add: bare_def)
  then show ?thesis unfolding plain_labels_def using bare_label by metis
qed

lemma bare_somebody:
  assumes "bare w"
  shows "somebody 7 2 w"
proof -
  have "wf_store (st w)" using assms world_ok_wf [OF example_world_ok] by (simp add: bare_def)
  from candidates_of(1) [OF this, of 7 2]
  have "3 \<in> oc_telegramID ` set (opponentCandidates (st w) 7 2) \<longleftrightarrow> mget (participants (st w)) (7, 3) \<noteq> None" by simp
  moreover have "mget (participants (st w)) (7, 3) \<noteq> None"
    using assms by (simp add: bare_def example_world_def handlers_New_def example_members_def repo_put_defs memstore_New_def
        participant_of_def example_user_def)
  ultimately show ?thesis by (auto simp: somebody_def)
qed

lemma bare_calls [simp]: "bare (w\<lparr>calls := cs\<rparr>) = bare w" "bare (w\<lparr>matchDrafts := ds\<rparr>) = bare w"
  by (simp_all add: bare_def)

lemma bare_tap:
  assumes "bare w" and "picking t"
  shows "bare (snd (snd (dispatchTap example_env q m d (tap_payload t) w)))"
proof -
  have ack: "bare (snd (snd (ack example_env q x d' w)))" for x d'
    using assms(1) by (simp add: ack_def act_text_def case_prod_beta)
  have edit: "bare (snd (snd (editAndAck example_env q m v x d' w')))" if "bare w'" for v x d' w'
    using that by (simp add: editAndAck_def act_text_def case_prod_beta Let_def)
  have page: "bare (snd (snd (showOpponents example_env q m d' w)))" for d'
    using ack edit [OF assms(1)] by (simp add: showOpponents_def split: prod.split option.split)
  have label: "bare w' \<Longrightarrow> bare (snd (playerLabel example_env c p w'))" for c p w' by (simp add: bare_label(1))
  show ?thesis
    using assms ack edit page label
    by (cases t; simp only: dispatch_payloads; simp add: tapNav_def tapOpp_def tapBack_def tapScore_def Let_def case_prod_beta
        split: option.split)
qed

lemma bare_handle:
  assumes "bare w" and "picking t"
  shows "bare (snd (handleMatchInteractiveCallback example_env q (tap_payload t) w))"
proof -
  have load: "bare (snd (loadOrRestoreDraft e c i x w))" for e c i x
    using assms(1) by (simp add: loadOrRestoreDraft_def Let_def split: option.split)
  have save: "bare w' \<Longrightarrow> bare (saveDraft c i d w')" for c i d w' by (simp add: saveDraft_def)
  have fail: "bare w' \<Longrightarrow> bare (failTapGracefully e q m c w')" for e m c w'
    by (simp add: failTapGracefully_def dropDraft_def case_prod_beta Let_def)
  show ?thesis
    using assms(1) load save fail bare_tap [OF load assms(2)]
    by (auto simp: handleMatchInteractiveCallback_def case_prod_beta Let_def split: option.split)
qed

definition started :: world where
  "started = snd (startInteractiveMatch example_env (example_message 2 ''/match'') example_group example_world)"

definition sent_text :: string where
  "sent_text = fst (the (fst (renderOpponentPicker (st example_world) 7 (zero_draft\<lparr>d_ownerID := 2, d_page := 1, d_p1 := -1, d_p2 := -1\<rparr>))))"

definition sent_rows :: "Button list list" where
  "sent_rows = snd (the (fst (renderOpponentPicker (st example_world) 7 (zero_draft\<lparr>d_ownerID := 2, d_page := 1, d_p1 := -1, d_p2 := -1\<rparr>))))"

lemma bare_example: "bare example_world"
  by (simp add: bare_def example_world_def handlers_New_def NewS21NickCache_def NewS21NickCacheWithMax_def)

lemma started_sent: "calls started = [SendKeyboardGridHTML 7 5 sent_text sent_rows]" and bare_started: "bare started"
  and wf_started: "wf_map (matchDrafts started)"
proof -
  let ?d = "zero_draft\<lparr>d_ownerID := 2, d_page := 1, d_p1 := -1, d_p2 := -1\<rparr>"
  obtain v d1 where v: "renderOpponentPicker (st example_world) 7 ?d = (Some v, d1)"
    using bare_somebody [OF bare_example] by (auto simp: renderOpponentPicker_def Let_def somebody_def)
  have c: "calls example_world = []" by (simp add: example_world_def handlers_New_def)
  have g: "g_GroupID example_group = 7" "g_MatchesTopicID example_group = 5" "usr_ID (sender (example_message 2 ''/match'')) = 2"
    by (simp_all add: example_group_def sender_def example_message_def example_user_def)
  have eq: "started = storeDraft example_env 7 100 d1 (example_world\<lparr>calls := [SendKeyboardGridHTML 7 5 (fst v) (snd v)]\<rparr>)"
    by (simp add: started_def startInteractiveMatch_def g v c m_send_def example_env_def Let_def case_prod_beta)
  show "calls started = [SendKeyboardGridHTML 7 5 sent_text sent_rows]"
    unfolding eq by (simp add: storeDraft_def sent_text_def sent_rows_def v)
  show "bare started" unfolding eq using bare_example by (simp add: storeDraft_def bare_def)
  have "matchDrafts example_world = []" by (simp add: example_world_def handlers_New_def)
  then show "wf_map (matchDrafts started)" unfolding eq by (simp add: storeDraft_def) (rule gcDrafts_sub(1), simp add: wf_map_def)
qed

text \<open>A session with a restart before every tap.\<close>

lemma example_session_step:
  assumes "session (visible False) 7 100 2 w0 x ts w text" and "bare w" and "wf_map (matchDrafts w)" and "picking t"
  shows "\<exists>w' text'. session (visible False) 7 100 2 w0 x (ts @ [t]) w' text' \<and> bare w' \<and> wf_map (matchDrafts w')"
proof -
  let ?r = "restart w"
  have r: "bare ?r" using assms(2) by (simp add: bare_def restart_def NewS21NickCache_def NewS21NickCacheWithMax_def)
  have s: "session (visible False) 7 100 2 w0 x ts ?r text"
    by (rule session_meanwhile [OF assms(1)]) (simp_all add: restart_def)
  let ?w' = "snd (handleMatchInteractiveCallback example_env (query 2 100 text []) (tap_payload t) ?r)"
  have tap: "tap_by 2 7 100 text (query 2 100 text []) (prompt 100 text)"
    by (simp add: tap_by_def query_def prompt_def example_chat_def example_user_def)
  have acc: "accepting example_env" by (simp add: accepting_def example_env_def)
  from session_tap [OF s tap assms(4) acc bare_somebody [OF r] bare_labels [OF r] refl]
  obtain text' where s2: "session (visible False) 7 100 2 w0 x (ts @ [t]) ?w' text'" by blast
  have b: "bare ?w'" by (rule bare_handle [OF r assms(4)])
  let ?w2 = "restart ?w'"
  have "bare ?w2" using b by (simp add: bare_def restart_def NewS21NickCache_def NewS21NickCacheWithMax_def)
  moreover have "session (visible False) 7 100 2 w0 x (ts @ [t]) ?w2 text'"
    by (rule session_meanwhile [OF s2]) (simp_all add: restart_def)
  moreover have "wf_map (matchDrafts ?w2)" by (simp add: restart_def)
  ultimately show ?thesis by blast
qed

theorem interactive_session_witness:
  "\<exists>w' text'. session (visible False) 7 100 2 started (visible False sent_text) [TOpp 3, TLeft 3, TRight 1] w' text' \<and>
     matches (st (snd (handleMatchInteractiveCallback example_env (query 2 100 text' []) ''confirm'' w')))
       = matches (inserted example_env 7 2 3 3 1 w')"
proof -
  let ?s = "session (visible False) 7 100 2 started (visible False sent_text)"
  have pick: "picking (TOpp 3)" "picking (TLeft 3)" "picking (TRight 1)" by simp_all
  obtain w1 x1 where 1: "?s ([] @ [TOpp 3]) w1 x1" "bare w1" "wf_map (matchDrafts w1)"
    using example_session_step [OF session_start bare_started wf_started pick(1)] by blast
  obtain w2 x2 where 2: "?s (([] @ [TOpp 3]) @ [TLeft 3]) w2 x2" "bare w2" "wf_map (matchDrafts w2)"
    using example_session_step [OF 1 pick(2)] by blast
  obtain w3 x3 where 3: "?s ((([] @ [TOpp 3]) @ [TLeft 3]) @ [TRight 1]) w3 x3" "bare w3"
    using example_session_step [OF 2 pick(3)] by blast
  have g: "g_GroupID example_group = 7" "usr_ID (sender (example_message 2 ''/match'')) = 2" "calls example_world = []"
    by (simp_all add: example_group_def sender_def example_message_def example_user_def example_world_def handlers_New_def)
  have tap: "tap_by 2 7 100 x3 (query 2 100 x3 []) (prompt 100 x3)"
    by (simp add: tap_by_def query_def prompt_def example_chat_def example_user_def)
  have sent: "calls started = calls example_world @ [SendKeyboardGridHTML 7 5 sent_text sent_rows]"
    "e_send example_env (calls example_world) (SendKeyboardGridHTML 7 5 sent_text sent_rows) = Inr 100"
    using started_sent g(3) by (simp_all add: example_env_def)
  obtain b where b: "board_run 2 (Choosing 1) ((([] @ [TOpp 3]) @ [TLeft 3]) @ [TRight 1]) b"
    "matches (st (snd (handleMatchInteractiveCallback example_env (query 2 100 x3 []) ''confirm'' w3))) =
      (case (groupRepo_Get (st w3) 7, b) of
         (Inr g', Scoring opp s1 s2) \<Rightarrow>
           if complete 2 b then matches (inserted example_env (g_GroupID g') 2 opp s1 s2 w3) else matches (st w3)
       | _ \<Rightarrow> matches (st w3))"
    using interactive_session [OF visible_renders example_world_ok, of 2 "example_message 2 ''/match''" example_group started
        example_env 5 sent_text sent_rows 100, unfolded g(1,2), OF _ _ bare_somebody [OF bare_example] started_def sent 3(1) tap] by auto
  have "b = Scoring 3 3 1" using b(1) unfolding board_run_snoc board_run_Nil by (auto simp: scoreMaxVal_def)
  moreover have "groupRepo_Get (st w3) 7 = Inr example_group"
    using 3(2) by (simp add: bare_def groupRepo_Get_def get_or_def example_world_def handlers_New_def example_members_rows)
  ultimately show ?thesis using 3(1) b(2) by (auto simp: g)
qed

end
