(* ===== verification/YdbRuns.thy ===== *)
theory YdbRuns
  imports YdbListings
begin

text \<open>
  Histories of the production store: any sequence of writes and allocations, some of which the
  database fails. The tables always hold what the in-memory store would hold after a
  subsequence of the same operations that contains every one that was reported successful.
\<close>

section \<open>Histories\<close>

datatype db_op = DbWrite time store_op | DbAllocate i64 "u64 \<Rightarrow> Match"

text \<open>A write that succeeds is recorded with the number 0.\<close>

fun ydb_op :: "'d ydb \<Rightarrow> db_op \<Rightarrow> 'd \<Rightarrow> (ydb_error + u64) \<times> 'd" where
  "ydb_op Y (DbWrite wall x) d = (let (r, d1) = ydb_do Y wall x d in (case r of None \<Rightarrow> Inr 0 | Some err \<Rightarrow> Inl err, d1))"
| "ydb_op Y (DbAllocate g build) d = ydb_AllocateAndInsertMatch Y g build d"

fun ydb_history :: "'d ydb \<Rightarrow> db_op list \<Rightarrow> 'd \<Rightarrow> (ydb_error + u64) list \<times> 'd" where
  "ydb_history Y [] d = ([], d)"
| "ydb_history Y (x # xs) d = (let (r, d1) = ydb_op Y x d; (rs, d2) = ydb_history Y xs d1 in (r # rs, d2))"

text \<open>The same operations on the in-memory store.\<close>

fun mem_op :: "db_op \<Rightarrow> memstore \<Rightarrow> u64 \<times> memstore" where
  "mem_op (DbWrite wall x) s = (0, keep_write wall x s)"
| "mem_op (DbAllocate g build) s = AllocateAndInsertMatch g (\<lambda>j. match_micros (build j)) s"

text \<open>The operations whose instants the database can hold, with rows of the group they are
  allocated for.\<close>

fun admissible :: "db_op \<Rightarrow> bool" where
  "admissible (DbWrite wall x) \<longleftrightarrow> (\<forall>t \<in> op_times wall x. stampable t)"
| "admissible (DbAllocate g build) \<longleftrightarrow>
     (\<forall>j. m_GroupID (build j) = g \<and> stampable (m_PlayedAt (build j)) \<and> stampable (m_CreatedAt (build j)))"

text \<open>What a history can have done: an operation that was reported successful has taken effect
  and returned what the in-memory store returns; one that was reported failed has taken effect
  or not.\<close>

inductive landed :: "memstore \<Rightarrow> db_op list \<Rightarrow> (ydb_error + u64) list \<Rightarrow> memstore \<Rightarrow> bool" where
  landed_none: "landed s [] [] s"
| landed_ok: "mem_op x s = (i, s1) \<Longrightarrow> landed s1 xs rs s' \<Longrightarrow> landed s (x # xs) (Inr i # rs) s'"
| landed_silently: "mem_op x s = (i, s1) \<Longrightarrow> landed s1 xs rs s' \<Longrightarrow> landed s (x # xs) (Inl err # rs) s'"
| landed_not: "landed s xs rs s' \<Longrightarrow> landed s (x # xs) (Inl err # rs) s'"

inductive_cases landed_ConsE: "landed s (x # xs) rs s'"

section \<open>One operation\<close>

lemma ydb_op_kept:
  assumes "ydb_engine Y tab" and "stored Y (tab d) s" and "admissible x" and "ydb_op Y x d = (r, d')"
    and "mem_op x s = (i, s')"
  shows "case r of Inr j \<Rightarrow> j = i \<and> stored Y (tab d') s' | Inl err \<Rightarrow> stored Y (tab d') s \<or> stored Y (tab d') s'"
proof (cases x)
  case (DbWrite wall y)
  obtain r0 d0 where run: "ydb_do Y wall y d = (r0, d0)" by fastforce
  have "\<forall>t \<in> op_times wall y. stampable t" using assms(3) DbWrite by simp
  from ydb_engine.write_kept [OF assms(1,2) this run] assms(4,5) show ?thesis
    by (auto simp: DbWrite run simp del: keep_write.simps split: option.splits)
next
  case (DbAllocate g build)
  then have "m_GroupID (build j) = g \<and> stampable (m_PlayedAt (build j)) \<and> stampable (m_CreatedAt (build j))" for j
    using assms(3) by simp
  from ydb_allocate_kept [where r = r and d' = d' and build = build, OF assms(1,2) this] assms(4,5) show ?thesis
    by (simp add: DbAllocate split: sum.splits)
qed

section \<open>Ids\<close>

text \<open>The ids the allocations of a group have returned, in order.\<close>

fun ids_of :: "i64 \<Rightarrow> db_op list \<Rightarrow> (ydb_error + u64) list \<Rightarrow> u64 list" where
  "ids_of g (DbAllocate h build # xs) (Inr i # rs) = (if h = g then i # ids_of g xs rs else ids_of g xs rs)"
| "ids_of g (x # xs) (r # rs) = ids_of g xs rs"
| "ids_of g xs rs = []"

lemma keep_write_counter [simp]: "counter (keep_write wall x s) g = counter s g"
  by (cases x) (simp_all add: cascade_def counter_def repo_put_defs undoRepo_DeleteForMatch_def confirmRepo_DeleteForMatch_def
      matchRepo_UpdateStatus_def undoRepo_Delete_def split: option.split)

lemma mem_op_counter:
  assumes "mem_op x s = (i, s')" and "unat (counter s g) + 1 < 2 ^ 64"
  shows "unat (counter s' g) \<le> unat (counter s g) + 1" and "counter s g \<le> counter s' g"
    and "x = DbAllocate g build \<Longrightarrow> i = counter s' g \<and> counter s g < i"
proof -
  have "counter s g \<noteq> - 1" using assms(2) by (auto simp: unsigned_minus_1_eq_mask mask_eq_exp_minus_1)
  then have step: "counter s g < counter s g + 1" by simp
  moreover have "unat (counter s g + 1) = unat (counter s g) + 1"
    using assms(2) by (simp add: unat_word_ariths)
  moreover have "counter s' g = (case x of DbWrite _ _ \<Rightarrow> counter s g
      | DbAllocate h b \<Rightarrow> if h = g then counter s g + 1 else counter s g)"
  proof (cases x)
    case (DbWrite wall y)
    then show ?thesis using assms(1) by (auto simp del: keep_write.simps)
  next
    case (DbAllocate h b)
    then show ?thesis using assms(1) by (auto simp: AllocateAndInsertMatch_def Let_def counter_def)
  qed
  moreover have "x = DbAllocate g build \<Longrightarrow> i = counter s g + 1"
    using assms(1) by (auto simp: AllocateAndInsertMatch_def Let_def)
  ultimately show "unat (counter s' g) \<le> unat (counter s g) + 1" "counter s g \<le> counter s' g"
    "x = DbAllocate g build \<Longrightarrow> i = counter s' g \<and> counter s g < i"
    by (auto split: db_op.splits)
qed

lemma landed_ids:
  "landed s xs rs s' \<Longrightarrow> unat (counter s g) + length xs < 2 ^ 64 \<Longrightarrow> sorted_wrt (<) (counter s g # ids_of g xs rs)"
proof (induction rule: landed.induct)
  case (landed_ok x s i s1 xs rs s')
  note c = mem_op_counter [OF landed_ok.hyps(1), of g]
  have b: "unat (counter s g) + 1 < 2 ^ 64" using landed_ok.prems by simp
  have IH: "sorted_wrt (<) (counter s1 g # ids_of g xs rs)" using landed_ok.IH landed_ok.prems c(1) [OF b] by simp
  show ?case
  proof (cases "\<exists>build. x = DbAllocate g build")
    case True
    then obtain build where x: "x = DbAllocate g build" by blast
    have "counter s g < y" if "counter s1 g < y" for y using c(3) [OF b x] that by (auto intro: less_trans)
    then show ?thesis using IH c(3) [OF b x] by (auto simp: x)
  next
    case False
    then have "ids_of g (x # xs) (Inr i # rs) = ids_of g xs rs" by (cases x) auto
    then show ?thesis using IH c(2) [OF b] by (auto intro: order.strict_trans1 [of _ "counter s1 g"])
  qed
next
  case (landed_silently x s i s1 xs rs s' err)
  note c = mem_op_counter [OF landed_silently.hyps(1), of g]
  have b: "unat (counter s g) + 1 < 2 ^ 64" using landed_silently.prems by simp
  have "sorted_wrt (<) (counter s1 g # ids_of g xs rs)" using landed_silently.IH landed_silently.prems c(1) [OF b] by simp
  then show ?case using c(2) [OF b] by (cases x) (auto intro: order.strict_trans1 [of _ "counter s1 g"])
next
  case (landed_not s xs rs s' x err)
  then show ?case by (cases x) auto
qed simp

section \<open>Properties\<close>

lemma ydb_history_landed:
  assumes "ydb_engine Y tab" and "stored Y (tab d) s" and "\<forall>x \<in> set ops. admissible x" and "ydb_history Y ops d = (rs, d')"
  shows "\<exists>s'. landed s ops rs s' \<and> stored Y (tab d') s'"
  using assms(2-4)
proof (induction ops arbitrary: d s rs)
  case Nil
  then show ?case using landed_none by auto
next
  case (Cons x xs)
  obtain r d1 rs1 where run: "ydb_op Y x d = (r, d1)" "ydb_history Y xs d1 = (rs1, d')" "rs = r # rs1"
    using Cons.prems(3) by (auto split: prod.splits)
  obtain i s1 where mem: "mem_op x s = (i, s1)" by fastforce
  have IH: "\<exists>s'. landed s0 xs rs1 s' \<and> stored Y (tab d') s'" if "stored Y (tab d1) s0" for s0
    using Cons.IH [OF that _ run(2)] Cons.prems(2) by simp
  have "case r of Inr j \<Rightarrow> j = i \<and> stored Y (tab d1) s1 | Inl err \<Rightarrow> stored Y (tab d1) s \<or> stored Y (tab d1) s1"
    using ydb_op_kept [OF assms(1) Cons.prems(1) _ run(1) mem] Cons.prems(2) by simp
  then consider (ok) "r = Inr i" "stored Y (tab d1) s1" | (silently) err where "r = Inl err" "stored Y (tab d1) s1"
    | (not) err where "r = Inl err" "stored Y (tab d1) s" by (cases r) auto
  then show ?case
  proof cases
    case ok
    then show ?thesis using IH [OF ok(2)] landed_ok [OF mem] unfolding run(3) by blast
  next
    case silently
    then show ?thesis using IH [OF silently(2)] landed_silently [OF mem] unfolding run(3) by blast
  next
    case not
    then show ?thesis using IH [OF not(2)] landed_not unfolding run(3) by blast
  qed
qed


definition two_allocations :: "db_op list" where
  "two_allocations = [DbAllocate 7 (\<lambda>j. example_row), DbWrite 0 (SetSetting ''engine'' ''elo'' 7), DbAllocate 7 (\<lambda>j. example_row)]"


end
