(* ===== verification/Spec2Isabelle.thy ===== *)
theory Spec2Isabelle
  imports Prelude GoText Models Validation StoreIface Memstore MemstoreProps Messenger MessengerMock
    Telegram Notify Identity Crypto S21 F64 Rating Elo Glicko World Players Drafts Interactive
    Matches Rankings GroupConfig Backfill Accounts Periodic Dispatch Effects Lifecycle
    Scenario Expiry Runs
    Consensus Mirror Flow Pages Standings Guards Private
    Typed Testkit Transcripts
    Yql Ydbstore YdbTables YdbProps YdbReads YdbListings
    NickLevels Leaderboard Job Session YdbRuns
begin

text \<open>
  A verification library for ttbot-core, the core of a Telegram bot that keeps the table
  tennis ladder of a campus: players register matches in a group's topic, both players (or a
  chat administrator) confirm them, matches can be undone and restored, and the bot keeps ELO
  and Glicko-2 leaderboards up to date in a second topic.

  \<^bold>\<open>How the program is put together.\<close> One Telegram update at a time enters
  \<open>Handlers.Dispatch\<close> (\<open>src/pkg/handlers/handlers.go\<close>), which routes it to a command, a
  reply, a forwarded message, a button tap or a membership event. A handler reads and writes
  rows through the store interface (\<open>src/pkg/store/store.go\<close>), talks to Telegram through the
  messenger interface (\<open>src/pkg/messenger/messenger.go\<close>), resolves players through the
  identity service behind two caches (\<open>src/pkg/identity\<close>), and after a change of the matches
  starts a detached refresh of the leaderboards (\<open>src/pkg/rating\<close>). A cron entry runs the
  periodic job. Drafts of the interactive \<open>/match\<close> flow live in memory and are mirrored in the
  text of the message they belong to.

  \<^bold>\<open>Layers and theories.\<close>
  \<^item> Go itself. \<open>Prelude\<close>: machine integers, maps as association lists whose order is the
    iteration order, \<open>sort.Slice\<close>. \<open>GoText\<close>: the parts of \<open>strings\<close>, \<open>strconv\<close> and \<open>fmt\<close> that
    the code calls, on byte strings. \<open>F64\<close>: IEEE binary64 on rationals, computable.
  \<^item> Leaf packages. \<open>Models\<close> (\<open>models.go\<close>), \<open>Validation\<close> (\<open>validation.go\<close>), \<open>Crypto\<close>
    (\<open>crypto.go\<close>), \<open>S21\<close> (\<open>client.go\<close>, \<open>mock.go\<close>, \<open>s21.go\<close>), \<open>Notify\<close> (\<open>notify.go\<close>).
  \<^item> Stores. \<open>StoreIface\<close> states the contracts of \<open>store.go\<close> as locales (\<open>repo\<close>,
    \<open>deletable_repo\<close>, \<open>match_repo\<close>); \<open>Memstore\<close> is \<open>memstore.go\<close> and interprets them for every
    repository; \<open>MemstoreProps\<close> has its invariant \<open>wf_store\<close> and what listings return.
  \<^item> The production store. \<open>Yql\<close>: the statements \<open>ydbstore.go\<close> sends, as syntax trees, the
    client as a record of functions over a database of any type, and the contract
    \<open>ydb_engine\<close> of that client, which a reference engine over tables meets. \<open>Ydbstore\<close>: every
    repository of \<open>ydbstore.go\<close>, statement by statement and scan by scan. \<open>YdbTables\<close> relates a
    table to a repository of the in-memory store (\<open>mirrors\<close>, locale \<open>ydb_table\<close>, one
    interpretation per table) and a database to a store (\<open>stored\<close>). \<open>YdbProps\<close> shows that
    writes and the allocation of ids are simulated by the in-memory store and take effect
    wholly or not at all, what a counter that cannot be read does, and that
    \<open>AwaitReady\<close> ends; \<open>YdbRuns\<close> composes them into histories: whatever the database fails, the
    tables hold what the in-memory store holds after a subsequence of the operations that
    contains every one reported successful; \<open>YdbReads\<close> and \<open>YdbListings\<close> show that the look-ups and listings of
    both stores agree, so what the handlers' theorems say of the in-memory store carries over
    to rows the production store holds.
  \<^item> Messenger. \<open>Messenger\<close> is the interface as a type of calls and a locale;
    \<open>MessengerMock\<close> (\<open>mock.go\<close>) and \<open>Telegram\<close> (\<open>telegram.go\<close>) interpret it, and so does the
    call log of the handlers' \<open>world\<close>.
  \<^item> Identity. \<open>Identity\<close> is the per-operation service (\<open>identity.go\<close>) and the bounded
    nickname cache with its LRU list (\<open>s21_nick_cache.go\<close>).
  \<^item> Ratings. \<open>Rating\<close> (\<open>rating.go\<close>, locale \<open>rating_engine\<close>), \<open>Elo\<close> (\<open>elo.go\<close>), \<open>Glicko\<close>
    (\<open>glicko2.go\<close>).
  \<^item> Handlers. \<open>World\<close>: the state \<open>world\<close> (store, nickname cache, drafts, detached refreshes,
    log of messenger calls) and the surroundings \<open>env\<close> of one update (clock, messenger
    answers, identity service, \<open>libm\<close>, account package). \<open>Players\<close> (\<open>handlers.go\<close> helpers),
    \<open>Matches\<close> (\<open>match.go\<close>, \<open>undo.go\<close>), \<open>Drafts\<close> and \<open>Interactive\<close> (\<open>match_interactive.go\<close>),
    \<open>Rankings\<close> (\<open>rankings.go\<close>), \<open>GroupConfig\<close> (\<open>group.go\<close>, \<open>refresh.go\<close>), \<open>Backfill\<close>
    (\<open>dm.go\<close>), \<open>Accounts\<close> (\<open>login.go\<close>, \<open>logout.go\<close>, \<open>whoami.go\<close>, \<open>start.go\<close>, \<open>migrate.go\<close>),
    \<open>Periodic\<close> (\<open>periodic.go\<close>), \<open>Dispatch\<close> (routing). Definitions keep the names of the Go
    functions; a handler is a function of the environment, its arguments and the world that
    returns the error result and the world after it, its messenger calls logged in order.

  \<^bold>\<open>Properties of the whole bot.\<close>
  \<^item> \<open>Effects\<close> and \<open>Lifecycle\<close> show, handler by handler, what each may change (\<open>calm\<close>, \<open>mild\<close>,
    \<open>permitted\<close>), and \<open>Runs\<close> lifts it to updates and to whole histories, an inductive relation
    over updates, periodic jobs, detached refreshes, migrations and restarts: no match is
    decided by anyone but its players and administrators, rows keep their facts, ids are not
    reused.
  \<^item> \<open>Typed\<close>: the typed \<open>/match\<close> command against a specification over the rows, on every branch.
    \<open>Consensus\<close>: what confirmation and undo do on each branch. \<open>Flow\<close>: the interactive flow
    refines an abstract board machine, tap by tap; \<open>Mirror\<close>: a draft is read back from the
    text of its message; \<open>Session\<close> puts the two together: from the command through any taps to
    Confirm, with restarts and other people's updates in between, the match registered is the one
    the boards led to (for labels without brackets and markup, \<open>plain_labels\<close>, and a client that
    shows spoilers as text, \<open>renders_spoilers\<close>).
  \<^item> \<open>Pages\<close>: the opponent list and the collection of stale drafts. \<open>Expiry\<close>: what the
    clean-ups remove; \<open>Job\<close>: the exact store after a whole periodic job, table by table (for
    dates within the range of a Go duration, \<open>times_in_range\<close>, and an account package that does
    not change the owner of an account, \<open>keeps_owner\<close>).
  \<^item> \<open>NickLevels\<close>: the cache, the rows and the identity service agree on every nickname that is
    reported. \<open>Leaderboard\<close>: which matches count, who is listed, with which counters, in which order
    and in which words. \<open>Standings\<close>: the refresh completes.
  \<^item> \<open>Guards\<close>: group rows change only for administrators, and where a handler can panic.
    \<open>Private\<close>: credentials, migration, forwarded messages. \<open>Scenario\<close> holds the concrete bots the
    examples run on.

  \<^bold>\<open>The scenario kit.\<close> \<open>Testkit\<close> is \<open>src/pkg/testkit/testkit.go\<close>: fixtures, inbound updates and
  assertions over the handlers, the in-memory store and the mocks, and the fake identity
  server. \<open>Transcripts\<close> shows that a scenario stays within the invariant and the life of a match,
  that the handlers are answered as the messenger mock answers, and what assertions and the
  fake server say.

  \<^bold>\<open>Conventions and bounds.\<close> Ids are 64-bit words and wrap; a time is an unbounded number of
  nanoseconds, a duration an \<open>int64\<close> kept in range by \<open>wrap64\<close>. Allocation of a match id
  assumes that the 64-bit counter of the group is not exhausted (\<open>room\<close>). Loops that may not
  end are partial functions or \<open>while_option\<close> with value \<open>None\<close> (the period advance, the
  bracketing and the root search of Glicko-2); all other recursion is total, and no fuel is
  used. A panic is the result \<open>HPanic\<close>, with the world as it was left.

  \<^bold>\<open>Parameters.\<close> What is not in the repository is an argument: the functions of \<open>libm\<close>
  (hypotheses: values of \<open>pow10\<close> in range, where a bound needs it), AES-GCM, the HTTP exchange
  with Telegram, the School 21 platform, the identity client, the package
  \<open>s21-account-go\<close>, whose effect on the store is a list of operations of the account
  repository, and the YDB client with the database behind it, of which only the documented
  behaviour of \<open>ydb_engine\<close> is used: upserts by primary key, transactions, 1000 rows to a
  result, timestamps of microseconds. Every hypothesis about a parameter is discharged in an example.

  \<^bold>\<open>Concurrency.\<close> The bot handles one update at a time. Detached refreshes are a queue of
  pending refreshes, each of which ends between two updates, in any order; \<open>editAndAck\<close>'s two
  goroutines run in either order (\<open>e_ackFirst\<close>). Timeouts of contexts appear as error answers
  of the calls they cut short.

  \<^bold>\<open>Not modelled.\<close> Opening and closing the database and the accessors of its
  repositories, which are plumbing; the primary keys of the tables are read off the
  statements, since the schema is kept elsewhere. Logging and \<open>perfLog\<close> are left out, as they
  change no state. In the kit, the counts of the fake server's end points are those of direct
  requests only, since the handlers reach the server through the SDK, a function here; detached
  refreshes are waited for in the order they were started.
\<close>

end
